(* ===== verification/Prelude.thy ===== *)
theory Prelude
  imports Main "HOL-Library.Word"
begin

text \<open>
  What every component shares: the rule collections of the development, decimal
  rendering of numbers (\<open>String(n)\<close>) and its inverse, character classes, and
  small facts on lists and association lists.  Strings are lists of code units
  0..255; the program's own strings are ASCII.
\<close>

named_theorems trace_simps \<open>the calls one effect makes\<close>
named_theorems emit_simps \<open>what a handler can call on any platform\<close>
named_theorems run_simps \<open>one effect of a handler executed by the interpreter\<close>
named_theorems view_simps \<open>what a namespace holds after an effect\<close>
named_theorems js_simps \<open>conversions and property access of JavaScript values\<close>

type_synonym byte = "8 word"

section \<open>Decimal text\<close>

definition digit_char :: "nat \<Rightarrow> char" where
  "digit_char d = char_of (48 + d)"

definition is_digit :: "char \<Rightarrow> bool" where
  "is_digit c \<longleftrightarrow> 48 \<le> (of_char c :: nat) \<and> (of_char c :: nat) \<le> 57"

definition digit_val :: "char \<Rightarrow> nat" where
  "digit_val c = of_char c - 48"

fun str_of_nat :: "nat \<Rightarrow> string" where
  "str_of_nat n = (if n < 10 then [digit_char n] else str_of_nat (n div 10) @ [digit_char (n mod 10)])"

declare str_of_nat.simps [simp del]

definition str_of_int :: "int \<Rightarrow> string" where
  "str_of_int i = (if i < 0 then CHR ''-'' # str_of_nat (nat (- i)) else str_of_nat (nat i))"

definition nat_of_digits :: "string \<Rightarrow> nat" where
  "nat_of_digits s = foldl (\<lambda>a c. 10 * a + digit_val c) 0 s"

lemma of_char_digit_char: "d < 10 \<Longrightarrow> of_char (digit_char d) = (48 + d :: nat)"
  by (simp add: digit_char_def)

lemma is_digit_digit_char [simp]: "d < 10 \<Longrightarrow> is_digit (digit_char d)"
  by (simp add: is_digit_def of_char_digit_char)

lemma digit_val_digit_char [simp]: "d < 10 \<Longrightarrow> digit_val (digit_char d) = d"
  by (simp add: digit_val_def of_char_digit_char)

lemma str_of_nat_digits: "list_all is_digit (str_of_nat n)"
proof (induction n rule: str_of_nat.induct)
  case (1 n)
  show ?case
    using 1 by (cases "n < 10") (simp_all add: str_of_nat.simps [of n])
qed

lemma str_of_nat_nonempty [simp]: "str_of_nat n \<noteq> []"
  by (subst str_of_nat.simps) simp

lemma nat_of_digits_snoc: "nat_of_digits (s @ [c]) = 10 * nat_of_digits s + digit_val c"
  by (simp add: nat_of_digits_def)

lemma nat_of_digits_str_of_nat [simp]: "nat_of_digits (str_of_nat n) = n"
proof (induction n rule: str_of_nat.induct)
  case (1 n)
  show ?case
  proof (cases "n < 10")
    case True
    then show ?thesis by (simp add: str_of_nat.simps [of n] nat_of_digits_def)
  next
    case False
    then have "nat_of_digits (str_of_nat n) = 10 * nat_of_digits (str_of_nat (n div 10)) + n mod 10"
      by (subst str_of_nat.simps) (simp add: nat_of_digits_snoc)
    with False 1 show ?thesis by simp
  qed
qed

lemma str_of_nat_inject [simp]: "str_of_nat m = str_of_nat n \<longleftrightarrow> m = n"
  by (metis nat_of_digits_str_of_nat)

lemma str_of_nat_no_leading_zero: "0 < n \<Longrightarrow> hd (str_of_nat n) \<noteq> CHR ''0''"
proof (induction n rule: str_of_nat.induct)
  case (1 n)
  show ?case
  proof (cases "n < 10")
    case True
    have "of_char (digit_char n) \<noteq> (of_char (CHR ''0'') :: nat)"
      using True 1 by (simp add: of_char_digit_char)
    with True show ?thesis by (auto simp: str_of_nat.simps [of n])
  next
    case False
    with 1 show ?thesis by (simp add: str_of_nat.simps [of n] hd_append)
  qed
qed

lemma str_of_nat_0 [simp]: "str_of_nat 0 = ''0''"
  by (simp add: str_of_nat.simps [of 0] digit_char_def char_of_eq_iff)

lemma is_digit_minus [simp]: "\<not> is_digit (CHR ''-'')"
  by (simp add: is_digit_def)

lemma hd_str_of_nat_digit: "is_digit (hd (str_of_nat n))"
  using str_of_nat_digits [of n] str_of_nat_nonempty [of n]
  by (metis hd_in_set list_all_iff)

lemma str_of_int_inject [simp]: "str_of_int i = str_of_int j \<longleftrightarrow> i = j"
proof
  assume eq: "str_of_int i = str_of_int j"
  have *: "str_of_nat m \<noteq> CHR ''-'' # s" for m s
    using hd_str_of_nat_digit [of m] by auto
  show "i = j"
    using eq * [of "nat i"] * [of "nat j"] not_sym [OF *]
    by (auto simp: str_of_int_def split: if_splits)
qed simp

lemma str_of_int_nonempty [simp]: "str_of_int i \<noteq> []"
  by (simp add: str_of_int_def)

lemma str_of_nat_snoc: "0 < n \<Longrightarrow> d < 10 \<Longrightarrow> str_of_nat (10 * n + d) = str_of_nat n @ [digit_char d]"
  by (subst str_of_nat.simps) simp

lemma digit_val_less [simp]: "is_digit c \<Longrightarrow> digit_val c < 10"
  unfolding is_digit_def digit_val_def by linarith

lemma digit_char_val [simp]: "is_digit c \<Longrightarrow> digit_char (digit_val c) = c"
  by (simp add: is_digit_def digit_val_def digit_char_def char_of_eq_iff)

lemma digit_val_pos: "is_digit c \<Longrightarrow> c \<noteq> CHR ''0'' \<Longrightarrow> 0 < digit_val c"
proof (rule ccontr)
  assume "is_digit c" and n: "c \<noteq> CHR ''0''" and "\<not> 0 < digit_val c"
  then have "(of_char c :: nat) = of_char (CHR ''0'')"
    by (simp add: is_digit_def digit_val_def)
  with n show False by (simp only: of_char_eq_iff)
qed

lemma digits_canonical:
  "list_all is_digit s \<Longrightarrow> s \<noteq> [] \<Longrightarrow> hd s \<noteq> CHR ''0'' \<Longrightarrow>
     0 < nat_of_digits s \<and> str_of_nat (nat_of_digits s) = s"
proof (induction s rule: rev_induct)
  case Nil
  then show ?case by simp
next
  case (snoc c s)
  show ?case
  proof (cases "s = []")
    case True
    have "str_of_nat (digit_val c) = [c]"
      using snoc.prems by (subst str_of_nat.simps) simp
    with True snoc.prems show ?thesis
      by (simp add: nat_of_digits_def digit_val_pos)
  next
    case False
    with snoc show ?thesis
      by (simp add: nat_of_digits_snoc str_of_nat_snoc)
  qed
qed

lemma nat_of_digits_inject:
  assumes "list_all is_digit s" "s \<noteq> []" "s = ''0'' \<or> hd s \<noteq> CHR ''0''"
    and "list_all is_digit t" "t \<noteq> []" "t = ''0'' \<or> hd t \<noteq> CHR ''0''"
    and eq: "nat_of_digits s = nat_of_digits t"
  shows "s = t"
proof -
  have "str_of_nat (nat_of_digits u) = u"
    if "list_all is_digit u" "u \<noteq> []" "u = ''0'' \<or> hd u \<noteq> CHR ''0''" for u
  proof (cases "hd u = CHR ''0''")
    case True
    then show ?thesis using that by (auto simp: nat_of_digits_def digit_val_def)
  next
    case False
    then show ?thesis using that digits_canonical by blast
  qed
  then show ?thesis using assms by metis
qed

section \<open>Hexadecimal digits\<close>

definition hex_digit :: "nat \<Rightarrow> char" where
  "hex_digit d = (if d < 10 then char_of (48 + d) else char_of (87 + d))"

definition hex_val :: "char \<Rightarrow> nat option" where
  "hex_val c =
     (let n = (of_char c :: nat)
      in if 48 \<le> n \<and> n \<le> 57 then Some (n - 48)
         else if 97 \<le> n \<and> n \<le> 102 then Some (n - 87)
         else if 65 \<le> n \<and> n \<le> 70 then Some (n - 55)
         else None)"

lemma hex_val_hex_digit [simp]: "d < 16 \<Longrightarrow> hex_val (hex_digit d) = Some d"
  by (auto simp: hex_val_def hex_digit_def Let_def)

lemma of_char_hex_digit: "d < 16 \<Longrightarrow> of_char (hex_digit d) = (if d < 10 then 48 + d else 87 + d :: nat)"
  by (simp add: hex_digit_def)

section \<open>Character classes\<close>

definition is_ws :: "char \<Rightarrow> bool" where
  "is_ws c \<longleftrightarrow> of_char c \<in> {9, 10, 11, 12, 13, 32, 160 :: nat}"

definition is_hex_char :: "char \<Rightarrow> bool" where
  "is_hex_char c \<longleftrightarrow>
     (let n = (of_char c :: nat) in (48 \<le> n \<and> n \<le> 57) \<or> (97 \<le> n \<and> n \<le> 102) \<or> (65 \<le> n \<and> n \<le> 70))"

definition lower_char :: "char \<Rightarrow> char" where
  "lower_char c =
     (let n = (of_char c :: nat)
      in if (65 \<le> n \<and> n \<le> 90) \<or> (192 \<le> n \<and> n \<le> 222 \<and> n \<noteq> 215) then char_of (n + 32) else c)"

definition lower :: "string \<Rightarrow> string" where
  "lower s = map lower_char s"

lemma lower_char_idem [simp]: "lower_char (lower_char c) = lower_char c"
proof -
  have "(of_char c :: nat) < 256" by (rule nat_of_char_less_256)
  then show ?thesis by (auto simp: lower_char_def Let_def)
qed

lemma lower_idem [simp]: "lower (lower s) = lower s"
  by (simp add: lower_def)

lemma length_lower [simp]: "length (lower s) = length s"
  by (simp add: lower_def)

lemma lower_append: "lower (s @ t) = lower s @ lower t"
  by (simp add: lower_def)

lemma is_hex_char_lower [simp]: "is_hex_char (lower_char c) \<longleftrightarrow> is_hex_char c"
proof -
  have "(of_char c :: nat) < 256" by (rule nat_of_char_less_256)
  then show ?thesis by (auto simp: is_hex_char_def lower_char_def Let_def)
qed

lemma is_digit_hex: "is_digit c \<Longrightarrow> is_hex_char c"
  by (simp add: is_digit_def is_hex_char_def Let_def)

section \<open>Lists\<close>

lemma takeWhile_append_stop:
  "list_all P xs \<Longrightarrow> (ys = [] \<or> \<not> P (hd ys)) \<Longrightarrow> takeWhile P (xs @ ys) = xs"
  by (induction xs) (cases ys; auto)+

lemma dropWhile_append_stop:
  "list_all P xs \<Longrightarrow> (ys = [] \<or> \<not> P (hd ys)) \<Longrightarrow> dropWhile P (xs @ ys) = ys"
  by (induction xs) (cases ys; auto)+

lemma find_Some_mem: "List.find P xs = Some x \<Longrightarrow> x \<in> set xs \<and> P x"
  by (induction xs) (auto split: if_splits)

lemma find_None_all: "List.find P xs = None \<longleftrightarrow> (\<forall>x\<in>set xs. \<not> P x)"
  by (induction xs) auto

lemma list_all_replicate [simp]: "list_all P (replicate n x) \<longleftrightarrow> n = 0 \<or> P x"
  by (induction n) auto

lemma map_of_filter_key: "map_of (filter (\<lambda>(k, v). k \<noteq> a) kvs) k = (if k = a then None else map_of kvs k)"
  by (induction kvs) auto

end
