(* ===== verification/JsValue.thy ===== *)
theory JsValue
  imports Prelude
begin

text \<open>
  The JavaScript values the workers compute with and the operators the source applies to
  them: truthiness, property access, \<open>Number(x)\<close>, \<open>String(x)\<close> and template
  literals, \<open>x || d\<close>, relational comparison with NaN, the regular expressions of the
  request checks, and \<open>TextEncoder\<close>.

  A value is \<open>json option\<close>, \<open>None\<close> being \<open>undefined\<close>.  Numbers are the integers and
  NaN (\<open>int option\<close>): every number the workers compute is an integer below \<open>2 ^ 53\<close>;
  fractions, infinities and the rounding of larger values are outside the model.
  Objects are association lists in JavaScript's property order.
\<close>

datatype json =
    JNull
  | JBool bool
  | JNum int
  | JStr string
  | JArr "json list"
  | JObj "(string \<times> json) list"

type_synonym jsval = "json option"
type_synonym number = "int option"

datatype js_error =
    TypeError
  | SyntaxError
  | UserError string
  | ServiceError string

text \<open>\<open>e.message\<close>: the engine's own texts are named by the error's class only.\<close>

fun error_message :: "js_error \<Rightarrow> string" where
  "error_message TypeError = ''TypeError''"
| "error_message SyntaxError = ''SyntaxError''"
| "error_message (UserError m) = m"
| "error_message (ServiceError m) = m"

section \<open>Truthiness, defaults, property access\<close>

fun truthy :: "jsval \<Rightarrow> bool" where
  "truthy None = False"
| "truthy (Some JNull) = False"
| "truthy (Some (JBool b)) = b"
| "truthy (Some (JNum n)) = (n \<noteq> 0)"
| "truthy (Some (JStr s)) = (s \<noteq> [])"
| "truthy (Some (JArr xs)) = True"
| "truthy (Some (JObj kvs)) = True"

definition or_val :: "jsval \<Rightarrow> json \<Rightarrow> json" where
  "or_val v d = (case v of Some x \<Rightarrow> if truthy v then x else d | None \<Rightarrow> d)"

definition nullish :: "jsval \<Rightarrow> bool" where
  "nullish v \<longleftrightarrow> v = None \<or> v = Some JNull"

definition typeof_object :: "jsval \<Rightarrow> bool" where
  "typeof_object v = (case v of Some JNull \<Rightarrow> True | Some (JArr _) \<Rightarrow> True | Some (JObj _) \<Rightarrow> True | _ \<Rightarrow> False)"

fun js_prop :: "json \<Rightarrow> string \<Rightarrow> jsval" where
  "js_prop (JObj kvs) k = map_of kvs k"
| "js_prop (JArr xs) k = (if k = ''length'' then Some (JNum (int (length xs))) else None)"
| "js_prop (JStr s) k = (if k = ''length'' then Some (JNum (int (length s))) else None)"
| "js_prop _ k = None"

text \<open>\<open>v.k\<close>: reading a property of \<open>undefined\<close> or \<open>null\<close> throws.\<close>

definition get_prop :: "jsval \<Rightarrow> string \<Rightarrow> js_error + jsval" where
  "get_prop v k = (case v of None \<Rightarrow> Inl TypeError | Some JNull \<Rightarrow> Inl TypeError | Some j \<Rightarrow> Inr (js_prop j k))"

lemma get_prop_simps [simp]:
  "get_prop None k = Inl TypeError" "get_prop (Some JNull) k = Inl TypeError"
  "get_prop (Some (JArr xs)) k = Inr (js_prop (JArr xs) k)"
  "get_prop (Some (JObj kvs)) k = Inr (js_prop (JObj kvs) k)"
  "get_prop (Some (JStr t)) k = Inr (js_prop (JStr t) k)"
  by (simp_all add: get_prop_def)

definition array_index :: "string \<Rightarrow> nat option" where
  "array_index k =
     (if list_all is_digit k \<and> k \<noteq> [] \<and> (k = ''0'' \<or> hd k \<noteq> CHR ''0'') \<and> nat_of_digits k < 2 ^ 32 - 1
      then Some (nat_of_digits k) else None)"

lemma array_index_name [simp]: "\<not> is_digit c \<Longrightarrow> array_index (c # cs) = None"
  by (simp add: array_index_def)

text \<open>
  Storing a property keeps the place of an existing key; a new array-index key goes
  among the array-index keys in ascending order, any other new key to the end.
\<close>

definition obj_insert :: "string \<Rightarrow> json \<Rightarrow> (string \<times> json) list \<Rightarrow> (string \<times> json) list" where
  "obj_insert k v kvs =
     (if k \<in> fst ` set kvs then map (\<lambda>(k', v'). if k' = k then (k', v) else (k', v')) kvs
      else case array_index k of
             None \<Rightarrow> kvs @ [(k, v)]
           | Some i \<Rightarrow>
               (let before = (\<lambda>(k', v'). case array_index k' of Some j \<Rightarrow> j < i | None \<Rightarrow> False)
                in takeWhile before kvs @ (k, v) # dropWhile before kvs))"

definition obj_of_pairs :: "(string \<times> json) list \<Rightarrow> (string \<times> json) list" where
  "obj_of_pairs kvs = foldl (\<lambda>obj (k, v). obj_insert k v obj) [] kvs"

fun set_prop :: "string \<Rightarrow> json \<Rightarrow> json \<Rightarrow> js_error + json" where
  "set_prop k v (JObj kvs) = Inr (JObj (obj_insert k v kvs))"
| "set_prop k v (JArr xs) = Inr (JArr xs)"
| "set_prop k v _ = Inl TypeError"

text \<open>\<open>const { k, ...rest } = v\<close>.\<close>

fun rest_without :: "string \<Rightarrow> json \<Rightarrow> json" where
  "rest_without k (JObj kvs) = JObj (filter (\<lambda>(k', v). k' \<noteq> k) kvs)"
| "rest_without k v = JObj []"

lemma map_of_replace:
  "map_of (map (\<lambda>(k', v'). if k' = k then (k', v) else (k', v')) kvs) a =
     (if a = k \<and> k \<in> fst ` set kvs then Some v else map_of kvs a)"
proof (induction kvs)
  case Nil
  then show ?case by simp
next
  case (Cons p kvs)
  obtain k' v' where p: "p = (k', v')" by fastforce
  show ?case using Cons.IH by (cases "k' = k"; cases "a = k'") (simp_all add: p)
qed

lemma map_of_split_insert:
  assumes "k \<notin> fst ` set (xs @ ys)"
  shows "map_of (xs @ (k, v) # ys) a = (if a = k then Some v else map_of (xs @ ys) a)"
proof -
  have "k \<notin> fst ` set xs" using assms by auto
  then have "map_of xs k = None" by (simp add: map_of_eq_None_iff)
  then show ?thesis by (auto simp: map_add_def split: option.splits)
qed

lemma map_of_obj_insert [simp, js_simps]: "map_of (obj_insert k v kvs) a = (if a = k then Some v else map_of kvs a)"
proof (cases "k \<in> fst ` set kvs")
  case True
  then show ?thesis by (simp add: obj_insert_def map_of_replace)
next
  case False
  show ?thesis
  proof (cases "array_index k")
    case None
    with False map_of_split_insert [of k kvs "[]" v a] show ?thesis
      by (simp add: obj_insert_def)
  next
    case (Some i)
    let ?b = "\<lambda>(k', v'). case array_index k' of Some j \<Rightarrow> j < i | None \<Rightarrow> False"
    have "k \<notin> fst ` set (takeWhile ?b kvs @ dropWhile ?b kvs)" using False by simp
    from map_of_split_insert [OF this, of v a] show ?thesis
      using False Some by (simp add: obj_insert_def Let_def)
  qed
qed

lemma keys_obj_insert [simp]: "fst ` set (obj_insert k v kvs) = insert k (fst ` set kvs)"
proof -
  have "dom (map_of (obj_insert k v kvs)) = insert k (dom (map_of kvs))"
    by (auto simp: dom_def split: if_splits)
  then show ?thesis by (simp add: dom_map_of_conv_image_fst)
qed

lemma obj_insert_nonempty [simp]: "obj_insert k v kvs \<noteq> []"
  by (metis empty_iff image_empty insert_not_empty keys_obj_insert set_empty)

lemma prop_rest_without [simp, js_simps]:
  "js_prop (rest_without k (JObj kvs)) a = (if a = k then None else map_of kvs a)"
  by (simp add: map_of_filter_key)

section \<open>Conversions\<close>

definition trim :: "string \<Rightarrow> string" where
  "trim s = rev (dropWhile is_ws (rev (dropWhile is_ws s)))"

text \<open>
  \<open>Number(s)\<close> on decimal integer literals with optional sign and surrounding white space;
  every other text is NaN here (a fraction, exponent or radix prefix is outside the model).
\<close>

definition number_of_string :: "string \<Rightarrow> number" where
  "number_of_string s =
     (case trim s of
        [] \<Rightarrow> Some 0
      | c # cs \<Rightarrow>
          if c = CHR ''-'' then (if cs \<noteq> [] \<and> list_all is_digit cs then Some (- int (nat_of_digits cs)) else None)
          else if c = CHR ''+'' then (if cs \<noteq> [] \<and> list_all is_digit cs then Some (int (nat_of_digits cs)) else None)
          else if list_all is_digit (c # cs) then Some (int (nat_of_digits (c # cs))) else None)"

definition str_of_number :: "number \<Rightarrow> string" where
  "str_of_number n = (case n of None \<Rightarrow> ''NaN'' | Some i \<Rightarrow> str_of_int i)"

fun join :: "string \<Rightarrow> string list \<Rightarrow> string" where
  "join sep [] = []"
| "join sep [x] = x"
| "join sep (x # xs) = x @ sep @ join sep xs"

fun js_string_json :: "json \<Rightarrow> string" where
  "js_string_json JNull = ''null''"
| "js_string_json (JBool b) = (if b then ''true'' else ''false'')"
| "js_string_json (JNum n) = str_of_int n"
| "js_string_json (JStr s) = s"
| "js_string_json (JArr xs) = join '','' (map (\<lambda>x. if x = JNull then [] else js_string_json x) xs)"
| "js_string_json (JObj kvs) = ''[object Object]''"

definition js_string :: "jsval \<Rightarrow> string" where
  "js_string v = (case v of None \<Rightarrow> ''undefined'' | Some j \<Rightarrow> js_string_json j)"

fun js_number :: "jsval \<Rightarrow> number" where
  "js_number None = None"
| "js_number (Some JNull) = Some 0"
| "js_number (Some (JBool b)) = Some (if b then 1 else 0)"
| "js_number (Some (JNum n)) = Some n"
| "js_number (Some (JStr s)) = number_of_string s"
| "js_number (Some (JArr xs)) = number_of_string (js_string_json (JArr xs))"
| "js_number (Some (JObj kvs)) = None"

definition num_gt :: "number \<Rightarrow> number \<Rightarrow> bool" where
  "num_gt a b = (case (a, b) of (Some x, Some y) \<Rightarrow> y < x | _ \<Rightarrow> False)"

definition num_ge :: "number \<Rightarrow> number \<Rightarrow> bool" where
  "num_ge a b = (case (a, b) of (Some x, Some y) \<Rightarrow> y \<le> x | _ \<Rightarrow> False)"

lemma num_gt_Some [simp, js_simps]: "num_gt (Some x) (Some y) \<longleftrightarrow> y < x"
  and num_ge_Some [simp, js_simps]: "num_ge (Some x) (Some y) \<longleftrightarrow> y \<le> x"
  and num_ge_None [simp, js_simps]: "\<not> num_ge a None" "\<not> num_ge None b"
  and num_gt_None [simp, js_simps]: "\<not> num_gt a None" "\<not> num_gt None b"
  by (simp_all add: num_gt_def num_ge_def split: option.splits)

lemma is_ws_not_digit: "is_digit c \<Longrightarrow> \<not> is_ws c"
  by (auto simp: is_digit_def is_ws_def)

lemma trim_no_ws:
  assumes "s \<noteq> []" and "\<not> is_ws (hd s)" and "\<not> is_ws (last s)"
  shows "trim s = s"
proof -
  have 1: "dropWhile is_ws s = s" using assms by (cases s) auto
  have "s = butlast s @ [last s]" using assms by simp
  then have "rev s = last s # rev (butlast s)" by (metis rev_eq_Cons_iff rev_rev_ident)
  then have "dropWhile is_ws (rev s) = rev s" using assms(3) by (simp only: dropWhile.simps if_False)
  with 1 show ?thesis by (simp add: trim_def)
qed

lemma number_of_string_digits:
  assumes "s \<noteq> []" and "list_all is_digit s"
  shows "number_of_string s = Some (int (nat_of_digits s))"
proof -
  have d: "is_digit (hd s)" "is_digit (last s)"
    using assms by (auto simp: list_all_iff)
  then have t: "trim s = s"
    using assms(1) by (auto intro!: trim_no_ws dest: is_ws_not_digit)
  obtain c cs where s: "s = c # cs" using assms(1) by (cases s) auto
  have "c \<noteq> CHR ''-''" and "c \<noteq> CHR ''+''"
    using d(1) s by (auto simp: is_digit_def)
  then show ?thesis using t s assms(2) by (simp add: number_of_string_def)
qed

lemma number_of_string_str_of_nat: "number_of_string (str_of_nat n) = Some (int n)"
  by (simp add: number_of_string_digits str_of_nat_digits)

lemma number_of_string_str_of_int [simp, js_simps]: "number_of_string (str_of_int i) = Some i"
proof (cases "i < 0")
  case True
  let ?s = "str_of_nat (nat (- i))"
  have "is_digit (last ?s)"
    using str_of_nat_digits [of "nat (- i)"] by (auto simp: list_all_iff)
  then have "trim (CHR ''-'' # ?s) = CHR ''-'' # ?s"
    by (intro trim_no_ws) (auto dest: is_ws_not_digit simp: is_ws_def)
  with True show ?thesis
    by (simp add: str_of_int_def number_of_string_def str_of_nat_digits)
next
  case False
  then show ?thesis by (simp add: str_of_int_def number_of_string_str_of_nat)
qed

lemma number_of_string_0 [simp, js_simps]: "number_of_string ''0'' = Some 0"
  using number_of_string_str_of_nat [of 0] by simp

lemma number_of_str_of_number [simp]: "number_of_string (str_of_number (Some i)) = Some i"
  by (simp add: str_of_number_def)

lemma str_of_number_nonempty [simp]: "str_of_number n \<noteq> []"
  by (simp add: str_of_number_def split: option.splits)

section \<open>The regular expressions of the request checks\<close>

definition hex_re :: "nat \<Rightarrow> nat \<Rightarrow> string \<Rightarrow> bool" where
  "hex_re lo hi s \<longleftrightarrow> lo \<le> length s \<and> length s \<le> hi \<and> list_all is_hex_char s"

definition digits_re :: "string \<Rightarrow> bool" where
  "digits_re s \<longleftrightarrow> s \<noteq> [] \<and> list_all is_digit s"

definition http_url_re :: "string \<Rightarrow> bool" where
  "http_url_re s \<longleftrightarrow>
     (let t = lower s
      in (take 7 t = ''http://'' \<and> drop 7 t \<noteq> [] \<and> list_all (\<lambda>c. \<not> is_ws c) (drop 7 s)) \<or>
         (take 8 t = ''https://'' \<and> drop 8 t \<noteq> [] \<and> list_all (\<lambda>c. \<not> is_ws c) (drop 8 s)))"

definition not_newline :: "char \<Rightarrow> bool" where
  "not_newline c \<longleftrightarrow> (of_char c :: nat) \<noteq> 10 \<and> (of_char c :: nat) \<noteq> 13"

text \<open>
  \<open>/^Bearer\s+(.+)$/i\<close>: the group is what follows the white space; when only white space
  follows, the match backs up and gives the group its last character.
\<close>

definition bearer_match :: "string \<Rightarrow> string option" where
  "bearer_match h =
     (if lower (take 6 h) = ''bearer'' \<and> drop 6 h \<noteq> [] \<and> is_ws (hd (drop 6 h)) then
        (let ws = takeWhile is_ws (drop 6 h); g = dropWhile is_ws (drop 6 h)
         in if g \<noteq> [] then (if list_all not_newline g then Some g else None)
            else if 2 \<le> length ws \<and> not_newline (last ws) then Some [last ws]
            else None)
      else None)"

text \<open>\<open>!v || typeof v !== "string" || !re.test(v)\<close>, and the same without the \<open>typeof\<close>.\<close>

definition str_test :: "(string \<Rightarrow> bool) \<Rightarrow> jsval \<Rightarrow> string option" where
  "str_test re v = (case v of Some (JStr s) \<Rightarrow> if s \<noteq> [] \<and> re s then Some s else None | _ \<Rightarrow> None)"

definition coerce_test :: "(string \<Rightarrow> bool) \<Rightarrow> jsval \<Rightarrow> bool" where
  "coerce_test re v \<longleftrightarrow> truthy v \<and> re (js_string v)"

lemma str_test_Some: "str_test re v = Some s \<longleftrightarrow> v = Some (JStr s) \<and> s \<noteq> [] \<and> re s"
  by (auto simp: str_test_def split: option.splits json.splits if_splits)

lemma str_test_JStr [simp]: "str_test re (Some (JStr s)) = (if s \<noteq> [] \<and> re s then Some s else None)"
  by (simp add: str_test_def)

lemma hex_re_lower [simp]: "hex_re lo hi (lower s) \<longleftrightarrow> hex_re lo hi s"
  by (simp add: hex_re_def lower_def list_all_iff)

section \<open>TextEncoder\<close>

definition utf8_char :: "char \<Rightarrow> byte list" where
  "utf8_char c =
     (let n = (of_char c :: nat)
      in if n < 128 then [of_nat n] else [of_nat (192 + n div 64), of_nat (128 + n mod 64)])"

definition utf8 :: "string \<Rightarrow> byte list" where
  "utf8 s = concat (map utf8_char s)"

lemma utf8_simps [simp]: "utf8 [] = []" "utf8 (c # s) = utf8_char c @ utf8 s"
  by (simp_all add: utf8_def)

lemma utf8_append: "utf8 (s @ t) = utf8 s @ utf8 t"
  by (simp add: utf8_def)

lemma utf8_char_decode:
  "utf8_char c @ xs = utf8_char d @ ys \<Longrightarrow> c = d \<and> xs = ys"
proof -
  assume eq: "utf8_char c @ xs = utf8_char d @ ys"
  have bc: "(of_char c :: nat) < 256" and bd: "(of_char d :: nat) < 256"
    by (rule nat_of_char_less_256)+
  have un: "unat (of_nat k :: byte) = k" if "k < 256" for k
    using that by (simp add: unat_of_nat)
  have inj: "(of_nat j :: byte) = of_nat k \<Longrightarrow> j < 256 \<Longrightarrow> k < 256 \<Longrightarrow> j = k" for j k
    by (metis un)
  let ?m = "of_char c :: nat" and ?n = "of_char d :: nat"
  have m2: "192 + ?m div 64 < 256" "128 + ?m mod 64 < 256"
    and n2: "192 + ?n div 64 < 256" "128 + ?n mod 64 < 256"
    using bc bd by linarith+
  consider "?m < 128" "?n < 128" | "?m < 128" "\<not> ?n < 128" | "\<not> ?m < 128" "?n < 128"
    | "\<not> ?m < 128" "\<not> ?n < 128" by blast
  then show ?thesis
  proof cases
    case 1
    then have "(of_nat ?m :: byte) = of_nat ?n" "xs = ys"
      using eq by (simp_all only: utf8_char_def Let_def if_True append_Cons append_Nil list.inject)
    then have "?m = ?n" using inj bc bd by blast
    with \<open>xs = ys\<close> show ?thesis by simp
  next
    case 2
    then have "(of_nat ?m :: byte) = of_nat (192 + ?n div 64)"
      using eq by (simp only: utf8_char_def Let_def if_True if_False append_Cons append_Nil list.inject)
    then have "?m = 192 + ?n div 64" by (rule inj) (use bc n2 in auto)
    then show ?thesis using 2 by simp
  next
    case 3
    then have "(of_nat (192 + ?m div 64) :: byte) = of_nat ?n"
      using eq by (simp only: utf8_char_def Let_def if_True if_False append_Cons append_Nil list.inject)
    then have "192 + ?m div 64 = ?n" by (rule inj) (use bd m2 in auto)
    then show ?thesis using 3 by simp
  next
    case 4
    then have a: "(of_nat (192 + ?m div 64) :: byte) = of_nat (192 + ?n div 64)"
      and b: "(of_nat (128 + ?m mod 64) :: byte) = of_nat (128 + ?n mod 64)" and c: "xs = ys"
      using eq by (simp_all only: utf8_char_def Let_def if_False append_Cons append_Nil list.inject)
    have "?m div 64 = ?n div 64" using inj [OF a m2(1) n2(1)] by simp
    moreover have "?m mod 64 = ?n mod 64" using inj [OF b m2(2) n2(2)] by simp
    ultimately have "?m = ?n" by (metis div_mult_mod_eq)
    then show ?thesis using c by simp
  qed
qed

lemma utf8_char_nonempty [simp]: "utf8_char c \<noteq> []"
  by (simp add: utf8_char_def Let_def)

lemma utf8_inject [simp]: "utf8 s = utf8 t \<longleftrightarrow> s = t"
proof
  show "utf8 s = utf8 t \<Longrightarrow> s = t"
  proof (induction s arbitrary: t)
    case Nil
    then show ?case by (cases t) auto
  next
    case (Cons c s)
    then obtain d t' where t: "t = d # t'" by (cases t) auto
    with Cons.prems have "c = d \<and> utf8 s = utf8 t'" by (auto dest: utf8_char_decode)
    with Cons.IH t show ?case by simp
  qed
qed simp

lemma length_utf8_ge: "length s \<le> length (utf8 s)"
  by (induction s) (auto simp: utf8_char_def Let_def)

end
