(* ===== verification/JsonText.thy ===== *)
theory JsonText
  imports JsValue
begin

text \<open>
  \<open>JSON.stringify\<close> and \<open>JSON.parse\<close> on the modelled values.  The key-value
  namespaces hold text, and signatures cover text, so both directions are written out.
  The parser is recursive descent with fuel; \<open>json_parse\<close> gives it twice the length of
  the input, which is proved to be enough.  The round trip holds for every value whose
  objects are in JavaScript's property order (\<open>wf_json\<close>), and the parser returns only
  such values.  A number with a fraction or an exponent, and an escape beyond code unit
  255, are outside the modelled values and are refused like a syntax error.
\<close>

section \<open>JSON.stringify\<close>

definition escape_char :: "char \<Rightarrow> string" where
  "escape_char c =
     (let n = (of_char c :: nat)
      in if n = 34 \<or> n = 92 then [CHR 0x5C, c]
         else if n = 8 then [CHR 0x5C, CHR ''b'']
         else if n = 12 then [CHR 0x5C, CHR ''f'']
         else if n = 10 then [CHR 0x5C, CHR ''n'']
         else if n = 13 then [CHR 0x5C, CHR ''r'']
         else if n = 9 then [CHR 0x5C, CHR ''t'']
         else if n < 32 then [CHR 0x5C, CHR ''u'', CHR ''0'', CHR ''0'', hex_digit (n div 16), hex_digit (n mod 16)]
         else [c])"

definition quote :: "string \<Rightarrow> string" where
  "quote s = CHR 0x22 # concat (map escape_char s) @ [CHR 0x22]"

fun json_stringify :: "json \<Rightarrow> string" where
  "json_stringify JNull = ''null''"
| "json_stringify (JBool b) = (if b then ''true'' else ''false'')"
| "json_stringify (JNum n) = str_of_int n"
| "json_stringify (JStr s) = quote s"
| "json_stringify (JArr xs) = CHR ''['' # join '','' (map json_stringify xs) @ '']''"
| "json_stringify (JObj kvs) =
     CHR ''{'' # join '','' (map (\<lambda>(k, v). quote k @ CHR '':'' # json_stringify v) kvs) @ ''}''"

section \<open>JSON.parse\<close>

definition is_json_ws :: "char \<Rightarrow> bool" where
  "is_json_ws c \<longleftrightarrow> of_char c \<in> {9, 10, 13, 32 :: nat}"

definition skip_ws :: "string \<Rightarrow> string" where
  "skip_ws s = dropWhile is_json_ws s"

definition unescape :: "char \<Rightarrow> char option" where
  "unescape e =
     (if e = CHR 0x22 \<or> e = CHR 0x5C \<or> e = CHR ''/'' then Some e
      else if e = CHR ''b'' then Some (CHR 0x08)
      else if e = CHR ''f'' then Some (CHR 0x0C)
      else if e = CHR ''n'' then Some (CHR 0x0A)
      else if e = CHR ''r'' then Some (CHR 0x0D)
      else if e = CHR ''t'' then Some (CHR 0x09)
      else None)"

definition hex4 :: "char \<Rightarrow> char \<Rightarrow> char \<Rightarrow> char \<Rightarrow> char option" where
  "hex4 a b c d =
     (case (hex_val a, hex_val b, hex_val c, hex_val d) of
        (Some i, Some j, Some k, Some l) \<Rightarrow>
          if i = 0 \<and> j = 0 then Some (char_of (16 * k + l)) else None
      | _ \<Rightarrow> None)"

fun parse_chars :: "string \<Rightarrow> (string \<times> string) option" where
  "parse_chars [] = None"
| "parse_chars (c # cs) =
     (if c = CHR 0x22 then Some ([], cs)
      else if c = CHR 0x5C then
        (case cs of
           [] \<Rightarrow> None
         | e # cs' \<Rightarrow>
             if e = CHR ''u'' then
               (case cs' of
                  h1 # h2 # h3 # h4 # cs'' \<Rightarrow>
                    (case hex4 h1 h2 h3 h4 of
                       None \<Rightarrow> None
                     | Some x \<Rightarrow> map_option (\<lambda>(t, r). (x # t, r)) (parse_chars cs''))
                | _ \<Rightarrow> None)
             else (case unescape e of
                     None \<Rightarrow> None
                   | Some x \<Rightarrow> map_option (\<lambda>(t, r). (x # t, r)) (parse_chars cs')))
      else if (of_char c :: nat) < 32 then None
      else map_option (\<lambda>(t, r). (c # t, r)) (parse_chars cs))"

definition parse_digits :: "string \<Rightarrow> (nat \<times> string) option" where
  "parse_digits s =
     (let ds = takeWhile is_digit s; r = dropWhile is_digit s
      in if ds = [] \<or> (hd ds = CHR ''0'' \<and> ds \<noteq> ''0'') \<or> (r \<noteq> [] \<and> hd r \<in> set ''.eE'') then None
         else Some (nat_of_digits ds, r))"

definition parse_number :: "string \<Rightarrow> (json \<times> string) option" where
  "parse_number s =
     (case s of
        [] \<Rightarrow> None
      | c # r \<Rightarrow>
          if c = CHR ''-'' then map_option (\<lambda>(n, q). (JNum (- int n), q)) (parse_digits r)
          else map_option (\<lambda>(n, q). (JNum (int n), q)) (parse_digits s))"

definition parse_literal :: "string \<Rightarrow> (json \<times> string) option" where
  "parse_literal s =
     (if take 4 s = ''null'' then Some (JNull, drop 4 s)
      else if take 4 s = ''true'' then Some (JBool True, drop 4 s)
      else if take 5 s = ''false'' then Some (JBool False, drop 5 s)
      else None)"

fun parse_value :: "nat \<Rightarrow> string \<Rightarrow> (json \<times> string) option"
  and parse_elems :: "nat \<Rightarrow> string \<Rightarrow> (json list \<times> string) option"
  and parse_members :: "nat \<Rightarrow> string \<Rightarrow> ((string \<times> json) list \<times> string) option" where
  "parse_value 0 s = None"
| "parse_value (Suc n) s =
     (case skip_ws s of
        [] \<Rightarrow> None
      | c # r \<Rightarrow>
          if c = CHR 0x22 then map_option (\<lambda>(t, q). (JStr t, q)) (parse_chars r)
          else if c = CHR ''['' then
            (if skip_ws r \<noteq> [] \<and> hd (skip_ws r) = CHR '']'' then Some (JArr [], tl (skip_ws r))
             else map_option (\<lambda>(xs, q). (JArr xs, q)) (parse_elems n r))
          else if c = CHR ''{'' then
            (if skip_ws r \<noteq> [] \<and> hd (skip_ws r) = CHR ''}'' then Some (JObj [], tl (skip_ws r))
             else map_option (\<lambda>(kvs, q). (JObj (obj_of_pairs kvs), q)) (parse_members n r))
          else if c = CHR ''-'' \<or> is_digit c then parse_number (c # r)
          else parse_literal (c # r))"
| "parse_elems 0 s = None"
| "parse_elems (Suc n) s =
     (case parse_value n s of
        None \<Rightarrow> None
      | Some (v, r) \<Rightarrow>
          (case skip_ws r of
             [] \<Rightarrow> None
           | d # q \<Rightarrow>
               if d = CHR '','' then map_option (\<lambda>(vs, q'). (v # vs, q')) (parse_elems n q)
               else if d = CHR '']'' then Some ([v], q)
               else None))"
| "parse_members 0 s = None"
| "parse_members (Suc n) s =
     (case skip_ws s of
        [] \<Rightarrow> None
      | c # r \<Rightarrow>
          if c \<noteq> CHR 0x22 then None
          else (case parse_chars r of
                  None \<Rightarrow> None
                | Some (k, r1) \<Rightarrow>
                    (case skip_ws r1 of
                       [] \<Rightarrow> None
                     | d # r2 \<Rightarrow>
                         if d \<noteq> CHR '':'' then None
                         else (case parse_value n r2 of
                                 None \<Rightarrow> None
                               | Some (v, r3) \<Rightarrow>
                                   (case skip_ws r3 of
                                      [] \<Rightarrow> None
                                    | e # q \<Rightarrow>
                                        if e = CHR '','' then map_option (\<lambda>(m, q'). ((k, v) # m, q')) (parse_members n q)
                                        else if e = CHR ''}'' then Some ([(k, v)], q)
                                        else None)))))"

definition json_parse :: "string \<Rightarrow> json option" where
  "json_parse s =
     (case parse_value (2 * length s + 1) s of
        None \<Rightarrow> None
      | Some (v, r) \<Rightarrow> if skip_ws r = [] then Some v else None)"

section \<open>Every step of the parser consumes text\<close>

lemma length_skip_ws: "length (skip_ws s) \<le> length s"
  by (simp add: skip_ws_def length_dropWhile_le)

lemma skip_ws_Cons_length: "skip_ws s = c # r \<Longrightarrow> length r < length s"
  using length_skip_ws [of s] by simp

lemma parse_chars_length: "parse_chars s = Some (t, r) \<Longrightarrow> length r < length s"
proof (induction s arbitrary: t r rule: length_induct)
  case (1 s)
  have IH: "length r' < length s" if "parse_chars u = Some (t', r')" "length u < length s" for u t' r'
    using "1.IH" that less_trans by blast
  show ?case
  proof (cases s)
    case Nil
    with "1.prems" show ?thesis by simp
  next
    case (Cons c cs)
    with "1.prems" IH show ?thesis
      by (auto split: if_splits list.splits option.splits)
  qed
qed

lemma parse_digits_length: "parse_digits s = Some (n, r) \<Longrightarrow> length r < length s"
proof -
  assume p: "parse_digits s = Some (n, r)"
  have "length (takeWhile is_digit s) + length (dropWhile is_digit s) = length s"
    by (metis length_append takeWhile_dropWhile_id)
  moreover have "takeWhile is_digit s \<noteq> []" and "r = dropWhile is_digit s"
    using p by (auto simp: parse_digits_def Let_def split: if_splits)
  ultimately show ?thesis by (cases "takeWhile is_digit s") auto
qed

lemma parse_number_length: "parse_number s = Some (v, r) \<Longrightarrow> length r < length s"
  by (auto simp: parse_number_def split: list.splits if_splits dest!: parse_digits_length)

lemma parse_literal_length: "parse_literal s = Some (v, r) \<Longrightarrow> length r < length s"
  by (cases s) (auto simp: parse_literal_def split: if_splits)

lemma parse_length:
  "parse_value n s = Some (v, r) \<Longrightarrow> length r < length s"
  "parse_elems n s = Some (vs, r) \<Longrightarrow> length r < length s"
  "parse_members n s = Some (kvs, r) \<Longrightarrow> length r < length s"
proof (induction n s and n s and n s arbitrary: v r and vs r and kvs r
    rule: parse_value_parse_elems_parse_members.induct)
  case (2 n s)
  obtain c q where s: "skip_ws s = c # q"
    using 2(3) by (cases "skip_ws s") auto
  have q: "length q < length s" by (rule skip_ws_Cons_length [OF s])
  have t: "length (tl (skip_ws q)) \<le> length q" using length_skip_ws [of q] by simp
  show ?case
    using 2(3) s q t 2(1) [OF s] 2(2) [OF s]
    by (auto split: if_splits
        dest!: parse_chars_length parse_number_length parse_literal_length)
next
  case (4 n s)
  then obtain v' r' where v: "parse_value n s = Some (v', r')" by (auto split: option.splits)
  have r': "length r' < length s" using 4(1) v by simp
  have IH: "length r'' < length q" if "skip_ws r' = CHR '','' # q" "parse_elems n q = Some (ws, r'')" for q ws r''
    using 4(2) [OF v refl that(1) refl that(2)] .
  show ?case
    using 4(3) v r' IH
    by (fastforce split: list.splits if_splits dest: skip_ws_Cons_length)
next
  case (6 n s)
  then show ?case
    by (fastforce split: list.splits if_splits option.splits dest: skip_ws_Cons_length parse_chars_length)
qed (auto split: option.splits)

section \<open>The fuel is enough\<close>

lemma parse_more_fuel:
  "2 * length s + 1 \<le> n \<Longrightarrow> parse_value (Suc n) s = parse_value n s"
  "2 * length s + 2 \<le> n \<Longrightarrow> parse_elems (Suc n) s = parse_elems n s"
  "2 * length s + 1 \<le> n \<Longrightarrow> parse_members (Suc n) s = parse_members n s"
proof (induction n s and n s and n s rule: parse_value_parse_elems_parse_members.induct)
  case (2 n s)
  show ?case
  proof (cases "skip_ws s")
    case (Cons c q)
    have q: "length q < length s" by (rule skip_ws_Cons_length [OF Cons])
    have "c = CHR ''['' \<Longrightarrow> \<not> (skip_ws q \<noteq> [] \<and> hd (skip_ws q) = CHR '']'') \<Longrightarrow>
            parse_elems (Suc n) q = parse_elems n q"
      using 2(1) [OF Cons] 2(3) q by simp
    moreover have "c = CHR ''{'' \<Longrightarrow> \<not> (skip_ws q \<noteq> [] \<and> hd (skip_ws q) = CHR ''}'') \<Longrightarrow>
            parse_members (Suc n) q = parse_members n q"
      using 2(2) [OF Cons] 2(3) q by simp
    ultimately show ?thesis
      using Cons by (simp del: parse_elems.simps parse_members.simps)
  qed simp
next
  case (4 n s)
  have v: "parse_value (Suc n) s = parse_value n s"
    by (rule 4(1)) (use 4(3) in simp)
  show ?case
  proof (cases "parse_value n s")
    case (Some p)
    obtain w r where p: "p = (w, r)" by fastforce
    have r: "length r < length s" using Some p parse_length(1) by blast
    have IH: "parse_elems (Suc n) q = parse_elems n q" if "skip_ws r = CHR '','' # q" for q
      using 4(2) [OF Some p [symmetric] that refl] 4(3) r skip_ws_Cons_length [OF that] by simp
    show ?thesis
      using v Some p IH
      by (auto simp del: parse_value.simps parse_elems.simps(2)
          simp: parse_elems.simps(2) [of "Suc n" s] parse_elems.simps(2) [of n s] split: list.splits)
  qed (simp add: v del: parse_value.simps)
next
  case (6 n s)
  have IHv: "parse_value (Suc n) r2 = parse_value n r2"
    if "skip_ws s = CHR 0x22 # r" "parse_chars r = Some (k, r1)" "skip_ws r1 = CHR '':'' # r2" for r k r1 r2
    using 6(1) [OF that(1) _ that(2) refl that(3)] 6(3)
      skip_ws_Cons_length [OF that(1)] parse_chars_length [OF that(2)] skip_ws_Cons_length [OF that(3)]
    by simp
  have IHm: "parse_members (Suc n) q = parse_members n q"
    if "skip_ws s = CHR 0x22 # r" "parse_chars r = Some (k, r1)" "skip_ws r1 = CHR '':'' # r2"
      "parse_value n r2 = Some (v, r3)" "skip_ws r3 = CHR '','' # q" for r k r1 r2 v r3 q
    using 6(2) [OF that(1) _ that(2) refl that(3) _ that(4) refl that(5)] 6(3)
      skip_ws_Cons_length [OF that(1)] parse_chars_length [OF that(2)] skip_ws_Cons_length [OF that(3)]
      parse_length(1) [OF that(4)] skip_ws_Cons_length [OF that(5)]
    by simp
  show ?case
    unfolding parse_members.simps(2) [of "Suc n" s] parse_members.simps(2) [of n s]
    by (auto simp del: parse_value.simps parse_members.simps simp: IHv IHm split: list.splits option.splits)
qed simp_all

lemma parse_value_enough_fuel:
  "2 * length s + 1 \<le> n \<Longrightarrow> parse_value n s = parse_value (2 * length s + 1) s"
proof (induction n)
  case (Suc n)
  then show ?case
    by (cases "2 * length s + 1 \<le> n")
      (simp_all del: parse_value.simps add: parse_more_fuel(1) le_Suc_eq)
qed simp

section \<open>Property order\<close>

definition key_precedes :: "string \<Rightarrow> string \<Rightarrow> bool" where
  "key_precedes k l =
     (case (array_index k, array_index l) of
        (Some i, Some j) \<Rightarrow> i < j
      | (Some i, None) \<Rightarrow> True
      | (None, None) \<Rightarrow> k \<noteq> l
      | (None, Some j) \<Rightarrow> False)"

definition obj_canonical :: "(string \<times> json) list \<Rightarrow> bool" where
  "obj_canonical kvs \<longleftrightarrow> sorted_wrt key_precedes (map fst kvs)"

fun wf_json :: "json \<Rightarrow> bool" where
  "wf_json (JArr xs) = (\<forall>x\<in>set xs. wf_json x)"
| "wf_json (JObj kvs) = (obj_canonical kvs \<and> (\<forall>p\<in>set kvs. wf_json (snd p)))"
| "wf_json _ = True"

lemma array_index_inject: "array_index k = Some i \<Longrightarrow> array_index l = Some i \<Longrightarrow> k = l"
  by (rule nat_of_digits_inject) (auto simp: array_index_def split: if_splits)

lemma obj_canonical_insert_new:
  assumes c: "obj_canonical kvs" and new: "k \<notin> fst ` set kvs"
  shows "obj_canonical (obj_insert k v kvs)"
proof (cases "array_index k")
  case None
  have "\<forall>a\<in>set (map fst kvs). key_precedes a k"
    using new None by (auto simp: key_precedes_def split: option.splits)
  then show ?thesis
    using c new None by (auto simp: obj_insert_def obj_canonical_def sorted_wrt_append)
next
  case (Some i)
  let ?b = "\<lambda>(k', v'). case array_index k' of Some j \<Rightarrow> j < i | None \<Rightarrow> False"
  let ?xs = "takeWhile ?b kvs" and ?ys = "dropWhile ?b kvs"
  have split: "sorted_wrt key_precedes (map fst ?xs @ map fst ?ys)"
    using c by (simp add: obj_canonical_def flip: map_append)
  have xs: "key_precedes a k" if "a \<in> fst ` set ?xs" for a
    using that Some by (auto dest!: set_takeWhileD simp: key_precedes_def split: option.splits)
  have ys: "key_precedes k a" if "a \<in> fst ` set ?ys" for a
  proof (cases ?ys)
    case (Cons y ys)
    obtain ky vy where y: "y = (ky, vy)" by fastforce
    have nb: "\<not> ?b y" using Cons by (metis hd_dropWhile list.distinct(1) list.sel(1))
    have sub: "fst ` set ?ys \<subseteq> fst ` set kvs" by (auto dest: set_dropWhileD)
    moreover have "ky \<in> fst ` set ?ys" using Cons y by simp
    ultimately have ne: "a \<noteq> k" "ky \<noteq> k" using that new by blast+
    have hd: "key_precedes k ky"
      using nb Some ne y by (auto simp: key_precedes_def split: option.splits dest: array_index_inject)
    have "a = ky \<or> key_precedes ky a"
      using split that Cons y by (auto simp: sorted_wrt_append)
    with hd ne show ?thesis
      by (auto simp: key_precedes_def split: option.splits)
  next
    case Nil
    with that have "a \<in> fst ` set ([] :: (string \<times> json) list)" by (simp only:)
    then show ?thesis by simp
  qed
  have "sorted_wrt key_precedes (map fst ?xs @ k # map fst ?ys)"
    using split xs ys by (auto simp: sorted_wrt_append)
  then show ?thesis
    using new Some by (simp add: obj_insert_def obj_canonical_def Let_def)
qed

lemma obj_canonical_insert: "obj_canonical kvs \<Longrightarrow> obj_canonical (obj_insert k v kvs)"
proof (cases "k \<in> fst ` set kvs")
  case True
  moreover have "map fst (map (\<lambda>(k', v'). if k' = k then (k', v) else (k', v')) kvs) = map fst kvs"
    by (induction kvs) auto
  moreover assume "obj_canonical kvs"
  ultimately show ?thesis by (simp only: obj_insert_def obj_canonical_def if_True)
qed (rule obj_canonical_insert_new)

lemma obj_of_pairs_snoc: "obj_of_pairs (kvs @ [(k, v)]) = obj_insert k v (obj_of_pairs kvs)"
  by (simp add: obj_of_pairs_def)

lemma obj_canonical_of_pairs: "obj_canonical (obj_of_pairs kvs)"
proof (induction kvs rule: rev_induct)
  case Nil
  then show ?case by (simp add: obj_of_pairs_def obj_canonical_def)
next
  case (snoc p kvs)
  then show ?case by (cases p) (simp add: obj_of_pairs_snoc obj_canonical_insert)
qed

lemma obj_of_pairs_canonical: "obj_canonical kvs \<Longrightarrow> obj_of_pairs kvs = kvs"
proof (induction kvs rule: rev_induct)
  case Nil
  then show ?case by (simp add: obj_of_pairs_def)
next
  case (snoc p kvs)
  obtain k v where p: "p = (k, v)" by fastforce
  have c: "obj_canonical kvs" and prec: "\<forall>a\<in>fst ` set kvs. key_precedes a k"
    using snoc.prems p by (auto simp: obj_canonical_def sorted_wrt_append)
  have new: "k \<notin> fst ` set kvs"
    using prec by (auto simp: key_precedes_def split: option.splits)
  have "obj_insert k v kvs = kvs @ [(k, v)]"
  proof (cases "array_index k")
    case None
    then show ?thesis using new by (simp add: obj_insert_def)
  next
    case (Some i)
    let ?b = "\<lambda>(k', v'). case array_index k' of Some j \<Rightarrow> j < i | None \<Rightarrow> False"
    have "\<forall>x\<in>set kvs. ?b x"
      using prec Some by (force simp: key_precedes_def split: option.splits)
    then have "takeWhile ?b kvs = kvs" and "dropWhile ?b kvs = []"
      by (simp_all add: takeWhile_eq_all_conv dropWhile_eq_Nil_conv)
    then show ?thesis using new Some by (simp add: obj_insert_def Let_def)
  qed
  then show ?case using snoc.IH [OF c] p by (simp add: obj_of_pairs_snoc)
qed

lemma values_obj_insert: "snd ` set (obj_insert k v kvs) \<subseteq> insert v (snd ` set kvs)"
  by (auto simp: obj_insert_def Let_def split: option.splits if_splits
      dest!: set_takeWhileD set_dropWhileD)

lemma wf_json_obj_insert:
  "wf_json (JObj kvs) \<Longrightarrow> wf_json v \<Longrightarrow> wf_json (JObj (obj_insert k v kvs))"
  using values_obj_insert [of k v kvs] by (fastforce simp: obj_canonical_insert)

lemma wf_json_obj_of_pairs: "(\<forall>p\<in>set kvs. wf_json (snd p)) \<Longrightarrow> wf_json (JObj (obj_of_pairs kvs))"
proof (induction kvs rule: rev_induct)
  case Nil
  then show ?case by (simp add: obj_of_pairs_def obj_canonical_def)
next
  case (snoc p kvs)
  then show ?case
    by (cases p) (simp add: obj_of_pairs_snoc wf_json_obj_insert del: wf_json.simps)
qed

lemma wf_json_map_of: "wf_json (JObj kvs) \<Longrightarrow> map_of kvs k = Some v \<Longrightarrow> wf_json v"
  by (force dest: map_of_SomeD)

section \<open>The round trip\<close>

lemma parse_chars_escape:
  "parse_chars (escape_char c @ r) = map_option (\<lambda>(t, q). (c # t, q)) (parse_chars r)"
proof -
  let ?n = "of_char c :: nat"
  have c: "c = char_of ?n" by simp
  have ws: "?n = 34 \<Longrightarrow> c = CHR 0x22" "?n = 92 \<Longrightarrow> c = CHR 0x5C"
    "?n = 8 \<Longrightarrow> c = CHR 0x08" "?n = 12 \<Longrightarrow> c = CHR 0x0C" "?n = 10 \<Longrightarrow> c = CHR 0x0A"
    "?n = 13 \<Longrightarrow> c = CHR 0x0D" "?n = 9 \<Longrightarrow> c = CHR 0x09"
    by (subst c, simp add: char_of_eq_iff)+
  consider "?n \<in> {34, 92, 8, 12, 10, 13, 9}" | "?n \<notin> {34, 92, 8, 12, 10, 13, 9}" "?n < 32"
    | "?n \<notin> {34, 92, 8, 12, 10, 13, 9}" "\<not> ?n < 32" by blast
  then show ?thesis
  proof cases
    case 1
    then consider "c = CHR 0x22" | "c = CHR 0x5C" | "c = CHR 0x08" | "c = CHR 0x0C" | "c = CHR 0x0A"
      | "c = CHR 0x0D" | "c = CHR 0x09" using ws by blast
    then show ?thesis
      by cases (simp_all add: escape_char_def Let_def unescape_def char_of_eq_iff)
  next
    case 2
    have d: "hex_val (hex_digit (?n div 16)) = Some (?n div 16)" "hex_val (hex_digit (?n mod 16)) = Some (?n mod 16)"
      using 2(2) by (simp_all add: hex_val_hex_digit)
    have "hex4 (CHR ''0'') (CHR ''0'') (hex_digit (?n div 16)) (hex_digit (?n mod 16)) = Some (char_of (16 * (?n div 16) + ?n mod 16))"
      unfolding hex4_def d by (simp add: hex_val_def)
    then have "hex4 (CHR ''0'') (CHR ''0'') (hex_digit (?n div 16)) (hex_digit (?n mod 16)) = Some c"
      by (simp only: mult_div_mod_eq char_of_char)
    with 2 show ?thesis by (simp add: escape_char_def Let_def)
  next
    case 3
    then have "c \<noteq> CHR 0x22" and "c \<noteq> CHR 0x5C" by auto
    with 3 show ?thesis by (simp add: escape_char_def Let_def)
  qed
qed

lemma parse_chars_quoted:
  "parse_chars (concat (map escape_char s) @ CHR 0x22 # rest) = Some (s, rest)"
proof (induction s)
  case (Cons c s)
  then show ?case by (simp add: parse_chars_escape del: parse_chars.simps)
qed simp

definition stops :: "string \<Rightarrow> bool" where
  "stops rest \<longleftrightarrow> rest = [] \<or> (\<not> is_digit (hd rest) \<and> hd rest \<notin> set ''.eE'')"

lemma stops_simps [simp]: "stops []" "stops (CHR '','' # r)" "stops (CHR '']'' # r)" "stops (CHR ''}'' # r)"
  by (simp_all add: stops_def is_digit_def)

lemma parse_digits_str_of_nat: "stops rest \<Longrightarrow> parse_digits (str_of_nat n @ rest) = Some (n, rest)"
proof -
  assume st: "stops rest"
  then have nd: "rest = [] \<or> \<not> is_digit (hd rest)" by (auto simp: stops_def)
  have tk: "takeWhile is_digit (str_of_nat n @ rest) = str_of_nat n"
    and dr: "dropWhile is_digit (str_of_nat n @ rest) = rest"
    using takeWhile_append_stop [OF str_of_nat_digits nd] dropWhile_append_stop [OF str_of_nat_digits nd] by simp_all
  have "hd (str_of_nat n) = CHR ''0'' \<Longrightarrow> n = 0"
    using str_of_nat_no_leading_zero [of n] by auto
  then show ?thesis
    using st unfolding parse_digits_def tk dr stops_def Let_def by auto
qed

lemma parse_number_str_of_int:
  assumes "stops rest"
  shows "parse_number (str_of_int i @ rest) = Some (JNum i, rest)"
proof (cases "i < 0")
  case True
  then show ?thesis using assms by (simp add: str_of_int_def parse_number_def parse_digits_str_of_nat)
next
  case False
  let ?s = "str_of_nat (nat i)"
  obtain c r where s: "?s = c # r" by (cases ?s) auto
  have "is_digit c" using hd_str_of_nat_digit [of "nat i"] s by simp
  then have "c \<noteq> CHR ''-''" by auto
  moreover have "parse_digits (c # r @ rest) = Some (nat i, rest)"
    using parse_digits_str_of_nat [OF assms, of "nat i"] s by simp
  ultimately show ?thesis using False s by (simp add: str_of_int_def parse_number_def)
qed

lemma skip_ws_nonws: "\<not> is_json_ws c \<Longrightarrow> skip_ws (c # r) = c # r"
  by (simp add: skip_ws_def)

lemma is_digit_not_structural:
  "is_digit c \<Longrightarrow> c \<notin> set '',:[]{}'' \<and> c \<noteq> CHR 0x22 \<and> \<not> is_json_ws c"
  by (auto simp: is_digit_def is_json_ws_def)

lemma str_of_int_start:
  "\<exists>c r. str_of_int i = c # r \<and> (c = CHR ''-'' \<or> is_digit c)"
  using hd_str_of_nat_digit [of "nat i"] by (cases "str_of_nat (nat i)") (auto simp: str_of_int_def)

lemma json_stringify_start:
  "\<exists>c r. json_stringify v = c # r \<and> \<not> is_json_ws c \<and> c \<noteq> CHR '']'' \<and> c \<noteq> CHR ''}''"
proof (cases v)
  case (JNum n)
  then show ?thesis
    using str_of_int_start [of n] is_digit_not_structural by (force simp: is_json_ws_def)
qed (auto simp: quote_def is_json_ws_def)

text \<open>What it means that a value is read back in front of any text that ends it.\<close>

definition reads_back :: "json \<Rightarrow> bool" where
  "reads_back v \<longleftrightarrow>
     (\<forall>n rest. stops rest \<longrightarrow> 2 * length (json_stringify v @ rest) + 1 \<le> n \<longrightarrow>
        parse_value n (json_stringify v @ rest) = Some (v, rest))"

lemma reads_backD:
  "reads_back v \<Longrightarrow> stops rest \<Longrightarrow> 2 * length (json_stringify v @ rest) + 1 \<le> n \<Longrightarrow>
     parse_value n (json_stringify v @ rest) = Some (v, rest)"
  by (simp add: reads_back_def)

lemma parse_elems_stringify:
  "xs \<noteq> [] \<Longrightarrow> (\<forall>x\<in>set xs. reads_back x) \<Longrightarrow>
     2 * length (join '','' (map json_stringify xs) @ CHR '']'' # rest) + 2 \<le> n \<Longrightarrow>
     parse_elems n (join '','' (map json_stringify xs) @ CHR '']'' # rest) = Some (xs, rest)"
proof (induction xs arbitrary: n)
  case (Cons x xs)
  obtain m where n: "n = Suc m" using Cons.prems(3) by (cases n) auto
  let ?tail = "join '','' (map json_stringify xs) @ CHR '']'' # rest"
  show ?case
  proof (cases xs)
    case Nil
    have "parse_value m (json_stringify x @ CHR '']'' # rest) = Some (x, CHR '']'' # rest)"
      by (rule reads_backD) (use Cons.prems Nil n in auto)
    then show ?thesis
      using Nil n by (simp add: skip_ws_nonws is_json_ws_def del: parse_value.simps)
  next
    case (Cons y ys)
    have j: "join '','' (map json_stringify (x # xs)) = json_stringify x @ CHR '','' # join '','' (map json_stringify xs)"
      using Cons by simp
    have v: "parse_value m (json_stringify x @ CHR '','' # ?tail) = Some (x, CHR '','' # ?tail)"
      by (rule reads_backD) (use Cons.prems j n in auto)
    have e: "parse_elems m ?tail = Some (xs, rest)"
      using Cons.IH [of m] Cons.prems j n Cons by simp
    show ?thesis
      unfolding n j append_assoc append_Cons parse_elems.simps v
      by (simp add: skip_ws_nonws is_json_ws_def e del: parse_elems.simps)
  qed
qed simp

abbreviation member_text :: "string \<times> json \<Rightarrow> string" where
  "member_text \<equiv> \<lambda>(k, v). quote k @ CHR '':'' # json_stringify v"

lemma parse_members_stringify:
  "kvs \<noteq> [] \<Longrightarrow> (\<forall>p\<in>set kvs. reads_back (snd p)) \<Longrightarrow>
     2 * length (join '','' (map member_text kvs) @ CHR ''}'' # rest) + 1 \<le> n \<Longrightarrow>
     parse_members n (join '','' (map member_text kvs) @ CHR ''}'' # rest) = Some (kvs, rest)"
proof (induction kvs arbitrary: n)
  case (Cons p kvs)
  obtain k v where p: "p = (k, v)" by fastforce
  obtain m where n: "n = Suc m" using Cons.prems(3) by (cases n) auto
  have key: "skip_ws (quote k @ r) = CHR 0x22 # concat (map escape_char k) @ CHR 0x22 # r" for r
    by (simp add: quote_def skip_ws_nonws is_json_ws_def)
  have colon: "skip_ws (CHR '':'' # r) = CHR '':'' # r" for r
    by (simp add: skip_ws_nonws is_json_ws_def)
  have rb: "reads_back v" using Cons.prems(2) p by simp
  have len: "length (quote k) = Suc (Suc (length (concat (map escape_char k))))"
    by (simp add: quote_def)
  let ?tail = "join '','' (map member_text kvs) @ CHR ''}'' # rest"
  show ?case
  proof (cases kvs)
    case Nil
    have "parse_value m (json_stringify v @ CHR ''}'' # rest) = Some (v, CHR ''}'' # rest)"
      by (rule reads_backD [OF rb]) (use Cons.prems Nil n p len in auto)
    then show ?thesis
      using Nil n p by (simp add: key colon parse_chars_quoted skip_ws_nonws is_json_ws_def
          del: parse_value.simps parse_chars.simps)
  next
    case (Cons y ys)
    have j: "join '','' (map member_text (p # kvs)) =
               quote k @ CHR '':'' # json_stringify v @ CHR '','' # join '','' (map member_text kvs)"
      using Cons p by simp
    have v: "parse_value m (json_stringify v @ CHR '','' # ?tail) = Some (v, CHR '','' # ?tail)"
      by (rule reads_backD [OF rb]) (use Cons.prems j n len in auto)
    have e: "parse_members m ?tail = Some (kvs, rest)"
      using Cons.IH [of m] Cons.prems j n Cons by simp
    have whole: "join '','' (map member_text (p # kvs)) @ CHR ''}'' # rest =
        quote k @ CHR '':'' # json_stringify v @ CHR '','' # ?tail"
      using j by simp
    have "parse_members (Suc m) (quote k @ CHR '':'' # json_stringify v @ CHR '','' # ?tail) = Some (p # kvs, rest)"
      unfolding p parse_members.simps key
      by (simp add: colon parse_chars_quoted v e skip_ws_nonws is_json_ws_def
          del: parse_members.simps parse_value.simps parse_chars.simps)
    then show ?thesis by (simp only: n whole)
  qed
qed simp

lemma wf_json_reads_back: "wf_json v \<Longrightarrow> reads_back v"
proof (induction v rule: wf_json.induct [case_names Arr Obj Null Bool Num Str])
  case (Arr xs)
  have all: "\<forall>x\<in>set xs. reads_back x" using Arr by simp
  show ?case
    unfolding reads_back_def
  proof (intro allI impI)
    fix n and rest :: string
    assume st: "stops rest" and n: "2 * length (json_stringify (JArr xs) @ rest) + 1 \<le> n"
    then obtain m where m: "n = Suc m" by (cases n) auto
    show "parse_value n (json_stringify (JArr xs) @ rest) = Some (JArr xs, rest)"
    proof (cases xs)
      case Nil
      then show ?thesis using m by (simp add: skip_ws_nonws is_json_ws_def)
    next
      case (Cons x ys)
      obtain c r where c: "json_stringify x = c # r" "\<not> is_json_ws c" "c \<noteq> CHR '']''"
        using json_stringify_start [of x] by blast
      have "\<exists>r'. join '','' (map json_stringify xs) = c # r'"
        using Cons c(1) by (cases ys) auto
      then obtain r' where j: "join '','' (map json_stringify xs) = c # r'" ..
      have e: "parse_elems m (join '','' (map json_stringify xs) @ CHR '']'' # rest) = Some (xs, rest)"
        by (rule parse_elems_stringify) (use Cons all n m in auto)
      show ?thesis
        using e c j by (simp add: m skip_ws_nonws is_json_ws_def is_digit_def del: parse_elems.simps)
    qed
  qed
next
  case (Obj kvs)
  have all: "\<forall>p\<in>set kvs. reads_back (snd p)" using Obj by simp
  have canon: "obj_of_pairs kvs = kvs" using Obj by (simp add: obj_of_pairs_canonical)
  show ?case
    unfolding reads_back_def
  proof (intro allI impI)
    fix n and rest :: string
    assume st: "stops rest" and n: "2 * length (json_stringify (JObj kvs) @ rest) + 1 \<le> n"
    then obtain m where m: "n = Suc m" by (cases n) auto
    show "parse_value n (json_stringify (JObj kvs) @ rest) = Some (JObj kvs, rest)"
    proof (cases kvs)
      case Nil
      then show ?thesis using m by (simp add: skip_ws_nonws is_json_ws_def)
    next
      case (Cons p ys)
      have "\<exists>r'. join '','' (map member_text kvs) = CHR 0x22 # r'"
        using Cons by (cases p; cases ys) (auto simp: quote_def)
      then obtain r' where j: "join '','' (map member_text kvs) = CHR 0x22 # r'" ..
      have e: "parse_members m (join '','' (map member_text kvs) @ CHR ''}'' # rest) = Some (kvs, rest)"
        by (rule parse_members_stringify) (use Cons all n m in auto)
      show ?thesis
        using e j canon by (simp add: m skip_ws_nonws is_json_ws_def is_digit_def del: parse_members.simps)
    qed
  qed
next
  case Null
  show ?case
    by (auto simp: reads_back_def skip_ws_nonws is_json_ws_def is_digit_def parse_literal_def
        dest!: Suc_le_D)
next
  case (Bool b)
  show ?case
    by (cases b) (auto simp: reads_back_def skip_ws_nonws is_json_ws_def is_digit_def parse_literal_def
        dest!: Suc_le_D)
next
  case (Num i)
  show ?case
    unfolding reads_back_def
  proof (intro allI impI)
    fix n and rest :: string
    assume st: "stops rest" and n: "2 * length (json_stringify (JNum i) @ rest) + 1 \<le> n"
    then obtain m where m: "n = Suc m" by (cases n) auto
    obtain c r where c: "str_of_int i = c # r" "c = CHR ''-'' \<or> is_digit c"
      using str_of_int_start by blast
    have nw: "\<not> is_json_ws c" "c \<noteq> CHR 0x22" "c \<noteq> CHR ''[''" "c \<noteq> CHR ''{''"
      using c(2) is_digit_not_structural [of c] by (auto simp: is_json_ws_def)
    show "parse_value n (json_stringify (JNum i) @ rest) = Some (JNum i, rest)"
      using parse_number_str_of_int [OF st, of i] c nw by (simp add: m skip_ws_nonws)
  qed
next
  case (Str s)
  show ?case
    by (auto simp: reads_back_def quote_def skip_ws_nonws is_json_ws_def parse_chars_quoted
        simp del: parse_chars.simps dest!: Suc_le_D)
qed

theorem json_parse_stringify [simp]:
  assumes "wf_json v"
  shows "json_parse (json_stringify v) = Some v"
proof -
  have "parse_value (2 * length (json_stringify v) + 1) (json_stringify v @ []) = Some (v, [])"
    by (rule reads_backD [OF wf_json_reads_back [OF assms]]) simp_all
  then show ?thesis by (simp add: json_parse_def skip_ws_def)
qed

lemma parse_scalar_wf:
  "parse_number s = Some (v, r) \<Longrightarrow> wf_json v"
  "parse_literal s = Some (v, r) \<Longrightarrow> wf_json v"
  by (auto simp: parse_number_def parse_literal_def split: list.splits if_splits)

lemma parse_wf:
  "parse_value n s = Some (v, r) \<Longrightarrow> wf_json v"
  "parse_elems n s = Some (vs, r) \<Longrightarrow> \<forall>x\<in>set vs. wf_json x"
  "parse_members n s = Some (kvs, r) \<Longrightarrow> \<forall>p\<in>set kvs. wf_json (snd p)"
proof (induction n s and n s and n s arbitrary: v r and vs r and kvs r
    rule: parse_value_parse_elems_parse_members.induct)
  case (2 n s)
  have empty: "wf_json (JObj [])" by (simp add: obj_canonical_def)
  from 2 show ?case
    by (auto simp del: wf_json.simps(2) simp: wf_json_obj_of_pairs empty
        split: list.splits if_splits dest: parse_scalar_wf)
next
  case (4 n s)
  then show ?case by (fastforce split: list.splits if_splits option.splits)
next
  case (6 n s)
  then show ?case by (fastforce split: list.splits if_splits option.splits)
qed simp_all

lemma json_parse_wf: "json_parse s = Some v \<Longrightarrow> wf_json v"
  by (auto simp: json_parse_def simp del: parse_value.simps dest: parse_wf(1)
      split: option.splits prod.splits if_splits)

lemma json_stringify_nonempty [simp]: "json_stringify v \<noteq> []"
  using json_stringify_start [of v] by auto

lemma json_stringify_inject:
  "wf_json v \<Longrightarrow> wf_json w \<Longrightarrow> json_stringify v = json_stringify w \<longleftrightarrow> v = w"
  by (metis json_parse_stringify option.inject)

text \<open>From here on the text of a value is only used through these lemmas.\<close>

declare json_stringify.simps [simp del]

end
