(* ===== verification/Effects.thy ===== *)
theory Effects
  imports JsonText
begin

text \<open>
  The workers are asynchronous: every \<open>await\<close> is a call of the platform (a KV namespace,
  the clock, the random source, key generation, \<open>fetch\<close>).  A handler is therefore a
  value of type \<open>'a prog\<close>: a tree whose nodes are these calls and whose branches are
  indexed by the platform's answers, rejections included.  \<open>Throw\<close> is an exception and
  \<open>catch_with\<close> a \<open>try/catch\<close>.

  The platform is not part of the repository.  It is the parameter \<open>sv\<close> of the
  interpreter \<open>run\<close>, a record of functions on a state the model knows nothing about;
  theorems without a hypothesis on \<open>sv\<close> hold whatever the platform answers.
  \<open>isolated sv\<close> states the documented behaviour of Workers KV for one request that no
  other request interferes with: \<open>get\<close> returns what was last put under the key,
  \<open>put\<close> succeeds when its \<open>expirationTtl\<close> is at least 60 seconds, and the clock is
  that of the request.  \<open>ideal\<close> is a platform that satisfies it.
\<close>

section \<open>Requests, responses, programs\<close>

datatype ns = MAILBOX_KV | ROUTER_ADMIN_KV

record out_request =
  out_method :: string
  out_url :: string
  out_headers :: "(string \<times> string) list"
  out_body :: "string option"

text \<open>A rejected \<open>fetch\<close> carries the error's name and message; an answer its status and body text.\<close>

datatype fetch_result = FetchFailed string string | Fetched nat string

datatype payload = JsonBody json | TextBody string | NoBody

record response =
  resp_status :: nat
  resp_headers :: "(string \<times> string) list"
  resp_body :: payload

record request =
  req_method :: string
  req_path :: string
  req_query :: "(string \<times> string) list"
  req_headers :: "(string \<times> string) list"
  req_body :: string

datatype task =
    EnsureSelfRegistered
  | ReplicateToSiblings string json "json list"

datatype 'a prog =
    Return 'a
  | Throw js_error
  | KvGet ns string "string + string option \<Rightarrow> 'a prog"
  | KvPut ns string string "number option" "string option \<Rightarrow> 'a prog"
  | KvDelete ns string "string option \<Rightarrow> 'a prog"
  | Now "int \<Rightarrow> 'a prog"
  | Random nat "byte list \<Rightarrow> 'a prog"
  | GenerateKey "byte list \<times> byte list \<Rightarrow> 'a prog"
  | FetchAll "out_request list" "fetch_result list \<Rightarrow> 'a prog"
  | WaitUntil task "'a prog"
  | Log string "'a prog"

text \<open>\<open>await\<close> of a KV operation: a rejection is an exception at the call.\<close>

definition kvGet :: "ns \<Rightarrow> string \<Rightarrow> (string option \<Rightarrow> 'a prog) \<Rightarrow> 'a prog" where
  "kvGet n k f = KvGet n k (\<lambda>a. case a of Inl e \<Rightarrow> Throw (ServiceError e) | Inr v \<Rightarrow> f v)"

definition kvPut :: "ns \<Rightarrow> string \<Rightarrow> string \<Rightarrow> number option \<Rightarrow> 'a prog \<Rightarrow> 'a prog" where
  "kvPut n k v ttl p = KvPut n k v ttl (\<lambda>a. case a of Some e \<Rightarrow> Throw (ServiceError e) | None \<Rightarrow> p)"

definition kvDelete :: "ns \<Rightarrow> string \<Rightarrow> 'a prog \<Rightarrow> 'a prog" where
  "kvDelete n k p = KvDelete n k (\<lambda>a. case a of Some e \<Rightarrow> Throw (ServiceError e) | None \<Rightarrow> p)"

text \<open>\<open>await fetch(...)\<close>, its outcome handed on; \<open>resp.ok\<close>.\<close>

definition fetch1 :: "out_request \<Rightarrow> (fetch_result \<Rightarrow> 'a prog) \<Rightarrow> 'a prog" where
  "fetch1 r f = FetchAll [r] (\<lambda>as. case as of [] \<Rightarrow> Throw (ServiceError ''no answer'') | a # _ \<Rightarrow> f a)"

definition resp_ok :: "nat \<Rightarrow> bool" where
  "resp_ok st \<longleftrightarrow> 200 \<le> st \<and> st \<le> 299"

text \<open>An expression that may throw, its value handed on.\<close>

definition attempt :: "js_error + 'b \<Rightarrow> ('b \<Rightarrow> 'a prog) \<Rightarrow> 'a prog" where
  "attempt r f = (case r of Inl e \<Rightarrow> Throw e | Inr v \<Rightarrow> f v)"

definition js_lower :: "jsval \<Rightarrow> js_error + string" where
  "js_lower v = (case v of Some (JStr s) \<Rightarrow> Inr (lower s) | _ \<Rightarrow> Inl TypeError)"

definition js_parse :: "string \<Rightarrow> js_error + json" where
  "js_parse s = (case json_parse s of None \<Rightarrow> Inl SyntaxError | Some v \<Rightarrow> Inr v)"

primrec catch_with :: "(js_error \<Rightarrow> 'a prog) \<Rightarrow> 'a prog \<Rightarrow> 'a prog" where
  "catch_with h (Return a) = Return a"
| "catch_with h (Throw e) = h e"
| "catch_with h (KvGet n k f) = KvGet n k (\<lambda>a. catch_with h (f a))"
| "catch_with h (KvPut n k v t f) = KvPut n k v t (\<lambda>a. catch_with h (f a))"
| "catch_with h (KvDelete n k f) = KvDelete n k (\<lambda>a. catch_with h (f a))"
| "catch_with h (Now f) = Now (\<lambda>a. catch_with h (f a))"
| "catch_with h (Random n f) = Random n (\<lambda>a. catch_with h (f a))"
| "catch_with h (GenerateKey f) = GenerateKey (\<lambda>a. catch_with h (f a))"
| "catch_with h (FetchAll rs f) = FetchAll rs (\<lambda>a. catch_with h (f a))"
| "catch_with h (WaitUntil t p) = WaitUntil t (catch_with h p)"
| "catch_with h (Log m p) = Log m (catch_with h p)"

text \<open>Sequencing, for a \<open>try\<close> block whose value the code goes on with.\<close>

primrec bind :: "'a prog \<Rightarrow> ('a \<Rightarrow> 'b prog) \<Rightarrow> 'b prog" where
  "bind (Return a) k = k a"
| "bind (Throw e) k = Throw e"
| "bind (KvGet n x f) k = KvGet n x (\<lambda>a. bind (f a) k)"
| "bind (KvPut n x v t f) k = KvPut n x v t (\<lambda>a. bind (f a) k)"
| "bind (KvDelete n x f) k = KvDelete n x (\<lambda>a. bind (f a) k)"
| "bind (Now f) k = Now (\<lambda>a. bind (f a) k)"
| "bind (Random n f) k = Random n (\<lambda>a. bind (f a) k)"
| "bind (GenerateKey f) k = GenerateKey (\<lambda>a. bind (f a) k)"
| "bind (FetchAll rs f) k = FetchAll rs (\<lambda>a. bind (f a) k)"
| "bind (WaitUntil t p) k = WaitUntil t (bind p k)"
| "bind (Log m p) k = Log m (bind p k)"

section \<open>The platform and the interpreter\<close>

record 's service =
  sv_view :: "'s \<Rightarrow> ns \<Rightarrow> string \<Rightarrow> string option"
  sv_clock :: "'s \<Rightarrow> int"
  sv_get :: "'s \<Rightarrow> ns \<Rightarrow> string \<Rightarrow> (string + string option) \<times> 's"
  sv_put :: "'s \<Rightarrow> ns \<Rightarrow> string \<Rightarrow> string \<Rightarrow> number option \<Rightarrow> string option \<times> 's"
  sv_delete :: "'s \<Rightarrow> ns \<Rightarrow> string \<Rightarrow> string option \<times> 's"
  sv_now :: "'s \<Rightarrow> int \<times> 's"
  sv_random :: "'s \<Rightarrow> nat \<Rightarrow> byte list \<times> 's"
  sv_generate_key :: "'s \<Rightarrow> (byte list \<times> byte list) \<times> 's"
  sv_fetch :: "'s \<Rightarrow> out_request list \<Rightarrow> fetch_result list \<times> 's"

datatype 'a outcome = Done 'a | Raised js_error

primrec run :: "'s service \<Rightarrow> 'a prog \<Rightarrow> 's \<Rightarrow> 'a outcome \<times> 's" where
  "run sv (Return a) s = (Done a, s)"
| "run sv (Throw e) s = (Raised e, s)"
| "run sv (KvGet n k f) s = (case sv_get sv s n k of (a, s') \<Rightarrow> run sv (f a) s')"
| "run sv (KvPut n k v t f) s = (case sv_put sv s n k v t of (a, s') \<Rightarrow> run sv (f a) s')"
| "run sv (KvDelete n k f) s = (case sv_delete sv s n k of (a, s') \<Rightarrow> run sv (f a) s')"
| "run sv (Now f) s = (case sv_now sv s of (a, s') \<Rightarrow> run sv (f a) s')"
| "run sv (Random n f) s = (case sv_random sv s n of (a, s') \<Rightarrow> run sv (f a) s')"
| "run sv (GenerateKey f) s = (case sv_generate_key sv s of (a, s') \<Rightarrow> run sv (f a) s')"
| "run sv (FetchAll rs f) s = (case sv_fetch sv s rs of (a, s') \<Rightarrow> run sv (f a) s')"
| "run sv (WaitUntil t p) s = run sv p s"
| "run sv (Log m p) s = run sv p s"

text \<open>The calls a run makes, in order.\<close>

datatype event =
    EvGet ns string
  | EvPut ns string string "number option"
  | EvDelete ns string
  | EvFetch "out_request list"
  | EvWaitUntil task
  | EvLog string

primrec trace :: "'s service \<Rightarrow> 'a prog \<Rightarrow> 's \<Rightarrow> event list" where
  "trace sv (Return a) s = []"
| "trace sv (Throw e) s = []"
| "trace sv (KvGet n k f) s = EvGet n k # (case sv_get sv s n k of (a, s') \<Rightarrow> trace sv (f a) s')"
| "trace sv (KvPut n k v t f) s = EvPut n k v t # (case sv_put sv s n k v t of (a, s') \<Rightarrow> trace sv (f a) s')"
| "trace sv (KvDelete n k f) s = EvDelete n k # (case sv_delete sv s n k of (a, s') \<Rightarrow> trace sv (f a) s')"
| "trace sv (Now f) s = (case sv_now sv s of (a, s') \<Rightarrow> trace sv (f a) s')"
| "trace sv (Random n f) s = (case sv_random sv s n of (a, s') \<Rightarrow> trace sv (f a) s')"
| "trace sv (GenerateKey f) s = (case sv_generate_key sv s of (a, s') \<Rightarrow> trace sv (f a) s')"
| "trace sv (FetchAll rs f) s = EvFetch rs # (case sv_fetch sv s rs of (a, s') \<Rightarrow> trace sv (f a) s')"
| "trace sv (WaitUntil t p) s = EvWaitUntil t # trace sv p s"
| "trace sv (Log m p) s = EvLog m # trace sv p s"

section \<open>The documented behaviour of the platform\<close>

definition ttl_ok :: "number option \<Rightarrow> bool" where
  "ttl_ok t = (case t of None \<Rightarrow> True | Some None \<Rightarrow> False | Some (Some n) \<Rightarrow> 60 \<le> n)"

definition keeps :: "'s service \<Rightarrow> 's \<Rightarrow> 's \<Rightarrow> bool" where
  "keeps sv s s' \<longleftrightarrow> sv_view sv s' = sv_view sv s \<and> sv_clock sv s' = sv_clock sv s"

definition isolated :: "'s service \<Rightarrow> bool" where
  "isolated sv \<longleftrightarrow>
     (\<forall>s n k. fst (sv_get sv s n k) = Inr (sv_view sv s n k) \<and> keeps sv s (snd (sv_get sv s n k))) \<and>
     (\<forall>s n k v t. ttl_ok t \<longrightarrow>
        fst (sv_put sv s n k v t) = None \<and>
        sv_view sv (snd (sv_put sv s n k v t)) = (sv_view sv s)(n := (sv_view sv s n)(k \<mapsto> v)) \<and>
        sv_clock sv (snd (sv_put sv s n k v t)) = sv_clock sv s) \<and>
     (\<forall>s n k.
        fst (sv_delete sv s n k) = None \<and>
        sv_view sv (snd (sv_delete sv s n k)) = (sv_view sv s)(n := (sv_view sv s n)(k := None)) \<and>
        sv_clock sv (snd (sv_delete sv s n k)) = sv_clock sv s) \<and>
     (\<forall>s. fst (sv_now sv s) = sv_clock sv s \<and> keeps sv s (snd (sv_now sv s))) \<and>
     (\<forall>s n. length (fst (sv_random sv s n)) = n \<and> keeps sv s (snd (sv_random sv s n))) \<and>
     (\<forall>s. keeps sv s (snd (sv_generate_key sv s))) \<and>
     (\<forall>s rs. length (fst (sv_fetch sv s rs)) = length rs \<and> keeps sv s (snd (sv_fetch sv s rs)))"

lemma isolated_get: "isolated sv \<Longrightarrow> fst (sv_get sv s n k) = Inr (sv_view sv s n k)"
  and isolated_put: "isolated sv \<Longrightarrow> ttl_ok t \<Longrightarrow> fst (sv_put sv s n k v t) = None"
  and isolated_delete: "isolated sv \<Longrightarrow> fst (sv_delete sv s n k) = None"
  and isolated_now: "isolated sv \<Longrightarrow> fst (sv_now sv s) = sv_clock sv s"
  and isolated_random: "isolated sv \<Longrightarrow> length (fst (sv_random sv s m)) = m"
  and isolated_fetch: "isolated sv \<Longrightarrow> length (fst (sv_fetch sv s rs)) = length rs"
  by (simp_all add: isolated_def)

lemma view_get [view_simps]: "isolated sv \<Longrightarrow> sv_view sv (snd (sv_get sv s n k)) = sv_view sv s"
  and view_put [view_simps]: "isolated sv \<Longrightarrow> ttl_ok t \<Longrightarrow>
    sv_view sv (snd (sv_put sv s n k v t)) = (sv_view sv s)(n := (sv_view sv s n)(k \<mapsto> v))"
  and view_delete [view_simps]: "isolated sv \<Longrightarrow>
    sv_view sv (snd (sv_delete sv s n k)) = (sv_view sv s)(n := (sv_view sv s n)(k := None))"
  and view_now [view_simps]: "isolated sv \<Longrightarrow> sv_view sv (snd (sv_now sv s)) = sv_view sv s"
  and view_random [view_simps]: "isolated sv \<Longrightarrow> sv_view sv (snd (sv_random sv s m)) = sv_view sv s"
  and view_key [view_simps]: "isolated sv \<Longrightarrow> sv_view sv (snd (sv_generate_key sv s)) = sv_view sv s"
  and view_fetch [view_simps]: "isolated sv \<Longrightarrow> sv_view sv (snd (sv_fetch sv s rs)) = sv_view sv s"
  by (simp_all add: isolated_def keeps_def)

lemma clock_get [view_simps]: "isolated sv \<Longrightarrow> sv_clock sv (snd (sv_get sv s n k)) = sv_clock sv s"
  and clock_put [view_simps]: "isolated sv \<Longrightarrow> ttl_ok t \<Longrightarrow> sv_clock sv (snd (sv_put sv s n k v t)) = sv_clock sv s"
  and clock_delete [view_simps]: "isolated sv \<Longrightarrow> sv_clock sv (snd (sv_delete sv s n k)) = sv_clock sv s"
  and clock_now [view_simps]: "isolated sv \<Longrightarrow> sv_clock sv (snd (sv_now sv s)) = sv_clock sv s"
  and clock_random [view_simps]: "isolated sv \<Longrightarrow> sv_clock sv (snd (sv_random sv s m)) = sv_clock sv s"
  and clock_key [view_simps]: "isolated sv \<Longrightarrow> sv_clock sv (snd (sv_generate_key sv s)) = sv_clock sv s"
  and clock_fetch [view_simps]: "isolated sv \<Longrightarrow> sv_clock sv (snd (sv_fetch sv s rs)) = sv_clock sv s"
  by (simp_all add: isolated_def keeps_def)

lemma ttl_ok_simps [simp]: "ttl_ok None" "ttl_ok (Some (Some n)) \<longleftrightarrow> 60 \<le> n" "\<not> ttl_ok (Some None)"
  by (simp_all add: ttl_ok_def)

section \<open>One effect executed\<close>

lemma run_kvGet [run_simps]:
  "isolated sv \<Longrightarrow> run sv (kvGet n k f) s = run sv (f (sv_view sv s n k)) (snd (sv_get sv s n k))"
  by (simp add: kvGet_def split_beta isolated_get)

lemma run_kvPut [run_simps]:
  "isolated sv \<Longrightarrow> ttl_ok t \<Longrightarrow> run sv (kvPut n k v t p) s = run sv p (snd (sv_put sv s n k v t))"
  by (simp add: kvPut_def split_beta isolated_put)

lemma run_kvDelete [run_simps]:
  "isolated sv \<Longrightarrow> run sv (kvDelete n k p) s = run sv p (snd (sv_delete sv s n k))"
  by (simp add: kvDelete_def split_beta isolated_delete)

lemma run_Now [run_simps]:
  "isolated sv \<Longrightarrow> run sv (Now f) s = run sv (f (sv_clock sv s)) (snd (sv_now sv s))"
  by (simp add: split_beta isolated_now)

lemma run_Random [run_simps]:
  "run sv (Random m f) s = run sv (f (fst (sv_random sv s m))) (snd (sv_random sv s m))"
  by (simp add: split_beta)

lemma run_GenerateKey [run_simps]:
  "run sv (GenerateKey f) s = run sv (f (fst (sv_generate_key sv s))) (snd (sv_generate_key sv s))"
  by (simp add: split_beta)

lemma run_FetchAll [run_simps]:
  "run sv (FetchAll rs f) s = run sv (f (fst (sv_fetch sv s rs))) (snd (sv_fetch sv s rs))"
  by (simp add: split_beta)

lemma run_fetch1 [run_simps]:
  "isolated sv \<Longrightarrow> run sv (fetch1 r f) s = run sv (f (hd (fst (sv_fetch sv s [r])))) (snd (sv_fetch sv s [r]))"
  using isolated_fetch [of sv s "[r]"] by (auto simp: fetch1_def split_beta split: list.splits)

lemma run_attempt [run_simps]:
  "run sv (attempt (Inr v) f) s = run sv (f v) s" "run sv (attempt (Inl e) f) s = (Raised e, s)"
  by (simp_all add: attempt_def)

lemma attempt_simps [simp]: "attempt (Inr v) f = f v" "attempt (Inl e) f = Throw e"
  by (simp_all add: attempt_def)

declare run.simps(3-9) [simp del]

lemma trace_kvGet [trace_simps]:
  "isolated sv \<Longrightarrow> trace sv (kvGet n k f) s = EvGet n k # trace sv (f (sv_view sv s n k)) (snd (sv_get sv s n k))"
  by (simp add: kvGet_def split_beta isolated_get)

lemma trace_kvPut [trace_simps]:
  "isolated sv \<Longrightarrow> ttl_ok t \<Longrightarrow> trace sv (kvPut n k v t p) s = EvPut n k v t # trace sv p (snd (sv_put sv s n k v t))"
  by (simp add: kvPut_def split_beta isolated_put)

lemma trace_kvDelete [trace_simps]:
  "isolated sv \<Longrightarrow> trace sv (kvDelete n k p) s = EvDelete n k # trace sv p (snd (sv_delete sv s n k))"
  by (simp add: kvDelete_def split_beta isolated_delete)

lemma trace_Now [trace_simps]:
  "isolated sv \<Longrightarrow> trace sv (Now f) s = trace sv (f (sv_clock sv s)) (snd (sv_now sv s))"
  by (simp add: split_beta isolated_now)

lemma trace_Random [trace_simps]:
  "trace sv (Random m f) s = trace sv (f (fst (sv_random sv s m))) (snd (sv_random sv s m))"
  by (simp add: split_beta)

lemma trace_GenerateKey [trace_simps]:
  "trace sv (GenerateKey f) s = trace sv (f (fst (sv_generate_key sv s))) (snd (sv_generate_key sv s))"
  by (simp add: split_beta)

lemma trace_FetchAll [trace_simps]:
  "trace sv (FetchAll rs f) s = EvFetch rs # trace sv (f (fst (sv_fetch sv s rs))) (snd (sv_fetch sv s rs))"
  by (simp add: split_beta)

lemma trace_fetch1 [trace_simps]:
  "isolated sv \<Longrightarrow> trace sv (fetch1 r f) s =
     EvFetch [r] # trace sv (f (hd (fst (sv_fetch sv s [r])))) (snd (sv_fetch sv s [r]))"
  using isolated_fetch [of sv s "[r]"] by (auto simp: fetch1_def split_beta split: list.splits)

declare trace.simps(3-9) [simp del]

section \<open>What a program can do on any platform\<close>

text \<open>
  \<open>emits P p\<close>: every KV write, deletion, fetch, background task or log line of \<open>p\<close>,
  whatever the platform answers, satisfies \<open>P\<close>.
\<close>

primrec emits :: "(event \<Rightarrow> bool) \<Rightarrow> 'a prog \<Rightarrow> bool" where
  "emits P (Return a) \<longleftrightarrow> True"
| "emits P (Throw e) \<longleftrightarrow> True"
| "emits P (KvGet n k f) \<longleftrightarrow> P (EvGet n k) \<and> (\<forall>a. emits P (f a))"
| "emits P (KvPut n k v t f) \<longleftrightarrow> P (EvPut n k v t) \<and> (\<forall>a. emits P (f a))"
| "emits P (KvDelete n k f) \<longleftrightarrow> P (EvDelete n k) \<and> (\<forall>a. emits P (f a))"
| "emits P (Now f) \<longleftrightarrow> (\<forall>a. emits P (f a))"
| "emits P (Random n f) \<longleftrightarrow> (\<forall>a. emits P (f a))"
| "emits P (GenerateKey f) \<longleftrightarrow> (\<forall>a. emits P (f a))"
| "emits P (FetchAll rs f) \<longleftrightarrow> P (EvFetch rs) \<and> (\<forall>a. emits P (f a))"
| "emits P (WaitUntil t p) \<longleftrightarrow> P (EvWaitUntil t) \<and> emits P p"
| "emits P (Log m p) \<longleftrightarrow> P (EvLog m) \<and> emits P p"

lemma emits_trace: "emits P p \<Longrightarrow> e \<in> set (trace sv p s) \<Longrightarrow> P e"
  by (induction p arbitrary: s) (auto simp: trace.simps split: prod.splits)

lemma emits_kvGet [emit_simps]: "emits P (kvGet n k f) \<longleftrightarrow> P (EvGet n k) \<and> (\<forall>v. emits P (f v))"
  by (auto simp: kvGet_def split: sum.splits)

lemma emits_kvPut [emit_simps]: "emits P (kvPut n k v t p) \<longleftrightarrow> P (EvPut n k v t) \<and> emits P p"
  by (auto simp: kvPut_def split: option.splits)

lemma emits_kvDelete [emit_simps]: "emits P (kvDelete n k p) \<longleftrightarrow> P (EvDelete n k) \<and> emits P p"
  by (auto simp: kvDelete_def split: option.splits)

lemma emits_fetch1 [emit_simps]: "(\<And>a. emits P (f a)) \<Longrightarrow> P (EvFetch [r]) \<Longrightarrow> emits P (fetch1 r f)"
  by (auto simp: fetch1_def split: list.splits)

lemma emits_attempt [emit_simps]: "emits P (attempt r f) \<longleftrightarrow> (\<forall>v. r = Inr v \<longrightarrow> emits P (f v))"
  by (auto simp: attempt_def split: sum.splits)

lemma emits_catch_with: "emits P p \<Longrightarrow> (\<And>e. emits P (h e)) \<Longrightarrow> emits P (catch_with h p)"
  by (induction p) auto

lemma catch_with_smart [simp]:
  "catch_with h (kvGet n k f) = KvGet n k (\<lambda>a. case a of Inl e \<Rightarrow> h (ServiceError e) | Inr v \<Rightarrow> catch_with h (f v))"
  "catch_with h (kvPut n k v t p) = KvPut n k v t (\<lambda>a. case a of Some e \<Rightarrow> h (ServiceError e) | None \<Rightarrow> catch_with h p)"
  "catch_with h (kvDelete n k p) = KvDelete n k (\<lambda>a. case a of Some e \<Rightarrow> h (ServiceError e) | None \<Rightarrow> catch_with h p)"
  by (auto simp: kvGet_def kvPut_def kvDelete_def fun_eq_iff split: sum.splits option.splits)

text \<open>A \<open>try/catch\<close> runs its body, and its handler from where the body raised.\<close>

lemma run_catch_with:
  "run sv (catch_with h p) s =
     (case run sv p s of (Done a, s') \<Rightarrow> (Done a, s') | (Raised e, s') \<Rightarrow> run sv (h e) s')"
  by (induction p arbitrary: s) (simp_all add: run.simps split: prod.splits)

lemma run_bind:
  "run sv (bind p k) s = (case run sv p s of (Done a, s') \<Rightarrow> run sv (k a) s' | (Raised e, s') \<Rightarrow> (Raised e, s'))"
  by (induction p arbitrary: s) (simp_all add: run.simps split: prod.splits)

lemma emits_bind: "emits P p \<Longrightarrow> (\<And>a. emits P (k a)) \<Longrightarrow> emits P (bind p k)"
  by (induction p) auto

lemma trace_try:
  "trace sv (catch_with h p) s =
     trace sv p s @ (case run sv p s of (Done a, s') \<Rightarrow> [] | (Raised e, s') \<Rightarrow> trace sv (h e) s')"
  by (induction p arbitrary: s) (simp_all add: run.simps trace.simps split: prod.splits)

lemma trace_then:
  "trace sv (bind p k) s =
     trace sv p s @ (case run sv p s of (Done a, s') \<Rightarrow> trace sv (k a) s' | (Raised e, s') \<Rightarrow> [])"
  by (induction p arbitrary: s) (simp_all add: run.simps trace.simps split: prod.splits)

lemma trace_catch_with: "e \<in> set (trace sv p s) \<Longrightarrow> e \<in> set (trace sv (catch_with h p) s)"
  by (induction p arbitrary: s) (auto simp: trace.simps split_beta)

section \<open>A platform that behaves as documented\<close>

record world =
  w_store :: "ns \<Rightarrow> string \<Rightarrow> string option"
  w_clock :: int
  w_seed :: nat

definition ideal :: "(out_request list \<Rightarrow> fetch_result list) \<Rightarrow> world service" where
  "ideal net =
     \<lparr> sv_view = w_store,
       sv_clock = w_clock,
       sv_get = (\<lambda>w n k. (Inr (w_store w n k), w)),
       sv_put = (\<lambda>w n k v t.
         if ttl_ok t then (None, w\<lparr>w_store := (w_store w)(n := (w_store w n)(k \<mapsto> v))\<rparr>)
         else (Some ''invalid expiration_ttl'', w)),
       sv_delete = (\<lambda>w n k. (None, w\<lparr>w_store := (w_store w)(n := (w_store w n)(k := None))\<rparr>)),
       sv_now = (\<lambda>w. (w_clock w, w)),
       sv_random = (\<lambda>w n. (replicate n (of_nat (w_seed w)), w\<lparr>w_seed := Suc (w_seed w)\<rparr>)),
       sv_generate_key = (\<lambda>w. ((replicate 32 (of_nat (w_seed w)), replicate 48 (of_nat (w_seed w))),
                               w\<lparr>w_seed := Suc (w_seed w)\<rparr>)),
       sv_fetch = (\<lambda>w rs. (map (\<lambda>i. if i < length (net rs) then net rs ! i else FetchFailed ''Error'' ''no answer'') [0..<length rs], w)) \<rparr>"

lemma ideal_isolated: "isolated (ideal net)"
  by (simp add: isolated_def ideal_def keeps_def)

lemma ideal_clock: "w_clock (snd (run (ideal net) p w)) = w_clock w"
  by (induction p arbitrary: w) (auto simp: run.simps ideal_def split: prod.splits)

end
