(* ===== verification/Codec.thy ===== *)
theory Codec
  imports JsValue
begin

unbundle bit_operations_syntax

text \<open>
  The encoding helpers at the top of the three workers: \<open>bytesToHex\<close> and both versions of
  \<open>hexToBytes\<close>, \<open>constantTimeEqual\<close>, \<open>leadingZeroBits\<close>, and the platform's base64 pair
  \<open>btoa\<close> / \<open>atob\<close> that the key storage uses.  The locale \<open>codec\<close> states what the clients
  of an encoding rely on; both codecs of the code interpret it.
\<close>

section \<open>What a codec promises\<close>

locale codec =
  fixes enc :: "byte list \<Rightarrow> string"
    and dec :: "string \<Rightarrow> js_error + byte list"
  assumes dec_enc: "dec (enc bs) = Inr bs"
begin

lemma enc_inject: "enc bs = enc cs \<longleftrightarrow> bs = cs"
  by (metis dec_enc sum.inject(2))

lemma enc_total: "\<exists>cs. dec (enc bs) = Inr cs \<and> enc cs = enc bs"
  by (simp add: dec_enc)

end

section \<open>Hexadecimal\<close>

definition to_string16 :: "nat \<Rightarrow> string" where
  "to_string16 n = (if n < 16 then [hex_digit n] else [hex_digit (n div 16), hex_digit (n mod 16)])"

definition pad_start :: "nat \<Rightarrow> char \<Rightarrow> string \<Rightarrow> string" where
  "pad_start w c s = replicate (w - length s) c @ s"

definition bytesToHex :: "byte list \<Rightarrow> string" where
  "bytesToHex bytes = concat (map (\<lambda>b. pad_start 2 (CHR ''0'') (to_string16 (unat b))) bytes)"

text \<open>\<open>parseInt(s, 16)\<close> and the conversion of its result on assignment to a \<open>Uint8Array\<close>.\<close>

definition parse_int16 :: "string \<Rightarrow> number" where
  "parse_int16 s =
     (let t = dropWhile is_ws s;
          neg = (t \<noteq> [] \<and> hd t = CHR ''-'');
          u = (if t \<noteq> [] \<and> (hd t = CHR ''-'' \<or> hd t = CHR ''+'') then tl t else t);
          v = (if lower (take 2 u) = ''0x'' then drop 2 u else u);
          ds = takeWhile is_hex_char v;
          n = int (foldl (\<lambda>a c. 16 * a + (case hex_val c of Some d \<Rightarrow> d | None \<Rightarrow> 0)) 0 ds)
      in if ds = [] then None else Some (if neg then - n else n))"

definition to_uint8 :: "number \<Rightarrow> byte" where
  "to_uint8 n = (case n of None \<Rightarrow> 0 | Some i \<Rightarrow> of_int i)"

definition hex_byte_at :: "string \<Rightarrow> nat \<Rightarrow> byte" where
  "hex_byte_at hex i = to_uint8 (parse_int16 (take 2 (drop (i * 2) hex)))"

definition hexToBytes :: "string \<Rightarrow> js_error + byte list" where
  "hexToBytes hex =
     (if length hex mod 2 \<noteq> 0 then Inl (UserError ''odd-length hex'')
      else Inr (map (hex_byte_at hex) [0..<length hex div 2]))"

text \<open>The Router's version has no length check; \<open>new Uint8Array(n / 2)\<close> rounds down.\<close>

definition router_hexToBytes :: "string \<Rightarrow> js_error + byte list" where
  "router_hexToBytes hex = Inr (map (hex_byte_at hex) [0..<length hex div 2])"

definition hex_pair :: "byte \<Rightarrow> string" where
  "hex_pair b = [hex_digit (unat b div 16), hex_digit (unat b mod 16)]"

lemma unat_byte_less: "unat (b :: byte) < 256"
  using unsigned_less [of b, where 'a = nat] by simp

lemma byte_of_nat_unat: "of_nat (unat (b :: byte)) = b"
  by simp

lemma hex_digit_0: "hex_digit 0 = CHR ''0''"
  by (simp add: hex_digit_def char_of_eq_iff)

lemma bytesToHex_pairs: "bytesToHex bytes = concat (map hex_pair bytes)"
proof -
  have "pad_start 2 (CHR ''0'') (to_string16 (unat b)) = hex_pair b" for b :: byte
    using hex_digit_0 by (simp add: pad_start_def to_string16_def hex_pair_def)
  then show ?thesis by (simp add: bytesToHex_def)
qed

lemma bytesToHex_simps [simp]: "bytesToHex [] = []" "bytesToHex (b # bs) = hex_pair b @ bytesToHex bs"
  by (simp_all add: bytesToHex_pairs)

lemma bytesToHex_eq_Nil [simp]: "bytesToHex bs = [] \<longleftrightarrow> bs = []"
  by (cases bs) (simp_all add: hex_pair_def)

lemma length_bytesToHex [simp]: "length (bytesToHex bs) = 2 * length bs"
  by (induction bs) (simp_all add: hex_pair_def)

lemma is_hex_char_hex_digit [simp]: "d < 16 \<Longrightarrow> is_hex_char (hex_digit d)"
  by (simp add: is_hex_char_def of_char_hex_digit Let_def)

lemma bytesToHex_hex: "list_all is_hex_char (bytesToHex bs)"
proof (induction bs)
  case (Cons b bs)
  have "unat b div 16 < 16" using unat_byte_less [of b] by linarith
  with Cons show ?case by (simp add: hex_pair_def)
qed simp

lemma lower_hex_digit [simp]: "d < 16 \<Longrightarrow> lower_char (hex_digit d) = hex_digit d"
  by (auto simp: lower_char_def of_char_hex_digit Let_def)

lemma lower_bytesToHex [simp]: "lower (bytesToHex bs) = bytesToHex bs"
proof (induction bs)
  case (Cons b bs)
  have "unat b div 16 < 16" using unat_byte_less [of b] by linarith
  with Cons show ?case by (simp add: hex_pair_def lower_def)
qed (simp add: lower_def)

lemma parse_int16_pair: "parse_int16 (hex_pair b) = Some (int (unat b))"
proof -
  let ?h = "unat b div 16" and ?l = "unat b mod 16"
  have h: "?h < 16" using unat_byte_less [of b] by linarith
  have l: "?l < 16" by simp
  have nws: "\<not> is_ws (hex_digit ?h)"
    using h by (auto simp: is_ws_def of_char_hex_digit)
  have "(of_char (hex_digit ?h) :: nat) \<noteq> of_char (CHR ''-'')" "(of_char (hex_digit ?h) :: nat) \<noteq> of_char (CHR ''+'')"
    using h by (simp_all add: of_char_hex_digit)
  then have ns: "hex_digit ?h \<noteq> CHR ''-''" "hex_digit ?h \<noteq> CHR ''+''" by auto
  have "(of_char (hex_digit ?l) :: nat) \<noteq> 120"
    using l unfolding of_char_hex_digit [OF l] by (simp split: if_split) linarith
  then have "(of_char (hex_digit ?l) :: nat) \<noteq> of_char (CHR ''x'')" by simp
  then have nx: "hex_digit ?l \<noteq> CHR ''x''" by auto
  have "lower (take 2 (hex_pair b)) = hex_pair b"
    using h l by (simp add: hex_pair_def lower_def)
  then have "lower (take 2 (hex_pair b)) \<noteq> ''0x''"
    using nx by (simp add: hex_pair_def)
  then show ?thesis
    using nws ns h l unfolding parse_int16_def hex_pair_def Let_def by simp
qed

lemma to_uint8_uint [simp]: "to_uint8 (Some (uint b)) = b"
  by (simp add: to_uint8_def)

lemma hex_bytes_bytesToHex: "map (hex_byte_at (bytesToHex bs)) [0..<length bs] = bs"
proof (induction bs)
  case (Cons b bs)
  have "hex_byte_at (bytesToHex (b # bs)) 0 = b"
    by (simp add: hex_byte_at_def hex_pair_def parse_int16_pair [unfolded hex_pair_def])
  moreover have "hex_byte_at (bytesToHex (b # bs)) (Suc i) = hex_byte_at (bytesToHex bs) i" for i
    by (simp add: hex_byte_at_def hex_pair_def)
  ultimately show ?case
    using Cons by (simp add: upt_conv_Cons map_Suc_upt [symmetric] comp_def del: upt_Suc bytesToHex_simps)
qed simp

lemma hexToBytes_bytesToHex: "hexToBytes (bytesToHex bs) = Inr bs"
  by (simp add: hexToBytes_def hex_bytes_bytesToHex)

lemma router_hexToBytes_bytesToHex: "router_hexToBytes (bytesToHex bs) = Inr bs"
  by (simp add: router_hexToBytes_def hex_bytes_bytesToHex)

interpretation hex: codec bytesToHex hexToBytes
  by unfold_locales (rule hexToBytes_bytesToHex)

interpretation router_hex: codec bytesToHex router_hexToBytes
  by unfold_locales (rule router_hexToBytes_bytesToHex)

lemma bytesToHex_inject [simp]: "bytesToHex bs = bytesToHex cs \<longleftrightarrow> bs = cs"
  by (rule hex.enc_inject)

lemma hex_re_bytesToHex: "hex_re (2 * length bs) (2 * length bs) (bytesToHex bs)"
  by (simp add: hex_re_def bytesToHex_hex)

section \<open>Base64\<close>

definition b64_char :: "nat \<Rightarrow> char" where
  "b64_char n =
     (if n < 26 then char_of (65 + n) else if n < 52 then char_of (71 + n)
      else if n < 62 then char_of (n - 4) else if n = 62 then CHR ''+'' else CHR ''/'')"

definition b64_val :: "char \<Rightarrow> nat option" where
  "b64_val c =
     (let n = (of_char c :: nat)
      in if 65 \<le> n \<and> n \<le> 90 then Some (n - 65) else if 97 \<le> n \<and> n \<le> 122 then Some (n - 71)
         else if 48 \<le> n \<and> n \<le> 57 then Some (n + 4) else if n = 43 then Some 62
         else if n = 47 then Some 63 else None)"

fun btoa :: "byte list \<Rightarrow> string" where
  "btoa [] = []"
| "btoa [a] = [b64_char (unat a div 4), b64_char (unat a mod 4 * 16), CHR ''='', CHR ''='']"
| "btoa [a, b] = [b64_char (unat a div 4), b64_char (unat a mod 4 * 16 + unat b div 16),
     b64_char (unat b mod 16 * 4), CHR ''='']"
| "btoa (a # b # c # r) = b64_char (unat a div 4) # b64_char (unat a mod 4 * 16 + unat b div 16) #
     b64_char (unat b mod 16 * 4 + unat c div 64) # b64_char (unat c mod 64) # btoa r"

definition strip_padding :: "string \<Rightarrow> string" where
  "strip_padding s =
     (if length s mod 4 = 0 \<and> s \<noteq> [] \<and> last s = CHR ''='' then
        (if butlast s \<noteq> [] \<and> last (butlast s) = CHR ''='' then butlast (butlast s) else butlast s)
      else s)"

fun decode_groups :: "nat list \<Rightarrow> byte list option" where
  "decode_groups [] = Some []"
| "decode_groups [w] = None"
| "decode_groups [w, x] = Some [of_nat (w * 4 + x div 16)]"
| "decode_groups [w, x, y] = Some [of_nat (w * 4 + x div 16), of_nat (x mod 16 * 16 + y div 4)]"
| "decode_groups (w # x # y # z # r) = map_option
     (\<lambda>bs. of_nat (w * 4 + x div 16) # of_nat (x mod 16 * 16 + y div 4) # of_nat (y mod 4 * 64 + z) # bs)
     (decode_groups r)"

definition atob :: "string \<Rightarrow> js_error + byte list" where
  "atob s =
     (let t = strip_padding (filter (\<lambda>c. of_char c \<notin> {9, 10, 12, 13, 32 :: nat}) s)
      in if \<forall>c\<in>set t. b64_val c \<noteq> None
         then (case decode_groups (map (\<lambda>c. case b64_val c of Some d \<Rightarrow> d | None \<Rightarrow> 0) t) of
                 Some bs \<Rightarrow> Inr bs | None \<Rightarrow> Inl (ServiceError ''InvalidCharacterError''))
         else Inl (ServiceError ''InvalidCharacterError''))"

lemma of_char_b64: "n < 64 \<Longrightarrow> of_char (b64_char n) =
    (if n < 26 then 65 + n else if n < 52 then 71 + n else if n < 62 then n - 4 else if n = 62 then 43 else 47 :: nat)"
  by (auto simp: b64_char_def)

lemma b64_val_char [simp]: "n < 64 \<Longrightarrow> b64_val (b64_char n) = Some n"
  by (auto simp: b64_val_def of_char_b64 Let_def)

lemma b64_char_plain: "n < 64 \<Longrightarrow> b64_char n \<noteq> CHR ''='' \<and> of_char (b64_char n) \<notin> {9, 10, 12, 13, 32 :: nat}"
proof -
  assume n: "n < 64"
  then have "(of_char (b64_char n) :: nat) \<noteq> 61" by (auto simp: of_char_b64)
  then have "(of_char (b64_char n) :: nat) \<noteq> of_char (CHR ''='')" by simp
  then have "b64_char n \<noteq> CHR ''=''" by auto
  with n show ?thesis by (auto simp: of_char_b64)
qed

text \<open>The six-bit groups \<open>btoa\<close> writes, and the padding after them.\<close>

fun b64_groups :: "byte list \<Rightarrow> nat list" where
  "b64_groups [] = []"
| "b64_groups [a] = [unat a div 4, unat a mod 4 * 16]"
| "b64_groups [a, b] = [unat a div 4, unat a mod 4 * 16 + unat b div 16, unat b mod 16 * 4]"
| "b64_groups (a # b # c # r) = unat a div 4 # (unat a mod 4 * 16 + unat b div 16) #
     (unat b mod 16 * 4 + unat c div 64) # unat c mod 64 # b64_groups r"

lemma sextets:
  "unat (a :: byte) div 4 < 64" "unat a mod 4 * 16 < 64" "unat a mod 16 * 4 < 64" "unat a mod 64 < 64"
  "unat a mod 4 * 16 + unat (b :: byte) div 16 < 64" "unat a mod 16 * 4 + unat b div 64 < 64"
  using unat_byte_less [of a] unat_byte_less [of b] by linarith+

lemma b64_groups_less: "list_all (\<lambda>n. n < 64) (b64_groups bs)"
  by (induction bs rule: b64_groups.induct) (simp_all add: sextets)

lemma regroup:
  "unat (a :: byte) div 4 * 4 + (unat a mod 4 * 16 + unat (b :: byte) div 16) div 16 = unat a"
  "(unat a mod 4 * 16 + unat b div 16) mod 16 * 16 + unat b mod 16 * 4 div 4 = unat b"
  "(unat a mod 4 * 16 + unat b div 16) mod 16 * 16 + (unat b mod 16 * 4 + unat c div 64) div 4 = unat b"
  "(unat b mod 16 * 4 + unat (c :: byte) div 64) mod 4 * 64 + unat c mod 64 = unat c"
proof -
  have b: "unat b div 16 < 16" and c: "unat c div 64 < 4"
    using unat_byte_less [of b] unat_byte_less [of c] by linarith+
  have 1: "(x * 16 + unat b div 16) div 16 = x" "(x * 16 + unat b div 16) mod 16 = unat b div 16" for x
    using b by simp_all
  have 2: "(x * 4 + unat c div 64) div 4 = x" "(x * 4 + unat c div 64) mod 4 = unat c div 64" for x
    using c by simp_all
  show "unat a div 4 * 4 + (unat a mod 4 * 16 + unat b div 16) div 16 = unat a"
    "(unat a mod 4 * 16 + unat b div 16) mod 16 * 16 + unat b mod 16 * 4 div 4 = unat b"
    "(unat a mod 4 * 16 + unat b div 16) mod 16 * 16 + (unat b mod 16 * 4 + unat c div 64) div 4 = unat b"
    "(unat b mod 16 * 4 + unat c div 64) mod 4 * 64 + unat c mod 64 = unat c"
    unfolding 1 2 by simp_all
qed

lemma decode_b64_groups: "decode_groups (b64_groups bs) = Some bs"
proof (induction bs rule: b64_groups.induct)
  case (2 a)
  have "unat a div 4 * 4 + (unat a mod 4 * 16) div 16 = unat a" by simp
  then show ?case unfolding b64_groups.simps decode_groups.simps by (simp only: byte_of_nat_unat)
next
  case (3 a b)
  show ?case
    unfolding b64_groups.simps decode_groups.simps by (simp only: regroup byte_of_nat_unat)
next
  case (4 a b c r)
  show ?case
    unfolding b64_groups.simps decode_groups.simps 4
    by (simp only: regroup byte_of_nat_unat option.map)
qed simp

lemma btoa_groups:
  "\<exists>p. btoa bs = map b64_char (b64_groups bs) @ replicate p (CHR ''='') \<and> p \<le> 2 \<and> length (btoa bs) mod 4 = 0"
proof (induction bs rule: b64_groups.induct)
  case 1
  show ?case by (rule exI [of _ 0]) simp
next
  case (2 a)
  show ?case by (rule exI [of _ 2]) (simp add: numeral_2_eq_2)
next
  case (3 a b)
  show ?case by (rule exI [of _ 1]) simp
next
  case (4 a b c r)
  then obtain p where "btoa r = map b64_char (b64_groups r) @ replicate p (CHR ''='')" "p \<le> 2"
    "length (btoa r) mod 4 = 0" by (elim exE conjE)
  then show ?case by (intro exI [of _ p]) simp
qed

lemma strip_padding_btoa: "strip_padding (btoa bs) = map b64_char (b64_groups bs)"
proof -
  let ?m = "map b64_char (b64_groups bs)"
  obtain p where p: "btoa bs = ?m @ replicate p (CHR ''='')" "p \<le> 2" "length (btoa bs) mod 4 = 0"
    using btoa_groups [of bs] by (elim exE conjE)
  have np: "c \<noteq> CHR ''=''" if "c \<in> set ?m" for c
    using that b64_groups_less [of bs] b64_char_plain by (auto simp: list_all_iff)
  have last: "?m \<noteq> [] \<Longrightarrow> last ?m \<noteq> CHR ''=''" using np last_in_set by blast
  consider "p = 0" | "p = 1" | "p = 2" using p(2) by linarith
  then show ?thesis
  proof cases
    case 1
    then show ?thesis using p last by (auto simp: strip_padding_def)
  next
    case 2
    then show ?thesis using p last by (auto simp: strip_padding_def butlast_append)
  next
    case 3
    then have "btoa bs = (?m @ [CHR ''='']) @ [CHR ''='']" using p(1) by (simp add: numeral_2_eq_2)
    then show ?thesis using p(3) by (simp only: strip_padding_def) (simp add: butlast_append)
  qed
qed

lemma btoa_Nil: "btoa bs = [] \<longleftrightarrow> bs = []"
  by (cases bs rule: btoa.cases) simp_all

lemma atob_btoa: "atob (btoa bs) = Inr bs"
proof -
  let ?ws = "\<lambda>c. of_char c \<notin> {9, 10, 12, 13, 32 :: nat}"
  obtain p where p: "btoa bs = map b64_char (b64_groups bs) @ replicate p (CHR ''='')"
    using btoa_groups [of bs] by (elim exE conjE)
  have "\<forall>c\<in>set (btoa bs). ?ws c"
    using p b64_groups_less [of bs] b64_char_plain by (auto simp: list_all_iff)
  then have f: "filter ?ws (btoa bs) = btoa bs" by (simp only: filter_id_conv)
  have ok: "\<forall>c\<in>set (map b64_char (b64_groups bs)). b64_val c \<noteq> None"
    using b64_groups_less [of bs] by (auto simp: list_all_iff)
  have "map (\<lambda>c. case b64_val c of Some d \<Rightarrow> d | None \<Rightarrow> 0) (map b64_char (b64_groups bs)) = b64_groups bs"
    using b64_groups_less [of bs] by (auto simp: list_all_iff intro!: map_idI)
  then show ?thesis
    unfolding atob_def f strip_padding_btoa Let_def if_P [OF ok]
    by (simp only: decode_b64_groups option.case)
qed

interpretation base64: codec btoa atob
  by unfold_locales (rule atob_btoa)

section \<open>Constant-time comparison\<close>

text \<open>Lengths and the accumulator are the 32-bit integers of JavaScript's \<open>^\<close> and \<open>|\<close>.\<close>

definition constantTimeEqual :: "string \<Rightarrow> string \<Rightarrow> bool" where
  "constantTimeEqual a b =
     (let aBytes = utf8 a; bBytes = utf8 b;
          len = max (max (length aBytes) (length bBytes)) 32;
          aPad = aBytes @ replicate (len - length aBytes) 0;
          bPad = bBytes @ replicate (len - length bBytes) 0;
          diff0 = (of_nat (length aBytes) XOR of_nat (length bBytes) :: 32 word);
          diff = foldl (\<lambda>d i. d OR ucast (aPad ! i XOR bPad ! i)) diff0 [0..<len]
      in diff = 0)"

lemma word_xor_eq_0: "a XOR b = 0 \<longleftrightarrow> a = (b :: 'a :: len word)"
proof
  assume "a XOR b = 0"
  then have "(a XOR b) XOR b = 0 XOR b" by (simp only:)
  then show "a = b" by (simp add: xor.assoc)
qed simp

lemma word_or_eq_0: "a OR b = 0 \<longleftrightarrow> a = 0 \<and> b = (0 :: 'a :: len word)"
  by (simp add: or_eq_0_iff)

lemma foldl_or_eq_0:
  "foldl (\<lambda>d i. d OR f i) d0 is = 0 \<longleftrightarrow> d0 = (0 :: 'a :: len word) \<and> (\<forall>i\<in>set is. f i = 0)"
  by (induction "is" arbitrary: d0) (auto simp: word_or_eq_0)

lemma ucast_byte_eq_0: "(ucast (x :: byte) :: 32 word) = 0 \<longleftrightarrow> x = 0"
proof
  assume z: "(ucast x :: 32 word) = 0"
  have "bit x n \<longleftrightarrow> bit (ucast x :: 32 word) n" for n
    by (auto simp: bit_simps dest: bit_imp_le_length)
  with z show "x = 0" by (simp add: bit_eq_iff)
qed simp

lemma constantTimeEqual_iff:
  assumes "length (utf8 a) < 2 ^ 32" and "length (utf8 b) < 2 ^ 32"
  shows "constantTimeEqual a b \<longleftrightarrow> a = b"
proof -
  let ?a = "utf8 a" and ?b = "utf8 b"
  let ?n = "max (max (length ?a) (length ?b)) 32"
  let ?pa = "?a @ replicate (?n - length ?a) 0" and ?pb = "?b @ replicate (?n - length ?b) 0"
  have len: "length ?pa = ?n" "length ?pb = ?n" by simp_all
  have lens: "(of_nat (length ?a) XOR of_nat (length ?b) :: 32 word) = 0 \<longleftrightarrow> length ?a = length ?b"
  proof
    assume "(of_nat (length ?a) XOR of_nat (length ?b) :: 32 word) = 0"
    then have "unat (of_nat (length ?a) :: 32 word) = unat (of_nat (length ?b) :: 32 word)"
      by (simp only: word_xor_eq_0)
    then show "length ?a = length ?b" using assms by (simp add: unat_of_nat)
  qed simp
  have bytes: "(\<forall>i<?n. ?pa ! i = ?pb ! i) \<longleftrightarrow> ?pa = ?pb"
    using len by (metis nth_equalityI)
  have "constantTimeEqual a b \<longleftrightarrow> length ?a = length ?b \<and> ?pa = ?pb"
    unfolding constantTimeEqual_def Let_def foldl_or_eq_0 lens bytes [symmetric]
    by (simp add: ucast_byte_eq_0 word_xor_eq_0 Ball_def)
  also have "\<dots> \<longleftrightarrow> ?a = ?b" by (metis append_eq_append_conv)
  finally show ?thesis by simp
qed

section \<open>Leading zero bits\<close>

text \<open>The inner \<open>while ((x & 0x80) === 0) { bits++; x <<= 1 }\<close> does not end on \<open>0\<close>.\<close>

partial_function (option) shiftLoop :: "32 word \<Rightarrow> nat \<Rightarrow> nat option" where
  "shiftLoop x bits = (if x AND 0x80 = 0 then shiftLoop (push_bit 1 x) (bits + 1) else Some bits)"

fun leadingZeroBits_from :: "byte list \<Rightarrow> nat \<Rightarrow> nat option" where
  "leadingZeroBits_from [] bits = Some bits"
| "leadingZeroBits_from (b # bytes) bits =
     (if b = 0 then leadingZeroBits_from bytes (bits + 8) else shiftLoop (ucast b) bits)"

definition leadingZeroBits :: "byte list \<Rightarrow> nat option" where
  "leadingZeroBits bytes = leadingZeroBits_from bytes 0"

text \<open>The bytes as one big-endian number.\<close>

fun be_value :: "byte list \<Rightarrow> nat" where
  "be_value [] = 0"
| "be_value (b # bytes) = unat b * 256 ^ length bytes + be_value bytes"

lemma be_value_less: "be_value bytes < 256 ^ length bytes"
proof (induction bytes)
  case (Cons b bytes)
  have "unat b * 256 ^ length bytes + be_value bytes < (unat b + 1) * 256 ^ length bytes"
    using Cons by simp
  also have "\<dots> \<le> 256 * 256 ^ length bytes"
    using unat_byte_less [of b] by (intro mult_right_mono) linarith+
  finally show ?case by simp
qed simp

lemma shift_test:
  assumes "j \<le> 7"
  shows "push_bit j (ucast (b :: byte) :: 32 word) AND 0x80 = 0 \<longleftrightarrow> \<not> bit b (7 - j)"
proof -
  have "(0x80 :: 32 word) = 2 ^ 7" by simp
  then have "push_bit j (ucast b :: 32 word) AND 0x80 = 0 \<longleftrightarrow> \<not> bit (push_bit j (ucast b :: 32 word)) 7"
    by (simp only: and_exp_eq_0_iff_not_bit)
  also have "\<dots> \<longleftrightarrow> \<not> bit b (7 - j)"
    using assms by (auto simp: bit_simps)
  finally show ?thesis .
qed

lemma shiftLoop_value:
  assumes "j \<le> 7" and "b \<noteq> 0" and "unat (b :: byte) < 2 ^ (8 - j)"
  shows "\<exists>k\<le>7 - j. shiftLoop (push_bit j (ucast b)) bits = Some (bits + k) \<and>
           2 ^ (7 - j - k) \<le> unat b \<and> unat b < 2 ^ (8 - j - k)"
  using assms
proof (induction "7 - j" arbitrary: j bits)
  case 0
  then have j: "j = 7" by simp
  have "0 < unat b" using 0 by (simp add: unat_gt_0)
  then have "unat b = 1" using 0 j by simp
  then have "b = 1" by (metis byte_of_nat_unat of_nat_1)
  then have "bit b 0" by simp
  then show ?case using j \<open>unat b = 1\<close>
    by (subst shiftLoop.simps) (simp add: shift_test)
next
  case (Suc n)
  have m: "bit b (7 - j) \<longleftrightarrow> odd (unat b div 2 ^ (7 - j))"
  proof -
    have "bit (unat b) (7 - j) \<longleftrightarrow> bit b (7 - j)" by (subst bit_unsigned_iff) simp
    then show ?thesis by (simp only: bit_iff_odd [of "unat b"])
  qed
  have lt: "unat b < 2 * 2 ^ (7 - j)"
  proof -
    have "8 - j = Suc (7 - j)" using Suc.prems(1) by linarith
    with Suc.prems(3) show ?thesis by (simp only: power_Suc)
  qed
  show ?case
  proof (cases "bit b (7 - j)")
    case True
    then have "unat b div 2 ^ (7 - j) \<noteq> 0" using m by (metis even_zero)
    then have "2 ^ (7 - j) \<le> unat b" by (simp add: div_eq_0_iff)
    with True Suc.prems show ?thesis
      by (intro exI [of _ 0], subst shiftLoop.simps) (simp add: shift_test)
  next
    case False
    have "unat b div 2 ^ (7 - j) < 2" using lt by (simp add: less_mult_imp_div_less)
    then have "unat b div 2 ^ (7 - j) = 0" using m False by (auto simp: less_2_cases_iff)
    then have lt': "unat b < 2 ^ (8 - Suc j)" by (simp add: div_eq_0_iff)
    have "n = 7 - Suc j" "Suc j \<le> 7" using Suc.hyps(2) by linarith+
    from Suc.hyps(1) [OF this Suc.prems(2) lt', of "bits + 1"]
    obtain k where k: "k \<le> 7 - Suc j"
      "shiftLoop (push_bit (Suc j) (ucast b)) (bits + 1) = Some (bits + 1 + k)"
      "2 ^ (7 - Suc j - k) \<le> unat b" "unat b < 2 ^ (8 - Suc j - k)" by blast
    have "shiftLoop (push_bit j (ucast b)) bits = shiftLoop (push_bit 1 (push_bit j (ucast b))) (bits + 1)"
      using False Suc.prems(1) by (subst shiftLoop.simps) (simp add: shift_test)
    also have "\<dots> = Some (bits + Suc k)"
      using k(2) by (simp add: push_bit_push_bit)
    finally show ?thesis
      using k Suc.hyps(2) by (intro exI [of _ "Suc k"]) simp
  qed
qed

lemma shiftLoop_byte:
  "b \<noteq> 0 \<Longrightarrow> \<exists>k\<le>7. shiftLoop (ucast (b :: byte)) bits = Some (bits + k) \<and> 2 ^ (7 - k) \<le> unat b \<and> unat b < 2 ^ (8 - k)"
  using shiftLoop_value [of 0 b bits] unat_byte_less [of b] by simp

text \<open>
  What the count means: \<open>d\<close> leading zero bits say that the digest, read as a big-endian
  number, is below \<open>2 ^ (8 * length - d)\<close>; and the loop ends on every input.
\<close>

lemma leadingZeroBits_from_value:
  "\<exists>k. leadingZeroBits_from bytes bits = Some (bits + k) \<and> k \<le> 8 * length bytes \<and>
     (\<forall>d\<le>8 * length bytes. d \<le> k \<longleftrightarrow> be_value bytes < 2 ^ (8 * length bytes - d))"
proof (induction bytes arbitrary: bits)
  case (Cons b bytes)
  let ?n = "length bytes"
  have pow: "(256 :: nat) ^ ?n = 2 ^ (8 * ?n)" by (simp add: power_mult)
  show ?case
  proof (cases "b = 0")
    case True
    obtain k where k: "leadingZeroBits_from bytes (bits + 8) = Some (bits + 8 + k)" "k \<le> 8 * ?n"
      "\<forall>d\<le>8 * ?n. d \<le> k \<longleftrightarrow> be_value bytes < 2 ^ (8 * ?n - d)"
      using Cons.IH by blast
    have "d \<le> k + 8 \<longleftrightarrow> be_value bytes < 2 ^ (8 * ?n + 8 - d)" if "d \<le> 8 * ?n + 8" for d
    proof (cases "d \<le> 8")
      case True
      then have "(2 :: nat) ^ (8 * ?n) \<le> 2 ^ (8 * ?n + 8 - d)" by (intro power_increasing) auto
      with True be_value_less [of bytes] pow show ?thesis by linarith
    next
      case False
      then have "8 * ?n + 8 - d = 8 * ?n - (d - 8)" and "d - 8 \<le> 8 * ?n" using that by linarith+
      with k(3) False show ?thesis by auto
    qed
    with True k show ?thesis by (intro exI [of _ "k + 8"]) (simp add: ac_simps)
  next
    case False
    obtain k where k: "k \<le> 7" "shiftLoop (ucast b) bits = Some (bits + k)"
      "2 ^ (7 - k) \<le> unat b" "unat b < 2 ^ (8 - k)"
      using shiftLoop_byte [OF False] by blast
    have "d \<le> k \<longleftrightarrow> unat b * 2 ^ (8 * ?n) + be_value bytes < 2 ^ (8 * ?n + 8 - d)"
      if "d \<le> 8 * ?n + 8" for d
    proof (cases "d \<le> 8")
      case True
      have split: "(2 :: nat) ^ (8 * ?n + 8 - d) = 2 ^ (8 - d) * 2 ^ (8 * ?n)"
        using True by (simp add: power_add [symmetric])
      have "unat b * 2 ^ (8 * ?n) + be_value bytes < 2 ^ (8 - d) * 2 ^ (8 * ?n) \<longleftrightarrow> unat b < 2 ^ (8 - d)"
      proof
        assume "unat b < 2 ^ (8 - d)"
        then have "Suc (unat b) * 2 ^ (8 * ?n) \<le> 2 ^ (8 - d) * 2 ^ (8 * ?n)" by (intro mult_right_mono) auto
        then show "unat b * 2 ^ (8 * ?n) + be_value bytes < 2 ^ (8 - d) * 2 ^ (8 * ?n)"
          using be_value_less [of bytes] pow by simp
      next
        assume "unat b * 2 ^ (8 * ?n) + be_value bytes < 2 ^ (8 - d) * 2 ^ (8 * ?n)"
        then have "unat b * 2 ^ (8 * ?n) < 2 ^ (8 - d) * 2 ^ (8 * ?n)" by linarith
        then show "unat b < 2 ^ (8 - d)" by simp
      qed
      moreover have "d \<le> k \<longleftrightarrow> unat b < 2 ^ (8 - d)"
      proof
        assume "d \<le> k"
        then have "(2 :: nat) ^ (8 - k) \<le> 2 ^ (8 - d)" by (intro power_increasing) auto
        with k(4) show "unat b < 2 ^ (8 - d)" by linarith
      next
        assume lt: "unat b < 2 ^ (8 - d)"
        show "d \<le> k"
        proof (rule ccontr)
          assume "\<not> d \<le> k"
          then have "(2 :: nat) ^ (8 - d) \<le> 2 ^ (7 - k)" by (intro power_increasing) auto
          with lt k(3) show False by linarith
        qed
      qed
      ultimately show ?thesis by (simp only: split)
    next
      case False
      then have "(2 :: nat) ^ (8 * ?n + 8 - d) \<le> 2 ^ (8 * ?n)" by (intro power_increasing) auto
      moreover have "0 < unat b" using \<open>b \<noteq> 0\<close> by (simp add: unat_gt_0)
      then have "(2 :: nat) ^ (8 * ?n) \<le> unat b * 2 ^ (8 * ?n)" by simp
      ultimately show ?thesis using False k(1) by linarith
    qed
    with False k pow show ?thesis by (intro exI [of _ k]) (simp add: ac_simps)
  qed
qed simp

lemma leadingZeroBits_total: "\<exists>k. leadingZeroBits bytes = Some k \<and> k \<le> 8 * length bytes"
  using leadingZeroBits_from_value [of bytes 0] by (auto simp: leadingZeroBits_def)

lemma leadingZeroBits_value:
  "leadingZeroBits bytes = Some k \<Longrightarrow> d \<le> 8 * length bytes \<Longrightarrow>
     d \<le> k \<longleftrightarrow> be_value bytes < 2 ^ (8 * length bytes - d)"
  using leadingZeroBits_from_value [of bytes 0] by (auto simp: leadingZeroBits_def)

end
