(* ===== verification/Platform.thy ===== *)
theory Platform
  imports Effects Codec
begin

text \<open>
  What all the handlers use: the WebCrypto functions (parameters, collected in a record
  \<open>cr\<close>), the bindings and variables of a worker (\<open>env\<close>), its numeric settings
  (\<open>cfg\<close>), the error texts as a datatype, and the response builders \<open>json\<close> and \<open>err\<close>.
\<close>

section \<open>WebCrypto\<close>

text \<open>
  \<open>ed_verify\<close> is \<open>None\<close> where \<open>importKey\<close> or \<open>verify\<close> rejects; \<open>ed_import\<close> says
  whether a PKCS8 private key is accepted.
\<close>

record crypto =
  sha256 :: "byte list \<Rightarrow> byte list"
  hmac :: "byte list \<Rightarrow> byte list \<Rightarrow> byte list"
  ed_import :: "byte list \<Rightarrow> bool"
  ed_sign :: "byte list \<Rightarrow> byte list \<Rightarrow> byte list"
  ed_verify :: "byte list \<Rightarrow> byte list \<Rightarrow> byte list \<Rightarrow> bool option"

text \<open>The documented relation of a key pair: what the private half signs, the public half verifies.\<close>

definition key_pair :: "crypto \<Rightarrow> byte list \<Rightarrow> byte list \<Rightarrow> bool" where
  "key_pair cr pub priv \<longleftrightarrow>
     ed_import cr priv \<and> (\<forall>m. ed_verify cr pub (ed_sign cr priv m) m = Some True)"

definition verifyEd25519Message :: "crypto \<Rightarrow> string \<Rightarrow> string \<Rightarrow> string \<Rightarrow> bool" where
  "verifyEd25519Message cr pubkeyHex signedMessage sigHex =
     (case hexToBytes pubkeyHex of
        Inl e \<Rightarrow> False
      | Inr pubkeyBytes \<Rightarrow>
          (case hexToBytes sigHex of
             Inl e \<Rightarrow> False
           | Inr sigBytes \<Rightarrow>
               (case ed_verify cr pubkeyBytes sigBytes (utf8 signedMessage) of
                  None \<Rightarrow> False
                | Some b \<Rightarrow> b)))"

definition sha256Hex :: "crypto \<Rightarrow> string \<Rightarrow> string" where
  "sha256Hex cr str = bytesToHex (sha256 cr (utf8 str))"

definition importShardPrivateKey :: "crypto \<Rightarrow> string \<Rightarrow> js_error + byte list" where
  "importShardPrivateKey cr pkcs8Base64 =
     (case atob pkcs8Base64 of
        Inl e \<Rightarrow> Inl e
      | Inr raw \<Rightarrow> if ed_import cr raw then Inr raw else Inl (ServiceError ''DataError''))"

definition signWithShardKey :: "crypto \<Rightarrow> byte list \<Rightarrow> string \<Rightarrow> string" where
  "signWithShardKey cr privKey message = bytesToHex (ed_sign cr privKey (utf8 message))"

definition randomHex :: "nat \<Rightarrow> (string \<Rightarrow> 'a prog) \<Rightarrow> 'a prog" where
  "randomHex bytes k = Random bytes (\<lambda>r. k (bytesToHex r))"

text \<open>A signature made with an imported key verifies under the hexadecimal of its public half.\<close>

lemma verify_own_signature:
  assumes "key_pair cr pub priv"
  shows "verifyEd25519Message cr (bytesToHex pub) m (signWithShardKey cr priv m)"
  using assms by (simp add: verifyEd25519Message_def signWithShardKey_def hexToBytes_bytesToHex key_pair_def)

lemma import_stored_key:
  "ed_import cr priv \<Longrightarrow> importShardPrivateKey cr (btoa priv) = Inr priv"
  by (simp add: importShardPrivateKey_def atob_btoa)

section \<open>Bindings and settings\<close>

record env =
  SERVER_SECRET :: "string option"
  ROUTER_SIGNING_KEY :: "string option"
  ROUTER_SIGNING_PUBLIC :: "string option"
  ROUTER_SHARED_SECRET :: "string option"
  ROUTER_URL :: "string option"
  SELF_URL :: "string option"
  SHARD_URLS :: "string option"
  PRIOR_SHARD_COUNTS :: "string option"
  ROUTING_TABLE_VERSION :: "string option"
  REPLICATION_FACTOR :: "string option"
  SHARD_POW_DIFFICULTY_BITS :: "string option"
  MAX_REGISTERED_SHARDS :: "string option"
  limit_var :: "string \<Rightarrow> string option"
  has_MAILBOX_KV :: bool
  has_ROUTER_ADMIN_KV :: bool

definition str_val :: "string option \<Rightarrow> jsval" where
  "str_val v = map_option JStr v"

definition is_set :: "string option \<Rightarrow> bool" where
  "is_set v \<longleftrightarrow> v \<noteq> None \<and> v \<noteq> Some []"

lemma is_set_simps [simp]: "\<not> is_set None" "is_set (Some s) \<longleftrightarrow> s \<noteq> []"
  by (simp_all add: is_set_def)

record cfg =
  MAX_MESSAGES :: number
  MAX_MSG_BYTES :: number
  TTL_SECONDS :: number
  MAILBOX_TTL_SECONDS :: number
  MAX_CLOCK_SKEW :: number
  MAX_SENDS_PER_SENDER :: number
  MAX_SENDS_PER_TARGET :: number
  MAX_SENDS_PER_IP :: number
  MAX_CREATES_PER_IP :: number
  MAX_REPLICATES_PER_ORIGIN :: number

definition DEFAULTS :: cfg where
  "DEFAULTS =
     \<lparr> MAX_MESSAGES = Some 50, MAX_MSG_BYTES = Some 32768, TTL_SECONDS = Some 1209600,
       MAILBOX_TTL_SECONDS = Some 31536000, MAX_CLOCK_SKEW = Some 30000,
       MAX_SENDS_PER_SENDER = Some 30, MAX_SENDS_PER_TARGET = Some 60, MAX_SENDS_PER_IP = Some 120,
       MAX_CREATES_PER_IP = Some 20, MAX_REPLICATES_PER_ORIGIN = Some 200 \<rparr>"

section \<open>Error texts\<close>

datatype auth_error =
    BadSenderPubkey
  | BadSenderTimestamp
  | BadSenderSignature
  | OutsideSkew number
  | ReplayDetected
  | SignatureFailed

fun auth_error_text :: "auth_error \<Rightarrow> string" where
  "auth_error_text BadSenderPubkey = ''sender.pubkey must be a 64-char lowercase hex Ed25519 public key''"
| "auth_error_text BadSenderTimestamp = ''sender.timestamp must be a unix millisecond timestamp string''"
| "auth_error_text BadSenderSignature = ''sender.signature must be a 128-char lowercase hex Ed25519 signature''"
| "auth_error_text (OutsideSkew n) =
     ''timestamp is outside the '' @ [CHR 0xB1] @ str_of_number n @ ''ms window (clock skew or replay)''"
| "auth_error_text ReplayDetected = ''request already used (replay detected)''"
| "auth_error_text SignatureFailed = ''signature verification failed''"

datatype shape_error = NotAnObject | UnknownType string | TooDeep

fun shape_error_text :: "shape_error \<Rightarrow> string" where
  "shape_error_text NotAnObject = ''message must decode to a JSON object''"
| "shape_error_text (UnknownType t) = ''envelope type '' @ [CHR 0x27] @ t @ [CHR 0x27] @ '' is not recognized''"
| "shape_error_text TooDeep = ''envelope exceeds max nesting depth (8)''"

datatype msg =
    BodyNotJson
  | MailboxIdNotHex
  | MailboxIdRequired
  | ReadSecretHashNotHex
  | ReadSecretRequired
  | CapExpRequired
  | CapSigRequired
  | ClientPubkeyNotHex
  | CapNonceRequired
  | InvalidCapability
  | TooManyCreates
  | TooManyRequests
  | TooManyReads
  | MessageRequired
  | MessageTooLong number
  | SenderPubkeyNotHex
  | SenderAuthFailed auth_error
  | SenderTooFast
  | TargetTooFast
  | IpTooFast
  | BadShape shape_error
  | MailboxNotFound
  | NotFound
  | StorageError
  | MailboxFull number
  | InvalidReadSecret
  | EntryIncomplete
  | OriginNotHex
  | TimestampRequired
  | SignatureNotHex
  | OutsideAllowedSkew
  | OriginTooFast
  | OriginUnknown
  | ReplicateSignatureFailed
  | TableSignatureNotHex
  | ShardUrlsRequired
  | ExpiresAtRequired
  | TableSignatureFailed
  | TableExpired
  | NoTableCached
  | Unauthorized
  | NonceBadLength
  | ProtocolBad
  | NonceRequired
  | SolutionRequired
  | RouterUrlRequired
  | SelfUrlMissing
  | RouterUnreachable string
  | RouterRejected nat string
  | Misconfigured
  | MailboxKvMissing
  | KvUnreachable string
  | InternalError string

fun msg_text :: "msg \<Rightarrow> string" where
  "msg_text BodyNotJson = ''Request body must be valid JSON''"
| "msg_text MailboxIdNotHex = ''mailbox_id must be a hex string''"
| "msg_text MailboxIdRequired = ''mailbox_id required''"
| "msg_text ReadSecretHashNotHex = ''read_secret_hash must be a 64-char hex SHA-256 digest''"
| "msg_text ReadSecretRequired = ''read_secret required''"
| "msg_text CapExpRequired = ''cap_exp is required''"
| "msg_text CapSigRequired = ''cap_sig is required''"
| "msg_text ClientPubkeyNotHex = ''client_pubkey must be 64-char hex for v2 capability''"
| "msg_text CapNonceRequired = ''cap_nonce is required for v2 capability''"
| "msg_text InvalidCapability = ''invalid or expired Router capability''"
| "msg_text TooManyCreates = ''Too many create requests, slow down''"
| "msg_text TooManyRequests = ''Too many requests''"
| "msg_text TooManyReads = ''Too many read requests, slow down''"
| "msg_text MessageRequired = ''message is required and must be a string''"
| "msg_text (MessageTooLong n) = ''message exceeds '' @ str_of_number n @ '' byte limit''"
| "msg_text SenderPubkeyNotHex = ''sender.pubkey must be a 64-char lowercase hex Ed25519 public key''"
| "msg_text (SenderAuthFailed e) = ''sender auth failed: '' @ auth_error_text e"
| "msg_text SenderTooFast = ''Too many messages sent from this identity, slow down''"
| "msg_text TargetTooFast = ''Too many messages to this recipient, slow down''"
| "msg_text IpTooFast = ''Too many send requests, slow down''"
| "msg_text (BadShape e) = shape_error_text e"
| "msg_text MailboxNotFound = ''Mailbox not found or expired''"
| "msg_text NotFound = ''not found''"
| "msg_text StorageError = ''Internal storage error''"
| "msg_text (MailboxFull n) = ''Mailbox is full (limit: '' @ str_of_number n @ '' messages)''"
| "msg_text InvalidReadSecret = ''invalid read_secret''"
| "msg_text EntryIncomplete = ''entry must include id and message''"
| "msg_text OriginNotHex = ''origin_shard_pubkey must be 64-char hex''"
| "msg_text TimestampRequired = ''timestamp required''"
| "msg_text SignatureNotHex = ''signature must be 128-char hex''"
| "msg_text OutsideAllowedSkew = ''timestamp outside allowed skew''"
| "msg_text OriginTooFast = ''Too many replicate requests from this origin, slow down''"
| "msg_text OriginUnknown = ''origin shard is not a Router-recognized identity''"
| "msg_text ReplicateSignatureFailed = ''replicate signature verification failed''"
| "msg_text TableSignatureNotHex = ''signature must be a 128-char hex Ed25519 signature''"
| "msg_text ShardUrlsRequired = ''shard_urls must be a non-empty array''"
| "msg_text ExpiresAtRequired = ''expires_at is required''"
| "msg_text TableSignatureFailed = ''routing table signature verification failed''"
| "msg_text TableExpired = ''pushed routing table is already expired''"
| "msg_text NoTableCached = ''no routing table cached on this shard yet - fall back to the Router's /routing_table.json''"
| "msg_text Unauthorized = ''Unauthorized''"
| "msg_text NonceBadLength = ''nonce must be a non-empty string (8-256 chars)''"
| "msg_text ProtocolBad = ''protocol must be a short identifier string''"
| "msg_text NonceRequired = ''nonce is required''"
| "msg_text SolutionRequired = ''solution is required''"
| "msg_text RouterUrlRequired = ''router_url is required (or set ROUTER_URL in wrangler.toml)''"
| "msg_text SelfUrlMissing = ''SELF_URL is not configured on this shard''"
| "msg_text (RouterUnreachable e) = ''Could not reach Router: '' @ e"
| "msg_text (RouterRejected st t) = ''Router rejected registration ('' @ str_of_nat st @ ''): '' @ t"
| "msg_text Misconfigured = ''Server misconfiguration''"
| "msg_text MailboxKvMissing = ''Server misconfiguration: MAILBOX_KV binding is not set up''"
| "msg_text (KvUnreachable e) = ''KV unreachable: '' @ e"
| "msg_text (InternalError e) = ''Internal server error: '' @ e"

section \<open>Responses\<close>

definition CORS_HEADERS :: "(string \<times> string) list" where
  "CORS_HEADERS =
     [(''Access-Control-Allow-Origin'', ''*''),
      (''Access-Control-Allow-Methods'', ''GET, POST, OPTIONS''),
      (''Access-Control-Allow-Headers'', ''Content-Type, Authorization'')]"

text \<open>\<open>{ ...base, ...extra }\<close> on headers.\<close>

definition spread :: "(string \<times> string) list \<Rightarrow> (string \<times> string) list \<Rightarrow> (string \<times> string) list" where
  "spread base extra =
     map (\<lambda>(k, v). (k, case map_of extra k of Some w \<Rightarrow> w | None \<Rightarrow> v)) base @
     filter (\<lambda>(k, v). k \<notin> fst ` set base) extra"

definition json :: "json \<Rightarrow> nat \<Rightarrow> (string \<times> string) list \<Rightarrow> response" where
  "json data status extraHeaders =
     \<lparr> resp_status = status,
       resp_headers = spread (CORS_HEADERS @ [(''Cache-Control'', ''no-store'')]) extraHeaders,
       resp_body = JsonBody data \<rparr>"

definition err :: "msg \<Rightarrow> nat \<Rightarrow> (string \<times> string) list \<Rightarrow> response" where
  "err message status extraHeaders = json (JObj [(''error'', JStr (msg_text message))]) status extraHeaders"

abbreviation retry_after_60 :: "(string \<times> string) list" where
  "retry_after_60 \<equiv> [(''Retry-After'', ''60'')]"

text \<open>An object literal; members that are \<open>undefined\<close> disappear in \<open>JSON.stringify\<close>.\<close>

definition mk_obj :: "(string \<times> jsval) list \<Rightarrow> json" where
  "mk_obj kvs = JObj (concat (map (\<lambda>(k, v). case v of None \<Rightarrow> [] | Some j \<Rightarrow> [(k, j)]) kvs))"

definition json_of_number :: "number \<Rightarrow> json" where
  "json_of_number n = (case n of None \<Rightarrow> JNull | Some i \<Rightarrow> JNum i)"

definition json_strs :: "string list \<Rightarrow> json" where
  "json_strs ss = JArr (map JStr ss)"

lemma resp_status_json [simp]: "resp_status (json d st hs) = st"
  and resp_body_json [simp]: "resp_body (json d st hs) = JsonBody d"
  and resp_status_err [simp]: "resp_status (err m st hs) = st"
  by (simp_all add: json_def err_def)

lemma json_response_eq: "json d st hs = json d' st' hs' \<Longrightarrow> d = d' \<and> st = st'"
  by (simp add: json_def)

text \<open>\<open>try { body = await request.json() } catch { return err(...) }\<close>.\<close>

definition request_json :: "request \<Rightarrow> (json \<Rightarrow> response prog) \<Rightarrow> response prog" where
  "request_json req k =
     (case json_parse (req_body req) of
        None \<Rightarrow> Return (err BodyNotJson 400 [])
      | Some body \<Rightarrow> k (or_val (Some body) (JObj [])))"

definition body_of :: "request \<Rightarrow> json option" where
  "body_of req = map_option (\<lambda>b. or_val (Some b) (JObj [])) (json_parse (req_body req))"

lemma request_json_body [simp]: "body_of req = Some body \<Longrightarrow> request_json req k = k body"
  and request_json_none [simp]: "body_of req = None \<Longrightarrow> request_json req k = Return (err BodyNotJson 400 [])"
  by (auto simp: body_of_def request_json_def split: option.splits)

lemma body_of_text: "req_body req = json_stringify (JObj kvs) \<Longrightarrow> wf_json (JObj kvs) \<Longrightarrow> body_of req = Some (JObj kvs)"
  by (simp add: body_of_def or_val_def del: wf_json.simps(2))

definition clientIp :: "request \<Rightarrow> string" where
  "clientIp req =
     (case map_of (req_headers req) ''CF-Connecting-IP'' of
        Some ip \<Rightarrow> if ip \<noteq> [] then ip else ''unknown''
      | None \<Rightarrow> ''unknown'')"

text \<open>The bearer check of the operator endpoints; \<open>cmp\<close> is how the worker compares.\<close>

definition bearer_ok :: "(string \<Rightarrow> string \<Rightarrow> bool) \<Rightarrow> env \<Rightarrow> request \<Rightarrow> bool" where
  "bearer_ok cmp env req =
     (case ROUTER_SHARED_SECRET env of
        Some secret \<Rightarrow>
          secret = [] \<or>
          (case bearer_match (case map_of (req_headers req) ''Authorization'' of Some h \<Rightarrow> h | None \<Rightarrow> []) of
             None \<Rightarrow> False
           | Some m \<Rightarrow> cmp m secret)
      | None \<Rightarrow> True)"

definition is_str :: "json \<Rightarrow> bool" where
  "is_str v = (case v of JStr s \<Rightarrow> True | _ \<Rightarrow> False)"

text \<open>What the KV namespace gave for a key, when it is neither missing nor the empty text.\<close>

definition present :: "string option \<Rightarrow> string option" where
  "present raw = (case raw of Some s \<Rightarrow> if s = [] then None else Some s | None \<Rightarrow> None)"

lemma present_simps [simp]: "present None = None" "s \<noteq> [] \<Longrightarrow> present (Some s) = Some s"
  by (simp_all add: present_def)

lemma is_str_simps [simp]: "is_str (JStr s)" "\<not> is_str JNull" "\<not> is_str (JNum n)"
  by (simp_all add: is_str_def)

end
