(* ===== verification/Placement.thy ===== *)
theory Placement
  imports Platform
begin

text \<open>
  Where a mailbox lives: the hash point of a pubkey, the shard of an era, the replica set
  on the ring, and the eras \<open>/resolve\<close> walks.  The locale \<open>placement\<close> is the contract the
  lookup relies on, interpreted on the Router's functions.
\<close>

section \<open>The contract of a placement\<close>

text \<open>
  \<open>place p n urls\<close> is the replica set of a point in era \<open>n\<close>.  Appending shards to the list
  leaves the eras that were valid before untouched, so a walk over the eras finds what was
  placed in any of them.
\<close>

locale placement =
  fixes place :: "nat \<Rightarrow> int \<Rightarrow> 'u list \<Rightarrow> 'u list"
    and valid :: "int \<Rightarrow> 'u list \<Rightarrow> bool"
  assumes place_nonempty: "valid n urls \<Longrightarrow> place p n urls \<noteq> []"
    and place_members: "valid n urls \<Longrightarrow> set (place p n urls) \<subseteq> set urls"
    and valid_append: "valid n urls \<Longrightarrow> valid n (urls @ new)"
    and place_append: "valid n urls \<Longrightarrow> place p n (urls @ new) = place p n urls"
begin

fun walk :: "('u \<Rightarrow> bool) \<Rightarrow> nat \<Rightarrow> int list \<Rightarrow> 'u list \<Rightarrow> int option" where
  "walk holds p [] urls = None"
| "walk holds p (n # ns) urls = (if holds (hd (place p n urls)) then Some n else walk holds p ns urls)"

lemma walk_Some: "walk holds p ns urls = Some n \<Longrightarrow> n \<in> set ns \<and> holds (hd (place p n urls))"
  by (induction ns) (auto split: if_splits)

lemma walk_None: "walk holds p ns urls = None \<longleftrightarrow> (\<forall>n\<in>set ns. \<not> holds (hd (place p n urls)))"
  by (induction ns) auto

lemma walk_finds:
  assumes "valid n urls" and "holds (hd (place p n urls))" and "n \<in> set ns"
  shows "\<exists>m. walk holds p ns (urls @ new) = Some m \<and> holds (hd (place p m (urls @ new)))"
proof (cases "walk holds p ns (urls @ new)")
  case None
  with assms show ?thesis by (auto simp: walk_None place_append)
next
  case (Some m)
  then show ?thesis using walk_Some by blast
qed

lemma primary_member: "valid n urls \<Longrightarrow> hd (place p n urls) \<in> set urls"
  using place_nonempty place_members by (meson list.set_sel(1) subsetD)

end

section \<open>Arrays and remainders\<close>

text \<open>\<open>a % b\<close> takes the sign of the dividend; \<open>xs[i]\<close> is \<open>undefined\<close> out of range.\<close>

definition js_mod :: "number \<Rightarrow> number \<Rightarrow> number" where
  "js_mod a b =
     (case (a, b) of
        (Some x, Some y) \<Rightarrow> if y = 0 then None else Some (sgn x * (\<bar>x\<bar> mod \<bar>y\<bar>))
      | _ \<Rightarrow> None)"

definition elem_at :: "jsval list \<Rightarrow> number \<Rightarrow> jsval" where
  "elem_at xs i =
     (case i of None \<Rightarrow> None | Some k \<Rightarrow> if 0 \<le> k \<and> nat k < length xs then xs ! nat k else None)"

definition num_add :: "number \<Rightarrow> int \<Rightarrow> number" where
  "num_add a i = map_option (\<lambda>x. x + i) a"

section \<open>The Router's placement functions\<close>

definition hashPoint :: "crypto \<Rightarrow> string \<Rightarrow> number" where
  "hashPoint cr str = parse_int16 (take 8 (sha256Hex cr str))"

definition ownerForEra :: "crypto \<Rightarrow> string \<Rightarrow> int \<Rightarrow> jsval list \<Rightarrow> jsval" where
  "ownerForEra cr pubkey n shardUrls = elem_at shardUrls (js_mod (hashPoint cr (lower pubkey)) (Some n))"

text \<open>\<open>[...new Set(xs)]\<close>: first occurrences, in order.\<close>

fun js_set :: "int list \<Rightarrow> int list" where
  "js_set [] = []"
| "js_set (x # xs) = x # js_set (filter (\<lambda>y. y \<noteq> x) xs)"

definition era_ok :: "nat \<Rightarrow> json \<Rightarrow> int option" where
  "era_ok len v = (case v of JNum n \<Rightarrow> if 0 < n \<and> n \<le> int len then Some n else None | _ \<Rightarrow> None)"

definition eraCountsDescending :: "jsval list \<Rightarrow> json list \<Rightarrow> int list" where
  "eraCountsDescending shardUrls priorCounts =
     (let currentN = JNum (int (length shardUrls));
          all = List.map_filter (era_ok (length shardUrls)) (currentN # priorCounts)
      in sort_key uminus (js_set all))"

definition replicaSetForEra :: "number \<Rightarrow> int \<Rightarrow> jsval list \<Rightarrow> number \<Rightarrow> jsval list" where
  "replicaSetForEra point n shardUrls r =
     (let start = js_mod point (Some n)
      in map (\<lambda>i. elem_at shardUrls (js_mod (num_add start (int i)) (Some n)))
           [0..<(case r of Some k \<Rightarrow> nat k | None \<Rightarrow> 0)])"

definition replicasForEra :: "crypto \<Rightarrow> string \<Rightarrow> int \<Rightarrow> jsval list \<Rightarrow> number \<Rightarrow> jsval list" where
  "replicasForEra cr pubkeyOrId n shardUrls r =
     replicaSetForEra (hashPoint cr (lower pubkeyOrId)) n shardUrls r"

definition replicationFactor :: "env \<Rightarrow> int \<Rightarrow> number" where
  "replicationFactor env n =
     (let want = (if is_set (REPLICATION_FACTOR env)
                  then number_of_string (case REPLICATION_FACTOR env of Some s \<Rightarrow> s | None \<Rightarrow> [])
                  else Some 1)
      in map_option (\<lambda>w. max 1 (min w n)) want)"

section \<open>The hash point is the first four bytes\<close>

lemma hex_val_digit_pair:
  "foldl (\<lambda>a c. 16 * a + (case hex_val c of Some d \<Rightarrow> d | None \<Rightarrow> 0)) a (hex_pair b) = 256 * a + unat b"
proof -
  have "unat b div 16 < 16" using unat_byte_less [of b] by linarith
  then show ?thesis by (simp add: hex_pair_def)
qed

lemma hex_value:
  "foldl (\<lambda>a c. 16 * a + (case hex_val c of Some d \<Rightarrow> d | None \<Rightarrow> 0)) a (bytesToHex bs) =
     a * 256 ^ length bs + be_value bs"
proof (induction bs arbitrary: a)
  case (Cons b bs)
  show ?case
    unfolding bytesToHex_simps foldl_append hex_val_digit_pair Cons.IH by (simp add: algebra_simps)
qed simp

lemma hex_not_special:
  assumes "is_hex_char c"
  shows "\<not> is_ws c" "c \<noteq> CHR ''-''" "c \<noteq> CHR ''+''" "lower_char c \<noteq> CHR ''x''"
proof -
  show "\<not> is_ws c" "c \<noteq> CHR ''-''" "c \<noteq> CHR ''+''"
    using assms by (auto simp: is_hex_char_def is_ws_def Let_def)
  have "is_hex_char (lower_char c)" using assms by simp
  moreover have "\<not> is_hex_char (CHR ''x'')" by (simp add: is_hex_char_def)
  ultimately show "lower_char c \<noteq> CHR ''x''" by metis
qed

lemma parse_int16_bytes:
  assumes "bs \<noteq> []"
  shows "parse_int16 (bytesToHex bs) = Some (int (be_value bs))"
proof -
  define h where "h = bytesToHex bs"
  obtain c d r where cdr: "h = c # d # r"
    using assms by (cases bs) (auto simp: hex_pair_def h_def)
  have hex: "list_all is_hex_char h" unfolding h_def by (rule bytesToHex_hex)
  then have cd: "is_hex_char c" "is_hex_char d" using cdr by auto
  have dw: "dropWhile is_ws h = h" using cdr hex_not_special(1) [OF cd(1)] by simp
  have sx: "(lower (take 2 h) = ''0x'') = False" using cdr hex_not_special(4) [OF cd(2)] by (simp add: lower_def)
  have tw: "takeWhile is_hex_char h = h" using hex by (simp add: takeWhile_eq_all_conv list_all_iff)
  have sg: "(hd h = CHR ''-'') = False" "(hd h = CHR ''+'') = False"
    using cdr hex_not_special [OF cd(1)] by auto
  have ne: "(h = []) = False" using cdr by simp
  have v: "foldl (\<lambda>a c. 16 * a + (case hex_val c of Some d \<Rightarrow> d | None \<Rightarrow> 0)) 0 h = be_value bs"
    using hex_value [of 0 bs] unfolding h_def by simp
  show ?thesis
    by (simp only: h_def [symmetric] parse_int16_def Let_def dw sg sx tw ne v simp_thms if_False)
qed

lemma hashPoint_bytes:
  assumes "4 \<le> length (sha256 cr (utf8 s))"
  shows "hashPoint cr s = Some (int (be_value (take 4 (sha256 cr (utf8 s)))))"
proof -
  let ?d = "sha256 cr (utf8 s)"
  have "bytesToHex ?d = bytesToHex (take 4 ?d) @ bytesToHex (drop 4 ?d)"
    by (simp add: bytesToHex_pairs flip: concat_append map_append)
  then have "take 8 (bytesToHex ?d) = bytesToHex (take 4 ?d)"
    using assms by (simp add: min_def)
  moreover have "take 4 ?d \<noteq> []" using assms by auto
  ultimately show ?thesis by (simp add: hashPoint_def sha256Hex_def parse_int16_bytes)
qed

section \<open>The replica set\<close>

lemma js_mod_pos: "0 \<le> x \<Longrightarrow> 0 < n \<Longrightarrow> js_mod (Some x) (Some n) = Some (x mod n)"
  by (cases "x = 0") (simp_all add: js_mod_def)

lemma elem_at_mod:
  assumes "0 < n" and "n \<le> int (length xs)"
  shows "elem_at xs (Some (x mod n)) = xs ! nat (x mod n)"
proof -
  have "0 \<le> x mod n" "nat (x mod n) < length xs"
    using assms pos_mod_bound [of n x] pos_mod_sign [of n x] by linarith+
  then show ?thesis by (simp add: elem_at_def)
qed

lemma replicaSet_ring:
  assumes "0 < n" and "n \<le> int (length urls)"
  shows "replicaSetForEra (Some (int p)) n urls (Some k) =
    map (\<lambda>i. urls ! nat ((int p + int i) mod n)) [0..<nat k]"
  using assms
  by (auto simp: replicaSetForEra_def js_mod_pos num_add_def elem_at_mod mod_add_left_eq)

lemma ring_distinct:
  assumes "distinct urls" and "0 < n" and "n \<le> int (length urls)" and "k \<le> n"
  shows "distinct (replicaSetForEra (Some (int p)) n urls (Some k))"
proof -
  have "inj_on (\<lambda>i. urls ! nat ((int p + int i) mod n)) {0..<nat k}"
  proof (rule inj_onI)
    fix i j assume i: "i \<in> {0..<nat k}" and j: "j \<in> {0..<nat k}"
      and eq: "urls ! nat ((int p + int i) mod n) = urls ! nat ((int p + int j) mod n)"
    let ?a = "(int p + int i) mod n" and ?b = "(int p + int j) mod n"
    have r: "0 \<le> ?a" "?a < n" "0 \<le> ?b" "?b < n" using assms(2) by simp_all
    then have "nat ?a < length urls" "nat ?b < length urls" using assms(3) by linarith+
    with eq assms(1) have "nat ?a = nat ?b" by (simp add: nth_eq_iff_index_eq)
    then have "?a = ?b" using r by (simp add: eq_nat_nat_iff)
    then have "(int i - int j) mod n = 0" by (metis add_diff_cancel_left mod_diff_cong mod_0 diff_self)
    then have d: "n dvd int i - int j" by (simp add: mod_eq_0_iff_dvd)
    have "\<bar>int i - int j\<bar> < n" using i j assms(4) by auto
    with d have "int i - int j = 0" using zdvd_not_zless [of "\<bar>int i - int j\<bar>" n] by (auto simp: dvd_abs_iff)
    then show "i = j" by simp
  qed
  then show ?thesis using assms by (simp add: replicaSet_ring distinct_map)
qed

lemma replicaSet_append:
  assumes "0 < n" and "n \<le> int (length urls)"
  shows "replicaSetForEra (Some (int p)) n (urls @ new) r = replicaSetForEra (Some (int p)) n urls r"
proof (cases r)
  case None
  then show ?thesis by (simp add: replicaSetForEra_def)
next
  case (Some k)
  have "nat (x mod n) < length urls" for x
    using assms pos_mod_bound [of n x] pos_mod_sign [of n x] by linarith
  then show ?thesis using assms Some by (simp add: replicaSet_ring nth_append)
qed

lemma replicationFactor_bounds:
  "1 \<le> n \<Longrightarrow> replicationFactor env n = Some k \<Longrightarrow> 1 \<le> k \<and> k \<le> n"
  by (auto simp: replicationFactor_def)

section \<open>The eras\<close>

lemma set_js_set [simp]: "set (js_set xs) = set xs"
  by (induction xs rule: js_set.induct) auto

lemma distinct_js_set [simp]: "distinct (js_set xs)"
  by (induction xs rule: js_set.induct) auto

lemma set_map_filter_era: "set (List.map_filter (era_ok len) vs) = {n. JNum n \<in> set vs \<and> 0 < n \<and> n \<le> int len}"
proof (induction vs)
  case (Cons v vs)
  then show ?case by (cases v) (auto simp: era_ok_def)
qed simp

lemma eras_set:
  "set (eraCountsDescending urls prior) =
     {n. (n = int (length urls) \<or> JNum n \<in> set prior) \<and> 0 < n \<and> n \<le> int (length urls)}"
  unfolding eraCountsDescending_def Let_def set_sort set_js_set set_map_filter_era by auto

lemma sorted_wrt_neq: "sorted_wrt P ys \<Longrightarrow> distinct ys \<Longrightarrow> sorted_wrt (\<lambda>x y. P x y \<and> x \<noteq> y) ys"
  by (induction ys) auto

lemma eras_descending: "sorted_wrt (>) (eraCountsDescending urls prior)"
proof -
  let ?e = "eraCountsDescending urls prior"
  have "sorted (map uminus ?e)" "distinct ?e"
    unfolding eraCountsDescending_def Let_def by (simp_all only: sorted_sort_key distinct_sort distinct_js_set)
  then have "sorted_wrt (\<lambda>x y. - x \<le> - y) ?e" "distinct ?e" by (simp_all only: sorted_map)
  then have "sorted_wrt (\<lambda>x y. - x \<le> - y \<and> x \<noteq> y) ?e" by (rule sorted_wrt_neq)
  then show ?thesis by (rule sorted_wrt_mono_rel [rotated]) auto
qed

interpretation ring: placement
  "\<lambda>p n urls. replicaSetForEra (Some (int p)) n urls (replicationFactor env n)"
  "\<lambda>n urls. 0 < n \<and> n \<le> int (length urls) \<and> replicationFactor env n \<noteq> None" for env
proof
  fix n :: int and urls new :: "jsval list" and p :: nat
  assume v: "0 < n \<and> n \<le> int (length urls) \<and> replicationFactor env n \<noteq> None"
  then obtain k where k0: "replicationFactor env n = Some k" by auto
  have "1 \<le> n" using v by simp
  note k = k0 replicationFactor_bounds [OF this k0]
  show "replicaSetForEra (Some (int p)) n urls (replicationFactor env n) \<noteq> []"
    using v k by (simp add: replicaSet_ring)
  have "nat (x mod n) < length urls" for x
    using v pos_mod_bound [of n x] pos_mod_sign [of n x] by linarith
  then show "set (replicaSetForEra (Some (int p)) n urls (replicationFactor env n)) \<subseteq> set urls"
    using v k by (auto simp: replicaSet_ring)
  show "0 < n \<and> n \<le> int (length (urls @ new)) \<and> replicationFactor env n \<noteq> None"
    using v by simp
  show "replicaSetForEra (Some (int p)) n (urls @ new) (replicationFactor env n) =
      replicaSetForEra (Some (int p)) n urls (replicationFactor env n)"
    using v by (simp add: replicaSet_append)
qed

end
