(* ===== verification/RateLimit.thy ===== *)
theory RateLimit
  imports Platform
begin

text \<open>
  The fixed-window rate limiters: \<open>rateLimit\<close> of the shard and \<open>adminRateLimit\<close> of the
  Router.  Both keep one counter per bucket and window in a KV namespace.  The locale
  \<open>fixed_window\<close> is the contract of a limiter used sequentially within one window, and its
  client lemma counts the admitted calls; both limiters interpret it.
\<close>

section \<open>The contract of a limiter\<close>

locale fixed_window =
  fixes ok :: "'w \<Rightarrow> bool"
    and used :: "'w \<Rightarrow> int"
    and limit :: int
    and admits :: "'w \<Rightarrow> bool"
    and after :: "'w \<Rightarrow> 'w"
  assumes ok_after: "ok w \<Longrightarrow> ok (after w)"
    and admits_iff: "ok w \<Longrightarrow> admits w \<longleftrightarrow> used w < limit"
    and used_after: "ok w \<Longrightarrow> used (after w) = (if used w < limit then used w + 1 else used w)"
begin

text \<open>\<open>n\<close> calls one after the other; how many of them are admitted.\<close>

fun admitted :: "nat \<Rightarrow> 'w \<Rightarrow> nat" where
  "admitted 0 w = 0"
| "admitted (Suc n) w = (if admits w then 1 else 0) + admitted n (after w)"

lemma admitted_count:
  "ok w \<Longrightarrow> int (admitted n w) = min (int n) (max 0 (limit - used w))"
proof (induction n arbitrary: w)
  case (Suc n)
  have "int (admitted n (after w)) = min (int n) (max 0 (limit - used (after w)))"
    by (rule Suc.IH) (rule ok_after [OF Suc.prems])
  then show ?case
    using Suc.prems by (auto simp: admits_iff used_after)
qed simp

lemma admitted_at_most: "ok w \<Longrightarrow> 0 \<le> used w \<Longrightarrow> 0 \<le> limit \<Longrightarrow> int (admitted n w) \<le> limit"
  by (simp add: admitted_count)

end

section \<open>The two limiters\<close>

definition window_key :: "string \<Rightarrow> int \<Rightarrow> int \<Rightarrow> string" where
  "window_key bucketKey windowSeconds now =
     ''rl:'' @ bucketKey @ '':'' @ str_of_int (now div (windowSeconds * 1000))"

definition counter_value :: "string option \<Rightarrow> number" where
  "counter_value raw = number_of_string (case present raw of Some s \<Rightarrow> s | None \<Rightarrow> ''0'')"

definition rateLimit :: "string \<Rightarrow> number \<Rightarrow> int \<Rightarrow> (bool \<Rightarrow> 'a prog) \<Rightarrow> 'a prog" where
  "rateLimit bucketKey limit windowSeconds k =
     Now (\<lambda>now.
       let key = window_key bucketKey windowSeconds now in
       kvGet MAILBOX_KV key (\<lambda>raw.
         let current = counter_value raw in
         if num_ge current limit then k False
         else kvPut MAILBOX_KV key (str_of_number (map_option (\<lambda>c. c + 1) current))
                (Some (Some (windowSeconds + 5))) (k True)))"

definition adminRateLimit :: "env \<Rightarrow> string \<Rightarrow> int \<Rightarrow> int \<Rightarrow> (bool \<Rightarrow> 'a prog) \<Rightarrow> 'a prog" where
  "adminRateLimit env bucketKey limit windowSeconds k =
     (if \<not> has_ROUTER_ADMIN_KV env then k True
      else Now (\<lambda>now.
        let key = window_key bucketKey windowSeconds now in
        kvGet ROUTER_ADMIN_KV key (\<lambda>raw.
          let current = counter_value raw in
          if num_ge current (Some limit) then k False
          else kvPut ROUTER_ADMIN_KV key (str_of_number (map_option (\<lambda>c. c + 1) current))
                 (Some (Some (windowSeconds + 5))) (k True))))"

text \<open>The decision, and the platform after it.\<close>

definition rl_key :: "'s service \<Rightarrow> 's \<Rightarrow> string \<Rightarrow> int \<Rightarrow> string" where
  "rl_key sv s bucket w = window_key bucket w (sv_clock sv s)"

definition rl_count :: "'s service \<Rightarrow> 's \<Rightarrow> ns \<Rightarrow> string \<Rightarrow> int \<Rightarrow> number" where
  "rl_count sv s n bucket w = counter_value (sv_view sv s n (rl_key sv s bucket w))"

definition rl_ok :: "'s service \<Rightarrow> 's \<Rightarrow> ns \<Rightarrow> string \<Rightarrow> number \<Rightarrow> int \<Rightarrow> bool" where
  "rl_ok sv s n bucket limit w \<longleftrightarrow> \<not> num_ge (rl_count sv s n bucket w) limit"

definition rl_next :: "'s service \<Rightarrow> 's \<Rightarrow> ns \<Rightarrow> string \<Rightarrow> number \<Rightarrow> int \<Rightarrow> 's" where
  "rl_next sv s n bucket limit w =
     (let s1 = snd (sv_get sv (snd (sv_now sv s)) n (rl_key sv s bucket w)) in
      if rl_ok sv s n bucket limit w
      then snd (sv_put sv s1 n (rl_key sv s bucket w)
             (str_of_number (map_option (\<lambda>c. c + 1) (rl_count sv s n bucket w))) (Some (Some (w + 5))))
      else s1)"

lemma run_rateLimit [run_simps]:
  assumes "isolated sv" and "55 \<le> w"
  shows "run sv (rateLimit b l w k) s =
     run sv (k (rl_ok sv s MAILBOX_KV b l w)) (rl_next sv s MAILBOX_KV b l w)"
  using assms
  by (simp add: rateLimit_def run_simps view_simps Let_def rl_ok_def rl_next_def rl_count_def rl_key_def)

lemma run_adminRateLimit [run_simps]:
  assumes "isolated sv" and "55 \<le> w" and "has_ROUTER_ADMIN_KV env"
  shows "run sv (adminRateLimit env b l w k) s =
     run sv (k (rl_ok sv s ROUTER_ADMIN_KV b (Some l) w)) (rl_next sv s ROUTER_ADMIN_KV b (Some l) w)"
  using assms
  by (simp add: adminRateLimit_def run_simps view_simps Let_def rl_ok_def rl_next_def rl_count_def rl_key_def)

lemma view_rl_next [view_simps]:
  assumes "isolated sv" and "55 \<le> w"
  shows "sv_view sv (rl_next sv s n b l w) =
     (if rl_ok sv s n b l w
      then (sv_view sv s)(n := (sv_view sv s n)(rl_key sv s b w \<mapsto>
             str_of_number (map_option (\<lambda>c. c + 1) (rl_count sv s n b w))))
      else sv_view sv s)"
  using assms by (simp add: rl_next_def Let_def view_simps)

lemma clock_rl_next [view_simps]:
  "isolated sv \<Longrightarrow> 55 \<le> w \<Longrightarrow> sv_clock sv (rl_next sv s n b l w) = sv_clock sv s"
  by (simp add: rl_next_def Let_def view_simps)

lemma rl_key_next [view_simps]:
  "isolated sv \<Longrightarrow> 55 \<le> w \<Longrightarrow> rl_key sv (rl_next sv s n b l w) b' w' = rl_key sv s b' w'"
  by (simp add: rl_key_def view_simps)

text \<open>A counter only ever holds the text of an integer.\<close>

definition counter_ok :: "'s service \<Rightarrow> 's \<Rightarrow> ns \<Rightarrow> string \<Rightarrow> int \<Rightarrow> bool" where
  "counter_ok sv s n b w \<longleftrightarrow> rl_count sv s n b w \<noteq> None"

lemma counter_value_text [simp]: "counter_value (Some (str_of_number (Some i))) = Some i"
  by (simp add: counter_value_def)

lemma counter_value_None [simp]: "counter_value None = Some 0"
  by (simp add: counter_value_def)

lemma rl_count_next:
  assumes "isolated sv" and "55 \<le> w" and "counter_ok sv s n b w"
  shows "rl_count sv (rl_next sv s n b l w) n b w =
    (if rl_ok sv s n b l w then map_option (\<lambda>c. c + 1) (rl_count sv s n b w) else rl_count sv s n b w)"
  using assms by (auto simp: rl_count_def [of _ "rl_next sv s n b l w"] view_simps counter_ok_def)
    (simp add: rl_count_def)

section \<open>Both limiters keep the contract\<close>

text \<open>
  A limiter in use: a platform, its state, the window, and a bucket whose counter is a
  number; one call of the handler code that returns its decision.
\<close>

definition attempt_ok :: "ns \<Rightarrow> string \<Rightarrow> int \<Rightarrow> 's service \<times> 's \<Rightarrow> bool" where
  "attempt_ok n b w p \<longleftrightarrow> isolated (fst p) \<and> 55 \<le> w \<and> counter_ok (fst p) (snd p) n b w"

definition attempt_used :: "ns \<Rightarrow> string \<Rightarrow> int \<Rightarrow> 's service \<times> 's \<Rightarrow> int" where
  "attempt_used n b w p = (case rl_count (fst p) (snd p) n b w of Some c \<Rightarrow> c | None \<Rightarrow> 0)"

definition shard_attempt :: "string \<Rightarrow> int \<Rightarrow> int \<Rightarrow> 's service \<times> 's \<Rightarrow> bool outcome \<times> 's" where
  "shard_attempt b l w p = run (fst p) (rateLimit b (Some l) w Return) (snd p)"

definition router_attempt :: "env \<Rightarrow> string \<Rightarrow> int \<Rightarrow> int \<Rightarrow> 's service \<times> 's \<Rightarrow> bool outcome \<times> 's" where
  "router_attempt env b l w p = run (fst p) (adminRateLimit env b l w Return) (snd p)"

lemma attempt_step:
  assumes "attempt_ok n b w p"
  shows "attempt_ok n b w (fst p, rl_next (fst p) (snd p) n b (Some l) w)"
    and "rl_ok (fst p) (snd p) n b (Some l) w \<longleftrightarrow> attempt_used n b w p < l"
    and "attempt_used n b w (fst p, rl_next (fst p) (snd p) n b (Some l) w) =
      (if attempt_used n b w p < l then attempt_used n b w p + 1 else attempt_used n b w p)"
  using assms by (auto simp: attempt_ok_def attempt_used_def counter_ok_def rl_count_next rl_ok_def)

interpretation shard_limiter: fixed_window
  "attempt_ok MAILBOX_KV b w" "attempt_used MAILBOX_KV b w" l
  "\<lambda>p. fst (shard_attempt b l w p) = Done True" "\<lambda>p. (fst p, snd (shard_attempt b l w p))" for b w l
proof
  fix p :: "'a service \<times> 'a"
  assume ok: "attempt_ok MAILBOX_KV b w p"
  then have r: "shard_attempt b l w p =
      (Done (rl_ok (fst p) (snd p) MAILBOX_KV b (Some l) w), rl_next (fst p) (snd p) MAILBOX_KV b (Some l) w)"
    by (simp add: shard_attempt_def attempt_ok_def run_simps)
  show "attempt_ok MAILBOX_KV b w (fst p, snd (shard_attempt b l w p))"
    "(fst (shard_attempt b l w p) = Done True) = (attempt_used MAILBOX_KV b w p < l)"
    "attempt_used MAILBOX_KV b w (fst p, snd (shard_attempt b l w p)) =
      (if attempt_used MAILBOX_KV b w p < l then attempt_used MAILBOX_KV b w p + 1 else attempt_used MAILBOX_KV b w p)"
    using attempt_step [OF ok, of l] by (simp_all add: r)
qed

interpretation router_limiter: fixed_window
  "\<lambda>p. has_ROUTER_ADMIN_KV env \<and> attempt_ok ROUTER_ADMIN_KV b w p" "attempt_used ROUTER_ADMIN_KV b w" l
  "\<lambda>p. fst (router_attempt env b l w p) = Done True" "\<lambda>p. (fst p, snd (router_attempt env b l w p))" for env b w l
proof
  fix p :: "'a service \<times> 'a"
  assume h: "has_ROUTER_ADMIN_KV env \<and> attempt_ok ROUTER_ADMIN_KV b w p"
  then have ok: "attempt_ok ROUTER_ADMIN_KV b w p" by simp
  from h have r: "router_attempt env b l w p =
      (Done (rl_ok (fst p) (snd p) ROUTER_ADMIN_KV b (Some l) w), rl_next (fst p) (snd p) ROUTER_ADMIN_KV b (Some l) w)"
    by (simp add: router_attempt_def attempt_ok_def run_simps)
  show "has_ROUTER_ADMIN_KV env \<and> attempt_ok ROUTER_ADMIN_KV b w (fst p, snd (router_attempt env b l w p))"
    "(fst (router_attempt env b l w p) = Done True) = (attempt_used ROUTER_ADMIN_KV b w p < l)"
    "attempt_used ROUTER_ADMIN_KV b w (fst p, snd (router_attempt env b l w p)) =
      (if attempt_used ROUTER_ADMIN_KV b w p < l then attempt_used ROUTER_ADMIN_KV b w p + 1 else attempt_used ROUTER_ADMIN_KV b w p)"
    using attempt_step [OF ok, of l] h by (simp_all add: r)
qed

text \<open>
  The calls of one bucket within one window, one after the other, as the code makes them.
\<close>

fun admitted_calls :: "(unit \<Rightarrow> bool prog) \<Rightarrow> nat \<Rightarrow> 's service \<Rightarrow> 's \<Rightarrow> nat" where
  "admitted_calls limiter 0 sv s = 0"
| "admitted_calls limiter (Suc n) sv s =
     (if fst (run sv (limiter ()) s) = Done True then 1 else 0) +
     admitted_calls limiter n sv (snd (run sv (limiter ()) s))"

lemma run_shard_attempt: "run sv (rateLimit b (Some l) w Return) s = shard_attempt b l w (sv, s)"
  and run_router_attempt: "run sv (adminRateLimit env b l w Return) s = router_attempt env b l w (sv, s)"
  by (simp_all add: shard_attempt_def router_attempt_def)

lemma admitted_calls_shard:
  "admitted_calls (\<lambda>_. rateLimit b (Some l) w Return) n sv s = shard_limiter.admitted b l w n (sv, s)"
  by (induction n arbitrary: s) (simp_all add: run_shard_attempt)

lemma admitted_calls_router:
  "admitted_calls (\<lambda>_. adminRateLimit env b l w Return) n sv s = router_limiter.admitted env b l w n (sv, s)"
  by (induction n arbitrary: s) (simp_all add: run_router_attempt)

end
