(* ===== verification/RouterConfig.thy ===== *)
theory RouterConfig
  imports Placement RateLimit
begin

text \<open>
  The Router's shared parts: its error texts and responses, its signing key and signature
  check, the configuration it reads from \<open>ROUTER_ADMIN_KV\<close> with the fallback to variables,
  and the signed routing table.
\<close>

definition ROUTING_TABLE_TTL_SECONDS :: int where
  "ROUTING_TABLE_TTL_SECONDS = 3600"

definition CAPABILITY_TTL_SECONDS :: int where
  "CAPABILITY_TTL_SECONDS = 31536000"

section \<open>Responses\<close>

datatype router_msg =
    R_BodyNotJson
  | R_PubkeyNotHex
  | R_TimestampRequired
  | R_SignatureNotHex
  | R_OutsideSkew
  | R_SignatureFailed
  | R_CreateFailed nat string
  | R_PubkeyQuery
  | R_RegistrationDisabled
  | R_TooManyChallenges
  | R_ShardUrlInvalid
  | R_ShardPubkeyNotHex
  | R_NonceRequired
  | R_SolutionRequired
  | R_TooManyRegistrations
  | R_NonceUnknown
  | R_ChallengeStorage
  | R_ChallengeExpired
  | R_PowTooWeak
  | R_SelfSignatureFailed
  | R_MeshFull number
  | R_NonceBadLength
  | R_ProtocolBad
  | R_RotationDisabled
  | R_OldPubkeyNotHex
  | R_NewPubkeyNotHex
  | R_SamePubkey
  | R_OldSigNotHex
  | R_NewSigNotHex
  | R_ShardNotFound
  | R_OldPubkeyMismatch
  | R_OldSigFailed
  | R_NewSigFailed
  | R_Unauthorized
  | R_Misconfigured
  | R_Internal

fun router_text :: "router_msg \<Rightarrow> string" where
  "router_text R_BodyNotJson = ''Request body must be valid JSON''"
| "router_text R_PubkeyNotHex = ''pubkey must be 64-char hex''"
| "router_text R_TimestampRequired = ''timestamp required''"
| "router_text R_SignatureNotHex = ''signature must be 128-char hex''"
| "router_text R_OutsideSkew = ''timestamp outside allowed skew''"
| "router_text R_SignatureFailed = ''signature verification failed''"
| "router_text (R_CreateFailed st t) =
     ''Failed to create mailbox on primary shard ('' @ str_of_nat st @ '': '' @ t @ '')''"
| "router_text R_PubkeyQuery = ''pubkey (64-char hex) query param required''"
| "router_text R_RegistrationDisabled =
     ''shard self-registration is disabled on this Router (no ROUTER_ADMIN_KV bound)''"
| "router_text R_TooManyChallenges = ''too many challenge requests, slow down''"
| "router_text R_ShardUrlInvalid = ''shard_url must be a valid http(s) URL''"
| "router_text R_ShardPubkeyNotHex = ''shard_pubkey must be 64-char hex''"
| "router_text R_NonceRequired = ''nonce is required''"
| "router_text R_SolutionRequired = ''solution is required''"
| "router_text R_TooManyRegistrations = ''too many shard registration attempts from this IP, slow down''"
| "router_text R_NonceUnknown = ''unknown, expired, or already-used nonce - request a fresh /pow_challenge''"
| "router_text R_ChallengeStorage = ''internal challenge storage error''"
| "router_text R_ChallengeExpired = ''PoW challenge expired''"
| "router_text R_PowTooWeak = ''proof-of-work does not meet required difficulty''"
| "router_text R_SelfSignatureFailed = ''self-signature verification failed''"
| "router_text (R_MeshFull n) = ''mesh is at capacity ('' @ str_of_number n @ '' shards) - contact the Router operator''"
| "router_text R_NonceBadLength = ''nonce must be a non-empty string (8-256 chars)''"
| "router_text R_ProtocolBad = ''protocol must be a short identifier string''"
| "router_text R_RotationDisabled = ''shard key rotation requires ROUTER_ADMIN_KV''"
| "router_text R_OldPubkeyNotHex = ''old_pubkey must be 64-char hex''"
| "router_text R_NewPubkeyNotHex = ''new_pubkey must be 64-char hex''"
| "router_text R_SamePubkey = ''new_pubkey must differ from old_pubkey''"
| "router_text R_OldSigNotHex = ''old_signature must be 128-char hex''"
| "router_text R_NewSigNotHex = ''new_signature must be 128-char hex''"
| "router_text R_ShardNotFound = ''shard not found in registered shards''"
| "router_text R_OldPubkeyMismatch = ''old_pubkey does not match current shard identity''"
| "router_text R_OldSigFailed = ''old key signature verification failed''"
| "router_text R_NewSigFailed = ''new key self-signature verification failed''"
| "router_text R_Unauthorized = ''Unauthorized''"
| "router_text R_Misconfigured = ''Router misconfiguration''"
| "router_text R_Internal = ''Internal router error''"

definition jsonOk :: "json \<Rightarrow> (string \<times> string) list \<Rightarrow> response" where
  "jsonOk data extraHeaders =
     \<lparr> resp_status = 200, resp_headers = spread CORS_HEADERS extraHeaders, resp_body = JsonBody data \<rparr>"

definition jsonErr :: "router_msg \<Rightarrow> nat \<Rightarrow> response" where
  "jsonErr message status =
     \<lparr> resp_status = status, resp_headers = CORS_HEADERS,
       resp_body = JsonBody (JObj [(''error'', JStr (router_text message))]) \<rparr>"

lemma resp_jsonOk [simp]: "resp_status (jsonOk d hs) = 200" "resp_body (jsonOk d hs) = JsonBody d"
  and resp_jsonErr [simp]: "resp_status (jsonErr m st) = st"
  by (simp_all add: jsonOk_def jsonErr_def)

lemma router_ok_not_err [simp]: "st \<noteq> 200 \<Longrightarrow> jsonErr m st \<noteq> jsonOk d hs" "st \<noteq> 200 \<Longrightarrow> jsonOk d hs \<noteq> jsonErr m st"
  by (auto simp: jsonOk_def jsonErr_def)

definition router_body :: "request \<Rightarrow> (json \<Rightarrow> response prog) \<Rightarrow> response prog" where
  "router_body req k =
     (case json_parse (req_body req) of
        None \<Rightarrow> Return (jsonErr R_BodyNotJson 400)
      | Some body \<Rightarrow> k (or_val (Some body) (JObj [])))"

lemma router_body_simps [simp]:
  "body_of req = Some body \<Longrightarrow> router_body req k = k body"
  "body_of req = None \<Longrightarrow> router_body req k = Return (jsonErr R_BodyNotJson 400)"
  by (auto simp: body_of_def router_body_def split: option.splits)

section \<open>The Router's key\<close>

definition signing_key :: "crypto \<Rightarrow> env \<Rightarrow> (byte list \<Rightarrow> 'a prog) \<Rightarrow> 'a prog" where
  "signing_key cr env k = attempt (importShardPrivateKey cr (js_string (str_val (ROUTER_SIGNING_KEY env)))) k"

definition hmacHex :: "crypto \<Rightarrow> string \<Rightarrow> string \<Rightarrow> string" where
  "hmacHex cr message secret = bytesToHex (hmac cr (utf8 secret) (utf8 message))"

text \<open>
  \<open>verifyEd25519\<close>: the Router's \<open>hexToBytes\<close> has no length check, and a signature that is
  not a string gives it no bytes.
\<close>

definition sig_bytes :: "jsval \<Rightarrow> js_error + byte list" where
  "sig_bytes v = (case v of Some (JStr s) \<Rightarrow> router_hexToBytes s | _ \<Rightarrow> Inr [])"

definition verifyEd25519 :: "crypto \<Rightarrow> string \<Rightarrow> string \<Rightarrow> jsval \<Rightarrow> bool" where
  "verifyEd25519 cr pubkeyHex message sigHex =
     (case router_hexToBytes pubkeyHex of
        Inl e \<Rightarrow> False
      | Inr pk \<Rightarrow>
          (case sig_bytes sigHex of
             Inl e \<Rightarrow> False
           | Inr sg \<Rightarrow> (case ed_verify cr pk sg (utf8 message) of None \<Rightarrow> False | Some b \<Rightarrow> b)))"

lemma router_verifies_own:
  "key_pair cr pub priv \<Longrightarrow> verifyEd25519 cr (bytesToHex pub) m (Some (JStr (signWithShardKey cr priv m)))"
  by (simp add: verifyEd25519_def sig_bytes_def signWithShardKey_def router_hexToBytes_bytesToHex key_pair_def)

text \<open>The Router's key is configured: the private half signs for the public half it publishes.\<close>

definition router_key :: "crypto \<Rightarrow> env \<Rightarrow> byte list \<Rightarrow> byte list \<Rightarrow> bool" where
  "router_key cr env pub priv \<longleftrightarrow>
     key_pair cr pub priv \<and> ROUTER_SIGNING_KEY env = Some (btoa priv) \<and>
     ROUTER_SIGNING_PUBLIC env = Some (bytesToHex pub)"

lemma signing_key_configured [simp]: "router_key cr env pub priv \<Longrightarrow> signing_key cr env k = k priv"
  by (simp add: signing_key_def router_key_def str_val_def js_string_def import_stored_key key_pair_def)

section \<open>Configuration\<close>

definition getRegisteredShards :: "env \<Rightarrow> (json list \<Rightarrow> 'a prog) \<Rightarrow> 'a prog" where
  "getRegisteredShards env k =
     (if \<not> has_ROUTER_ADMIN_KV env then k []
      else kvGet ROUTER_ADMIN_KV ''registered_shards'' (\<lambda>raw.
        case present raw of
          None \<Rightarrow> k []
        | Some text \<Rightarrow> k (case json_parse text of Some (JArr xs) \<Rightarrow> xs | _ \<Rightarrow> [])))"

text \<open>\<open>[...v]\<close>.\<close>

fun js_spread :: "json \<Rightarrow> js_error + jsval list" where
  "js_spread (JArr xs) = Inr (map Some xs)"
| "js_spread (JStr s) = Inr (map (\<lambda>c. Some (JStr [c])) s)"
| "js_spread _ = Inl TypeError"

text \<open>\<open>===\<close> on parsed values: two objects are never the same reference.\<close>

definition same_value :: "jsval \<Rightarrow> jsval \<Rightarrow> bool" where
  "same_value a b \<longleftrightarrow> a = b \<and> (case a of Some (JArr _) \<Rightarrow> False | Some (JObj _) \<Rightarrow> False | _ \<Rightarrow> True)"

definition merge_urls :: "jsval list \<Rightarrow> jsval list \<Rightarrow> jsval list" where
  "merge_urls base registered =
     foldl (\<lambda>merged url. if list_ex (same_value url) merged then merged else merged @ [url]) base registered"

text \<open>\<open>registered.map(s => s.k)\<close>.\<close>

fun map_prop :: "string \<Rightarrow> json list \<Rightarrow> js_error + jsval list" where
  "map_prop k [] = Inr []"
| "map_prop k (s # ss) =
     (case get_prop (Some s) k of
        Inl e \<Rightarrow> Inl e
      | Inr v \<Rightarrow> (case map_prop k ss of Inl e \<Rightarrow> Inl e | Inr vs \<Rightarrow> Inr (v # vs)))"

definition env_shard_urls :: "env \<Rightarrow> json" where
  "env_shard_urls env =
     (case json_parse (if is_set (SHARD_URLS env) then (case SHARD_URLS env of Some s \<Rightarrow> s | None \<Rightarrow> []) else ''[]'') of
        Some v \<Rightarrow> v
      | None \<Rightarrow> JArr [])"

definition getShardUrls :: "env \<Rightarrow> (jsval list \<Rightarrow> 'a prog) \<Rightarrow> 'a prog" where
  "getShardUrls env k =
     (let go = (\<lambda>base. getRegisteredShards env (\<lambda>shards.
           attempt (map_prop ''url'' shards) (\<lambda>registered.
           attempt (js_spread base) (\<lambda>merged. k (merge_urls merged registered)))))
      in if \<not> has_ROUTER_ADMIN_KV env then go (env_shard_urls env)
         else kvGet ROUTER_ADMIN_KV ''shard_urls'' (\<lambda>raw.
           case present raw of
             None \<Rightarrow> go (env_shard_urls env)
           | Some text \<Rightarrow>
               attempt (js_parse text) (\<lambda>parsed.
                 case parsed of
                   JArr (x # xs) \<Rightarrow> go parsed
                 | _ \<Rightarrow> go (env_shard_urls env))))"

text \<open>\<open>map[s.url] = s.pubkey\<close> over the registered shards, as a function of the key.\<close>

fun pubkey_map :: "json list \<Rightarrow> (string \<Rightarrow> jsval) \<Rightarrow> js_error + (string \<Rightarrow> jsval)" where
  "pubkey_map [] m = Inr m"
| "pubkey_map (s # ss) m =
     (case get_prop (Some s) ''url'' of
        Inl e \<Rightarrow> Inl e
      | Inr u \<Rightarrow> pubkey_map ss (m(js_string u := js_prop s ''pubkey'')))"

definition getShardPubkeys :: "env \<Rightarrow> ((string \<Rightarrow> jsval) \<Rightarrow> 'a prog) \<Rightarrow> 'a prog" where
  "getShardPubkeys env k = getRegisteredShards env (\<lambda>shards. attempt (pubkey_map shards (\<lambda>_. None)) k)"

definition json_array_of :: "string \<Rightarrow> json list option" where
  "json_array_of text = (case json_parse text of Some (JArr xs) \<Rightarrow> Some xs | _ \<Rightarrow> None)"

definition var_prior_counts :: "env \<Rightarrow> json list" where
  "var_prior_counts env =
     (case present (PRIOR_SHARD_COUNTS env) of
        None \<Rightarrow> []
      | Some text \<Rightarrow> (case json_array_of text of Some xs \<Rightarrow> xs | None \<Rightarrow> []))"

definition getPriorShardCounts :: "env \<Rightarrow> (json list \<Rightarrow> 'a prog) \<Rightarrow> 'a prog" where
  "getPriorShardCounts env k =
     (if \<not> has_ROUTER_ADMIN_KV env then k (var_prior_counts env)
      else kvGet ROUTER_ADMIN_KV ''prior_shard_counts'' (\<lambda>raw.
        k (case present raw of
             None \<Rightarrow> var_prior_counts env
           | Some text \<Rightarrow> (case json_array_of text of Some xs \<Rightarrow> xs | None \<Rightarrow> var_prior_counts env))))"

definition var_version :: "env \<Rightarrow> number" where
  "var_version env =
     (if is_set (ROUTING_TABLE_VERSION env)
      then number_of_string (case ROUTING_TABLE_VERSION env of Some s \<Rightarrow> s | None \<Rightarrow> []) else Some 1)"

definition getRoutingTableVersion :: "env \<Rightarrow> (number \<Rightarrow> 'a prog) \<Rightarrow> 'a prog" where
  "getRoutingTableVersion env k =
     (if \<not> has_ROUTER_ADMIN_KV env then k (var_version env)
      else kvGet ROUTER_ADMIN_KV ''routing_table_version'' (\<lambda>raw.
        k (case present raw of
             None \<Rightarrow> var_version env
           | Some text \<Rightarrow> if digits_re (trim text) then number_of_string (trim text) else var_version env)))"

end
