(* ===== verification/ShardIdentity.thy ===== *)
theory ShardIdentity
  imports RateLimit
begin

text \<open>
  A shard's own Ed25519 identity and what is signed with it: the lazily created key pair
  (\<open>ensureShardIdentity\<close>), the signed response envelope, \<open>POST /server_hello\<close>, the proof
  of work and the self-registration with the Router, and the operator endpoints
  \<open>/admin/shard_info\<close>, \<open>/admin/register\<close> and \<open>/admin/rotate_key\<close>.
\<close>

definition SELF_REGISTER_MIN_INTERVAL_MS :: int where
  "SELF_REGISTER_MIN_INTERVAL_MS = 12 * 60 * 60 * 1000"

definition SELF_REGISTER_KV_KEY :: string where
  "SELF_REGISTER_KV_KEY = ''shard_self_registration''"

definition SHARD_IDENTITY_KV_KEY :: string where
  "SHARD_IDENTITY_KV_KEY = ''shard_identity''"

definition POW_SOLVE_MAX_ATTEMPTS :: nat where
  "POW_SOLVE_MAX_ATTEMPTS = 8000000"

section \<open>The identity record\<close>

definition identity_json :: "byte list \<Rightarrow> byte list \<Rightarrow> json" where
  "identity_json pub priv =
     JObj [(''publicKeyHex'', JStr (bytesToHex pub)), (''privateKeyPkcs8Base64'', JStr (btoa priv))]"

definition ensureShardIdentity :: "(json \<Rightarrow> 'a prog) \<Rightarrow> 'a prog" where
  "ensureShardIdentity k =
     kvGet MAILBOX_KV SHARD_IDENTITY_KV_KEY (\<lambda>raw.
       case present raw of
         Some text \<Rightarrow> attempt (js_parse text) k
       | None \<Rightarrow>
           GenerateKey (\<lambda>(pub, priv).
             let identity = identity_json pub priv in
             kvPut MAILBOX_KV SHARD_IDENTITY_KV_KEY (json_stringify identity) None (k identity)))"

text \<open>\<open>await importShardPrivateKey(identity.privateKeyPkcs8Base64)\<close>.\<close>

definition identity_private :: "crypto \<Rightarrow> json \<Rightarrow> (byte list \<Rightarrow> 'a prog) \<Rightarrow> 'a prog" where
  "identity_private cr identity k =
     attempt (get_prop (Some identity) ''privateKeyPkcs8Base64'') (\<lambda>b64.
       attempt (importShardPrivateKey cr (js_string b64)) k)"

definition identity_public :: "json \<Rightarrow> (jsval \<Rightarrow> 'a prog) \<Rightarrow> 'a prog" where
  "identity_public identity k = attempt (get_prop (Some identity) ''publicKeyHex'') k"

text \<open>The state in which the identity exists, and the platform once it has been ensured.\<close>

definition identity_stored :: "(string \<Rightarrow> string option) \<Rightarrow> byte list \<Rightarrow> byte list \<Rightarrow> bool" where
  "identity_stored kv pub priv \<longleftrightarrow>
     kv SHARD_IDENTITY_KV_KEY = Some (json_stringify (identity_json pub priv))"

lemma wf_identity_json: "wf_json (identity_json pub priv)"
  by (simp add: identity_json_def obj_canonical_def key_precedes_def is_digit_def)

lemma run_ensureShardIdentity_stored [run_simps]:
  assumes "isolated sv" and "identity_stored (sv_view sv s MAILBOX_KV) pub priv"
  shows "run sv (ensureShardIdentity k) s =
    run sv (k (identity_json pub priv)) (snd (sv_get sv s MAILBOX_KV SHARD_IDENTITY_KV_KEY))"
  using assms
  by (simp add: ensureShardIdentity_def run_simps identity_stored_def js_parse_def wf_identity_json)

lemma trace_ensureShardIdentity_stored [trace_simps]:
  assumes "isolated sv" and "identity_stored (sv_view sv s MAILBOX_KV) pub priv"
  shows "trace sv (ensureShardIdentity k) s = EvGet MAILBOX_KV SHARD_IDENTITY_KV_KEY #
    trace sv (k (identity_json pub priv)) (snd (sv_get sv s MAILBOX_KV SHARD_IDENTITY_KV_KEY))"
  using assms
  by (simp add: ensureShardIdentity_def trace_simps identity_stored_def js_parse_def wf_identity_json)

lemma run_ensureShardIdentity_fresh:
  assumes "isolated sv" and "present (sv_view sv s MAILBOX_KV SHARD_IDENTITY_KV_KEY) = None"
  shows "\<exists>pub priv s'. run sv (ensureShardIdentity k) s = run sv (k (identity_json pub priv)) s' \<and>
    sv_view sv s' = (sv_view sv s)(MAILBOX_KV :=
      (sv_view sv s MAILBOX_KV)(SHARD_IDENTITY_KV_KEY \<mapsto> json_stringify (identity_json pub priv))) \<and>
    sv_clock sv s' = sv_clock sv s"
proof -
  let ?s1 = "snd (sv_get sv s MAILBOX_KV SHARD_IDENTITY_KV_KEY)"
  obtain pub priv s2 where g: "sv_generate_key sv ?s1 = ((pub, priv), s2)" by (metis surj_pair)
  have v2: "sv_view sv s2 = sv_view sv s" "sv_clock sv s2 = sv_clock sv s"
    using view_key [OF assms(1), of ?s1] clock_key [OF assms(1), of ?s1]
    by (simp_all add: g view_simps assms(1))
  let ?v = "json_stringify (identity_json pub priv)"
  let ?s3 = "snd (sv_put sv s2 MAILBOX_KV SHARD_IDENTITY_KV_KEY ?v None)"
  have "run sv (ensureShardIdentity k) s = run sv (k (identity_json pub priv)) ?s3"
    using assms by (simp add: ensureShardIdentity_def run_simps g Let_def)
  moreover have "sv_view sv ?s3 = (sv_view sv s)(MAILBOX_KV :=
      (sv_view sv s MAILBOX_KV)(SHARD_IDENTITY_KV_KEY \<mapsto> ?v))"
    using assms by (simp add: view_simps v2)
  moreover have "sv_clock sv ?s3 = sv_clock sv s"
    using assms by (simp add: view_simps v2)
  ultimately show ?thesis by blast
qed

lemma identity_props [simp]:
  "js_prop (identity_json pub priv) ''publicKeyHex'' = Some (JStr (bytesToHex pub))"
  "js_prop (identity_json pub priv) ''privateKeyPkcs8Base64'' = Some (JStr (btoa priv))"
  by (simp_all add: identity_json_def)

lemma get_identity_props [simp]:
  "get_prop (Some (identity_json pub priv)) ''publicKeyHex'' = Inr (Some (JStr (bytesToHex pub)))"
  "get_prop (Some (identity_json pub priv)) ''privateKeyPkcs8Base64'' = Inr (Some (JStr (btoa priv)))"
  by (simp_all add: identity_json_def get_prop_def)

lemma identity_private_own [simp]:
  "ed_import cr priv \<Longrightarrow> identity_private cr (identity_json pub priv) k = k priv"
  by (simp add: identity_private_def js_string_def import_stored_key)

lemma identity_public_own [simp]:
  "identity_public (identity_json pub priv) k = k (Some (JStr (bytesToHex pub)))"
  by (simp add: identity_public_def)

section \<open>Signed responses\<close>

definition signed_data :: "string \<Rightarrow> nat \<Rightarrow> string \<Rightarrow> string \<Rightarrow> string" where
  "signed_data requestId status timestamp bodyHash =
     requestId @ '':'' @ str_of_nat status @ '':'' @ timestamp @ '':'' @ bodyHash"

definition signed_envelope ::
  "string \<Rightarrow> nat \<Rightarrow> string \<Rightarrow> string \<Rightarrow> json \<Rightarrow> jsval \<Rightarrow> string \<Rightarrow> json" where
  "signed_envelope requestId status timestamp bodyHash body pub signature =
     mk_obj [(''version'', Some (JNum 1)),
             (''request_id'', Some (JStr requestId)),
             (''status'', Some (JNum (int status))),
             (''timestamp'', Some (JStr timestamp)),
             (''body_hash'', Some (JStr bodyHash)),
             (''body'', Some body),
             (''server_public_key'', pub),
             (''signature'', Some (JStr signature))]"

definition buildShardSignedResponse ::
  "crypto \<Rightarrow> string \<Rightarrow> nat \<Rightarrow> json \<Rightarrow> (json \<Rightarrow> 'a prog) \<Rightarrow> 'a prog" where
  "buildShardSignedResponse cr requestId status body k =
     ensureShardIdentity (\<lambda>identity.
     identity_private cr identity (\<lambda>privKey.
     Now (\<lambda>now.
       let timestamp = str_of_int now;
           bodyHash = sha256Hex cr (json_stringify body);
           signature = signWithShardKey cr privKey (signed_data requestId status timestamp bodyHash)
       in k (signed_envelope requestId status timestamp bodyHash body
               (js_prop identity ''publicKeyHex'') signature))))"

text \<open>What a client checks of such an envelope, with the key it knows the shard by.\<close>

definition envelope_verifies :: "crypto \<Rightarrow> string \<Rightarrow> string \<Rightarrow> json \<Rightarrow> json \<Rightarrow> bool" where
  "envelope_verifies cr pubHex requestId body e \<longleftrightarrow>
     (\<exists>status timestamp sig.
        js_prop e ''request_id'' = Some (JStr requestId) \<and>
        js_prop e ''status'' = Some (JNum (int status)) \<and>
        js_prop e ''timestamp'' = Some (JStr timestamp) \<and>
        js_prop e ''body'' = Some body \<and>
        js_prop e ''server_public_key'' = Some (JStr pubHex) \<and>
        js_prop e ''signature'' = Some (JStr sig) \<and>
        verifyEd25519Message cr pubHex
          (signed_data requestId status timestamp (sha256Hex cr (json_stringify body))) sig)"

lemma run_buildShardSignedResponse:
  assumes "isolated sv" and "identity_stored (sv_view sv s MAILBOX_KV) pub priv" and "key_pair cr pub priv"
  shows "\<exists>e s'. run sv (buildShardSignedResponse cr rid st body k) s = run sv (k e) s' \<and>
    envelope_verifies cr (bytesToHex pub) rid body e \<and>
    sv_view sv s' = sv_view sv s \<and> sv_clock sv s' = sv_clock sv s"
proof -
  have "ed_import cr priv" using assms(3) by (simp add: key_pair_def)
  let ?ts = "str_of_int (sv_clock sv s)"
  let ?sd = "signed_data rid st ?ts (sha256Hex cr (json_stringify body))"
  let ?e = "signed_envelope rid st ?ts (sha256Hex cr (json_stringify body)) body (Some (JStr (bytesToHex pub)))
              (signWithShardKey cr priv ?sd)"
  let ?s' = "snd (sv_now sv (snd (sv_get sv s MAILBOX_KV SHARD_IDENTITY_KV_KEY)))"
  have "run sv (buildShardSignedResponse cr rid st body k) s = run sv (k ?e) ?s'"
    using assms \<open>ed_import cr priv\<close>
    by (simp add: buildShardSignedResponse_def run_simps view_simps Let_def)
  moreover have "envelope_verifies cr (bytesToHex pub) rid body ?e"
    using verify_own_signature [OF assms(3)]
    by (simp add: envelope_verifies_def signed_envelope_def mk_obj_def)
  moreover have "sv_view sv ?s' = sv_view sv s \<and> sv_clock sv ?s' = sv_clock sv s"
    using assms(1) by (simp add: view_simps)
  ultimately show ?thesis by blast
qed

section \<open>POST /server_hello\<close>

definition hello_payload :: "string \<Rightarrow> string \<Rightarrow> string \<Rightarrow> string \<Rightarrow> string" where
  "hello_payload protocol nonce pubHex timestamp =
     ''NexTalk Server Authentication:'' @ protocol @ '':'' @ nonce @ '':'' @ pubHex @ '':'' @ timestamp"

text \<open>The nonce and protocol of a request, or the refusal.\<close>

definition hello_request :: "json \<Rightarrow> msg + string \<times> string" where
  "hello_request body =
     (case js_prop body ''nonce'' of
        Some (JStr nonce) \<Rightarrow>
          if length nonce < 8 \<or> 256 < length nonce then Inl NonceBadLength
          else (case js_prop body ''protocol'' of
                  None \<Rightarrow> Inr (nonce, ''nextalk/v1'')
                | Some (JStr p) \<Rightarrow> if 32 < length p then Inl ProtocolBad else Inr (nonce, p)
                | Some _ \<Rightarrow> Inl ProtocolBad)
      | _ \<Rightarrow> Inl NonceBadLength)"

definition hello_response :: "string \<Rightarrow> jsval \<Rightarrow> string \<Rightarrow> string \<Rightarrow> string \<Rightarrow> response" where
  "hello_response protocol pub nonce timestamp signature =
     json (mk_obj [(''version'', Some (JNum 1)),
                   (''type'', Some (JStr ''server_hello'')),
                   (''protocol'', Some (JStr protocol)),
                   (''server_public_key'', pub),
                   (''challenge'', Some (JStr nonce)),
                   (''timestamp'', Some (JStr timestamp)),
                   (''signature'', Some (JStr signature))]) 200 []"

definition handleServerHello :: "crypto \<Rightarrow> request \<Rightarrow> response prog" where
  "handleServerHello cr req =
     request_json req (\<lambda>body.
       case hello_request body of
         Inl e \<Rightarrow> Return (err e 400 [])
       | Inr (nonce, protocol) \<Rightarrow>
           ensureShardIdentity (\<lambda>identity.
           Now (\<lambda>now.
             let timestamp = str_of_int now in
             identity_public identity (\<lambda>pub.
             let signedPayload = hello_payload protocol nonce (js_string pub) timestamp in
             identity_private cr identity (\<lambda>privKey.
               Return (hello_response protocol pub nonce timestamp
                         (signWithShardKey cr privKey signedPayload)))))))"

lemma run_handleServerHello:
  assumes "isolated sv" and "identity_stored (sv_view sv s MAILBOX_KV) pub priv" and "key_pair cr pub priv"
    and "json_parse (req_body req) = Some body" and "hello_request body = Inr (nonce, protocol)"
  defines "ts \<equiv> str_of_int (sv_clock sv s)"
  defines "m \<equiv> hello_payload protocol nonce (bytesToHex pub) ts"
  defines "sig \<equiv> signWithShardKey cr priv m"
  shows "fst (run sv (handleServerHello cr req) s) =
      Done (hello_response protocol (Some (JStr (bytesToHex pub))) nonce ts sig)"
    and "verifyEd25519Message cr (bytesToHex pub) m sig"
proof -
  have "or_val (Some body) (JObj []) = body"
    using assms(5) by (auto simp: or_val_def hello_request_def split: json.splits if_splits)
      (cases body; auto split: if_splits option.splits)
  then show "fst (run sv (handleServerHello cr req) s) =
      Done (hello_response protocol (Some (JStr (bytesToHex pub))) nonce ts sig)"
    using assms(1-5)
    by (simp add: handleServerHello_def request_json_def run_simps view_simps Let_def key_pair_def
        ts_def sig_def m_def js_string_def)
  show "verifyEd25519Message cr (bytesToHex pub) m sig"
    unfolding sig_def by (rule verify_own_signature [OF assms(3)])
qed

end
