(* ===== verification/ShardRegister.thy ===== *)
theory ShardRegister
  imports ShardIdentity
begin

text \<open>
  How a shard introduces itself to the Router: the proof-of-work search \<open>solvePow\<close>, the
  background \<open>ensureSelfRegistered\<close>, and the operator endpoints \<open>/admin/shard_info\<close>,
  \<open>/admin/register\<close> and \<open>/admin/rotate_key\<close>.
\<close>

section \<open>The proof of work\<close>

definition pow_digest :: "crypto \<Rightarrow> string \<Rightarrow> string \<Rightarrow> string \<Rightarrow> byte list" where
  "pow_digest cr nonce shardUrl solution = sha256 cr (utf8 (nonce @ '':'' @ shardUrl @ '':'' @ solution))"

text \<open>\<open>leadingZeroBits(digest) >= difficulty\<close>.\<close>

definition pow_ok :: "crypto \<Rightarrow> string \<Rightarrow> string \<Rightarrow> number \<Rightarrow> string \<Rightarrow> bool" where
  "pow_ok cr nonce shardUrl difficulty solution =
     num_ge (map_option int (leadingZeroBits (pow_digest cr nonce shardUrl solution))) difficulty"

fun solvePow_loop :: "crypto \<Rightarrow> string \<Rightarrow> string \<Rightarrow> number \<Rightarrow> nat \<Rightarrow> nat \<Rightarrow> js_error + string" where
  "solvePow_loop cr nonce shardUrl difficulty 0 i =
     Inl (UserError ''failed to solve PoW within attempt budget'')"
| "solvePow_loop cr nonce shardUrl difficulty (Suc n) i =
     (let solution = str_of_nat i
      in if pow_ok cr nonce shardUrl difficulty solution then Inr solution
         else solvePow_loop cr nonce shardUrl difficulty n (Suc i))"

definition solvePow :: "crypto \<Rightarrow> string \<Rightarrow> string \<Rightarrow> number \<Rightarrow> js_error + string" where
  "solvePow cr nonce shardUrl difficulty =
     solvePow_loop cr nonce shardUrl difficulty POW_SOLVE_MAX_ATTEMPTS 0"

lemma solvePow_loop_finds:
  "solvePow_loop cr nonce url d n i = Inr s \<longleftrightarrow>
     (\<exists>j<n. s = str_of_nat (i + j) \<and> pow_ok cr nonce url d s \<and>
        (\<forall>j'<j. \<not> pow_ok cr nonce url d (str_of_nat (i + j'))))"
proof (induction n arbitrary: i)
  case (Suc n)
  show ?case
  proof (cases "pow_ok cr nonce url d (str_of_nat i)")
    case True
    then show ?thesis
      by (auto simp: Let_def intro!: exI [of _ 0]) (metis add_0_right gr0I)
  next
    case False
    have "(\<exists>j<n. s = str_of_nat (Suc i + j) \<and> pow_ok cr nonce url d s \<and>
            (\<forall>j'<j. \<not> pow_ok cr nonce url d (str_of_nat (Suc i + j')))) \<longleftrightarrow>
          (\<exists>j<Suc n. s = str_of_nat (i + j) \<and> pow_ok cr nonce url d s \<and>
            (\<forall>j'<j. \<not> pow_ok cr nonce url d (str_of_nat (i + j'))))" (is "?l \<longleftrightarrow> ?r")
    proof
      assume ?l
      then obtain j where j: "j < n" "s = str_of_nat (Suc i + j)" "pow_ok cr nonce url d s"
        "\<forall>j'<j. \<not> pow_ok cr nonce url d (str_of_nat (Suc i + j'))" by blast
      have "\<not> pow_ok cr nonce url d (str_of_nat (i + j'))" if "j' < Suc j" for j'
        using False j(4) that by (cases j') auto
      with j show ?r by (intro exI [of _ "Suc j"]) simp
    next
      assume ?r
      then obtain j where j: "j < Suc n" "s = str_of_nat (i + j)" "pow_ok cr nonce url d s"
        "\<forall>j'<j. \<not> pow_ok cr nonce url d (str_of_nat (i + j'))" by blast
      then obtain k where k: "j = Suc k" using False by (cases j) auto
      have "\<not> pow_ok cr nonce url d (str_of_nat (Suc i + j'))" if "j' < k" for j'
        using j(4) that k by (metis Suc_less_eq add_Suc add_Suc_right)
      with j k show ?l by (intro exI [of _ k]) simp
    qed
    then show ?thesis using False Suc.IH by (simp add: Let_def)
  qed
qed simp

lemma pow_ok_0: "pow_ok cr nonce url (Some 0) sol"
  using leadingZeroBits_total [of "pow_digest cr nonce url sol"] by (auto simp: pow_ok_def)

lemma solvePow_0: "solvePow cr nonce url (Some 0) = Inr ''0''"
proof -
  have "str_of_nat 0 = ''0''" by code_simp
  moreover have "0 < POW_SOLVE_MAX_ATTEMPTS" by (simp add: POW_SOLVE_MAX_ATTEMPTS_def)
  ultimately show ?thesis unfolding solvePow_def by (auto simp: solvePow_loop_finds pow_ok_0)
qed

lemma solvePow_loop_fails:
  "(\<exists>e. solvePow_loop cr nonce url d n i = Inl e) \<longleftrightarrow> (\<forall>j<n. \<not> pow_ok cr nonce url d (str_of_nat (i + j)))"
proof (induction n arbitrary: i)
  case (Suc n)
  have "(\<forall>j<Suc n. \<not> pow_ok cr nonce url d (str_of_nat (i + j))) \<longleftrightarrow>
        \<not> pow_ok cr nonce url d (str_of_nat i) \<and> (\<forall>j<n. \<not> pow_ok cr nonce url d (str_of_nat (Suc i + j)))"
    by (auto simp: less_Suc_eq_0_disj)
  with Suc.IH [of "Suc i"] show ?case by (auto simp: Let_def)
qed auto

text \<open>What the threshold means: the digest, read as a number, is small.\<close>

lemma pow_ok_value:
  assumes "length (pow_digest cr nonce url s) = 32" and "d \<le> 256"
  shows "pow_ok cr nonce url (Some (int d)) s \<longleftrightarrow> be_value (pow_digest cr nonce url s) < 2 ^ (256 - d)"
proof -
  obtain k where k: "leadingZeroBits (pow_digest cr nonce url s) = Some k"
    using leadingZeroBits_total by blast
  show ?thesis
    using leadingZeroBits_value [OF k, of d] assms by (simp add: pow_ok_def k)
qed

section \<open>Self-registration\<close>

definition uri_unreserved :: "char \<Rightarrow> bool" where
  "uri_unreserved c \<longleftrightarrow>
     (let n = of_char c :: nat
      in (48 \<le> n \<and> n \<le> 57) \<or> (65 \<le> n \<and> n \<le> 90) \<or> (97 \<le> n \<and> n \<le> 122) \<or>
         n \<in> {45, 95, 46, 33, 126, 42, 39, 40, 41})"

definition upper_hex_digit :: "nat \<Rightarrow> char" where
  "upper_hex_digit d = (if d < 10 then char_of (48 + d) else char_of (55 + d))"

definition encodeURIComponent :: "string \<Rightarrow> string" where
  "encodeURIComponent s =
     concat (map (\<lambda>c. if uri_unreserved c then [c]
                      else concat (map (\<lambda>b. [CHR 0x25, upper_hex_digit (unat b div 16), upper_hex_digit (unat b mod 16)])
                                    (utf8_char c))) s)"

definition var_text :: "string option \<Rightarrow> string" where
  "var_text v = (case v of Some s \<Rightarrow> s | None \<Rightarrow> [])"

definition json_headers :: "(string \<times> string) list" where
  "json_headers = [(''Content-Type'', ''application/json'')]"

definition post_json :: "string \<Rightarrow> json \<Rightarrow> out_request" where
  "post_json url body =
     \<lparr> out_method = ''POST'', out_url = url, out_headers = json_headers, out_body = Some (json_stringify body) \<rparr>"

definition register_message :: "string \<Rightarrow> string \<Rightarrow> string \<Rightarrow> string" where
  "register_message selfUrl pubHex timestamp =
     ''register_shard:'' @ selfUrl @ '':'' @ pubHex @ '':'' @ timestamp"

definition register_body :: "string \<Rightarrow> jsval \<Rightarrow> jsval \<Rightarrow> string \<Rightarrow> string \<Rightarrow> string \<Rightarrow> json" where
  "register_body selfUrl pub nonce solution timestamp signature =
     mk_obj [(''shard_url'', Some (JStr selfUrl)),
             (''shard_pubkey'', pub),
             (''nonce'', nonce),
             (''solution'', Some (JStr solution)),
             (''timestamp'', Some (JStr timestamp)),
             (''signature'', Some (JStr signature))]"

text \<open>The signed request both registration paths send.\<close>

definition registration_request ::
  "crypto \<Rightarrow> string \<Rightarrow> string \<Rightarrow> json \<Rightarrow> byte list \<Rightarrow> jsval \<Rightarrow> string \<Rightarrow> string \<Rightarrow>
   (out_request \<Rightarrow> 'a prog) \<Rightarrow> 'a prog" where
  "registration_request cr router selfUrl identity privKey nonce solution timestamp k =
     identity_public identity (\<lambda>pub.
       let signature = signWithShardKey cr privKey (register_message selfUrl (js_string pub) timestamp)
       in k (post_json (router @ ''/register_shard'')
               (register_body selfUrl pub nonce solution timestamp signature)))"

definition challenge_request :: "string \<Rightarrow> string \<Rightarrow> out_request" where
  "challenge_request router selfUrl =
     \<lparr> out_method = ''GET'', out_url = router @ ''/pow_challenge?shard_url='' @ encodeURIComponent selfUrl,
       out_headers = [], out_body = None \<rparr>"

definition attempt_registration :: "crypto \<Rightarrow> string \<Rightarrow> string \<Rightarrow> unit prog" where
  "attempt_registration cr router selfUrl =
     ensureShardIdentity (\<lambda>identity.
     fetch1 (challenge_request router selfUrl) (\<lambda>challengeResp.
       case challengeResp of
         FetchFailed name m \<Rightarrow> Throw (ServiceError m)
       | Fetched st text \<Rightarrow>
           if \<not> resp_ok st then Throw (UserError (''pow_challenge failed with status '' @ str_of_nat st))
           else
             attempt (js_parse text) (\<lambda>answer.
             attempt (get_prop (Some answer) ''nonce'') (\<lambda>nonce.
             attempt (get_prop (Some answer) ''difficulty'') (\<lambda>difficulty.
             attempt (solvePow cr (js_string nonce) selfUrl (js_number difficulty)) (\<lambda>solution.
             Now (\<lambda>now.
             identity_private cr identity (\<lambda>privKey.
             registration_request cr router selfUrl identity privKey nonce solution (str_of_int now) (\<lambda>req.
             fetch1 req (\<lambda>regResp.
               case regResp of
                 FetchFailed name m \<Rightarrow> Throw (ServiceError m)
               | Fetched st' text' \<Rightarrow>
                   if \<not> resp_ok st'
                   then Log (''self-registration with Router failed: '' @ str_of_nat st' @ '' '' @ text') (Return ())
                   else Now (\<lambda>now'.
                     kvPut MAILBOX_KV SELF_REGISTER_KV_KEY (str_of_int now') None
                       (Log ''self-registered with Router successfully'' (Return ())))))))))))))"

definition recently_registered :: "string \<Rightarrow> int \<Rightarrow> bool" where
  "recently_registered lastRaw now =
     num_gt (Some SELF_REGISTER_MIN_INTERVAL_MS) (map_option (\<lambda>t. now - t) (number_of_string lastRaw))"

definition ensureSelfRegistered :: "crypto \<Rightarrow> env \<Rightarrow> unit prog" where
  "ensureSelfRegistered cr env =
     (if \<not> is_set (ROUTER_URL env) \<or> \<not> is_set (SELF_URL env) then Return ()
      else
        let go = catch_with (\<lambda>e. Log (''self-registration error: '' @ error_message e) (Return ()))
                   (attempt_registration cr (var_text (ROUTER_URL env)) (var_text (SELF_URL env)))
        in kvGet MAILBOX_KV SELF_REGISTER_KV_KEY (\<lambda>lastRaw.
             case present lastRaw of
               None \<Rightarrow> go
             | Some t \<Rightarrow> Now (\<lambda>now. if recently_registered t now then Return () else go)))"

section \<open>The operator endpoints\<close>

definition unauthorized :: response where
  "unauthorized = err Unauthorized 401 []"

text \<open>\<open>x || null\<close> on a variable.\<close>

definition var_or_null :: "string option \<Rightarrow> json" where
  "var_or_null v = or_val (str_val v) JNull"

definition handleAdminShardInfo :: "env \<Rightarrow> request \<Rightarrow> response prog" where
  "handleAdminShardInfo env req =
     (if \<not> bearer_ok constantTimeEqual env req then Return unauthorized
      else
        ensureShardIdentity (\<lambda>identity.
        identity_public identity (\<lambda>pub.
          Return (json (mk_obj [(''shard_pubkey'', pub),
                                (''router_url'', Some (var_or_null (ROUTER_URL env))),
                                (''self_url'', Some (var_or_null (SELF_URL env)))]) 200 []))))"

definition strip_slash :: "string \<Rightarrow> string" where
  "strip_slash s = (if s \<noteq> [] \<and> last s = CHR ''/'' then butlast s else s)"

text \<open>\<open>(routerUrl || env.ROUTER_URL || "").replace(/\/$/, "")\<close>.\<close>

definition target_router :: "jsval \<Rightarrow> env \<Rightarrow> js_error + string" where
  "target_router routerUrl env =
     (case or_val routerUrl (or_val (str_val (ROUTER_URL env)) (JStr [])) of
        JStr s \<Rightarrow> Inr (strip_slash s)
      | _ \<Rightarrow> Inl TypeError)"

text \<open>\<open>await resp.json().catch(() => ({}))\<close>.\<close>

definition parse_or_empty :: "string \<Rightarrow> json" where
  "parse_or_empty text = (case json_parse text of Some v \<Rightarrow> v | None \<Rightarrow> JObj [])"

definition handleAdminRegister :: "crypto \<Rightarrow> env \<Rightarrow> request \<Rightarrow> response prog" where
  "handleAdminRegister cr env req =
     (if \<not> bearer_ok constantTimeEqual env req then Return unauthorized
      else request_json req (\<lambda>body.
        case str_test (\<lambda>_. True) (js_prop body ''nonce'') of
          None \<Rightarrow> Return (err NonceRequired 400 [])
        | Some nonce \<Rightarrow>
        (case str_test (\<lambda>_. True) (js_prop body ''solution'') of
          None \<Rightarrow> Return (err SolutionRequired 400 [])
        | Some solution \<Rightarrow>
            attempt (target_router (js_prop body ''router_url'') env) (\<lambda>targetRouter.
            if targetRouter = [] then Return (err RouterUrlRequired 400 [])
            else if \<not> is_set (SELF_URL env) then Return (err SelfUrlMissing 400 [])
            else
              ensureShardIdentity (\<lambda>identity.
              identity_private cr identity (\<lambda>privKey.
              Now (\<lambda>now.
              registration_request cr targetRouter (var_text (SELF_URL env)) identity privKey
                  (Some (JStr nonce)) solution (str_of_int now) (\<lambda>out.
              fetch1 out (\<lambda>regResp.
                case regResp of
                  FetchFailed name m \<Rightarrow> Return (err (RouterUnreachable m) 502 [])
                | Fetched st text \<Rightarrow>
                    if \<not> resp_ok st then Return (err (RouterRejected st text) 502 [])
                    else Now (\<lambda>now'.
                      kvPut MAILBOX_KV SELF_REGISTER_KV_KEY (str_of_int now') None
                        (Return (json (JObj [(''registered'', JBool True),
                                             (''router_response'', parse_or_empty text)]) 200 []))))))))))))"

section \<open>Key rotation\<close>

definition rotation_message :: "string \<Rightarrow> string \<Rightarrow> string \<Rightarrow> string \<Rightarrow> string \<Rightarrow> string" where
  "rotation_message tag selfUrl oldHex newHex timestamp =
     tag @ '':'' @ selfUrl @ '':'' @ oldHex @ '':'' @ newHex @ '':'' @ timestamp"

definition rotation_body ::
  "string \<Rightarrow> jsval \<Rightarrow> string \<Rightarrow> string \<Rightarrow> string \<Rightarrow> string \<Rightarrow> json" where
  "rotation_body selfUrl oldPub newHex timestamp oldSig newSig =
     mk_obj [(''shard_url'', Some (JStr selfUrl)),
             (''old_pubkey'', oldPub),
             (''new_pubkey'', Some (JStr newHex)),
             (''timestamp'', Some (JStr timestamp)),
             (''old_signature'', Some (JStr oldSig)),
             (''new_signature'', Some (JStr newSig))]"

definition rotation_result :: "jsval \<Rightarrow> string \<Rightarrow> bool \<Rightarrow> json \<Rightarrow> string option \<Rightarrow> response" where
  "rotation_result oldPub newHex notified answer error =
     json (mk_obj [(''rotated'', Some (JBool True)),
                   (''old_pubkey'', oldPub),
                   (''new_pubkey'', Some (JStr newHex)),
                   (''router_notified'', Some (JBool notified)),
                   (''router_response'', Some answer),
                   (''router_error'', map_option JStr error)]) 200 []"

text \<open>\<open>String(e)\<close> of an error.\<close>

definition error_to_string :: "string \<Rightarrow> string \<Rightarrow> string" where
  "error_to_string name m = (if name = [] then m else if m = [] then name else name @ '': '' @ m)"

definition handleAdminRotateKey :: "crypto \<Rightarrow> env \<Rightarrow> request \<Rightarrow> response prog" where
  "handleAdminRotateKey cr env req =
     (if \<not> bearer_ok constantTimeEqual env req then Return unauthorized
      else if \<not> is_set (SELF_URL env) then Return (err SelfUrlMissing 500 [])
      else
        ensureShardIdentity (\<lambda>identity.
        identity_private cr identity (\<lambda>oldPrivKey.
        GenerateKey (\<lambda>(newPub, newPriv).
        Now (\<lambda>now.
        let selfUrl = var_text (SELF_URL env); timestamp = str_of_int now;
            newPubHex = bytesToHex newPub in
        identity_public identity (\<lambda>oldPub.
        let oldSig = signWithShardKey cr oldPrivKey
              (rotation_message ''key_rotation'' selfUrl (js_string oldPub) newPubHex timestamp);
            newSig = signWithShardKey cr newPriv
              (rotation_message ''key_rotation_accept'' selfUrl (js_string oldPub) newPubHex timestamp) in
        kvPut MAILBOX_KV SHARD_IDENTITY_KV_KEY (json_stringify (identity_json newPub newPriv)) None
        (kvDelete MAILBOX_KV SELF_REGISTER_KV_KEY
        (let targetRouter = strip_slash (var_text (ROUTER_URL env)) in
         if targetRouter = [] then Return (rotation_result oldPub newPubHex False JNull None)
         else
           fetch1 (post_json (targetRouter @ ''/rotate_shard_key'')
                     (rotation_body selfUrl oldPub newPubHex timestamp oldSig newSig)) (\<lambda>regResp.
             case regResp of
               FetchFailed name m \<Rightarrow>
                 Return (rotation_result oldPub newPubHex False JNull (Some (error_to_string name m)))
             | Fetched st text \<Rightarrow>
                 Return (rotation_result oldPub newPubHex (resp_ok st) (parse_or_empty text)
                   (if resp_ok st then None
                    else Some (''Router returned '' @ str_of_nat st))))))))))))"

section \<open>What registration and rotation send and store\<close>

lemma importable: "key_pair cr pub priv \<Longrightarrow> ed_import cr priv"
  by (simp add: key_pair_def)

lemma keys_differ: "SELF_REGISTER_KV_KEY \<noteq> SHARD_IDENTITY_KV_KEY" "SHARD_IDENTITY_KV_KEY \<noteq> SELF_REGISTER_KV_KEY"
  by (simp_all add: SELF_REGISTER_KV_KEY_def SHARD_IDENTITY_KV_KEY_def)

text \<open>The registration body a shard with identity \<open>(pub, priv)\<close> sends at a given time.\<close>

definition own_register_body ::
  "crypto \<Rightarrow> byte list \<Rightarrow> byte list \<Rightarrow> string \<Rightarrow> jsval \<Rightarrow> string \<Rightarrow> string \<Rightarrow> json" where
  "own_register_body cr pub priv selfUrl nonce solution timestamp =
     register_body selfUrl (Some (JStr (bytesToHex pub))) nonce solution timestamp
       (signWithShardKey cr priv (register_message selfUrl (bytesToHex pub) timestamp))"

lemma registration_request_own [simp]:
  "registration_request cr router selfUrl (identity_json pub priv) priv nonce solution ts k =
     k (post_json (router @ ''/register_shard'') (own_register_body cr pub priv selfUrl nonce solution ts))"
  by (simp add: registration_request_def own_register_body_def js_string_def)

definition rotation_bodies ::
  "crypto \<Rightarrow> byte list \<Rightarrow> byte list \<Rightarrow> byte list \<Rightarrow> byte list \<Rightarrow> string \<Rightarrow> string \<Rightarrow> json" where
  "rotation_bodies cr pub priv pub' priv' selfUrl timestamp =
     rotation_body selfUrl (Some (JStr (bytesToHex pub))) (bytesToHex pub') timestamp
       (signWithShardKey cr priv
          (rotation_message ''key_rotation'' selfUrl (bytesToHex pub) (bytesToHex pub') timestamp))
       (signWithShardKey cr priv'
          (rotation_message ''key_rotation_accept'' selfUrl (bytesToHex pub) (bytesToHex pub') timestamp))"

lemma rotation_state:
  assumes iso: "isolated sv" and st: "identity_stored (sv_view sv s MAILBOX_KV) pub priv"
    and imp: "ed_import cr priv" and auth: "bearer_ok constantTimeEqual env req"
    and url: "SELF_URL env = Some url" "url \<noteq> []"
    and gen: "fst (sv_generate_key sv (snd (sv_get sv s MAILBOX_KV SHARD_IDENTITY_KV_KEY))) = (pub', priv')"
  shows "sv_view sv (snd (run sv (handleAdminRotateKey cr env req) s)) MAILBOX_KV =
      (sv_view sv s MAILBOX_KV)(SHARD_IDENTITY_KV_KEY \<mapsto> json_stringify (identity_json pub' priv'),
                                SELF_REGISTER_KV_KEY := None)"
    (is ?state)
    and "\<exists>notified answer error.
      fst (run sv (handleAdminRotateKey cr env req) s) =
        Done (rotation_result (Some (JStr (bytesToHex pub))) (bytesToHex pub') notified answer error)"
    (is ?result)
proof -
  have "\<not> is_set (SELF_URL env) = False" using url by simp
  note h = iso st imp auth url gen this
  show ?state
    using h by (simp add: handleAdminRotateKey_def run_simps view_simps Let_def importable split_beta
        split: fetch_result.splits)
  show ?result
    using h by (auto simp add: handleAdminRotateKey_def run_simps view_simps Let_def split_beta
        split: fetch_result.splits)
qed

lemma rotation_sends:
  assumes iso: "isolated sv" and st: "identity_stored (sv_view sv s MAILBOX_KV) pub priv"
    and imp: "ed_import cr priv" and auth: "bearer_ok constantTimeEqual env req"
    and url: "SELF_URL env = Some url" "url \<noteq> []"
    and router: "strip_slash (var_text (ROUTER_URL env)) = router" "router \<noteq> []"
    and gen: "fst (sv_generate_key sv (snd (sv_get sv s MAILBOX_KV SHARD_IDENTITY_KV_KEY))) = (pub', priv')"
  shows "EvFetch [post_json (router @ ''/rotate_shard_key'')
            (rotation_bodies cr pub priv pub' priv' url (str_of_int (sv_clock sv s)))]
      \<in> set (trace sv (handleAdminRotateKey cr env req) s)"
  using assms
  by (simp add: handleAdminRotateKey_def run_simps trace_simps view_simps Let_def split_beta
      rotation_bodies_def js_string_def var_text_def)

lemma registration_sends:
  assumes iso: "isolated sv" and st: "identity_stored (sv_view sv s MAILBOX_KV) pub priv"
    and imp: "ed_import cr priv"
    and answer: "hd (fst (sv_fetch sv (snd (sv_get sv s MAILBOX_KV SHARD_IDENTITY_KV_KEY))
          [challenge_request router selfUrl])) = Fetched st text"
      "resp_ok st" "json_parse text = Some (JObj kvs)" "map_of kvs ''nonce'' = Some (JStr nonce)"
    and pow: "solvePow cr nonce selfUrl (js_number (map_of kvs ''difficulty'')) = Inr solution"
  shows "EvFetch [post_json (router @ ''/register_shard'')
      (own_register_body cr pub priv selfUrl (Some (JStr nonce)) solution (str_of_int (sv_clock sv s)))]
      \<in> set (trace sv (attempt_registration cr router selfUrl) s)"
  using assms
  by (simp add: attempt_registration_def trace_simps view_simps Let_def js_parse_def get_prop_def js_string_def)

end
