(* ===== verification/RoutingTable.thy ===== *)
theory RoutingTable
  imports RouterConfig ShardRegister
begin

text \<open>
  The signed routing table: \<open>buildSignedRoutingTable\<close>, \<open>GET /routing_table.json\<close>, the push
  to the shards, and the Router's signed response envelope and \<open>POST /server_hello\<close>.
\<close>

section \<open>The document\<close>

text \<open>An array in a JSON text: \<open>undefined\<close> elements become \<open>null\<close>.\<close>

definition arr_json :: "jsval list \<Rightarrow> json" where
  "arr_json vs = JArr (map (\<lambda>v. case v of None \<Rightarrow> JNull | Some j \<Rightarrow> j) vs)"

definition table_shards :: "jsval list \<Rightarrow> (string \<Rightarrow> jsval) \<Rightarrow> json" where
  "table_shards shardUrls pubkeys =
     JArr (map (\<lambda>url. mk_obj [(''url'', url), (''pubkey'', Some (or_val (pubkeys (js_string url)) JNull))]) shardUrls)"

definition table_fields ::
  "env \<Rightarrow> jsval list \<Rightarrow> json list \<Rightarrow> number \<Rightarrow> (string \<Rightarrow> jsval) \<Rightarrow> int \<Rightarrow> (string \<times> jsval) list" where
  "table_fields env shardUrls priorCounts version pubkeys now =
     [(''version'', Some (json_of_number version)),
      (''generated_at'', Some (JNum now)),
      (''expires_at'', Some (JNum (now + ROUTING_TABLE_TTL_SECONDS * 1000))),
      (''algorithm'', Some (JStr ''sha256-hashpoint-modn-era-fallback-v1'')),
      (''shard_urls'', Some (arr_json shardUrls)),
      (''shards'', Some (table_shards shardUrls pubkeys)),
      (''replication_factor'', Some (json_of_number (replicationFactor env (int (length shardUrls))))),
      (''prior_shard_counts'', Some (JArr priorCounts)),
      (''router_public_key'', str_val (ROUTER_SIGNING_PUBLIC env))]"

definition signed_table :: "crypto \<Rightarrow> byte list \<Rightarrow> (string \<times> jsval) list \<Rightarrow> json" where
  "signed_table cr key flds =
     mk_obj (flds @ [(''signature'', Some (JStr (signWithShardKey cr key (json_stringify (mk_obj flds)))))])"

definition buildSignedRoutingTable :: "crypto \<Rightarrow> env \<Rightarrow> (json \<Rightarrow> 'a prog) \<Rightarrow> 'a prog" where
  "buildSignedRoutingTable cr env k =
     getShardUrls env (\<lambda>shardUrls.
     getPriorShardCounts env (\<lambda>priorCounts.
     getRoutingTableVersion env (\<lambda>version.
     getShardPubkeys env (\<lambda>pubkeys.
     Now (\<lambda>now.
     signing_key cr env (\<lambda>key.
       k (signed_table cr key (table_fields env shardUrls priorCounts version pubkeys now))))))))"

definition table_cache_headers :: "(string \<times> string) list" where
  "table_cache_headers =
     [(''Content-Type'', ''application/json''), (''Cache-Control'', ''public, max-age=3600, s-maxage=3600'')]"

definition handleRoutingTable :: "crypto \<Rightarrow> env \<Rightarrow> response prog" where
  "handleRoutingTable cr env = buildSignedRoutingTable cr env (\<lambda>table. Return (jsonOk table table_cache_headers))"

section \<open>The push\<close>

definition push_outcome :: "jsval \<Rightarrow> fetch_result \<Rightarrow> json" where
  "push_outcome shardUrl r =
     (case r of
        Fetched st text \<Rightarrow>
          mk_obj [(''shardUrl'', shardUrl), (''ok'', Some (JBool (resp_ok st))), (''status'', Some (JNum (int st)))]
      | FetchFailed name m \<Rightarrow>
          mk_obj [(''shardUrl'', shardUrl), (''ok'', Some (JBool False)), (''error'', Some (JStr (error_to_string name m)))])"

definition push_requests :: "jsval list \<Rightarrow> json \<Rightarrow> out_request list" where
  "push_requests shardUrls table =
     map (\<lambda>u. post_json (js_string u @ ''/internal/routing_table'') table) shardUrls"

definition pushRoutingTableToShards :: "crypto \<Rightarrow> env \<Rightarrow> jsval list \<Rightarrow> (jsval \<Rightarrow> json list \<Rightarrow> 'a prog) \<Rightarrow> 'a prog" where
  "pushRoutingTableToShards cr env shardUrls k =
     buildSignedRoutingTable cr env (\<lambda>table.
     FetchAll (push_requests shardUrls table) (\<lambda>results.
       k (js_prop table ''version'') (map2 push_outcome shardUrls results)))"

section \<open>Signed responses and the server hello\<close>

definition buildSignedResponse :: "crypto \<Rightarrow> env \<Rightarrow> json \<Rightarrow> nat \<Rightarrow> json \<Rightarrow> (json \<Rightarrow> 'a prog) \<Rightarrow> 'a prog" where
  "buildSignedResponse cr env requestId status body k =
     Now (\<lambda>now.
       let timestamp = str_of_int now;
           bodyHash = sha256Hex cr (json_stringify body) in
       signing_key cr env (\<lambda>key.
         let signature = signWithShardKey cr key (signed_data (js_string_json requestId) status timestamp bodyHash)
         in k (mk_obj [(''version'', Some (JNum 1)),
                       (''request_id'', Some requestId),
                       (''status'', Some (JNum (int status))),
                       (''timestamp'', Some (JStr timestamp)),
                       (''body_hash'', Some (JStr bodyHash)),
                       (''body'', Some body),
                       (''server_public_key'', str_val (ROUTER_SIGNING_PUBLIC env)),
                       (''signature'', Some (JStr signature))])))"

definition router_hello_response :: "string \<Rightarrow> jsval \<Rightarrow> string \<Rightarrow> string \<Rightarrow> string \<Rightarrow> response" where
  "router_hello_response protocol pub nonce timestamp signature =
     jsonOk (mk_obj [(''version'', Some (JNum 1)),
                     (''type'', Some (JStr ''server_hello'')),
                     (''protocol'', Some (JStr protocol)),
                     (''server_public_key'', pub),
                     (''challenge'', Some (JStr nonce)),
                     (''timestamp'', Some (JStr timestamp)),
                     (''signature'', Some (JStr signature))]) []"

definition router_handleServerHello :: "crypto \<Rightarrow> env \<Rightarrow> request \<Rightarrow> response prog" where
  "router_handleServerHello cr env req =
     router_body req (\<lambda>body.
       case hello_request body of
         Inl e \<Rightarrow> Return (jsonErr (if e = ProtocolBad then R_ProtocolBad else R_NonceBadLength) 400)
       | Inr (nonce, protocol) \<Rightarrow>
           Now (\<lambda>now.
           let timestamp = str_of_int now;
               pub = str_val (ROUTER_SIGNING_PUBLIC env);
               signedPayload = hello_payload protocol nonce (js_string pub) timestamp in
           signing_key cr env (\<lambda>key.
             Return (router_hello_response protocol pub nonce timestamp (signWithShardKey cr key signedPayload)))))"

section \<open>What the configuration reads\<close>

definition registered_of :: "(string \<Rightarrow> string option) \<Rightarrow> json list" where
  "registered_of kv =
     (case present (kv ''registered_shards'') of
        None \<Rightarrow> []
      | Some text \<Rightarrow> (case json_parse text of Some (JArr xs) \<Rightarrow> xs | _ \<Rightarrow> []))"

definition prior_of :: "env \<Rightarrow> (string \<Rightarrow> string option) \<Rightarrow> json list" where
  "prior_of env kv =
     (case present (kv ''prior_shard_counts'') of
        None \<Rightarrow> var_prior_counts env
      | Some text \<Rightarrow> (case json_array_of text of Some xs \<Rightarrow> xs | None \<Rightarrow> var_prior_counts env))"

definition version_of :: "env \<Rightarrow> (string \<Rightarrow> string option) \<Rightarrow> number" where
  "version_of env kv =
     (case present (kv ''routing_table_version'') of
        None \<Rightarrow> var_version env
      | Some text \<Rightarrow> if digits_re (trim text) then number_of_string (trim text) else var_version env)"

lemma run_getRegisteredShards [run_simps]:
  "isolated sv \<Longrightarrow> has_ROUTER_ADMIN_KV env \<Longrightarrow> run sv (getRegisteredShards env k) s =
     run sv (k (registered_of (sv_view sv s ROUTER_ADMIN_KV))) (snd (sv_get sv s ROUTER_ADMIN_KV ''registered_shards''))"
  by (simp add: getRegisteredShards_def run_simps registered_of_def split: option.splits)

lemma run_getPriorShardCounts [run_simps]:
  "isolated sv \<Longrightarrow> has_ROUTER_ADMIN_KV env \<Longrightarrow> run sv (getPriorShardCounts env k) s =
     run sv (k (prior_of env (sv_view sv s ROUTER_ADMIN_KV))) (snd (sv_get sv s ROUTER_ADMIN_KV ''prior_shard_counts''))"
  by (simp add: getPriorShardCounts_def run_simps prior_of_def)

lemma run_getRoutingTableVersion [run_simps]:
  "isolated sv \<Longrightarrow> has_ROUTER_ADMIN_KV env \<Longrightarrow> run sv (getRoutingTableVersion env k) s =
     run sv (k (version_of env (sv_view sv s ROUTER_ADMIN_KV))) (snd (sv_get sv s ROUTER_ADMIN_KV ''routing_table_version''))"
  by (simp add: getRoutingTableVersion_def run_simps version_of_def)

section \<open>The signature of the table\<close>

lemma mk_obj_append: "mk_obj (xs @ [(k, Some v)]) = (case mk_obj xs of JObj kvs \<Rightarrow> JObj (kvs @ [(k, v)]) | j \<Rightarrow> j)"
  by (simp add: mk_obj_def)

lemma unsigned_table:
  "rest_without ''signature'' (signed_table cr key (table_fields env urls prior version pks now)) =
     mk_obj (table_fields env urls prior version pks now)"
  by (auto simp: signed_table_def table_fields_def mk_obj_def str_val_def split: option.splits)

lemma table_signature:
  assumes "router_key cr env pub priv"
  shows "\<exists>sig. js_prop (signed_table cr priv (table_fields env urls prior version pks now)) ''signature'' = Some (JStr sig) \<and>
    sig = signWithShardKey cr priv (json_stringify (mk_obj (table_fields env urls prior version pks now))) \<and>
    verifyEd25519Message cr (bytesToHex pub) (json_stringify (mk_obj (table_fields env urls prior version pks now))) sig"
proof -
  have "key_pair cr pub priv" using assms by (simp add: router_key_def)
  then show ?thesis
    by (auto simp: signed_table_def table_fields_def mk_obj_def str_val_def verify_own_signature split: option.splits)
qed

end
