(* ===== verification/ShardAuth.thy ===== *)
theory ShardAuth
  imports RateLimit
begin

text \<open>
  How a shard decides whom to trust: Router capabilities of both formats
  (\<open>verifyCapability\<close>, \<open>verifyCapabilityV2\<close>) and the signed, single-use sender
  authentication of \<open>/send\<close> (\<open>verifySenderAuth\<close>).  \<open>sender_decision\<close> is the decision
  as a function of the request, the clock and the stored replay marks;
  \<open>run_verifySenderAuth\<close> shows that the code computes it.
\<close>

section \<open>Capabilities\<close>

definition cap_message :: "string \<Rightarrow> string \<Rightarrow> number \<Rightarrow> string" where
  "cap_message mailboxId readSecretHash capExp =
     ''cap:'' @ mailboxId @ '':'' @ readSecretHash @ '':'' @ str_of_number capExp"

definition cap_message_v2 :: "string \<Rightarrow> string \<Rightarrow> string \<Rightarrow> number \<Rightarrow> string \<Rightarrow> string" where
  "cap_message_v2 mailboxId clientPubkey scope capExp nonce =
     ''cap:v2:'' @ mailboxId @ '':'' @ clientPubkey @ '':'' @ scope @ '':'' @ str_of_number capExp @ '':'' @ nonce"

text \<open>A verification whose key may be \<open>undefined\<close>: \<open>hexToBytes\<close> throws and it is false.\<close>

definition verify_with :: "crypto \<Rightarrow> string option \<Rightarrow> string \<Rightarrow> string \<Rightarrow> bool" where
  "verify_with cr pub m sig = (case pub of None \<Rightarrow> False | Some p \<Rightarrow> verifyEd25519Message cr p m sig)"

definition verifyCapability ::
  "crypto \<Rightarrow> string \<Rightarrow> string \<Rightarrow> number \<Rightarrow> string \<Rightarrow> string option \<Rightarrow> (bool \<Rightarrow> 'a prog) \<Rightarrow> 'a prog" where
  "verifyCapability cr mailboxId readSecretHash capExp capSig routerPublicHex k =
     Now (\<lambda>now.
       if num_gt (Some now) capExp then k False
       else k (verify_with cr routerPublicHex (cap_message mailboxId readSecretHash capExp) capSig))"

definition verifyCapabilityV2 ::
  "crypto \<Rightarrow> string \<Rightarrow> jsval \<Rightarrow> string \<Rightarrow> number \<Rightarrow> string \<Rightarrow> string \<Rightarrow> string option \<Rightarrow>
   (bool \<Rightarrow> 'a prog) \<Rightarrow> 'a prog" where
  "verifyCapabilityV2 cr mailboxId clientPubkey scope capExp nonce capSig routerPublicHex k =
     Now (\<lambda>now.
       if num_gt (Some now) capExp then k False
       else attempt (js_lower clientPubkey) (\<lambda>pk.
         k (verify_with cr routerPublicHex (cap_message_v2 mailboxId pk scope capExp nonce) capSig)))"

lemma run_verifyCapability [run_simps]:
  "isolated sv \<Longrightarrow> run sv (verifyCapability cr mid h e sig pub k) s =
     run sv (k (\<not> num_gt (Some (sv_clock sv s)) e \<and> verify_with cr pub (cap_message mid h e) sig)) (snd (sv_now sv s))"
  by (simp add: verifyCapability_def run_simps)

lemma run_verifyCapabilityV2 [run_simps]:
  "isolated sv \<Longrightarrow> run sv (verifyCapabilityV2 cr mid (Some (JStr pk)) scope e nonce sig pub k) s =
     run sv (k (\<not> num_gt (Some (sv_clock sv s)) e \<and>
                verify_with cr pub (cap_message_v2 mid (lower pk) scope e nonce) sig)) (snd (sv_now sv s))"
  by (simp add: verifyCapabilityV2_def run_simps js_lower_def)

section \<open>Sender authentication\<close>

text \<open>\<open>const { k } = v ?? {}\<close>.\<close>

definition opt_prop :: "jsval \<Rightarrow> string \<Rightarrow> jsval" where
  "opt_prop v k = (case v of None \<Rightarrow> None | Some j \<Rightarrow> js_prop j k)"

definition outside_skew :: "int \<Rightarrow> number \<Rightarrow> number \<Rightarrow> bool" where
  "outside_skew now ts maxSkew = num_gt (map_option (\<lambda>t. \<bar>now - t\<bar>) ts) maxSkew"

definition replay_key :: "crypto \<Rightarrow> string \<Rightarrow> string \<Rightarrow> string \<Rightarrow> string" where
  "replay_key cr pubkey timestamp signature =
     ''replay:'' @ bytesToHex (sha256 cr (utf8 (lower pubkey @ '':'' @ timestamp @ '':'' @ lower signature)))"

definition replay_ttl :: "number \<Rightarrow> number" where
  "replay_ttl maxSkewMs = map_option (\<lambda>m. max 60 (- ((- m) div 1000))) maxSkewMs"

definition verifySenderAuth ::
  "crypto \<Rightarrow> jsval \<Rightarrow> number \<Rightarrow> string \<Rightarrow> (auth_error option \<Rightarrow> 'a prog) \<Rightarrow> 'a prog" where
  "verifySenderAuth cr auth maxSkewMs signedMessage k =
     (case str_test (hex_re 64 64) (opt_prop auth ''pubkey'') of
        None \<Rightarrow> k (Some BadSenderPubkey)
      | Some pubkey \<Rightarrow>
     (case str_test digits_re (opt_prop auth ''timestamp'') of
        None \<Rightarrow> k (Some BadSenderTimestamp)
      | Some timestamp \<Rightarrow>
     (case str_test (hex_re 128 128) (opt_prop auth ''signature'') of
        None \<Rightarrow> k (Some BadSenderSignature)
      | Some signature \<Rightarrow>
          Now (\<lambda>nowMs.
            if outside_skew nowMs (number_of_string timestamp) maxSkewMs then k (Some (OutsideSkew maxSkewMs))
            else
              let replayKey = replay_key cr pubkey timestamp signature in
              kvGet MAILBOX_KV replayKey (\<lambda>alreadySeen.
                if present alreadySeen \<noteq> None then k (Some ReplayDetected)
                else if \<not> verifyEd25519Message cr pubkey signedMessage signature then k (Some SignatureFailed)
                else kvPut MAILBOX_KV replayKey ''1'' (Some (replay_ttl maxSkewMs)) (k None))))))"

text \<open>The decision alone.\<close>

definition sender_decision ::
  "crypto \<Rightarrow> (string \<Rightarrow> string option) \<Rightarrow> int \<Rightarrow> jsval \<Rightarrow> number \<Rightarrow> string \<Rightarrow> auth_error option" where
  "sender_decision cr kv now auth maxSkew msg =
     (case (str_test (hex_re 64 64) (opt_prop auth ''pubkey''),
            str_test digits_re (opt_prop auth ''timestamp''),
            str_test (hex_re 128 128) (opt_prop auth ''signature'')) of
        (None, _, _) \<Rightarrow> Some BadSenderPubkey
      | (_, None, _) \<Rightarrow> Some BadSenderTimestamp
      | (_, _, None) \<Rightarrow> Some BadSenderSignature
      | (Some pk, Some ts, Some sig) \<Rightarrow>
          if outside_skew now (number_of_string ts) maxSkew then Some (OutsideSkew maxSkew)
          else if present (kv (replay_key cr pk ts sig)) \<noteq> None then Some ReplayDetected
          else if \<not> verifyEd25519Message cr pk msg sig then Some SignatureFailed
          else None)"

text \<open>The replay key of an authentication object, as the code derives it.\<close>

definition auth_replay_key :: "crypto \<Rightarrow> jsval \<Rightarrow> string" where
  "auth_replay_key cr auth =
     replay_key cr (js_string (opt_prop auth ''pubkey'')) (js_string (opt_prop auth ''timestamp''))
       (js_string (opt_prop auth ''signature''))"

text \<open>The platform after the check.\<close>

definition sender_next ::
  "'s service \<Rightarrow> 's \<Rightarrow> crypto \<Rightarrow> jsval \<Rightarrow> number \<Rightarrow> string \<Rightarrow> 's" where
  "sender_next sv s cr auth maxSkew msg = snd (run sv (verifySenderAuth cr auth maxSkew msg Return) s)"

lemma replay_ttl_ok: "maxSkew \<noteq> None \<Longrightarrow> ttl_ok (Some (replay_ttl maxSkew))"
  by (auto simp: replay_ttl_def)

lemma run_verifySenderAuth [run_simps]:
  assumes "isolated sv" and "maxSkew \<noteq> None"
  shows "run sv (verifySenderAuth cr auth maxSkew msg k) s =
    run sv (k (sender_decision cr (sv_view sv s MAILBOX_KV) (sv_clock sv s) auth maxSkew msg))
      (sender_next sv s cr auth maxSkew msg)"
  using assms replay_ttl_ok [OF assms(2)]
  by (simp add: verifySenderAuth_def sender_decision_def sender_next_def run_simps view_simps Let_def
      split: option.splits)

lemma view_sender_next [view_simps]:
  assumes "isolated sv" and "maxSkew \<noteq> None"
  shows "sv_view sv (sender_next sv s cr auth maxSkew msg) =
    (if sender_decision cr (sv_view sv s MAILBOX_KV) (sv_clock sv s) auth maxSkew msg = None
     then (sv_view sv s)(MAILBOX_KV := (sv_view sv s MAILBOX_KV)(auth_replay_key cr auth \<mapsto> ''1''))
     else sv_view sv s)"
  using assms replay_ttl_ok [OF assms(2)]
  by (auto simp: verifySenderAuth_def sender_decision_def sender_next_def run_simps view_simps Let_def
      auth_replay_key_def js_string_def str_test_Some split: option.splits)

lemma clock_sender_next [view_simps]:
  assumes "isolated sv" and "maxSkew \<noteq> None"
  shows "sv_clock sv (sender_next sv s cr auth maxSkew msg) = sv_clock sv s"
  using assms replay_ttl_ok [OF assms(2)]
  by (auto simp: verifySenderAuth_def sender_next_def run_simps view_simps Let_def split: option.splits)

lemma sender_decision_None:
  "sender_decision cr kv now auth maxSkew msg = None \<longleftrightarrow>
     (\<exists>pk ts sig. opt_prop auth ''pubkey'' = Some (JStr pk) \<and> hex_re 64 64 pk \<and>
        opt_prop auth ''timestamp'' = Some (JStr ts) \<and> digits_re ts \<and>
        opt_prop auth ''signature'' = Some (JStr sig) \<and> hex_re 128 128 sig \<and>
        \<not> outside_skew now (number_of_string ts) maxSkew \<and>
        present (kv (replay_key cr pk ts sig)) = None \<and> verifyEd25519Message cr pk msg sig)"
  by (auto simp: sender_decision_def str_test_Some hex_re_def digits_re_def str_test_def
      split: option.splits json.splits if_splits)

text \<open>An authentication already marked is refused, whatever message it comes with.\<close>

lemma sender_decision_replayed:
  assumes "present (kv (auth_replay_key cr auth)) \<noteq> None"
  shows "sender_decision cr kv now auth maxSkew msg \<noteq> None"
  using assms by (auto simp: sender_decision_None auth_replay_key_def js_string_def)

lemma replay_marked: "present (Some ''1'') \<noteq> None"
  by simp

text \<open>The clock values at which a timestamp passes, and how long its mark lives.\<close>

lemma outside_skew_iff: "\<not> outside_skew now (Some t) (Some m) \<longleftrightarrow> \<bar>now - t\<bar> \<le> m"
  by (auto simp: outside_skew_def)

lemma replay_window:
  assumes "0 \<le> m" and "replay_ttl (Some m) = Some ttl"
  shows "(\<forall>ts t1 t2. \<not> outside_skew t1 (Some ts) (Some m) \<and> \<not> outside_skew t2 (Some ts) (Some m)
            \<longrightarrow> t2 < t1 + 1000 * ttl) \<longleftrightarrow> m < 30000"
proof -
  have ttl: "ttl = max 60 (- ((- m) div 1000))" using assms(2) by (simp add: replay_ttl_def)
  have "(\<forall>ts t1 t2. \<bar>t1 - ts\<bar> \<le> m \<and> \<bar>t2 - ts\<bar> \<le> m \<longrightarrow> t2 < t1 + 1000 * ttl) \<longleftrightarrow> 2 * m < 1000 * ttl"
    (is "?l \<longleftrightarrow> ?r")
  proof
    assume ?l
    then have "\<bar>- m - 0\<bar> \<le> m \<and> \<bar>m - 0\<bar> \<le> m \<longrightarrow> m < - m + 1000 * ttl" by blast
    then show ?r using assms(1) by simp
  next
    assume ?r then show ?l by (auto simp: abs_le_iff)
  qed
  moreover have "2 * m < 1000 * ttl \<longleftrightarrow> m < 30000"
  proof (cases "m < 30000")
    case True
    then show ?thesis unfolding ttl by linarith
  next
    case False
    then have "- ((- m) div 1000) * 1000 \<le> m + 999" by linarith
    then show ?thesis using False unfolding ttl by (auto simp: max_def)
  qed
  ultimately show ?thesis by (simp add: outside_skew_iff)
qed

section \<open>Marks and records\<close>

text \<open>
  Rate-limit counters and replay marks are the keys every request may touch;
  \<open>same_records\<close> says that two states differ only there.
\<close>

definition mark_key :: "string \<Rightarrow> bool" where
  "mark_key k \<longleftrightarrow> take 3 k = ''rl:'' \<or> take 7 k = ''replay:''"

definition same_records :: "'s service \<Rightarrow> 's \<Rightarrow> 's \<Rightarrow> bool" where
  "same_records sv s s' \<longleftrightarrow>
     sv_clock sv s' = sv_clock sv s \<and>
     (\<forall>k. \<not> mark_key k \<longrightarrow> sv_view sv s' MAILBOX_KV k = sv_view sv s MAILBOX_KV k)"

definition under_limit :: "(string \<Rightarrow> string option) \<Rightarrow> int \<Rightarrow> string \<Rightarrow> number \<Rightarrow> int \<Rightarrow> bool" where
  "under_limit kv now bucket limit w \<longleftrightarrow> \<not> num_ge (counter_value (kv (window_key bucket w now))) limit"

lemma rl_ok_under_limit [view_simps]:
  "rl_ok sv s n b l w = under_limit (sv_view sv s n) (sv_clock sv s) b l w"
  by (simp add: rl_ok_def rl_count_def rl_key_def under_limit_def)

lemma under_limit_upd [simp]:
  "k \<noteq> window_key b w now \<Longrightarrow> under_limit (kv(k := v)) now b l w = under_limit kv now b l w"
  by (simp add: under_limit_def)

lemma mark_key_window [simp]: "mark_key (window_key b w now)"
  by (simp add: mark_key_def window_key_def)

lemma mark_key_replay [simp]: "mark_key (replay_key cr pk ts sig)" "mark_key (auth_replay_key cr a)"
  by (simp_all add: mark_key_def replay_key_def auth_replay_key_def)

lemma replay_not_window [simp]:
  "auth_replay_key cr a \<noteq> window_key b w now" "window_key b w now \<noteq> auth_replay_key cr a"
  by (simp_all add: auth_replay_key_def replay_key_def window_key_def)

lemma same_records_refl [simp]: "same_records sv s s"
  by (simp add: same_records_def)

lemma same_records_trans: "same_records sv s s' \<Longrightarrow> same_records sv s' s'' \<Longrightarrow> same_records sv s s''"
  by (simp add: same_records_def)

lemma same_records_now: "isolated sv \<Longrightarrow> same_records sv s (snd (sv_now sv s))"
  by (simp add: same_records_def view_simps)

lemma same_records_get: "isolated sv \<Longrightarrow> same_records sv s (snd (sv_get sv s n k))"
  by (simp add: same_records_def view_simps)

lemma same_records_rl:
  "isolated sv \<Longrightarrow> 55 \<le> w \<Longrightarrow> same_records sv s (rl_next sv s MAILBOX_KV b l w)"
  by (auto simp: same_records_def view_simps rl_key_def)

lemma same_records_sender:
  "isolated sv \<Longrightarrow> maxSkew \<noteq> None \<Longrightarrow> same_records sv s (sender_next sv s cr auth maxSkew msg)"
  by (auto simp: same_records_def view_simps)

lemma same_recordsD:
  "same_records sv s s' \<Longrightarrow> \<not> mark_key k \<Longrightarrow> sv_view sv s' MAILBOX_KV k = sv_view sv s MAILBOX_KV k"
  "same_records sv s s' \<Longrightarrow> sv_clock sv s' = sv_clock sv s"
  by (simp_all add: same_records_def)

end
