(* ===== verification/RouterRegister.thy ===== *)
theory RouterRegister
  imports RoutingTable ShardAuth
begin

text \<open>
  \<open>POST /register\<close> (proof of pubkey ownership, the mailbox id and read secret, the signed
  capability, the fan-out of \<open>/create\<close>) and \<open>GET /resolve\<close> (the walk over the eras).
\<close>

section \<open>POST /register\<close>

record register_req =
  rq_pubkey :: jsval
  rq_timestamp :: jsval
  rq_signature :: jsval
  rq_requestId :: jsval

definition register_request :: "json \<Rightarrow> router_msg + register_req" where
  "register_request body =
     (let pubkey = js_prop body ''pubkey''; timestamp = js_prop body ''timestamp'';
          signature = js_prop body ''signature'' in
      if \<not> coerce_test (hex_re 64 64) pubkey then Inl R_PubkeyNotHex
      else if \<not> coerce_test digits_re timestamp then Inl R_TimestampRequired
      else if \<not> coerce_test (hex_re 128 128) signature then Inl R_SignatureNotHex
      else Inr \<lparr> rq_pubkey = pubkey, rq_timestamp = timestamp, rq_signature = signature,
                 rq_requestId = js_prop body ''request_id'' \<rparr>)"

definition ownership_message :: "string \<Rightarrow> string \<Rightarrow> string" where
  "ownership_message pubkeyLower timestamp = ''register:'' @ pubkeyLower @ '':'' @ timestamp"

definition create_body ::
  "string \<Rightarrow> string \<Rightarrow> int \<Rightarrow> string \<Rightarrow> jsval list \<Rightarrow> string \<Rightarrow> string \<Rightarrow> json" where
  "create_body mailboxId readSecretHash capExp capSig replicas pubkeyLower capNonce =
     JObj [(''mailbox_id'', JStr mailboxId),
           (''read_secret_hash'', JStr readSecretHash),
           (''cap_exp'', JNum capExp),
           (''cap_sig'', JStr capSig),
           (''replica_shard_urls'', arr_json replicas),
           (''cap_version'', JNum 2),
           (''client_pubkey'', JStr pubkeyLower),
           (''cap_nonce'', JStr capNonce)]"

record create_result =
  cr_ok :: bool
  cr_status :: nat
  cr_text :: string

definition create_result_of :: "fetch_result \<Rightarrow> create_result" where
  "create_result_of r =
     (case r of
        Fetched st text \<Rightarrow> \<lparr> cr_ok = resp_ok st, cr_status = st, cr_text = (if resp_ok st then [] else text) \<rparr>
      | FetchFailed name m \<Rightarrow> \<lparr> cr_ok = False, cr_status = 0, cr_text = error_to_string name m \<rparr>)"

definition register_response :: "string \<Rightarrow> string \<Rightarrow> jsval list \<Rightarrow> int \<Rightarrow> number \<Rightarrow> json" where
  "register_response mailboxId readSecret replicas capExp version =
     mk_obj [(''mailbox_id'', Some (JStr mailboxId)),
             (''read_secret'', Some (JStr readSecret)),
             (''shard_url'', elem_at replicas (Some 0)),
             (''replica_shard_urls'', Some (arr_json replicas)),
             (''expires_at'', Some (JNum capExp)),
             (''table_version'', Some (json_of_number version))]"

text \<open>After the fan-out: the primary decides, a missed replica is only logged.\<close>

definition register_finish ::
  "crypto \<Rightarrow> env \<Rightarrow> register_req \<Rightarrow> string \<Rightarrow> string \<Rightarrow> jsval list \<Rightarrow> int \<Rightarrow> create_result list \<Rightarrow> response prog" where
  "register_finish cr env q mailboxId readSecret replicas capExp createResults =
     (case createResults of
        [] \<Rightarrow> Throw TypeError
      | primary # others \<Rightarrow>
          if \<not> cr_ok primary
          then Log ''register: primary /create failed''
                 (Return (jsonErr (R_CreateFailed (cr_status primary) (take 200 (cr_text primary))) 502))
          else
            let rest =
              getRoutingTableVersion env (\<lambda>version.
                let resp = register_response mailboxId readSecret replicas capExp version in
                Log ''REGISTER RESPONSE:''
                (Log (json_stringify resp)
                (case rq_requestId q of
                   Some rid \<Rightarrow>
                     if truthy (Some rid)
                     then buildSignedResponse cr env rid 200 resp (\<lambda>signedResp. Return (jsonOk signedResp []))
                     else Return (jsonOk resp [])
                 | None \<Rightarrow> Return (jsonOk resp []))))
            in if list_ex (\<lambda>r. \<not> cr_ok r) others
               then Log ''register: some replicas failed /create'' rest
               else rest)"

definition create_requests :: "jsval list \<Rightarrow> json \<Rightarrow> out_request list" where
  "create_requests replicas body = map (\<lambda>u. post_json (js_string u @ ''/create'') body) replicas"

text \<open>Minting the capability, once ownership of the pubkey is proved.\<close>

definition register_mint ::
  "crypto \<Rightarrow> env \<Rightarrow> jsval list \<Rightarrow> register_req \<Rightarrow> string \<Rightarrow> response prog" where
  "register_mint cr env shardUrls q pubkey =
     (let mailboxId = hmacHex cr (lower pubkey) (var_text (SERVER_SECRET env));
          n = int (length shardUrls);
          r = replicationFactor env n;
          replicas = replicasForEra cr pubkey n shardUrls r in
      randomHex 32 (\<lambda>readSecret.
      let readSecretHash = sha256Hex cr readSecret in
      Now (\<lambda>now.
      let capExp = now + CAPABILITY_TTL_SECONDS * 1000 in
      signing_key cr env (\<lambda>signingKey.
      randomHex 16 (\<lambda>capNonce.
      let capSig = signWithShardKey cr signingKey
            (cap_message_v2 mailboxId (lower pubkey) ''mailbox.create'' (Some capExp) capNonce);
          body = create_body mailboxId readSecretHash capExp capSig replicas (lower pubkey) capNonce in
      FetchAll (create_requests replicas body) (\<lambda>results.
      register_finish cr env q mailboxId readSecret replicas capExp (map create_result_of results)))))))"

definition handleRegister :: "crypto \<Rightarrow> env \<Rightarrow> jsval list \<Rightarrow> request \<Rightarrow> response prog" where
  "handleRegister cr env shardUrls req =
     router_body req (\<lambda>body.
       case register_request body of
         Inl e \<Rightarrow> Return (jsonErr e 400)
       | Inr q \<Rightarrow>
           Now (\<lambda>now.
           if outside_skew now (js_number (rq_timestamp q)) (Some 30000) then Return (jsonErr R_OutsideSkew 401)
           else
             attempt (js_lower (rq_pubkey q)) (\<lambda>pubkeyLower.
             if \<not> verifyEd25519 cr (js_string (rq_pubkey q))
                   (ownership_message pubkeyLower (js_string (rq_timestamp q))) (rq_signature q)
             then Return (jsonErr R_SignatureFailed 401)
             else register_mint cr env shardUrls q (js_string (rq_pubkey q)))))"

section \<open>GET /resolve\<close>

definition resolve_response :: "string \<Rightarrow> jsval list \<Rightarrow> int \<Rightarrow> number \<Rightarrow> string option \<Rightarrow> json" where
  "resolve_response mailboxId replicas era version note =
     mk_obj [(''mailbox_id'', Some (JStr mailboxId)),
             (''shard_url'', elem_at replicas (Some 0)),
             (''replica_shard_urls'', Some (arr_json replicas)),
             (''era'', Some (JNum era)),
             (''table_version'', Some (json_of_number version)),
             (''note'', map_option JStr note)]"

definition exists_request :: "jsval \<Rightarrow> string \<Rightarrow> out_request" where
  "exists_request shardUrl mailboxId =
     \<lparr> out_method = ''GET'', out_url = js_string shardUrl @ ''/exists?mailbox_id='' @ mailboxId,
       out_headers = [], out_body = None \<rparr>"

definition probe_ok :: "fetch_result \<Rightarrow> bool" where
  "probe_ok r = (case r of Fetched st text \<Rightarrow> resp_ok st | FetchFailed name m \<Rightarrow> False)"

definition era_replicas :: "crypto \<Rightarrow> env \<Rightarrow> string \<Rightarrow> jsval list \<Rightarrow> int \<Rightarrow> jsval list" where
  "era_replicas cr env pubkey shardUrls n = replicasForEra cr pubkey n shardUrls (replicationFactor env n)"

fun resolve_eras ::
  "crypto \<Rightarrow> env \<Rightarrow> string \<Rightarrow> string \<Rightarrow> jsval list \<Rightarrow> int list \<Rightarrow> response prog" where
  "resolve_eras cr env pubkey mailboxId shardUrls [] =
     (let n = int (length shardUrls); replicas = era_replicas cr env pubkey shardUrls n in
      getRoutingTableVersion env (\<lambda>version.
        Return (jsonOk (resolve_response mailboxId replicas n version
          (Some ''mailbox not confirmed to exist yet on any known era'')) [])))"
| "resolve_eras cr env pubkey mailboxId shardUrls (n # ns) =
     (let replicas = era_replicas cr env pubkey shardUrls n in
      fetch1 (exists_request (elem_at replicas (Some 0)) mailboxId) (\<lambda>resp.
        if probe_ok resp
        then catch_with (\<lambda>_. resolve_eras cr env pubkey mailboxId shardUrls ns)
               (getRoutingTableVersion env (\<lambda>version.
                  Return (jsonOk (resolve_response mailboxId replicas n version None) [])))
        else resolve_eras cr env pubkey mailboxId shardUrls ns))"

definition handleResolve :: "crypto \<Rightarrow> env \<Rightarrow> jsval list \<Rightarrow> request \<Rightarrow> response prog" where
  "handleResolve cr env shardUrls req =
     (case str_test (hex_re 64 64) (str_val (map_of (req_query req) ''pubkey'')) of
        None \<Rightarrow> Return (jsonErr R_PubkeyQuery 400)
      | Some pubkey \<Rightarrow>
          let mailboxId = hmacHex cr (lower pubkey) (var_text (SERVER_SECRET env)) in
          getPriorShardCounts env (\<lambda>priorCounts.
            resolve_eras cr env pubkey mailboxId shardUrls (eraCountsDescending shardUrls priorCounts)))"

section \<open>The walk over the eras\<close>

text \<open>
  A network on which the probe of a shard for this mailbox always has the same outcome.
\<close>

definition probes :: "'s service \<Rightarrow> string \<Rightarrow> (jsval \<Rightarrow> bool) \<Rightarrow> bool" where
  "probes sv mailboxId holds \<longleftrightarrow>
     (\<forall>s u. probe_ok (hd (fst (sv_fetch sv s [exists_request u mailboxId]))) = holds u)"

lemma run_resolve_eras:
  assumes iso: "isolated sv" and kv: "has_ROUTER_ADMIN_KV env" and probes: "probes sv mid holds"
    and point: "hashPoint cr (lower pubkey) = Some (int p)"
    and ns: "\<forall>n\<in>set ns. 0 < n \<and> n \<le> int (length urls) \<and> replicationFactor env n \<noteq> None"
  shows "fst (run sv (resolve_eras cr env pubkey mid urls ns) s) =
    (let version = version_of env (sv_view sv s ROUTER_ADMIN_KV) in
     case ring.walk env holds p ns urls of
       Some n \<Rightarrow> Done (jsonOk (resolve_response mid (era_replicas cr env pubkey urls n) n version None) [])
     | None \<Rightarrow> Done (jsonOk (resolve_response mid (era_replicas cr env pubkey urls (int (length urls)))
                (int (length urls)) version (Some ''mailbox not confirmed to exist yet on any known era'')) []))"
  using ns
proof (induction ns arbitrary: s)
  case Nil
  show ?case using iso kv by (simp add: run_simps Let_def)
next
  case (Cons n ns)
  have n: "0 < n \<and> n \<le> int (length urls) \<and> replicationFactor env n \<noteq> None" using Cons.prems by simp
  let ?reps = "replicaSetForEra (Some (int p)) n urls (replicationFactor env n)"
  have reps: "era_replicas cr env pubkey urls n = ?reps"
    by (simp add: era_replicas_def replicasForEra_def point)
  have "?reps \<noteq> []" by (rule ring.place_nonempty [OF n])
  then have hd: "elem_at ?reps (Some 0) = hd ?reps" by (simp add: elem_at_def hd_conv_nth)
  define s1 where "s1 = snd (sv_fetch sv s [exists_request (hd ?reps) mid])"
  have v1: "sv_view sv s1 = sv_view sv s" using iso by (simp add: s1_def view_simps)
  have pr: "probe_ok (hd (fst (sv_fetch sv s [exists_request (hd ?reps) mid]))) = holds (hd ?reps)"
    using probes by (simp add: probes_def)
  show ?case
  proof (cases "holds (hd ?reps)")
    case True
    then show ?thesis
      using iso kv pr v1 by (simp add: reps hd Let_def run_simps run_catch_with s1_def [symmetric])
  next
    case False
    then have "run sv (resolve_eras cr env pubkey mid urls (n # ns)) s = run sv (resolve_eras cr env pubkey mid urls ns) s1"
      using iso pr by (simp add: reps hd Let_def run_simps s1_def [symmetric])
    with Cons.IH [of s1] Cons.prems False v1 show ?thesis by simp
  qed
qed

text \<open>\<open>/resolve\<close> on a well-configured Router.\<close>

lemma run_handleResolve:
  fixes sv :: "'s service" and s :: 's and urls :: "jsval list"
  assumes iso: "isolated sv" and kv: "has_ROUTER_ADMIN_KV env" and q: "map_of (req_query req) ''pubkey'' = Some pubkey"
    "hex_re 64 64 pubkey" and mid: "mid = hmacHex cr (lower pubkey) (var_text (SERVER_SECRET env))"
    and probes: "probes sv mid holds" and point: "hashPoint cr (lower pubkey) = Some (int p)"
    and rf: "\<And>n. replicationFactor env n \<noteq> None"
  defines "eras \<equiv> eraCountsDescending urls (prior_of env (sv_view sv s ROUTER_ADMIN_KV))"
  shows "fst (run sv (handleResolve cr env urls req) s) =
    (let version = version_of env (sv_view sv s ROUTER_ADMIN_KV) in
     case ring.walk env holds p eras urls of
       Some n \<Rightarrow> Done (jsonOk (resolve_response mid (era_replicas cr env pubkey urls n) n version None) [])
     | None \<Rightarrow> Done (jsonOk (resolve_response mid (era_replicas cr env pubkey urls (int (length urls)))
                (int (length urls)) version (Some ''mailbox not confirmed to exist yet on any known era'')) []))"
proof -
  define s1 where "s1 = snd (sv_get sv s ROUTER_ADMIN_KV ''prior_shard_counts'')"
  have v1: "sv_view sv s1 = sv_view sv s" using iso by (simp add: s1_def view_simps)
  have ns: "\<forall>n\<in>set eras. 0 < n \<and> n \<le> int (length urls) \<and> replicationFactor env n \<noteq> None"
    using rf by (auto simp: eras_def eras_set)
  have "pubkey \<noteq> []" using q(2) by (auto simp: hex_re_def)
  then have "run sv (handleResolve cr env urls req) s = run sv (resolve_eras cr env pubkey mid urls eras) s1"
    using iso kv q mid by (simp add: handleResolve_def run_simps str_val_def Let_def s1_def eras_def)
  then show ?thesis using run_resolve_eras [OF iso kv probes point ns, of s1] v1 by simp
qed

section \<open>What a registration sends and logs\<close>

definition registers_owner :: "crypto \<Rightarrow> int \<Rightarrow> register_req \<Rightarrow> string \<Rightarrow> bool" where
  "registers_owner cr now q pk \<longleftrightarrow>
     rq_pubkey q = Some (JStr pk) \<and>
     \<not> outside_skew now (js_number (rq_timestamp q)) (Some 30000) \<and>
     verifyEd25519 cr pk (ownership_message (lower pk) (js_string (rq_timestamp q))) (rq_signature q)"

lemma handleRegister_owner:
  assumes iso: "isolated sv" and body: "body_of req = Some body" and q: "register_request body = Inr q"
    and own: "registers_owner cr (sv_clock sv s) q pk"
  shows "run sv (handleRegister cr env urls req) s = run sv (register_mint cr env urls q pk) (snd (sv_now sv s))"
    and "trace sv (handleRegister cr env urls req) s = trace sv (register_mint cr env urls q pk) (snd (sv_now sv s))"
  using assms
  by (simp_all add: handleRegister_def registers_owner_def run_simps trace_simps js_lower_def js_string_def)

text \<open>The platform's random answers of one registration.\<close>

definition minted_secret :: "'s service \<Rightarrow> 's \<Rightarrow> string" where
  "minted_secret sv s = bytesToHex (fst (sv_random sv s 32))"

definition minted_nonce :: "'s service \<Rightarrow> 's \<Rightarrow> string" where
  "minted_nonce sv s = bytesToHex (fst (sv_random sv (snd (sv_now sv (snd (sv_random sv s 32)))) 16))"

definition minted_body ::
  "crypto \<Rightarrow> env \<Rightarrow> byte list \<Rightarrow> string \<Rightarrow> jsval list \<Rightarrow> string \<Rightarrow> string \<Rightarrow> int \<Rightarrow> json" where
  "minted_body cr env priv pk replicas secret nonce now =
     (let mid = hmacHex cr (lower pk) (var_text (SERVER_SECRET env));
          capExp = now + CAPABILITY_TTL_SECONDS * 1000
      in create_body mid (sha256Hex cr secret) capExp
           (signWithShardKey cr priv (cap_message_v2 mid (lower pk) ''mailbox.create'' (Some capExp) nonce))
           replicas (lower pk) nonce)"

definition minted_replicas :: "crypto \<Rightarrow> env \<Rightarrow> jsval list \<Rightarrow> string \<Rightarrow> jsval list" where
  "minted_replicas cr env urls pk = era_replicas cr env pk urls (int (length urls))"

lemma trace_register_mint:
  fixes sv :: "'s service" and s :: 's and urls :: "jsval list" and pk :: string
  assumes iso: "isolated sv" and key: "router_key cr env pub priv"
  defines "reps \<equiv> minted_replicas cr env urls pk"
  defines "reqs \<equiv> create_requests reps
      (minted_body cr env priv pk reps (minted_secret sv s) (minted_nonce sv s) (sv_clock sv s))"
  shows "\<exists>s1. sv_view sv s1 = sv_view sv s \<and> length (fst (sv_fetch sv s1 reqs)) = length reps \<and>
    trace sv (register_mint cr env urls q pk) s =
      EvFetch reqs # trace sv (register_finish cr env q (hmacHex cr (lower pk) (var_text (SERVER_SECRET env)))
        (minted_secret sv s) reps (sv_clock sv s + CAPABILITY_TTL_SECONDS * 1000)
        (map create_result_of (fst (sv_fetch sv s1 reqs)))) (snd (sv_fetch sv s1 reqs))"
proof (intro exI conjI)
  let ?s1 = "snd (sv_random sv (snd (sv_now sv (snd (sv_random sv s 32)))) 16)"
  show "sv_view sv ?s1 = sv_view sv s" using iso by (simp add: view_simps)
  show "length (fst (sv_fetch sv ?s1 reqs)) = length reps"
    using isolated_fetch [OF iso] by (simp add: reqs_def create_requests_def)
  show "trace sv (register_mint cr env urls q pk) s =
      EvFetch reqs # trace sv (register_finish cr env q (hmacHex cr (lower pk) (var_text (SERVER_SECRET env)))
        (minted_secret sv s) reps (sv_clock sv s + CAPABILITY_TTL_SECONDS * 1000)
        (map create_result_of (fst (sv_fetch sv ?s1 reqs)))) (snd (sv_fetch sv ?s1 reqs))"
    using iso key
    by (simp add: register_mint_def Let_def trace_simps randomHex_def view_simps minted_body_def minted_secret_def
        minted_nonce_def minted_replicas_def era_replicas_def reqs_def reps_def)
qed

text \<open>When the primary answers, the response, read secret included, is written to the log.\<close>

lemma trace_register_finish:
  assumes iso: "isolated sv" and kv: "has_ROUTER_ADMIN_KV env" and ok: "cr_ok primary"
  shows "EvLog (json_stringify (register_response mid secret reps capExp (version_of env (sv_view sv s ROUTER_ADMIN_KV))))
    \<in> set (trace sv (register_finish cr env q mid secret reps capExp (primary # others)) s)"
  using assms by (simp add: register_finish_def Let_def getRoutingTableVersion_def trace_simps version_of_def)

end
