(* ===== verification/RouterMesh.thy ===== *)
theory RouterMesh
  imports RoutingTable ShardAuth
begin

text \<open>
  The mesh the Router keeps in \<open>ROUTER_ADMIN_KV\<close>: proof-of-work challenges
  (\<open>GET /pow_challenge\<close>), self-registration (\<open>POST /register_shard\<close>) and key rotation
  (\<open>POST /rotate_shard_key\<close>).
\<close>

definition POW_CHALLENGE_TTL_SECONDS :: int where
  "POW_CHALLENGE_TTL_SECONDS = 120"

definition var_number :: "string option \<Rightarrow> int \<Rightarrow> number" where
  "var_number v dflt = (if is_set v then number_of_string (var_text v) else Some dflt)"

definition nonce_key :: "string \<Rightarrow> string" where
  "nonce_key nonce = ''pow_nonce:'' @ nonce"

section \<open>GET /pow_challenge\<close>

definition challenge_json :: "number \<Rightarrow> int \<Rightarrow> json" where
  "challenge_json difficulty expiresAt =
     JObj [(''difficulty'', json_of_number difficulty), (''expiresAt'', JNum expiresAt)]"

definition challenge_answer :: "string \<Rightarrow> number \<Rightarrow> int \<Rightarrow> json" where
  "challenge_answer nonce difficulty expiresAt =
     JObj [(''nonce'', JStr nonce), (''difficulty'', json_of_number difficulty), (''expires_at'', JNum expiresAt)]"

definition handlePowChallenge :: "env \<Rightarrow> request \<Rightarrow> response prog" where
  "handlePowChallenge env req =
     (if \<not> has_ROUTER_ADMIN_KV env then Return (jsonErr R_RegistrationDisabled 501)
      else
        adminRateLimit env (''pow-challenge-ip:'' @ clientIp req) 30 3600 (\<lambda>okIp.
        if \<not> okIp then Return (jsonErr R_TooManyChallenges 429)
        else
          randomHex 16 (\<lambda>nonce.
          let difficulty = var_number (SHARD_POW_DIFFICULTY_BITS env) 20 in
          Now (\<lambda>now.
          let expiresAt = now + POW_CHALLENGE_TTL_SECONDS * 1000 in
          kvPut ROUTER_ADMIN_KV (nonce_key nonce) (json_stringify (challenge_json difficulty expiresAt))
            (Some (Some (POW_CHALLENGE_TTL_SECONDS + 5)))
            (Return (jsonOk (challenge_answer nonce difficulty expiresAt) []))))))"

section \<open>POST /register_shard\<close>

record shard_req =
  sr_url :: string
  sr_pubkey :: jsval
  sr_nonce :: string
  sr_solution :: string
  sr_timestamp :: jsval
  sr_signature :: jsval

definition shard_request :: "json \<Rightarrow> router_msg + shard_req" where
  "shard_request body =
     (case str_test http_url_re (js_prop body ''shard_url'') of
        None \<Rightarrow> Inl R_ShardUrlInvalid
      | Some shardUrl \<Rightarrow>
      if \<not> coerce_test (hex_re 64 64) (js_prop body ''shard_pubkey'') then Inl R_ShardPubkeyNotHex
      else
     (case str_test (\<lambda>_. True) (js_prop body ''nonce'') of
        None \<Rightarrow> Inl R_NonceRequired
      | Some nonce \<Rightarrow>
     (case str_test (\<lambda>_. True) (js_prop body ''solution'') of
        None \<Rightarrow> Inl R_SolutionRequired
      | Some solution \<Rightarrow>
          if \<not> coerce_test digits_re (js_prop body ''timestamp'') then Inl R_TimestampRequired
          else if \<not> coerce_test (hex_re 128 128) (js_prop body ''signature'') then Inl R_SignatureNotHex
          else Inr \<lparr> sr_url = shardUrl, sr_pubkey = js_prop body ''shard_pubkey'', sr_nonce = nonce,
                     sr_solution = solution, sr_timestamp = js_prop body ''timestamp'',
                     sr_signature = js_prop body ''signature'' \<rparr>)))"

text \<open>\<open>existing.find(s => s.url === shardUrl)\<close>.\<close>

fun find_url :: "string \<Rightarrow> json list \<Rightarrow> js_error + json option" where
  "find_url url [] = Inr None"
| "find_url url (s # ss) =
     (case get_prop (Some s) ''url'' of
        Inl e \<Rightarrow> Inl e
      | Inr u \<Rightarrow> if u = Some (JStr url) then Inr (Some s) else find_url url ss)"

text \<open>
  \<open>existing.map(s => s.url === shardUrl ? {...} : s)\<close>; the replacement reads the clock.
\<close>

fun map_url :: "string \<Rightarrow> (json \<Rightarrow> int \<Rightarrow> json) \<Rightarrow> json list \<Rightarrow> (json list \<Rightarrow> 'a prog) \<Rightarrow> 'a prog" where
  "map_url url upd [] k = k []"
| "map_url url upd (s # ss) k =
     attempt (get_prop (Some s) ''url'') (\<lambda>u.
       if u = Some (JStr url)
       then Now (\<lambda>now. map_url url upd ss (\<lambda>rest. k (upd s now # rest)))
       else map_url url upd ss (\<lambda>rest. k (s # rest)))"

definition new_shard :: "string \<Rightarrow> string \<Rightarrow> int \<Rightarrow> json" where
  "new_shard url pubkeyLower now =
     JObj [(''url'', JStr url), (''pubkey'', JStr pubkeyLower), (''registered_at'', JNum now)]"

definition updated_shard :: "string \<Rightarrow> string \<Rightarrow> json \<Rightarrow> int \<Rightarrow> json" where
  "updated_shard url pubkeyLower s now =
     mk_obj [(''url'', Some (JStr url)), (''pubkey'', Some (JStr pubkeyLower)),
             (''registered_at'', js_prop s ''registered_at''), (''updated_at'', Some (JNum now))]"

text \<open>Storing the list and bumping the version, as both mesh updates do.\<close>

definition commit_shards :: "env \<Rightarrow> json list \<Rightarrow> (number \<Rightarrow> response) \<Rightarrow> response prog" where
  "commit_shards env updated answer =
     kvPut ROUTER_ADMIN_KV ''registered_shards'' (json_stringify (JArr updated)) None
     (getRoutingTableVersion env (\<lambda>currentVersion.
      let v = map_option (\<lambda>x. x + 1) currentVersion in
      kvPut ROUTER_ADMIN_KV ''routing_table_version'' (str_of_number v) None
        (Return (answer v))))"

definition register_answer :: "string \<Rightarrow> json list \<Rightarrow> number \<Rightarrow> response" where
  "register_answer url updated v =
     jsonOk (JObj [(''registered'', JBool True), (''shard_url'', JStr url),
                   (''shard_count'', JNum (int (length updated))), (''table_version'', json_of_number v)]) []"

definition register_store :: "env \<Rightarrow> shard_req \<Rightarrow> string \<Rightarrow> response prog" where
  "register_store env q pubkeyLower =
     getRegisteredShards env (\<lambda>existing.
     let maxShards = var_number (MAX_REGISTERED_SHARDS env) 200 in
     attempt (find_url (sr_url q) existing) (\<lambda>already.
       case already of
         Some _ \<Rightarrow>
           map_url (sr_url q) (updated_shard (sr_url q) pubkeyLower) existing (\<lambda>updated.
             commit_shards env updated (register_answer (sr_url q) updated))
       | None \<Rightarrow>
           if num_ge (Some (int (length existing))) maxShards then Return (jsonErr (R_MeshFull maxShards) 403)
           else Now (\<lambda>now.
             let updated = existing @ [new_shard (sr_url q) pubkeyLower now] in
             commit_shards env updated (register_answer (sr_url q) updated))))"

definition register_verify :: "crypto \<Rightarrow> env \<Rightarrow> shard_req \<Rightarrow> response prog" where
  "register_verify cr env q =
     Now (\<lambda>now.
     if outside_skew now (js_number (sr_timestamp q)) (Some 60000) then Return (jsonErr R_OutsideSkew 401)
     else
       attempt (js_lower (sr_pubkey q)) (\<lambda>pubkeyLower.
       if \<not> verifyEd25519 cr (js_string (sr_pubkey q))
             (register_message (sr_url q) pubkeyLower (js_string (sr_timestamp q))) (sr_signature q)
       then Return (jsonErr R_SelfSignatureFailed 401)
       else register_store env q pubkeyLower))"

definition pow_too_weak :: "crypto \<Rightarrow> shard_req \<Rightarrow> jsval \<Rightarrow> bool" where
  "pow_too_weak cr q difficulty =
     num_gt (js_number difficulty)
       (map_option int (leadingZeroBits (pow_digest cr (sr_nonce q) (sr_url q) (sr_solution q))))"

definition register_redeem :: "crypto \<Rightarrow> env \<Rightarrow> shard_req \<Rightarrow> response prog" where
  "register_redeem cr env q =
     kvGet ROUTER_ADMIN_KV (nonce_key (sr_nonce q)) (\<lambda>challengeRaw.
       case present challengeRaw of
         None \<Rightarrow> Return (jsonErr R_NonceUnknown 401)
       | Some text \<Rightarrow>
       (case json_parse text of
          None \<Rightarrow> Return (jsonErr R_ChallengeStorage 500)
        | Some challenge \<Rightarrow>
            Now (\<lambda>now.
            attempt (get_prop (Some challenge) ''expiresAt'') (\<lambda>expiresAt.
            if num_gt (Some now) (js_number expiresAt) then Return (jsonErr R_ChallengeExpired 401)
            else if pow_too_weak cr q (js_prop challenge ''difficulty'') then Return (jsonErr R_PowTooWeak 401)
            else kvDelete ROUTER_ADMIN_KV (nonce_key (sr_nonce q)) (register_verify cr env q)))))"

definition handleRegisterShard :: "crypto \<Rightarrow> env \<Rightarrow> request \<Rightarrow> response prog" where
  "handleRegisterShard cr env req =
     (if \<not> has_ROUTER_ADMIN_KV env then Return (jsonErr R_RegistrationDisabled 501)
      else router_body req (\<lambda>body.
        case shard_request body of
          Inl e \<Rightarrow> Return (jsonErr e 400)
        | Inr q \<Rightarrow>
            adminRateLimit env (''register-shard-ip:'' @ clientIp req) 6 3600 (\<lambda>ipOk.
            if \<not> ipOk then Return (jsonErr R_TooManyRegistrations 429)
            else register_redeem cr env q)))"

section \<open>POST /rotate_shard_key\<close>

record rotate_req =
  ro_url :: string
  ro_old :: jsval
  ro_new :: jsval
  ro_timestamp :: jsval
  ro_oldSig :: jsval
  ro_newSig :: jsval

definition rotate_request :: "json \<Rightarrow> js_error + (router_msg + rotate_req)" where
  "rotate_request body =
     (let oldPubkey = js_prop body ''old_pubkey''; newPubkey = js_prop body ''new_pubkey'';
          timestamp = js_prop body ''timestamp'';
          oldSig = js_prop body ''old_signature''; newSig = js_prop body ''new_signature'' in
      case str_test http_url_re (js_prop body ''shard_url'') of
        None \<Rightarrow> Inr (Inl R_ShardUrlInvalid)
      | Some shardUrl \<Rightarrow>
          if \<not> coerce_test (hex_re 64 64) oldPubkey then Inr (Inl R_OldPubkeyNotHex)
          else if \<not> coerce_test (hex_re 64 64) newPubkey then Inr (Inl R_NewPubkeyNotHex)
          else
            (case (js_lower oldPubkey, js_lower newPubkey) of
               (Inr o', Inr n') \<Rightarrow>
                 if o' = n' then Inr (Inl R_SamePubkey)
                 else if \<not> coerce_test digits_re timestamp then Inr (Inl R_TimestampRequired)
                 else if \<not> coerce_test (hex_re 128 128) oldSig then Inr (Inl R_OldSigNotHex)
                 else if \<not> coerce_test (hex_re 128 128) newSig then Inr (Inl R_NewSigNotHex)
                 else Inr (Inr \<lparr> ro_url = shardUrl, ro_old = oldPubkey, ro_new = newPubkey,
                                 ro_timestamp = timestamp, ro_oldSig = oldSig, ro_newSig = newSig \<rparr>)
             | _ \<Rightarrow> Inl TypeError))"

definition rotated_shard :: "string \<Rightarrow> string \<Rightarrow> string \<Rightarrow> json \<Rightarrow> int \<Rightarrow> json" where
  "rotated_shard url oldLower newLower s now =
     mk_obj [(''url'', Some (JStr url)), (''pubkey'', Some (JStr newLower)),
             (''registered_at'', js_prop s ''registered_at''), (''updated_at'', Some (JNum now)),
             (''previous_pubkey'', Some (JStr oldLower))]"

definition rotate_answer :: "string \<Rightarrow> string \<Rightarrow> number \<Rightarrow> response" where
  "rotate_answer url newLower v =
     jsonOk (JObj [(''rotated'', JBool True), (''shard_url'', JStr url), (''new_pubkey'', JStr newLower),
                   (''table_version'', json_of_number v)]) []"

definition rotate_apply :: "crypto \<Rightarrow> env \<Rightarrow> rotate_req \<Rightarrow> response prog" where
  "rotate_apply cr env q =
     getRegisteredShards env (\<lambda>existing.
     attempt (find_url (ro_url q) existing) (\<lambda>record.
       case record of
         None \<Rightarrow> Return (jsonErr R_ShardNotFound 404)
       | Some r \<Rightarrow>
           attempt (js_lower (js_prop r ''pubkey'')) (\<lambda>current.
           attempt (js_lower (ro_old q)) (\<lambda>oldLower.
           if current \<noteq> oldLower then Return (jsonErr R_OldPubkeyMismatch 401)
           else
             attempt (js_lower (ro_new q)) (\<lambda>newLower.
             let msg = (\<lambda>tag. rotation_message tag (ro_url q) oldLower newLower (js_string (ro_timestamp q))) in
             if \<not> verifyEd25519 cr (js_string (ro_old q)) (msg ''key_rotation'') (ro_oldSig q)
             then Return (jsonErr R_OldSigFailed 401)
             else if \<not> verifyEd25519 cr (js_string (ro_new q)) (msg ''key_rotation_accept'') (ro_newSig q)
             then Return (jsonErr R_NewSigFailed 401)
             else
               map_url (ro_url q) (rotated_shard (ro_url q) oldLower newLower) existing (\<lambda>updated.
                 commit_shards env updated (rotate_answer (ro_url q) newLower)))))))"

definition handleRotateShardKey :: "crypto \<Rightarrow> env \<Rightarrow> request \<Rightarrow> response prog" where
  "handleRotateShardKey cr env req =
     (if \<not> has_ROUTER_ADMIN_KV env then Return (jsonErr R_RotationDisabled 501)
      else router_body req (\<lambda>body.
        attempt (rotate_request body) (\<lambda>checked.
        case checked of
          Inl e \<Rightarrow> Return (jsonErr e 400)
        | Inr q \<Rightarrow>
            Now (\<lambda>now.
            if outside_skew now (js_number (ro_timestamp q)) (Some 60000) then Return (jsonErr R_OutsideSkew 401)
            else rotate_apply cr env q))))"

section \<open>The registry\<close>

text \<open>Records as the Router writes them, and the list it keeps: one record per URL.\<close>

definition record_ok :: "json \<Rightarrow> bool" where
  "record_ok s \<longleftrightarrow>
     (\<exists>kvs u p. s = JObj kvs \<and> wf_json s \<and> map_of kvs ''url'' = Some (JStr u) \<and> map_of kvs ''pubkey'' = Some (JStr p))"

definition record_url :: "json \<Rightarrow> string" where
  "record_url s = js_string (js_prop s ''url'')"

definition record_pubkey :: "json \<Rightarrow> string" where
  "record_pubkey s = js_string (js_prop s ''pubkey'')"

definition registry_ok :: "json list \<Rightarrow> bool" where
  "registry_ok xs \<longleftrightarrow> list_all record_ok xs \<and> distinct (map record_url xs)"

lemma record_okD:
  assumes "record_ok s"
  shows "get_prop (Some s) k = Inr (js_prop s k)" "js_prop s ''url'' = Some (JStr (record_url s))"
    "js_prop s ''pubkey'' = Some (JStr (record_pubkey s))" "wf_json s"
  using assms by (auto simp: record_ok_def record_url_def record_pubkey_def js_string_def)

lemma find_url_iff:
  "list_all record_ok xs \<Longrightarrow> find_url url xs = Inr (List.find (\<lambda>s. record_url s = url) xs)"
  by (induction xs) (auto simp: record_okD)

lemma run_map_url:
  assumes iso: "isolated sv"
  shows "list_all record_ok xs \<Longrightarrow> \<exists>s'. run sv (map_url url upd xs k) s =
      run sv (k (map (\<lambda>x. if record_url x = url then upd x (sv_clock sv s) else x) xs)) s' \<and>
    sv_view sv s' = sv_view sv s \<and> sv_clock sv s' = sv_clock sv s"
proof (induction xs arbitrary: k s)
  case Nil
  then show ?case by auto
next
  case (Cons x xs)
  have x: "record_ok x" and xs: "list_all record_ok xs" using Cons.prems by auto
  show ?case
  proof (cases "record_url x = url")
    case True
    define s1 where "s1 = snd (sv_now sv s)"
    have v: "sv_view sv s1 = sv_view sv s" "sv_clock sv s1 = sv_clock sv s"
      using iso by (simp_all add: s1_def view_simps)
    have "run sv (map_url url upd (x # xs) k) s =
        run sv (map_url url upd xs (\<lambda>rest. k (upd x (sv_clock sv s) # rest))) s1"
      using iso True by (simp add: record_okD [OF x] run_simps s1_def)
    with Cons.IH [OF xs, of "\<lambda>rest. k (upd x (sv_clock sv s) # rest)" s1, unfolded v] True show ?thesis by auto
  next
    case False
    have "run sv (map_url url upd (x # xs) k) s = run sv (map_url url upd xs (\<lambda>rest. k (x # rest))) s"
      using False by (simp add: record_okD [OF x])
    with Cons.IH [OF xs, of "\<lambda>rest. k (x # rest)" s] False show ?thesis by auto
  qed
qed

definition next_version :: "env \<Rightarrow> (string \<Rightarrow> string option) \<Rightarrow> number" where
  "next_version env kv = map_option (\<lambda>x. x + 1) (version_of env kv)"

lemma run_commit_shards:
  assumes iso: "isolated sv" and kv: "has_ROUTER_ADMIN_KV env"
  shows "fst (run sv (commit_shards env updated answer) s) =
      Done (answer (next_version env (sv_view sv s ROUTER_ADMIN_KV)))"
    and "sv_view sv (snd (run sv (commit_shards env updated answer) s)) ROUTER_ADMIN_KV =
      (sv_view sv s ROUTER_ADMIN_KV)(''registered_shards'' \<mapsto> json_stringify (JArr updated),
                                     ''routing_table_version'' \<mapsto>
                                       str_of_number (next_version env (sv_view sv s ROUTER_ADMIN_KV)))"
    and "sv_clock sv (snd (run sv (commit_shards env updated answer) s)) = sv_clock sv s"
  using assms
  by (simp_all add: commit_shards_def run_simps view_simps Let_def version_of_def next_version_def)

lemma registered_of_put [simp]:
  "list_all wf_json xs \<Longrightarrow> registered_of (kv(''registered_shards'' \<mapsto> json_stringify (JArr xs))) = xs"
  by (simp add: registered_of_def list_all_iff)

lemma registered_of_other [simp]:
  "k \<noteq> ''registered_shards'' \<Longrightarrow> registered_of (kv(k := v)) = registered_of kv"
  by (simp add: registered_of_def)

text \<open>The abstract update: append a new shard, or give a known one its new key.\<close>

definition registry_put :: "(json \<Rightarrow> int \<Rightarrow> json) \<Rightarrow> string \<Rightarrow> json \<Rightarrow> int \<Rightarrow> json list \<Rightarrow> json list" where
  "registry_put upd url new now xs =
     (if \<exists>s\<in>set xs. record_url s = url
      then map (\<lambda>x. if record_url x = url then upd x now else x) xs
      else xs @ [new])"

definition keeps_url :: "string \<Rightarrow> (json \<Rightarrow> int \<Rightarrow> json) \<Rightarrow> bool" where
  "keeps_url url upd \<longleftrightarrow> (\<forall>x now. record_ok x \<longrightarrow> record_ok (upd x now) \<and> record_url (upd x now) = url)"

lemma record_ok_mk:
  "record_ok (new_shard url pk now)"
  "record_url (new_shard url pk now) = url" "record_pubkey (new_shard url pk now) = pk"
  by (simp_all add: record_ok_def record_url_def record_pubkey_def new_shard_def js_string_def
      obj_canonical_def key_precedes_def is_digit_def)

lemma keeps_url_updated: "keeps_url url (updated_shard url pk)"
  by (auto simp: keeps_url_def record_ok_def record_url_def updated_shard_def mk_obj_def js_string_def
      obj_canonical_def key_precedes_def is_digit_def split: option.splits
      dest: wf_json_map_of [where k = "''registered_at''"])

lemma keeps_url_rotated: "keeps_url url (rotated_shard url old pk)"
  by (auto simp: keeps_url_def record_ok_def record_url_def rotated_shard_def mk_obj_def js_string_def
      obj_canonical_def key_precedes_def is_digit_def split: option.splits
      dest: wf_json_map_of [where k = "''registered_at''"])

lemma registry_put_ok:
  assumes "registry_ok xs" and "keeps_url url upd" and "record_ok new" and "record_url new = url"
  shows "registry_ok (registry_put upd url new now xs)"
    and "url \<in> set (map record_url (registry_put upd url new now xs))"
    and "set (map record_url xs) \<subseteq> set (map record_url (registry_put upd url new now xs))"
proof -
  let ?m = "map (\<lambda>x. if record_url x = url then upd x now else x) xs"
  have ok: "list_all record_ok xs" "distinct (map record_url xs)" using assms(1) by (auto simp: registry_ok_def)
  have urls: "map record_url ?m = map record_url xs"
    using ok(1) assms(2) by (auto simp: keeps_url_def list_all_iff)
  have m: "list_all record_ok ?m" using ok(1) assms(2) by (auto simp: keeps_url_def list_all_iff)
  show "registry_ok (registry_put upd url new now xs)"
  proof (cases "\<exists>s\<in>set xs. record_url s = url")
    case True
    have "registry_ok ?m" unfolding registry_ok_def urls using m ok(2) by blast
    with True show ?thesis by (simp add: registry_put_def)
  next
    case False
    with ok assms(3,4) show ?thesis by (auto simp: registry_put_def registry_ok_def)
  qed
  have "url \<in> record_url ` set xs \<Longrightarrow> url \<in> set (map record_url ?m)" unfolding urls by simp
  then have "\<exists>s\<in>set xs. record_url s = url \<Longrightarrow> url \<in> set (map record_url ?m)" by blast
  then show "url \<in> set (map record_url (registry_put upd url new now xs))"
    unfolding registry_put_def using assms(4)
    by (cases "\<exists>s\<in>set xs. record_url s = url") (simp_all only: if_True if_False, auto)
  have "set (map record_url xs) \<subseteq> set (map record_url ?m)" unfolding urls by simp
  then show "set (map record_url xs) \<subseteq> set (map record_url (registry_put upd url new now xs))"
    unfolding registry_put_def by (cases "\<exists>s\<in>set xs. record_url s = url") (simp_all only: if_True if_False, auto)
qed

section \<open>What a registration does\<close>

definition mesh_full :: "env \<Rightarrow> json list \<Rightarrow> string \<Rightarrow> bool" where
  "mesh_full env reg url \<longleftrightarrow>
     \<not> (\<exists>s\<in>set reg. record_url s = url) \<and>
     num_ge (Some (int (length reg))) (var_number (MAX_REGISTERED_SHARDS env) 200)"

definition after_registration :: "string \<Rightarrow> string \<Rightarrow> int \<Rightarrow> json list \<Rightarrow> json list" where
  "after_registration url pk now reg = registry_put (updated_shard url pk) url (new_shard url pk now) now reg"

definition committed ::
  "env \<Rightarrow> json list \<Rightarrow> (string \<Rightarrow> string option) \<Rightarrow> (string \<Rightarrow> string option)" where
  "committed env updated kv =
     kv(''registered_shards'' \<mapsto> json_stringify (JArr updated),
        ''routing_table_version'' \<mapsto> str_of_number (next_version env kv))"

lemma find_record_Some: "List.find (\<lambda>s. record_url s = url) xs = Some x \<Longrightarrow> \<exists>s\<in>set xs. record_url s = url"
  using find_Some_mem by fastforce

lemma run_register_store:
  assumes iso: "isolated sv" and kv: "has_ROUTER_ADMIN_KV env"
    and ok: "registry_ok (registered_of (sv_view sv s ROUTER_ADMIN_KV))"
  defines "reg \<equiv> registered_of (sv_view sv s ROUTER_ADMIN_KV)"
  shows "mesh_full env reg (sr_url q) \<Longrightarrow>
      fst (run sv (register_store env q pk) s) =
        Done (jsonErr (R_MeshFull (var_number (MAX_REGISTERED_SHARDS env) 200)) 403) \<and>
      sv_view sv (snd (run sv (register_store env q pk) s)) = sv_view sv s"
    and "\<not> mesh_full env reg (sr_url q) \<Longrightarrow>
      fst (run sv (register_store env q pk) s) =
        Done (register_answer (sr_url q) (after_registration (sr_url q) pk (sv_clock sv s) reg)
          (next_version env (sv_view sv s ROUTER_ADMIN_KV))) \<and>
      sv_view sv (snd (run sv (register_store env q pk) s)) ROUTER_ADMIN_KV =
        committed env (after_registration (sr_url q) pk (sv_clock sv s) reg) (sv_view sv s ROUTER_ADMIN_KV)"
proof -
  define s1 where "s1 = snd (sv_get sv s ROUTER_ADMIN_KV ''registered_shards'')"
  have v1: "sv_view sv s1 = sv_view sv s" "sv_clock sv s1 = sv_clock sv s"
    using iso by (simp_all add: s1_def view_simps)
  have all: "list_all record_ok reg" using ok by (simp add: reg_def registry_ok_def)
  let ?url = "sr_url q" and ?max = "var_number (MAX_REGISTERED_SHARDS env) 200"
  have run: "run sv (register_store env q pk) s =
    (case List.find (\<lambda>s. record_url s = ?url) reg of
       Some _ \<Rightarrow> run sv (map_url ?url (updated_shard ?url pk) reg (\<lambda>updated.
             commit_shards env updated (register_answer ?url updated))) s1
     | None \<Rightarrow>
         if num_ge (Some (int (length reg))) ?max then (Done (jsonErr (R_MeshFull ?max) 403), s1)
         else run sv (commit_shards env (reg @ [new_shard ?url pk (sv_clock sv s)])
               (register_answer ?url (reg @ [new_shard ?url pk (sv_clock sv s)]))) (snd (sv_now sv s1)))"
    using iso kv all v1
    by (simp add: register_store_def run_simps find_url_iff Let_def reg_def [symmetric] s1_def [symmetric] v1
        split: option.splits)
  show "mesh_full env reg ?url \<Longrightarrow>
      fst (run sv (register_store env q pk) s) = Done (jsonErr (R_MeshFull ?max) 403) \<and>
      sv_view sv (snd (run sv (register_store env q pk) s)) = sv_view sv s"
    by (auto simp: run mesh_full_def v1 split: option.splits dest: find_record_Some)
  assume nf: "\<not> mesh_full env reg ?url"
  show "fst (run sv (register_store env q pk) s) =
        Done (register_answer ?url (after_registration ?url pk (sv_clock sv s) reg)
          (next_version env (sv_view sv s ROUTER_ADMIN_KV))) \<and>
      sv_view sv (snd (run sv (register_store env q pk) s)) ROUTER_ADMIN_KV =
        committed env (after_registration ?url pk (sv_clock sv s) reg) (sv_view sv s ROUTER_ADMIN_KV)"
  proof (cases "List.find (\<lambda>s. record_url s = ?url) reg")
    case None
    then have no: "\<not> (\<exists>s\<in>set reg. record_url s = ?url)" by (simp add: find_None_all)
    then have "\<not> num_ge (Some (int (length reg))) ?max" using nf by (simp add: mesh_full_def)
    with None no show ?thesis
      using iso kv by (simp add: run run_commit_shards view_simps v1 committed_def after_registration_def registry_put_def)
  next
    case (Some x)
    then have ex: "\<exists>s\<in>set reg. record_url s = ?url" by (rule find_record_Some)
    obtain s2 where s2: "run sv (map_url ?url (updated_shard ?url pk) reg (\<lambda>updated.
             commit_shards env updated (register_answer ?url updated))) s1 =
        run sv (commit_shards env (after_registration ?url pk (sv_clock sv s) reg)
          (register_answer ?url (after_registration ?url pk (sv_clock sv s) reg))) s2"
        "sv_view sv s2 = sv_view sv s"
      using run_map_url [OF iso all, of ?url "updated_shard ?url pk" "\<lambda>updated.
             commit_shards env updated (register_answer ?url updated)" s1, unfolded v1] ex
      unfolding after_registration_def registry_put_def by (simp only: if_True) blast
    show ?thesis
      using iso kv by (simp add: run Some s2 run_commit_shards committed_def)
  qed
qed

section \<open>Redeeming a challenge\<close>

definition challenge_pending :: "(string \<Rightarrow> string option) \<Rightarrow> string \<Rightarrow> number \<Rightarrow> int \<Rightarrow> bool" where
  "challenge_pending kv nonce difficulty expiresAt \<longleftrightarrow>
     kv (nonce_key nonce) = Some (json_stringify (challenge_json difficulty expiresAt))"

lemma wf_challenge [simp]: "wf_json (challenge_json d e)"
  by (cases d) (simp_all add: challenge_json_def json_of_number_def obj_canonical_def key_precedes_def is_digit_def)

lemma pow_too_weak_iff: "pow_too_weak cr q (Some (JNum d)) \<longleftrightarrow>
    \<not> pow_ok cr (sr_nonce q) (sr_url q) (Some d) (sr_solution q)"
proof -
  obtain k where "leadingZeroBits (pow_digest cr (sr_nonce q) (sr_url q) (sr_solution q)) = Some k"
    using leadingZeroBits_total by blast
  then show ?thesis by (auto simp: pow_too_weak_def pow_ok_def)
qed

definition ownership_proved :: "crypto \<Rightarrow> int \<Rightarrow> shard_req \<Rightarrow> string \<Rightarrow> bool" where
  "ownership_proved cr now q pk \<longleftrightarrow>
     sr_pubkey q = Some (JStr pk) \<and>
     \<not> outside_skew now (js_number (sr_timestamp q)) (Some 60000) \<and>
     verifyEd25519 cr pk (register_message (sr_url q) (lower pk) (js_string (sr_timestamp q))) (sr_signature q)"

lemma run_register_redeem_unknown:
  "isolated sv \<Longrightarrow> present (sv_view sv s ROUTER_ADMIN_KV (nonce_key (sr_nonce q))) = None \<Longrightarrow>
     fst (run sv (register_redeem cr env q) s) = Done (jsonErr R_NonceUnknown 401) \<and>
     sv_view sv (snd (run sv (register_redeem cr env q) s)) = sv_view sv s"
  by (simp add: register_redeem_def run_simps view_simps)

lemma run_register_redeem_weak:
  assumes "isolated sv" and "challenge_pending (sv_view sv s ROUTER_ADMIN_KV) (sr_nonce q) (Some d) e"
    and "sv_clock sv s \<le> e" and "\<not> pow_ok cr (sr_nonce q) (sr_url q) (Some d) (sr_solution q)"
  shows "fst (run sv (register_redeem cr env q) s) = Done (jsonErr R_PowTooWeak 401) \<and>
     sv_view sv (snd (run sv (register_redeem cr env q) s)) = sv_view sv s"
  using assms
  by (simp add: register_redeem_def run_simps view_simps challenge_pending_def)
    (simp add: challenge_json_def json_of_number_def pow_too_weak_iff run_simps view_simps)

lemma run_register_redeem:
  assumes iso: "isolated sv" and pend: "challenge_pending (sv_view sv s ROUTER_ADMIN_KV) (sr_nonce q) (Some d) e"
    and time: "sv_clock sv s \<le> e" and pow: "pow_ok cr (sr_nonce q) (sr_url q) (Some d) (sr_solution q)"
  shows "\<exists>s'. run sv (register_redeem cr env q) s = run sv (register_verify cr env q) s' \<and>
    sv_view sv s' ROUTER_ADMIN_KV = (sv_view sv s ROUTER_ADMIN_KV)(nonce_key (sr_nonce q) := None) \<and>
    sv_clock sv s' = sv_clock sv s"
proof -
  define s1 where "s1 = snd (sv_now sv (snd (sv_get sv s ROUTER_ADMIN_KV (nonce_key (sr_nonce q)))))"
  define s2 where "s2 = snd (sv_delete sv s1 ROUTER_ADMIN_KV (nonce_key (sr_nonce q)))"
  have "run sv (register_redeem cr env q) s = run sv (register_verify cr env q) s2"
    using assms
    by (simp add: register_redeem_def run_simps view_simps challenge_pending_def s1_def s2_def)
      (simp add: challenge_json_def json_of_number_def pow_too_weak_iff run_simps view_simps)
  moreover have "sv_view sv s2 ROUTER_ADMIN_KV = (sv_view sv s ROUTER_ADMIN_KV)(nonce_key (sr_nonce q) := None)"
    "sv_clock sv s2 = sv_clock sv s"
    using iso by (simp_all add: s1_def s2_def view_simps)
  ultimately show ?thesis by blast
qed

lemma run_register_verify:
  assumes iso: "isolated sv" and own: "ownership_proved cr (sv_clock sv s) q pk"
  shows "run sv (register_verify cr env q) s = run sv (register_store env q (lower pk)) (snd (sv_now sv s))"
  using assms by (simp add: register_verify_def ownership_proved_def run_simps js_lower_def js_string_def)

lemma run_register_verify_fails:
  assumes iso: "isolated sv" and pk: "sr_pubkey q = Some (JStr pk)" and own: "\<not> ownership_proved cr (sv_clock sv s) q pk"
  shows "fst (run sv (register_verify cr env q) s) \<in> {Done (jsonErr R_OutsideSkew 401), Done (jsonErr R_SelfSignatureFailed 401)} \<and>
    sv_view sv (snd (run sv (register_verify cr env q) s)) = sv_view sv s"
  using assms by (auto simp: register_verify_def ownership_proved_def run_simps js_lower_def js_string_def view_simps)

text \<open>The rate limit in front touches its own counter only.\<close>

definition register_limited :: "(string \<Rightarrow> string option) \<Rightarrow> int \<Rightarrow> request \<Rightarrow> bool" where
  "register_limited kv now req \<longleftrightarrow> \<not> under_limit kv now (''register-shard-ip:'' @ clientIp req) (Some 6) 3600"

lemma run_handleRegisterShard:
  assumes iso: "isolated sv" and kv: "has_ROUTER_ADMIN_KV env" and body: "body_of req = Some body"
    and q: "shard_request body = Inr q" and adm: "\<not> register_limited (sv_view sv s ROUTER_ADMIN_KV) (sv_clock sv s) req"
  shows "\<exists>s'. run sv (handleRegisterShard cr env req) s = run sv (register_redeem cr env q) s' \<and>
    sv_clock sv s' = sv_clock sv s \<and>
    (\<forall>k. \<not> mark_key k \<longrightarrow> sv_view sv s' ROUTER_ADMIN_KV k = sv_view sv s ROUTER_ADMIN_KV k)"
proof (intro exI conjI)
  let ?s' = "rl_next sv s ROUTER_ADMIN_KV (''register-shard-ip:'' @ clientIp req) (Some 6) 3600"
  show "run sv (handleRegisterShard cr env req) s = run sv (register_redeem cr env q) ?s'"
    using iso kv body q adm
    by (simp add: handleRegisterShard_def run_adminRateLimit register_limited_def rl_ok_under_limit)
  show "sv_clock sv ?s' = sv_clock sv s" using iso by (simp add: view_simps)
  show "\<forall>k. \<not> mark_key k \<longrightarrow> sv_view sv ?s' ROUTER_ADMIN_KV k = sv_view sv s ROUTER_ADMIN_KV k"
    using iso by (auto simp: view_simps rl_key_def)
qed

text \<open>An admissible registration, and the state it leaves.\<close>

definition registers :: "crypto \<Rightarrow> env \<Rightarrow> (string \<Rightarrow> string option) \<Rightarrow> int \<Rightarrow> shard_req \<Rightarrow> string \<Rightarrow> bool" where
  "registers cr env kv now q pk \<longleftrightarrow>
     (\<exists>d e. challenge_pending kv (sr_nonce q) (Some d) e \<and> now \<le> e \<and>
        pow_ok cr (sr_nonce q) (sr_url q) (Some d) (sr_solution q)) \<and>
     ownership_proved cr now q pk \<and> \<not> mesh_full env (registered_of kv) (sr_url q)"

lemma fixed_keys [simp]:
  "\<not> mark_key ''registered_shards''" "\<not> mark_key ''routing_table_version''" "\<not> mark_key ''prior_shard_counts''"
  "\<not> mark_key (nonce_key n)" "\<not> mark_key ''shard_urls''" "nonce_key n \<noteq> ''shard_urls''" "''shard_urls'' \<noteq> nonce_key n"
  "nonce_key n \<noteq> ''registered_shards''" "nonce_key n \<noteq> ''routing_table_version''"
  "nonce_key n \<noteq> ''prior_shard_counts''"
  "''registered_shards'' \<noteq> nonce_key n" "''routing_table_version'' \<noteq> nonce_key n"
  "''prior_shard_counts'' \<noteq> nonce_key n"
  by (simp_all add: mark_key_def nonce_key_def)

lemma registration_reaches_store:
  assumes iso: "isolated sv" and kv: "has_ROUTER_ADMIN_KV env" and body: "body_of req = Some body"
    and q: "shard_request body = Inr q" and adm: "\<not> register_limited (sv_view sv s ROUTER_ADMIN_KV) (sv_clock sv s) req"
    and ch: "challenge_pending (sv_view sv s ROUTER_ADMIN_KV) (sr_nonce q) (Some d) e" "sv_clock sv s \<le> e"
    and pow: "pow_ok cr (sr_nonce q) (sr_url q) (Some d) (sr_solution q)"
    and own: "ownership_proved cr (sv_clock sv s) q pk"
  shows "\<exists>s3. run sv (handleRegisterShard cr env req) s = run sv (register_store env q (lower pk)) s3 \<and>
    sv_clock sv s3 = sv_clock sv s \<and> sv_view sv s3 ROUTER_ADMIN_KV (nonce_key (sr_nonce q)) = None \<and>
    (\<forall>k. \<not> mark_key k \<longrightarrow> k \<noteq> nonce_key (sr_nonce q) \<longrightarrow> sv_view sv s3 ROUTER_ADMIN_KV k = sv_view sv s ROUTER_ADMIN_KV k)"
proof -
  obtain s1 where s1: "run sv (handleRegisterShard cr env req) s = run sv (register_redeem cr env q) s1"
      "sv_clock sv s1 = sv_clock sv s"
      "\<And>k. \<not> mark_key k \<Longrightarrow> sv_view sv s1 ROUTER_ADMIN_KV k = sv_view sv s ROUTER_ADMIN_KV k"
    using run_handleRegisterShard [OF iso kv body q adm] by blast
  have ch1: "challenge_pending (sv_view sv s1 ROUTER_ADMIN_KV) (sr_nonce q) (Some d) e" "sv_clock sv s1 \<le> e"
    using ch s1(2,3) by (auto simp: challenge_pending_def)
  obtain s2 where s2: "run sv (register_redeem cr env q) s1 = run sv (register_verify cr env q) s2"
      "sv_view sv s2 ROUTER_ADMIN_KV = (sv_view sv s1 ROUTER_ADMIN_KV)(nonce_key (sr_nonce q) := None)"
      "sv_clock sv s2 = sv_clock sv s1"
    using run_register_redeem [OF iso ch1 pow] by blast
  have "ownership_proved cr (sv_clock sv s2) q pk" using own s1(2) s2(3) by simp
  from run_register_verify [OF iso this] show ?thesis
    using iso s1 s2 by (intro exI [of _ "snd (sv_now sv s2)"]) (simp add: view_simps)
qed

lemma handleRegisterShard_accepts:
  assumes iso: "isolated sv" and kv: "has_ROUTER_ADMIN_KV env" and body: "body_of req = Some body"
    and q: "shard_request body = Inr q" and adm: "\<not> register_limited (sv_view sv s ROUTER_ADMIN_KV) (sv_clock sv s) req"
    and ok: "registry_ok (registered_of (sv_view sv s ROUTER_ADMIN_KV))"
    and regs: "registers cr env (sv_view sv s ROUTER_ADMIN_KV) (sv_clock sv s) q pk"
  defines "after \<equiv> after_registration (sr_url q) (lower pk) (sv_clock sv s) (registered_of (sv_view sv s ROUTER_ADMIN_KV))"
  defines "v \<equiv> next_version env (sv_view sv s ROUTER_ADMIN_KV)"
  defines "final \<equiv> sv_view sv (snd (run sv (handleRegisterShard cr env req) s)) ROUTER_ADMIN_KV"
  shows "fst (run sv (handleRegisterShard cr env req) s) = Done (register_answer (sr_url q) after v)"
    and "final ''registered_shards'' = Some (json_stringify (JArr after))"
    and "final ''routing_table_version'' = Some (str_of_number v)"
    and "final (nonce_key (sr_nonce q)) = None"
    and "final ''prior_shard_counts'' = sv_view sv s ROUTER_ADMIN_KV ''prior_shard_counts''"
    and "final ''shard_urls'' = sv_view sv s ROUTER_ADMIN_KV ''shard_urls''"
proof -
  obtain d e where ch: "challenge_pending (sv_view sv s ROUTER_ADMIN_KV) (sr_nonce q) (Some d) e"
      "sv_clock sv s \<le> e" "pow_ok cr (sr_nonce q) (sr_url q) (Some d) (sr_solution q)"
    and own: "ownership_proved cr (sv_clock sv s) q pk"
    using regs by (auto simp: registers_def)
  obtain s3 where s3: "run sv (handleRegisterShard cr env req) s = run sv (register_store env q (lower pk)) s3"
      "sv_clock sv s3 = sv_clock sv s" "sv_view sv s3 ROUTER_ADMIN_KV (nonce_key (sr_nonce q)) = None"
      "\<And>k. \<not> mark_key k \<Longrightarrow> k \<noteq> nonce_key (sr_nonce q) \<Longrightarrow> sv_view sv s3 ROUTER_ADMIN_KV k = sv_view sv s ROUTER_ADMIN_KV k"
    using registration_reaches_store [OF iso kv body q adm ch own] by blast
  have reg: "registered_of (sv_view sv s3 ROUTER_ADMIN_KV) = registered_of (sv_view sv s ROUTER_ADMIN_KV)"
    "version_of env (sv_view sv s3 ROUTER_ADMIN_KV) = version_of env (sv_view sv s ROUTER_ADMIN_KV)"
    "sv_view sv s3 ROUTER_ADMIN_KV ''prior_shard_counts'' = sv_view sv s ROUTER_ADMIN_KV ''prior_shard_counts''"
    "sv_view sv s3 ROUTER_ADMIN_KV ''shard_urls'' = sv_view sv s ROUTER_ADMIN_KV ''shard_urls''"
    using s3(4) by (simp_all add: registered_of_def version_of_def)
  have nf: "\<not> mesh_full env (registered_of (sv_view sv s3 ROUTER_ADMIN_KV)) (sr_url q)"
    using regs by (simp add: registers_def reg)
  have nv: "next_version env (sv_view sv s3 ROUTER_ADMIN_KV) = v"
    by (simp add: v_def next_version_def reg)
  note store = run_register_store(2) [OF iso kv ok [folded reg] nf, of "lower pk", unfolded reg s3(2), folded after_def, unfolded nv]
  show "fst (run sv (handleRegisterShard cr env req) s) = Done (register_answer (sr_url q) after v)"
    using store by (simp add: s3(1))
  have f: "final = committed env after (sv_view sv s3 ROUTER_ADMIN_KV)"
    using store by (simp add: final_def s3(1))
  show "final ''registered_shards'' = Some (json_stringify (JArr after))"
    "final ''routing_table_version'' = Some (str_of_number v)"
    "final ''prior_shard_counts'' = sv_view sv s ROUTER_ADMIN_KV ''prior_shard_counts''"
    "final ''shard_urls'' = sv_view sv s ROUTER_ADMIN_KV ''shard_urls''"
    "final (nonce_key (sr_nonce q)) = None"
    using reg nv s3(3) by (simp_all add: f committed_def)
qed

section \<open>What a rotation does\<close>

definition rotation_authorized :: "crypto \<Rightarrow> rotate_req \<Rightarrow> string \<Rightarrow> string \<Rightarrow> bool" where
  "rotation_authorized cr q old new \<longleftrightarrow>
     verifyEd25519 cr old (rotation_message ''key_rotation'' (ro_url q) (lower old) (lower new)
         (js_string (ro_timestamp q))) (ro_oldSig q) \<and>
     verifyEd25519 cr new (rotation_message ''key_rotation_accept'' (ro_url q) (lower old) (lower new)
         (js_string (ro_timestamp q))) (ro_newSig q)"

definition after_rotation :: "string \<Rightarrow> string \<Rightarrow> string \<Rightarrow> int \<Rightarrow> json list \<Rightarrow> json list" where
  "after_rotation url old new now reg =
     map (\<lambda>x. if record_url x = url then rotated_shard url old new x now else x) reg"

lemma run_rotate_apply:
  fixes cr :: crypto
  assumes iso: "isolated sv" and kv: "has_ROUTER_ADMIN_KV env"
    and ok: "registry_ok (registered_of (sv_view sv s ROUTER_ADMIN_KV))"
    and keys: "ro_old q = Some (JStr old)" "ro_new q = Some (JStr new)"
    and rec: "List.find (\<lambda>x. record_url x = ro_url q) (registered_of (sv_view sv s ROUTER_ADMIN_KV)) = Some r"
  defines "run' \<equiv> run sv (rotate_apply cr env q) s"
  shows "lower (record_pubkey r) = lower old \<Longrightarrow> rotation_authorized cr q old new \<Longrightarrow>
      fst run' = Done (rotate_answer (ro_url q) (lower new) (next_version env (sv_view sv s ROUTER_ADMIN_KV))) \<and>
      sv_view sv (snd run') ROUTER_ADMIN_KV =
        committed env (after_rotation (ro_url q) (lower old) (lower new) (sv_clock sv s)
          (registered_of (sv_view sv s ROUTER_ADMIN_KV))) (sv_view sv s ROUTER_ADMIN_KV)"
    and "\<not> (lower (record_pubkey r) = lower old \<and> rotation_authorized cr q old new) \<Longrightarrow>
      fst run' \<in> {Done (jsonErr R_OldPubkeyMismatch 401), Done (jsonErr R_OldSigFailed 401),
                  Done (jsonErr R_NewSigFailed 401)} \<and>
      sv_view sv (snd run') = sv_view sv s"
proof -
  define reg where "reg = registered_of (sv_view sv s ROUTER_ADMIN_KV)"
  define s1 where "s1 = snd (sv_get sv s ROUTER_ADMIN_KV ''registered_shards'')"
  have v1: "sv_view sv s1 = sv_view sv s" "sv_clock sv s1 = sv_clock sv s"
    using iso by (simp_all add: s1_def view_simps)
  have all: "list_all record_ok reg" using ok by (simp add: reg_def registry_ok_def)
  have "r \<in> set reg" using rec find_Some_mem by (fastforce simp: reg_def)
  then have r: "record_ok r" using all by (simp add: list_all_iff)
  let ?m = "\<lambda>tag. rotation_message tag (ro_url q) (lower old) (lower new) (js_string (ro_timestamp q))"
  let ?k = "\<lambda>updated. commit_shards env updated (rotate_answer (ro_url q) (lower new))"
  have run: "run' =
    (if lower (record_pubkey r) \<noteq> lower old then (Done (jsonErr R_OldPubkeyMismatch 401), s1)
     else if \<not> verifyEd25519 cr old (?m ''key_rotation'') (ro_oldSig q) then (Done (jsonErr R_OldSigFailed 401), s1)
     else if \<not> verifyEd25519 cr new (?m ''key_rotation_accept'') (ro_newSig q) then (Done (jsonErr R_NewSigFailed 401), s1)
     else run sv (map_url (ro_url q) (rotated_shard (ro_url q) (lower old) (lower new)) reg ?k) s1)"
    using iso kv all rec keys record_okD [OF r]
    by (simp add: run'_def rotate_apply_def run_simps find_url_iff reg_def [symmetric] s1_def [symmetric]
        js_lower_def js_string_def Let_def)
  show "\<not> (lower (record_pubkey r) = lower old \<and> rotation_authorized cr q old new) \<Longrightarrow>
      fst run' \<in> {Done (jsonErr R_OldPubkeyMismatch 401), Done (jsonErr R_OldSigFailed 401),
                  Done (jsonErr R_NewSigFailed 401)} \<and>
      sv_view sv (snd run') = sv_view sv s"
    by (auto simp: run rotation_authorized_def v1)
  assume auth: "lower (record_pubkey r) = lower old" "rotation_authorized cr q old new"
  obtain s2 where s2: "run sv (map_url (ro_url q) (rotated_shard (ro_url q) (lower old) (lower new)) reg ?k) s1 =
      run sv (?k (after_rotation (ro_url q) (lower old) (lower new) (sv_clock sv s) reg)) s2"
      "sv_view sv s2 = sv_view sv s"
    using run_map_url [OF iso all, of "ro_url q" "rotated_shard (ro_url q) (lower old) (lower new)" ?k s1, unfolded v1]
    unfolding after_rotation_def by blast
  have "run' = run sv (?k (after_rotation (ro_url q) (lower old) (lower new) (sv_clock sv s) reg)) s2"
    using auth by (simp add: run rotation_authorized_def s2(1))
  then show "fst run' = Done (rotate_answer (ro_url q) (lower new) (next_version env (sv_view sv s ROUTER_ADMIN_KV))) \<and>
      sv_view sv (snd run') ROUTER_ADMIN_KV =
        committed env (after_rotation (ro_url q) (lower old) (lower new) (sv_clock sv s)
          (registered_of (sv_view sv s ROUTER_ADMIN_KV))) (sv_view sv s ROUTER_ADMIN_KV)"
    using iso kv by (simp add: run_commit_shards s2(2) committed_def reg_def)
qed

section \<open>The registry after a commit\<close>

lemma registry_ok_wf: "registry_ok reg \<Longrightarrow> list_all wf_json reg"
  by (auto simp: registry_ok_def list_all_iff dest: record_okD(4))

lemma registered_of_text:
  assumes "kv ''registered_shards'' = Some (json_stringify (JArr reg))" and "registry_ok reg"
  shows "registered_of kv = reg"
  using assms(1) registry_ok_wf [OF assms(2)] by (simp add: registered_of_def list_all_iff)

lemma after_registration_ok: "registry_ok reg \<Longrightarrow> registry_ok (after_registration url pk now reg)"
  unfolding after_registration_def by (rule registry_put_ok [OF _ keeps_url_updated]) (simp_all add: record_ok_mk)

lemma after_rotation_ok: "registry_ok reg \<Longrightarrow> registry_ok (after_rotation url old new now reg)"
proof (cases "\<exists>x\<in>set reg. record_url x = url")
  case True
  then have put: "after_rotation url old new now reg = registry_put (rotated_shard url old new) url (new_shard url [] 0) now reg"
    by (simp add: registry_put_def after_rotation_def)
  show "registry_ok reg \<Longrightarrow> registry_ok (after_rotation url old new now reg)"
    unfolding put by (rule registry_put_ok [OF _ keeps_url_rotated record_ok_mk(1,2)])
next
  case False
  then have "after_rotation url old new now reg = reg" by (simp add: after_rotation_def map_idI)
  then show "registry_ok reg \<Longrightarrow> registry_ok (after_rotation url old new now reg)" by simp
qed

lemma registered_of_committed: "registry_ok reg \<Longrightarrow> registered_of (committed env reg kv) = reg"
  by (rule registered_of_text) (simp_all add: committed_def)

lemma rotated_shard_props [simp]:
  "record_url (rotated_shard url old new x now) = url" "record_pubkey (rotated_shard url old new x now) = new"
  by (simp_all add: record_url_def record_pubkey_def rotated_shard_def mk_obj_def js_string_def)

end
