(* ===== verification/RouterWorker.thy ===== *)
theory RouterWorker
  imports RouterRegister RouterMesh
begin

text \<open>
  The Router's entry points: \<open>/status\<close> with the health cache of the isolate, the
  operator endpoints, the dispatch of \<open>fetch\<close> and the scheduled push.  The module-level
  \<open>healthCache\<close> is an argument of \<open>router_fetch\<close> and part of its result.
\<close>

section \<open>Shard health\<close>

record health_cache =
  hc_checkedAt :: int
  hc_urls :: "jsval list option"

definition initial_health :: health_cache where
  "initial_health = \<lparr> hc_checkedAt = 0, hc_urls = None \<rparr>"

definition health_request :: "env \<Rightarrow> jsval \<Rightarrow> out_request" where
  "health_request env u =
     \<lparr> out_method = ''GET'', out_url = js_string u @ ''/health'',
       out_headers = (if is_set (ROUTER_SHARED_SECRET env)
                      then [(''Authorization'', ''Bearer '' @ var_text (ROUTER_SHARED_SECRET env))] else []),
       out_body = None \<rparr>"

definition getHealthyShards ::
  "env \<Rightarrow> health_cache \<Rightarrow> jsval list \<Rightarrow> (jsval list \<Rightarrow> health_cache \<Rightarrow> 'a prog) \<Rightarrow> 'a prog" where
  "getHealthyShards env cache shardUrls k =
     Now (\<lambda>now.
       let refresh = FetchAll (map (health_request env) shardUrls) (\<lambda>results.
             let healthy = map fst (filter (\<lambda>(u, r). probe_ok r) (zip shardUrls results));
                 kept = (if healthy = [] then shardUrls else healthy)
             in k kept \<lparr> hc_checkedAt = now, hc_urls = Some kept \<rparr>)
       in case hc_urls cache of
            Some urls \<Rightarrow> if now - hc_checkedAt cache < 10000 then k urls cache else refresh
          | None \<Rightarrow> refresh)"

definition status_answer :: "jsval list \<Rightarrow> jsval list \<Rightarrow> response" where
  "status_answer shardUrls healthy =
     jsonOk (JObj [(''totalShards'', JNum (int (length shardUrls))),
                   (''healthyShards'', JNum (int (length healthy))),
                   (''shards'', JArr (map (\<lambda>u. mk_obj [(''url'', u),
                      (''healthy'', Some (JBool (list_ex (same_value u) healthy)))]) shardUrls))]) []"

definition handleStatus :: "env \<Rightarrow> health_cache \<Rightarrow> jsval list \<Rightarrow> (response \<times> health_cache) prog" where
  "handleStatus env cache shardUrls =
     getHealthyShards env cache shardUrls (\<lambda>healthy cache'. Return (status_answer shardUrls healthy, cache'))"

section \<open>Operator endpoints\<close>

definition push_answer :: "jsval \<Rightarrow> json list \<Rightarrow> json" where
  "push_answer version results = mk_obj [(''version'', version), (''results'', Some (JArr results))]"

definition handlePushRoutingTable :: "crypto \<Rightarrow> env \<Rightarrow> jsval list \<Rightarrow> request \<Rightarrow> response prog" where
  "handlePushRoutingTable cr env shardUrls req =
     (if \<not> bearer_ok (=) env req then Return (jsonErr R_Unauthorized 401)
      else pushRoutingTableToShards cr env shardUrls (\<lambda>version results.
        Return (jsonOk (push_answer version results) [])))"

definition handleAdminConfig :: "env \<Rightarrow> jsval list \<Rightarrow> request \<Rightarrow> response prog" where
  "handleAdminConfig env shardUrls req =
     (if \<not> bearer_ok (=) env req then Return (jsonErr R_Unauthorized 401)
      else getRegisteredShards env (\<lambda>registered.
        getPriorShardCounts env (\<lambda>prior.
        getRoutingTableVersion env (\<lambda>version.
          Return (jsonOk (JObj
            [(''shard_urls'', arr_json shardUrls),
             (''registered_shards'', JArr registered),
             (''prior_shard_counts'', JArr prior),
             (''routing_table_version'', json_of_number version),
             (''replication_factor'', json_of_number (replicationFactor env (int (length shardUrls)))),
             (''source'', JStr (if has_ROUTER_ADMIN_KV env then ''ROUTER_ADMIN_KV (falls back to vars if key absent)''
                                else ''wrangler.toml vars only''))]) [])))))"

section \<open>Dispatch\<close>

definition router_secrets_set :: "env \<Rightarrow> bool" where
  "router_secrets_set env \<longleftrightarrow>
     is_set (SERVER_SECRET env) \<and> is_set (ROUTER_SIGNING_KEY env) \<and> is_set (ROUTER_SIGNING_PUBLIC env)"

text \<open>The \<open>try\<close> around \<open>getShardUrls\<close>: \<open>None\<close> when it threw or the list is empty.\<close>

definition try_shard_urls :: "env \<Rightarrow> jsval list option prog" where
  "try_shard_urls env =
     catch_with (\<lambda>_. Return None) (getShardUrls env (\<lambda>urls. Return (if urls = [] then None else Some urls)))"

definition router_options :: response where
  "router_options = \<lparr> resp_status = 204, resp_headers = CORS_HEADERS, resp_body = NoBody \<rparr>"

definition router_not_found :: response where
  "router_not_found = \<lparr> resp_status = 404, resp_headers = CORS_HEADERS, resp_body = TextBody ''Not Found'' \<rparr>"

definition router_route ::
  "crypto \<Rightarrow> env \<Rightarrow> health_cache \<Rightarrow> jsval list \<Rightarrow> request \<Rightarrow> (response \<times> health_cache) prog" where
  "router_route cr env cache shardUrls req =
     (let at = (\<lambda>path m. req_path req = path \<and> req_method req = m);
          plain = (\<lambda>p. bind p (\<lambda>r. Return (r, cache))) in
      if at ''/routing_table.json'' ''GET'' then plain (handleRoutingTable cr env)
      else if at ''/register'' ''POST'' then plain (handleRegister cr env shardUrls req)
      else if at ''/resolve'' ''GET'' then plain (handleResolve cr env shardUrls req)
      else if at ''/status'' ''GET'' then handleStatus env cache shardUrls
      else if at ''/server_hello'' ''POST'' then plain (router_handleServerHello cr env req)
      else if at ''/pow_challenge'' ''GET'' then plain (handlePowChallenge env req)
      else if at ''/register_shard'' ''POST'' then plain (handleRegisterShard cr env req)
      else if at ''/rotate_shard_key'' ''POST'' then plain (handleRotateShardKey cr env req)
      else if at ''/admin/push_routing_table'' ''POST'' then plain (handlePushRoutingTable cr env shardUrls req)
      else if at ''/admin/config'' ''GET'' then plain (handleAdminConfig env shardUrls req)
      else Return (router_not_found, cache))"

definition router_fetch :: "crypto \<Rightarrow> env \<Rightarrow> health_cache \<Rightarrow> request \<Rightarrow> (response \<times> health_cache) prog" where
  "router_fetch cr env cache req =
     (if req_method req = ''OPTIONS'' then Return (router_options, cache)
      else if \<not> router_secrets_set env
      then Log ''Router misconfiguration: SERVER_SECRET / ROUTER_SIGNING_KEY / ROUTER_SIGNING_PUBLIC required''
             (Return (jsonErr R_Misconfigured 500, cache))
      else bind (try_shard_urls env) (\<lambda>found.
        case found of
          None \<Rightarrow> Log ''SHARD_URLS is missing or invalid (checked ROUTER_ADMIN_KV then env var)''
                    (Return (jsonErr R_Misconfigured 500, cache))
        | Some shardUrls \<Rightarrow>
            catch_with (\<lambda>e. Log (''Unhandled router error: '' @ error_message e) (Return (jsonErr R_Internal 500, cache)))
              (router_route cr env cache shardUrls req)))"

definition push_failed :: "json \<Rightarrow> bool" where
  "push_failed r = (js_prop r ''ok'' \<noteq> Some (JBool True))"

definition router_scheduled :: "crypto \<Rightarrow> env \<Rightarrow> unit prog" where
  "router_scheduled cr env =
     (if \<not> router_secrets_set env then Log ''Router misconfiguration: cannot push routing table'' (Return ())
      else bind (try_shard_urls env) (\<lambda>found.
        case found of
          None \<Rightarrow> Log ''SHARD_URLS is missing or invalid - skipping scheduled routing table push'' (Return ())
        | Some shardUrls \<Rightarrow>
            pushRoutingTableToShards cr env shardUrls (\<lambda>version results.
              let failed = filter push_failed results in
              if failed \<noteq> []
              then Log (''routing_table push: '' @ str_of_nat (length failed) @ ''/'' @
                        str_of_nat (length results) @ '' shards failed'') (Return ())
              else Log (''routing_table push: v'' @ js_string version @ '' delivered to '' @
                        str_of_nat (length results) @ '' shards'') (Return ()))))"

section \<open>Every request is answered\<close>

lemma run_catch_answers:
  assumes "\<And>e s. \<exists>r s'. run sv (h e) s = (Done r, s')"
  shows "\<exists>r s'. run sv (catch_with h p) s = (Done r, s')"
  using assms by (auto simp: run_catch_with split: prod.splits outcome.splits)

lemma router_fetch_answers: "\<exists>r s'. run sv (router_fetch cr env cache req) s = (Done r, s')"
proof -
  have urls: "\<exists>r s'. run sv (try_shard_urls env) s = (Done r, s')" for s
    unfolding try_shard_urls_def by (rule run_catch_answers) simp
  have route: "\<exists>r s'. run sv (catch_with (\<lambda>e. Log (''Unhandled router error: '' @ error_message e)
      (Return (jsonErr R_Internal 500, cache))) (router_route cr env cache us req)) s = (Done r, s')" for us s
    by (rule run_catch_answers) simp
  obtain found s1 where f: "run sv (try_shard_urls env) s = (Done found, s1)" using urls by blast
  show ?thesis
    using route by (cases found) (simp_all add: router_fetch_def run_bind f)
qed

end
