(* ===== verification/Mailbox.thy ===== *)
theory Mailbox
  imports ShardAuth
begin

text \<open>
  The stored mailbox and the operations that create it and probe for it.
  \<open>mailbox\<close> is the abstract content of a mailbox record, \<open>mailbox_at\<close> the relation between
  the text stored under \<open>mailbox:<id>\<close> and that content; \<open>fresh\<close>, \<open>rekey\<close>,
  \<open>purge\<close>, \<open>deposit\<close> and \<open>drain\<close> are the abstract operations the handlers implement.
\<close>

definition mailbox_key :: "string \<Rightarrow> string" where
  "mailbox_key mailboxId = ''mailbox:'' @ lower mailboxId"

definition isBacklogStale :: "jsval \<Rightarrow> number \<Rightarrow> (bool \<Rightarrow> 'a prog) \<Rightarrow> 'a prog" where
  "isBacklogStale enqueuedAt ttlSeconds k =
     (if nullish enqueuedAt then k False
      else Now (\<lambda>now. k (num_ge (map_option (\<lambda>e. (now - e) div 1000) (js_number enqueuedAt)) ttlSeconds)))"

section \<open>The content of a mailbox\<close>

record mailbox =
  mb_hash :: string
  mb_messages :: "json list"
  mb_created :: int
  mb_enqueued :: "int option"
  mb_replicas :: json

definition enqueued_json :: "int option \<Rightarrow> json" where
  "enqueued_json e = (case e of None \<Rightarrow> JNull | Some t \<Rightarrow> JNum t)"

text \<open>A record the shard wrote represents the content; other members are unconstrained.\<close>

definition represents :: "json \<Rightarrow> mailbox \<Rightarrow> bool" where
  "represents stored mb \<longleftrightarrow>
     (\<exists>kvs. stored = JObj kvs \<and> wf_json stored \<and>
        map_of kvs ''readSecretHash'' = Some (JStr (mb_hash mb)) \<and>
        map_of kvs ''messages'' = Some (JArr (mb_messages mb)) \<and>
        map_of kvs ''createdAt'' = Some (JNum (mb_created mb)) \<and>
        map_of kvs ''messagesEnqueuedAt'' = Some (enqueued_json (mb_enqueued mb)) \<and>
        map_of kvs ''replicaShardUrls'' = Some (mb_replicas mb))"

definition mailbox_at :: "(string \<Rightarrow> string option) \<Rightarrow> string \<Rightarrow> mailbox \<Rightarrow> bool" where
  "mailbox_at kv mailboxId mb \<longleftrightarrow>
     (\<exists>stored. kv (mailbox_key mailboxId) = Some (json_stringify stored) \<and> represents stored mb)"

definition fresh :: "string \<Rightarrow> int \<Rightarrow> string list \<Rightarrow> mailbox" where
  "fresh hash now urls =
     \<lparr> mb_hash = hash, mb_messages = [], mb_created = now, mb_enqueued = None, mb_replicas = json_strs urls \<rparr>"

definition rekey :: "string \<Rightarrow> string list \<Rightarrow> mailbox \<Rightarrow> mailbox" where
  "rekey hash urls mb =
     mb\<lparr> mb_hash := hash, mb_replicas := (if urls = [] then mb_replicas mb else json_strs urls) \<rparr>"

definition stale :: "number \<Rightarrow> int \<Rightarrow> mailbox \<Rightarrow> bool" where
  "stale ttl now mb =
     (case mb_enqueued mb of None \<Rightarrow> False | Some e \<Rightarrow> num_ge (Some ((now - e) div 1000)) ttl)"

definition drain :: "mailbox \<Rightarrow> mailbox" where
  "drain mb = mb\<lparr> mb_messages := [], mb_enqueued := None \<rparr>"

definition purge :: "number \<Rightarrow> int \<Rightarrow> mailbox \<Rightarrow> mailbox" where
  "purge ttl now mb = (if stale ttl now mb then drain mb else mb)"

definition deposit :: "json \<Rightarrow> int \<Rightarrow> mailbox \<Rightarrow> mailbox" where
  "deposit entry now mb =
     mb\<lparr> mb_messages := mb_messages mb @ [entry],
         mb_enqueued := Some (case mb_enqueued mb of None \<Rightarrow> now | Some e \<Rightarrow> e) \<rparr>"

text \<open>
  The well-formedness of a mailbox: at most \<open>limit\<close> messages, and an enqueue time exactly
  when messages wait.
\<close>

definition mailbox_ok :: "nat \<Rightarrow> mailbox \<Rightarrow> bool" where
  "mailbox_ok limit mb \<longleftrightarrow>
     length (mb_messages mb) \<le> limit \<and> (mb_messages mb = [] \<longleftrightarrow> mb_enqueued mb = None)"

lemma mailbox_ok_ops [simp]:
  "mailbox_ok l (fresh h now urls)"
  "mailbox_ok l mb \<Longrightarrow> mailbox_ok l (rekey h urls mb)"
  "mailbox_ok l (drain mb)"
  "mailbox_ok l mb \<Longrightarrow> mailbox_ok l (purge ttl now mb)"
  "mailbox_ok l mb \<Longrightarrow> length (mb_messages mb) < l \<Longrightarrow> mailbox_ok l (deposit e now mb)"
  by (auto simp: mailbox_ok_def fresh_def rekey_def drain_def purge_def deposit_def)

lemma wf_represents: "represents stored mb \<Longrightarrow> wf_json stored"
  by (auto simp: represents_def)

lemma represents_messages: "represents stored mb \<Longrightarrow> js_prop stored ''messages'' = Some (JArr (mb_messages mb))"
  and represents_hash: "represents stored mb \<Longrightarrow> js_prop stored ''readSecretHash'' = Some (JStr (mb_hash mb))"
  and represents_created: "represents stored mb \<Longrightarrow> js_prop stored ''createdAt'' = Some (JNum (mb_created mb))"
  and represents_enqueued: "represents stored mb \<Longrightarrow>
    js_prop stored ''messagesEnqueuedAt'' = Some (enqueued_json (mb_enqueued mb))"
  and represents_replicas: "represents stored mb \<Longrightarrow> js_prop stored ''replicaShardUrls'' = Some (mb_replicas mb)"
  by (auto simp: represents_def)

lemma represents_get:
  "represents stored mb \<Longrightarrow> get_prop (Some stored) k = Inr (js_prop stored k)"
  by (auto simp: represents_def get_prop_def)

lemma represents_not_null: "represents stored mb \<Longrightarrow> stored \<noteq> JNull"
  by (auto simp: represents_def)

lemmas represents_props =
  represents_messages represents_hash represents_created represents_enqueued represents_replicas
  represents_get wf_represents

text \<open>Storing one member.\<close>

lemma represents_set_hash:
  "represents stored mb \<Longrightarrow>
     \<exists>st'. set_prop ''readSecretHash'' (JStr h) stored = Inr st' \<and> represents st' (mb\<lparr>mb_hash := h\<rparr>)"
  by (auto simp: represents_def wf_json_obj_insert list_all_iff simp del: wf_json.simps(2))

lemma represents_set_messages:
  "represents stored mb \<Longrightarrow> list_all wf_json ms \<Longrightarrow>
     \<exists>st'. set_prop ''messages'' (JArr ms) stored = Inr st' \<and> represents st' (mb\<lparr>mb_messages := ms\<rparr>)"
  by (auto simp: represents_def wf_json_obj_insert list_all_iff simp del: wf_json.simps(2))

lemma represents_set_enqueued:
  "represents stored mb \<Longrightarrow>
     \<exists>st'. set_prop ''messagesEnqueuedAt'' (enqueued_json e) stored = Inr st' \<and> represents st' (mb\<lparr>mb_enqueued := e\<rparr>)"
  by (auto simp: represents_def enqueued_json_def wf_json_obj_insert simp del: wf_json.simps(2) split: option.splits)

lemma represents_set_replicas:
  "represents stored mb \<Longrightarrow> wf_json urls \<Longrightarrow>
     \<exists>st'. set_prop ''replicaShardUrls'' urls stored = Inr st' \<and> represents st' (mb\<lparr>mb_replicas := urls\<rparr>)"
  by (auto simp: represents_def wf_json_obj_insert list_all_iff simp del: wf_json.simps(2))

lemma represents_set_other:
  assumes "represents stored mb" and "wf_json v"
    and "k \<notin> {''readSecretHash'', ''messages'', ''createdAt'', ''messagesEnqueuedAt'', ''replicaShardUrls''}"
  shows "\<exists>st'. set_prop k v stored = Inr st' \<and> represents st' mb"
  using assms by (auto simp: represents_def wf_json_obj_insert list_all_iff simp del: wf_json.simps(2))

lemma wf_json_strs [simp]: "wf_json (json_strs ss)"
  by (induction ss) (simp_all add: json_strs_def)

lemma list_all_wf_strs [simp]: "list_all wf_json (map JStr ss)"
  by (induction ss) simp_all

lemma mailbox_key_not_mark [simp]: "\<not> mark_key (mailbox_key m)"
  by (simp add: mark_key_def mailbox_key_def)

lemma mailbox_at_same_records:
  "same_records sv s s' \<Longrightarrow> mailbox_at (sv_view sv s' MAILBOX_KV) m mb = mailbox_at (sv_view sv s MAILBOX_KV) m mb"
  by (simp add: mailbox_at_def same_recordsD)

end
