(* ===== verification/MailboxCreate.thy ===== *)
theory MailboxCreate
  imports Mailbox
begin

text \<open>
  \<open>POST /create\<close> and \<open>GET /exists\<close> of the shard.  The request checks are the pure function
  \<open>create_request\<close>; the lemmas give the response and the stored mailbox on every branch,
  and say what the capability's signature covers.
\<close>

section \<open>The request\<close>

record create_req =
  cq_mailboxId :: string
  cq_readSecretHash :: string
  cq_capExp :: number
  cq_capSig :: string
  cq_v2 :: bool
  cq_clientPubkey :: jsval
  cq_capNonce :: string
  cq_safeReplicas :: "string list"

definition safe_replicas :: "jsval \<Rightarrow> string list" where
  "safe_replicas v =
     (case v of Some (JArr xs) \<Rightarrow> concat (map (\<lambda>x. case x of JStr s \<Rightarrow> [s] | _ \<Rightarrow> []) xs) | _ \<Rightarrow> [])"

definition create_request :: "json \<Rightarrow> msg + create_req" where
  "create_request body =
     (case str_test (hex_re 16 128) (js_prop body ''mailbox_id'') of
        None \<Rightarrow> Inl MailboxIdNotHex
      | Some mailboxId \<Rightarrow>
     (case str_test (hex_re 64 64) (js_prop body ''read_secret_hash'') of
        None \<Rightarrow> Inl ReadSecretHashNotHex
      | Some readSecretHash \<Rightarrow>
      let capExp = js_prop body ''cap_exp'' in
      if \<not> truthy capExp \<or> js_number capExp = None then Inl CapExpRequired
      else
     (case str_test (\<lambda>_. True) (js_prop body ''cap_sig'') of
        None \<Rightarrow> Inl CapSigRequired
      | Some capSig \<Rightarrow>
      let v2 = (js_number (js_prop body ''cap_version'') = Some 2);
          clientPubkey = js_prop body ''client_pubkey'';
          capNonce = str_test (\<lambda>_. True) (js_prop body ''cap_nonce'') in
      if v2 \<and> \<not> coerce_test (hex_re 64 64) clientPubkey then Inl ClientPubkeyNotHex
      else if v2 \<and> capNonce = None then Inl CapNonceRequired
      else Inr \<lparr> cq_mailboxId = mailboxId, cq_readSecretHash = readSecretHash,
                 cq_capExp = js_number capExp, cq_capSig = capSig, cq_v2 = v2,
                 cq_clientPubkey = clientPubkey,
                 cq_capNonce = (case capNonce of Some n \<Rightarrow> n | None \<Rightarrow> []),
                 cq_safeReplicas = safe_replicas (js_prop body ''replica_shard_urls'') \<rparr>)))"

section \<open>POST /create\<close>

definition create_response :: "string \<Rightarrow> cfg \<Rightarrow> bool \<Rightarrow> response" where
  "create_response mailboxId cfg created =
     json (JObj [(''mailbox_id'', JStr (lower mailboxId)),
                 (''expires_in'', json_of_number (MAILBOX_TTL_SECONDS cfg)),
                 (''created'', JBool created)]) 200 []"

text \<open>Re-registration of an existing mailbox.\<close>

definition create_refresh :: "cfg \<Rightarrow> create_req \<Rightarrow> json \<Rightarrow> response prog" where
  "create_refresh cfg c stored =
     attempt (set_prop ''readSecretHash'' (JStr (lower (cq_readSecretHash c))) stored) (\<lambda>s1.
     attempt (if cq_v2 c \<and> truthy (cq_clientPubkey c)
              then (case js_lower (cq_clientPubkey c) of
                      Inl e \<Rightarrow> Inl e
                    | Inr pk \<Rightarrow> set_prop ''clientPubkey'' (JStr pk) s1)
              else Inr s1) (\<lambda>s2.
     attempt (if cq_safeReplicas c \<noteq> []
              then set_prop ''replicaShardUrls'' (json_strs (cq_safeReplicas c)) s2
              else Inr s2) (\<lambda>s3.
     kvPut MAILBOX_KV (mailbox_key (cq_mailboxId c)) (json_stringify s3) (Some (MAILBOX_TTL_SECONDS cfg))
       (Return (create_response (cq_mailboxId c) cfg False)))))"

definition create_store :: "cfg \<Rightarrow> create_req \<Rightarrow> response prog" where
  "create_store cfg c =
     kvGet MAILBOX_KV (mailbox_key (cq_mailboxId c)) (\<lambda>existingRaw.
       case present existingRaw of
         Some text \<Rightarrow>
           (case json_parse text of
              Some stored \<Rightarrow> create_refresh cfg c stored
            | None \<Rightarrow> Now (\<lambda>now.
                create_refresh cfg c
                  (JObj [(''messages'', JArr []), (''createdAt'', JNum now), (''messagesEnqueuedAt'', JNull)])))
       | None \<Rightarrow>
           attempt (if cq_v2 c \<and> truthy (cq_clientPubkey c)
                    then (case js_lower (cq_clientPubkey c) of Inl e \<Rightarrow> Inl e | Inr pk \<Rightarrow> Inr (JStr pk))
                    else Inr JNull) (\<lambda>clientPubkey.
           Now (\<lambda>now.
             kvPut MAILBOX_KV (mailbox_key (cq_mailboxId c))
               (json_stringify (JObj
                  [(''readSecretHash'', JStr (lower (cq_readSecretHash c))),
                   (''clientPubkey'', clientPubkey),
                   (''messages'', JArr []),
                   (''createdAt'', JNum now),
                   (''messagesEnqueuedAt'', JNull),
                   (''replicaShardUrls'', json_strs (cq_safeReplicas c))]))
               (Some (MAILBOX_TTL_SECONDS cfg))
               (Return (create_response (cq_mailboxId c) cfg True)))))"

definition create_authorized :: "cfg \<Rightarrow> request \<Rightarrow> create_req \<Rightarrow> bool \<Rightarrow> response prog" where
  "create_authorized cfg req c capOk =
     (if \<not> capOk then Return (err InvalidCapability 401 [])
      else rateLimit (''create-ip:'' @ clientIp req) (MAX_CREATES_PER_IP cfg) 60 (\<lambda>ipOk.
        if \<not> ipOk then Return (err TooManyCreates 429 retry_after_60)
        else create_store cfg c))"

definition handleCreate :: "crypto \<Rightarrow> env \<Rightarrow> cfg \<Rightarrow> request \<Rightarrow> response prog" where
  "handleCreate cr env cfg req =
     request_json req (\<lambda>body.
       case create_request body of
         Inl e \<Rightarrow> Return (err e 400 [])
       | Inr c \<Rightarrow>
           if cq_v2 c
           then verifyCapabilityV2 cr (lower (cq_mailboxId c)) (cq_clientPubkey c) ''mailbox.create'' (cq_capExp c)
                  (cq_capNonce c) (cq_capSig c) (ROUTER_SIGNING_PUBLIC env) (create_authorized cfg req c)
           else verifyCapability cr (lower (cq_mailboxId c)) (lower (cq_readSecretHash c)) (cq_capExp c)
                  (cq_capSig c) (ROUTER_SIGNING_PUBLIC env) (create_authorized cfg req c))"

section \<open>GET /exists\<close>

definition query_mailbox :: "request \<Rightarrow> string option" where
  "query_mailbox req = str_test (hex_re 16 128) (str_val (map_of (req_query req) ''mailbox_id''))"

definition handleExists :: "request \<Rightarrow> response prog" where
  "handleExists req =
     (case query_mailbox req of
        None \<Rightarrow> Return (err MailboxIdRequired 400 [])
      | Some mailboxId \<Rightarrow>
          rateLimit (''exists-ip:'' @ clientIp req) (Some 300) 60 (\<lambda>okIp.
            if \<not> okIp then Return (err TooManyRequests 429 retry_after_60)
            else kvGet MAILBOX_KV (mailbox_key mailboxId) (\<lambda>raw.
              case present raw of
                None \<Rightarrow> Return (err NotFound 404 [])
              | Some t \<Rightarrow> Return (json (JObj [(''exists'', JBool True)]) 200 []))))"

section \<open>The decision and its effect\<close>

definition cap_accepted :: "crypto \<Rightarrow> env \<Rightarrow> int \<Rightarrow> create_req \<Rightarrow> bool" where
  "cap_accepted cr env now c \<longleftrightarrow>
     \<not> num_gt (Some now) (cq_capExp c) \<and>
     (if cq_v2 c
      then (\<exists>pk. cq_clientPubkey c = Some (JStr pk) \<and>
             verify_with cr (ROUTER_SIGNING_PUBLIC env)
               (cap_message_v2 (lower (cq_mailboxId c)) (lower pk) ''mailbox.create'' (cq_capExp c) (cq_capNonce c))
               (cq_capSig c))
      else verify_with cr (ROUTER_SIGNING_PUBLIC env)
             (cap_message (lower (cq_mailboxId c)) (lower (cq_readSecretHash c)) (cq_capExp c)) (cq_capSig c))"

section \<open>What a create request does\<close>

lemma create_request_v2:
  "create_request body = Inr c \<Longrightarrow> cq_v2 c \<Longrightarrow> cq_clientPubkey c = Some (JStr pk) \<Longrightarrow> hex_re 64 64 pk \<and> pk \<noteq> []"
  by (auto simp: create_request_def coerce_test_def js_string_def Let_def split: option.splits if_splits)

lemma run_handleCreate:
  assumes iso: "isolated sv" and body: "body_of req = Some body" and c: "create_request body = Inr c"
    and pk: "cq_v2 c \<longrightarrow> cq_clientPubkey c = Some (JStr pk)"
  shows "run sv (handleCreate cr env cfg req) s =
     run sv (create_authorized cfg req c (cap_accepted cr env (sv_clock sv s) c)) (snd (sv_now sv s))"
  using assms by (cases "cq_v2 c") (auto simp: handleCreate_def run_simps cap_accepted_def)

lemma handleCreate_refused:
  assumes "isolated sv" and "body_of req = Some body" and "create_request body = Inr c"
    and "cq_v2 c \<longrightarrow> cq_clientPubkey c = Some (JStr pk)"
    and "\<not> cap_accepted cr env (sv_clock sv s) c"
  shows "fst (run sv (handleCreate cr env cfg req) s) = Done (err InvalidCapability 401 [])"
    and "sv_view sv (snd (run sv (handleCreate cr env cfg req) s)) = sv_view sv s"
  using assms by (simp_all add: run_handleCreate [OF assms(1-4)] create_authorized_def view_simps)

definition create_limited :: "(string \<Rightarrow> string option) \<Rightarrow> int \<Rightarrow> cfg \<Rightarrow> request \<Rightarrow> bool" where
  "create_limited kv now cfg req \<longleftrightarrow>
     \<not> under_limit kv now (''create-ip:'' @ clientIp req) (MAX_CREATES_PER_IP cfg) 60"

text \<open>The platform when the mailbox is looked up.\<close>

lemma run_create_admitted:
  assumes "isolated sv" and "body_of req = Some body" and "create_request body = Inr c"
    and "cq_v2 c \<longrightarrow> cq_clientPubkey c = Some (JStr pk)"
    and "cap_accepted cr env (sv_clock sv s) c"
    and "\<not> create_limited (sv_view sv s MAILBOX_KV) (sv_clock sv s) cfg req"
  shows "\<exists>s'. run sv (handleCreate cr env cfg req) s = run sv (create_store cfg c) s' \<and> same_records sv s s'"
proof (intro exI conjI)
  let ?s' = "rl_next sv (snd (sv_now sv s)) MAILBOX_KV (''create-ip:'' @ clientIp req) (MAX_CREATES_PER_IP cfg) 60"
  show "run sv (handleCreate cr env cfg req) s = run sv (create_store cfg c) ?s'"
    using assms by (simp add: run_handleCreate [OF assms(1-4)] create_authorized_def run_simps view_simps create_limited_def)
  show "same_records sv s ?s'"
    by (rule same_records_trans [OF same_records_now same_records_rl]) (use assms(1) in simp_all)
qed

lemma handleCreate_limited:
  assumes "isolated sv" and "body_of req = Some body" and "create_request body = Inr c"
    and "cq_v2 c \<longrightarrow> cq_clientPubkey c = Some (JStr pk)"
    and "cap_accepted cr env (sv_clock sv s) c"
    and "create_limited (sv_view sv s MAILBOX_KV) (sv_clock sv s) cfg req"
  shows "fst (run sv (handleCreate cr env cfg req) s) = Done (err TooManyCreates 429 retry_after_60)"
  using assms by (simp add: run_handleCreate [OF assms(1-4)] create_authorized_def run_simps view_simps create_limited_def)

lemma run_create_store_new:
  assumes "isolated sv" and "ttl_ok (Some (MAILBOX_TTL_SECONDS cfg))"
    and "cq_v2 c \<longrightarrow> cq_clientPubkey c = Some (JStr pk)"
    and "present (sv_view sv s MAILBOX_KV (mailbox_key (cq_mailboxId c))) = None"
  shows "fst (run sv (create_store cfg c) s) = Done (create_response (cq_mailboxId c) cfg True)"
    and "mailbox_at (sv_view sv (snd (run sv (create_store cfg c) s)) MAILBOX_KV) (cq_mailboxId c)
           (fresh (lower (cq_readSecretHash c)) (sv_clock sv s) (cq_safeReplicas c))"
  using assms
  by (auto simp: create_store_def run_simps view_simps js_lower_def mailbox_at_def represents_def fresh_def
      enqueued_json_def json_strs_def obj_canonical_def key_precedes_def is_digit_def)

lemma run_create_store_again:
  assumes "isolated sv" and "ttl_ok (Some (MAILBOX_TTL_SECONDS cfg))"
    and "cq_v2 c \<longrightarrow> cq_clientPubkey c = Some (JStr pk)"
    and "mailbox_at (sv_view sv s MAILBOX_KV) (cq_mailboxId c) mb"
  shows "fst (run sv (create_store cfg c) s) = Done (create_response (cq_mailboxId c) cfg False)"
    and "mailbox_at (sv_view sv (snd (run sv (create_store cfg c) s)) MAILBOX_KV) (cq_mailboxId c)
           (rekey (lower (cq_readSecretHash c)) (cq_safeReplicas c) mb)"
proof -
  obtain stored where st: "sv_view sv s MAILBOX_KV (mailbox_key (cq_mailboxId c)) = Some (json_stringify stored)"
    "represents stored mb" using assms(4) by (auto simp: mailbox_at_def)
  let ?h = "lower (cq_readSecretHash c)"
  obtain s1 where s1: "set_prop ''readSecretHash'' (JStr ?h) stored = Inr s1" "represents s1 (mb\<lparr>mb_hash := ?h\<rparr>)"
    using represents_set_hash [OF st(2)] by blast
  obtain s2 where s2: "(if cq_v2 c \<and> truthy (cq_clientPubkey c)
              then (case js_lower (cq_clientPubkey c) of
                      Inl e \<Rightarrow> Inl e | Inr pk \<Rightarrow> set_prop ''clientPubkey'' (JStr pk) s1)
              else Inr s1) = Inr s2" "represents s2 (mb\<lparr>mb_hash := ?h\<rparr>)"
    using represents_set_other [OF s1(2), of "JStr (lower pk)" "''clientPubkey''"] s1(2) assms(3)
    by (cases "cq_v2 c \<and> truthy (cq_clientPubkey c)") (auto simp: js_lower_def)
  obtain s3 where s3: "(if cq_safeReplicas c \<noteq> []
              then set_prop ''replicaShardUrls'' (json_strs (cq_safeReplicas c)) s2 else Inr s2) = Inr s3"
      "represents s3 (rekey ?h (cq_safeReplicas c) mb)"
    using represents_set_replicas [OF s2(2) wf_json_strs, of "cq_safeReplicas c"] s2(2)
    by (cases "cq_safeReplicas c = []") (auto simp: rekey_def)
  have "json_parse (json_stringify stored) = Some stored"
    using wf_represents [OF st(2)] by simp
  then have r: "run sv (create_store cfg c) s =
      (Done (create_response (cq_mailboxId c) cfg False),
       snd (sv_put sv (snd (sv_get sv s MAILBOX_KV (mailbox_key (cq_mailboxId c)))) MAILBOX_KV
         (mailbox_key (cq_mailboxId c)) (json_stringify s3) (Some (MAILBOX_TTL_SECONDS cfg))))"
    using assms(1,2) by (simp add: create_store_def create_refresh_def run_simps st(1) s1(1) s2(1) s3(1))
  show "fst (run sv (create_store cfg c) s) = Done (create_response (cq_mailboxId c) cfg False)"
    by (simp add: r)
  show "mailbox_at (sv_view sv (snd (run sv (create_store cfg c) s)) MAILBOX_KV) (cq_mailboxId c)
           (rekey ?h (cq_safeReplicas c) mb)"
    using assms(1,2) s3(2) by (auto simp: r view_simps mailbox_at_def)
qed

end
