(* ===== verification/Envelope.thy ===== *)
theory Envelope
  imports Platform
begin

text \<open>
  The structural check of a message that parses as JSON: \<open>jsonDepth\<close> with its early
  exits, and \<open>validateEnvelopeShape\<close>.  \<open>height\<close> is the reference notion of nesting the
  optimised walk is compared with.
\<close>

definition ALLOWED_ENVELOPE_TYPES :: "string list" where
  "ALLOWED_ENVELOPE_TYPES = [''offer'', ''answer'', ''message'', ''finish'']"

definition MAX_JSON_DEPTH :: nat where
  "MAX_JSON_DEPTH = 8"

text \<open>The values of an object are smaller than the object.\<close>

lemma size_values: "size_list size (map snd kvs) \<le> size_list (size_prod (\<lambda>_. 0) size) kvs"
  by (induction kvs) auto

lemma size_values_obj: "2 * size_list size (map snd kvs) < Suc (2 * size_list (size_prod (\<lambda>_. 0) size) kvs)"
  using size_values [of kvs] by simp

function (sequential) jsonDepth :: "json \<Rightarrow> nat \<Rightarrow> nat"
  and jsonDepth_children :: "json list \<Rightarrow> nat \<Rightarrow> nat \<Rightarrow> nat" where
  "jsonDepth (JArr xs) depth =
     (if MAX_JSON_DEPTH < depth then depth else jsonDepth_children xs depth depth)"
| "jsonDepth (JObj kvs) depth =
     (if MAX_JSON_DEPTH < depth then depth else jsonDepth_children (map snd kvs) depth depth)"
| "jsonDepth v depth = depth"
| "jsonDepth_children [] depth mx = mx"
| "jsonDepth_children (child # rest) depth mx =
     (let d = jsonDepth child (depth + 1);
          mx' = (if mx < d then d else mx)
      in if MAX_JSON_DEPTH < mx' then mx' else jsonDepth_children rest depth mx')"
  by pat_completeness auto

termination
  by (relation "measure (\<lambda>p. case p of Inl (v, d) \<Rightarrow> 2 * size v
                                      | Inr (vs, d, m) \<Rightarrow> 2 * size_list size vs + 1)")
     (use size_values_obj in \<open>auto simp: less_Suc_eq_le\<close>)

definition validateEnvelopeShape :: "json \<Rightarrow> shape_error option" where
  "validateEnvelopeShape parsed =
     (if \<not> truthy (Some parsed) \<or> \<not> typeof_object (Some parsed) then Some NotAnObject
      else
        (case js_prop parsed ''type'' of
           Some (JStr t) \<Rightarrow>
             if t \<notin> set ALLOWED_ENVELOPE_TYPES then Some (UnknownType t)
             else if MAX_JSON_DEPTH < jsonDepth parsed 0 then Some TooDeep
             else None
         | _ \<Rightarrow> if MAX_JSON_DEPTH < jsonDepth parsed 0 then Some TooDeep else None))"

section \<open>The walk computes the height\<close>

fun height :: "json \<Rightarrow> nat" where
  "height (JArr xs) = foldr max (map (\<lambda>x. Suc (height x)) xs) 0"
| "height (JObj kvs) = foldr max (map (\<lambda>p. Suc (height (snd p))) kvs) 0"
| "height v = 0"

abbreviation heights :: "json list \<Rightarrow> nat" where
  "heights vs \<equiv> foldr max (map (\<lambda>x. Suc (height x)) vs) 0"

lemma height_obj: "height (JObj kvs) = heights (map snd kvs)"
  by (simp add: comp_def)

definition capped :: "nat \<Rightarrow> nat \<Rightarrow> bool" where
  "capped n h \<longleftrightarrow> (n = h \<and> n \<le> MAX_JSON_DEPTH) \<or> (MAX_JSON_DEPTH < n \<and> MAX_JSON_DEPTH < h)"

lemma jsonDepth_children_Cons:
  "jsonDepth_children (child # rest) depth mx =
     (let m = max mx (jsonDepth child (Suc depth))
      in if MAX_JSON_DEPTH < m then m else jsonDepth_children rest depth m)"
  by (simp add: Let_def max_def)

lemma depth_capped:
  "capped (jsonDepth v depth) (depth + height v)"
  "mx \<le> MAX_JSON_DEPTH \<Longrightarrow> depth \<le> mx \<Longrightarrow>
     capped (jsonDepth_children vs depth mx) (max mx (depth + heights vs))"
proof (induction v depth and vs depth mx rule: jsonDepth_jsonDepth_children.induct)
  case (1 xs depth)
  then show ?case by (auto simp: capped_def max_absorb2)
next
  case (2 kvs depth)
  then show ?case by (auto simp: capped_def max_absorb2 comp_def)
next
  case (5 child rest depth mx)
  define d where "d = jsonDepth child (Suc depth)"
  define h where "h = Suc depth + height child"
  define m where "m = max mx d"
  define r where "r = depth + heights rest"
  have d: "capped d h" using 5 by (simp add: d_def h_def)
  have goal: "max mx (depth + heights (child # rest)) = max mx (max h r)"
    by (simp add: h_def r_def)
  have m_eq: "(if mx < jsonDepth child (depth + 1) then jsonDepth child (depth + 1) else mx) = m"
    by (simp add: m_def d_def max_def)
  show ?case
  proof (cases "MAX_JSON_DEPTH < m")
    case True
    then have "jsonDepth_children (child # rest) depth mx = m"
      by (simp add: jsonDepth_children_Cons m_def d_def del: jsonDepth.simps jsonDepth_children.simps)
    with True d 5 show ?thesis unfolding goal by (auto simp: capped_def m_def)
  next
    case False
    then have e: "jsonDepth_children (child # rest) depth mx = jsonDepth_children rest depth m"
      by (simp add: jsonDepth_children_Cons m_def d_def del: jsonDepth.simps jsonDepth_children.simps)
    have "capped (jsonDepth_children rest depth m) (max m r)"
      using "5.IH"(2) [OF refl refl, unfolded m_eq] "5.prems" False by (simp add: m_def r_def)
    with False d show ?thesis unfolding e goal by (auto simp: capped_def m_def max.assoc)
  qed
qed (auto simp: capped_def)

lemma jsonDepth_exceeds: "MAX_JSON_DEPTH < jsonDepth v 0 \<longleftrightarrow> MAX_JSON_DEPTH < height v"
  using depth_capped(1) [of v 0] by (auto simp: capped_def)

lemma jsonDepth_exact: "height v \<le> MAX_JSON_DEPTH \<Longrightarrow> jsonDepth v 0 = height v"
  using depth_capped(1) [of v 0] by (auto simp: capped_def)

end
