(* ===== verification/MailboxSend.thy ===== *)
theory MailboxSend
  imports MailboxCreate Envelope ShardIdentity
begin

text \<open>
  \<open>POST /send\<close>: the request checks (\<open>send_request\<close>), the gate of sender authentication and
  the three rate limits (\<open>send_verdict\<close>), the envelope check, and the deposit.  The lemmas
  show that an accepted message is appended to the abstract mailbox, that every refusal
  leaves all mailboxes as they were, and that no platform behaviour makes the handler
  write a mailbox for a request whose signature does not verify.
\<close>

section \<open>The request\<close>

record send_req =
  sq_mailboxId :: string
  sq_message :: string
  sq_senderPubkey :: string
  sq_sender :: jsval

definition send_request :: "cfg \<Rightarrow> json \<Rightarrow> msg + send_req" where
  "send_request cfg body =
     (case str_test (hex_re 16 128) (js_prop body ''mailbox_id'') of
        None \<Rightarrow> Inl MailboxIdNotHex
      | Some mailboxId \<Rightarrow>
     (case str_test (\<lambda>_. True) (js_prop body ''message'') of
        None \<Rightarrow> Inl MessageRequired
      | Some message \<Rightarrow>
      if num_gt (Some (int (length (utf8 message)))) (MAX_MSG_BYTES cfg)
      then Inl (MessageTooLong (MAX_MSG_BYTES cfg))
      else
     (case str_test (hex_re 64 64) (opt_prop (js_prop body ''sender'') ''pubkey'') of
        None \<Rightarrow> Inl SenderPubkeyNotHex
      | Some senderPubkey \<Rightarrow>
          Inr \<lparr> sq_mailboxId = mailboxId, sq_message = message, sq_senderPubkey = senderPubkey,
                sq_sender = js_prop body ''sender'' \<rparr>)))"

definition send_signed_message :: "crypto \<Rightarrow> send_req \<Rightarrow> string" where
  "send_signed_message cr q =
     ''send:'' @ lower (sq_senderPubkey q) @ '':'' @ lower (sq_mailboxId q) @ '':'' @
     js_string (opt_prop (sq_sender q) ''timestamp'') @ '':'' @ sha256Hex cr (sq_message q)"

section \<open>The deposit\<close>

definition new_entry :: "string \<Rightarrow> int \<Rightarrow> string \<Rightarrow> string \<Rightarrow> json" where
  "new_entry entryId time message senderPubkey =
     JObj [(''id'', JStr entryId), (''time'', JNum time), (''message'', JStr message),
           (''senderPubkey'', JStr (lower senderPubkey))]"

text \<open>\<open>stored.messages = []; stored.messagesEnqueuedAt = null\<close>.\<close>

definition clear_messages :: "json \<Rightarrow> js_error + json" where
  "clear_messages stored =
     (case set_prop ''messages'' (JArr []) stored of
        Inl e \<Rightarrow> Inl e
      | Inr s1 \<Rightarrow> set_prop ''messagesEnqueuedAt'' JNull s1)"

text \<open>\<open>stored.messages.push(entry)\<close>.\<close>

definition push_message :: "json \<Rightarrow> json \<Rightarrow> js_error + json" where
  "push_message entry stored =
     (case js_prop stored ''messages'' of
        Some (JArr ms) \<Rightarrow> set_prop ''messages'' (JArr (ms @ [entry])) stored
      | _ \<Rightarrow> Inl TypeError)"

text \<open>\<open>if (stored.messagesEnqueuedAt == null) stored.messagesEnqueuedAt = Date.now()\<close>.\<close>

definition stamp_enqueued :: "json \<Rightarrow> (json \<Rightarrow> 'a prog) \<Rightarrow> 'a prog" where
  "stamp_enqueued stored k =
     attempt (get_prop (Some stored) ''messagesEnqueuedAt'') (\<lambda>e.
       if nullish e
       then Now (\<lambda>now. attempt (set_prop ''messagesEnqueuedAt'' (JNum now) stored) k)
       else k stored)"

definition purge_stale :: "cfg \<Rightarrow> json \<Rightarrow> (json \<Rightarrow> 'a prog) \<Rightarrow> 'a prog" where
  "purge_stale cfg stored k =
     attempt (get_prop (Some stored) ''messagesEnqueuedAt'') (\<lambda>enq.
     isBacklogStale enq (TTL_SECONDS cfg) (\<lambda>isStale.
     attempt (if isStale then clear_messages stored else Inr stored) k))"

definition send_result :: "number \<Rightarrow> json" where
  "send_result queued = JObj [(''success'', JBool True), (''queued'', json_of_number queued)]"

text \<open>\<open>stored.messages.length\<close> of a record.\<close>

definition message_count :: "json \<Rightarrow> js_error + number" where
  "message_count stored =
     (case get_prop (Some stored) ''messages'' of
        Inl e \<Rightarrow> Inl e
      | Inr ms \<Rightarrow> (case get_prop ms ''length'' of Inl e \<Rightarrow> Inl e | Inr n \<Rightarrow> Inr (js_number n)))"

definition send_respond :: "crypto \<Rightarrow> json \<Rightarrow> json \<Rightarrow> response prog" where
  "send_respond cr body sendResult =
     (case str_test (\<lambda>_. True) (js_prop body ''request_id'') of
        Some requestId \<Rightarrow> buildShardSignedResponse cr requestId 200 sendResult (\<lambda>signed. Return (json signed 200 []))
      | None \<Rightarrow> Return (json sendResult 200 []))"

definition replica_list :: "json \<Rightarrow> json list" where
  "replica_list stored = (case js_prop stored ''replicaShardUrls'' of Some (JArr urls) \<Rightarrow> urls | _ \<Rightarrow> [])"

text \<open>From the capacity check on: append the message, store the record, fan out, answer.\<close>

definition send_append :: "crypto \<Rightarrow> cfg \<Rightarrow> json \<Rightarrow> send_req \<Rightarrow> json \<Rightarrow> response prog" where
  "send_append cr cfg body q stored =
     attempt (message_count stored) (\<lambda>n.
     if num_ge n (MAX_MESSAGES cfg)
     then Return (err (MailboxFull (MAX_MESSAGES cfg)) 429 [(''Retry-After'', ''3600'')])
     else
       randomHex 8 (\<lambda>entryId.
       Now (\<lambda>time.
       let newEntry = new_entry entryId time (sq_message q) (sq_senderPubkey q) in
       attempt (push_message newEntry stored) (\<lambda>stored1.
       stamp_enqueued stored1 (\<lambda>stored2.
       kvPut MAILBOX_KV (mailbox_key (sq_mailboxId q)) (json_stringify stored2)
         (Some (MAILBOX_TTL_SECONDS cfg))
       (let respond = attempt (message_count stored2) (\<lambda>queued. send_respond cr body (send_result queued)) in
        if 1 < length (replica_list stored2)
        then WaitUntil (ReplicateToSiblings (lower (sq_mailboxId q)) newEntry (replica_list stored2)) respond
        else respond))))))"

definition send_deposit :: "crypto \<Rightarrow> cfg \<Rightarrow> json \<Rightarrow> send_req \<Rightarrow> response prog" where
  "send_deposit cr cfg body q =
     kvGet MAILBOX_KV (mailbox_key (sq_mailboxId q)) (\<lambda>raw.
       case present raw of
         None \<Rightarrow> Return (err MailboxNotFound 404 [])
       | Some text \<Rightarrow>
       (case json_parse text of
          None \<Rightarrow> Return (err StorageError 500 [])
        | Some stored \<Rightarrow> purge_stale cfg stored (send_append cr cfg body q)))"

section \<open>The handler\<close>

text \<open>The structural check of a message that happens to be JSON.\<close>

definition message_shape_error :: "string \<Rightarrow> shape_error option" where
  "message_shape_error message =
     (case json_parse message of None \<Rightarrow> None | Some parsed \<Rightarrow> validateEnvelopeShape parsed)"

definition handleSend :: "crypto \<Rightarrow> cfg \<Rightarrow> request \<Rightarrow> response prog" where
  "handleSend cr cfg req =
     request_json req (\<lambda>body.
       case send_request cfg body of
         Inl e \<Rightarrow> Return (err e 400 [])
       | Inr q \<Rightarrow>
           verifySenderAuth cr (sq_sender q) (MAX_CLOCK_SKEW cfg) (send_signed_message cr q) (\<lambda>authError.
           case authError of
             Some e \<Rightarrow> Return (err (SenderAuthFailed e) 401 [])
           | None \<Rightarrow>
               rateLimit (''send-sender:'' @ lower (sq_senderPubkey q)) (MAX_SENDS_PER_SENDER cfg) 60 (\<lambda>senderOk.
               if \<not> senderOk then Return (err SenderTooFast 429 retry_after_60) else
               rateLimit (''send-target:'' @ lower (sq_mailboxId q)) (MAX_SENDS_PER_TARGET cfg) 60 (\<lambda>targetOk.
               if \<not> targetOk then Return (err TargetTooFast 429 retry_after_60) else
               rateLimit (''send-ip:'' @ clientIp req) (MAX_SENDS_PER_IP cfg) 60 (\<lambda>ipOk.
               if \<not> ipOk then Return (err IpTooFast 429 retry_after_60) else
               (case message_shape_error (sq_message q) of
                  Some e \<Rightarrow> Return (err (BadShape e) 400 [])
                | None \<Rightarrow> send_deposit cr cfg body q))))))"

section \<open>The gate\<close>

definition send_verdict ::
  "crypto \<Rightarrow> (string \<Rightarrow> string option) \<Rightarrow> int \<Rightarrow> cfg \<Rightarrow> request \<Rightarrow> send_req \<Rightarrow> response option" where
  "send_verdict cr kv now cfg req q =
     (case sender_decision cr kv now (sq_sender q) (MAX_CLOCK_SKEW cfg) (send_signed_message cr q) of
        Some e \<Rightarrow> Some (err (SenderAuthFailed e) 401 [])
      | None \<Rightarrow>
          if \<not> under_limit kv now (''send-sender:'' @ lower (sq_senderPubkey q)) (MAX_SENDS_PER_SENDER cfg) 60
          then Some (err SenderTooFast 429 retry_after_60)
          else if \<not> under_limit kv now (''send-target:'' @ lower (sq_mailboxId q)) (MAX_SENDS_PER_TARGET cfg) 60
          then Some (err TargetTooFast 429 retry_after_60)
          else if \<not> under_limit kv now (''send-ip:'' @ clientIp req) (MAX_SENDS_PER_IP cfg) 60
          then Some (err IpTooFast 429 retry_after_60)
          else map_option (\<lambda>e. err (BadShape e) 400 []) (message_shape_error (sq_message q)))"

lemma run_handleSend:
  assumes iso: "isolated sv" and skew: "MAX_CLOCK_SKEW cfg \<noteq> None"
    and body: "body_of req = Some body" and q: "send_request cfg body = Inr q"
  shows "\<exists>s'. same_records sv s s' \<and> run sv (handleSend cr cfg req) s =
    (case send_verdict cr (sv_view sv s MAILBOX_KV) (sv_clock sv s) cfg req q of
       Some r \<Rightarrow> (Done r, s')
     | None \<Rightarrow> run sv (send_deposit cr cfg body q) s')"
proof -
  let ?kv = "sv_view sv s MAILBOX_KV" and ?now = "sv_clock sv s"
  let ?m = "send_signed_message cr q"
  let ?b1 = "''send-sender:'' @ lower (sq_senderPubkey q)" and ?l1 = "MAX_SENDS_PER_SENDER cfg"
  let ?b2 = "''send-target:'' @ lower (sq_mailboxId q)" and ?l2 = "MAX_SENDS_PER_TARGET cfg"
  let ?b3 = "''send-ip:'' @ clientIp req" and ?l3 = "MAX_SENDS_PER_IP cfg"
  define s1 where "s1 = sender_next sv s cr (sq_sender q) (MAX_CLOCK_SKEW cfg) ?m"
  define s2 where "s2 = rl_next sv s1 MAILBOX_KV ?b1 ?l1 60"
  define s3 where "s3 = rl_next sv s2 MAILBOX_KV ?b2 ?l2 60"
  define s4 where "s4 = rl_next sv s3 MAILBOX_KV ?b3 ?l3 60"
  have r1: "same_records sv s s1" unfolding s1_def by (rule same_records_sender [OF iso skew])
  have r2: "same_records sv s s2" unfolding s2_def by (rule same_records_trans [OF r1 same_records_rl]) (use iso in simp_all)
  have r3: "same_records sv s s3" unfolding s3_def by (rule same_records_trans [OF r2 same_records_rl]) (use iso in simp_all)
  have r4: "same_records sv s s4" unfolding s4_def by (rule same_records_trans [OF r3 same_records_rl]) (use iso in simp_all)
  have run: "run sv (handleSend cr cfg req) s =
     (case sender_decision cr ?kv ?now (sq_sender q) (MAX_CLOCK_SKEW cfg) ?m of
        Some e \<Rightarrow> (Done (err (SenderAuthFailed e) 401 []), s1)
      | None \<Rightarrow>
          if \<not> rl_ok sv s1 MAILBOX_KV ?b1 ?l1 60 then (Done (err SenderTooFast 429 retry_after_60), s2)
          else if \<not> rl_ok sv s2 MAILBOX_KV ?b2 ?l2 60 then (Done (err TargetTooFast 429 retry_after_60), s3)
          else if \<not> rl_ok sv s3 MAILBOX_KV ?b3 ?l3 60 then (Done (err IpTooFast 429 retry_after_60), s4)
          else (case message_shape_error (sq_message q) of
                  Some e \<Rightarrow> (Done (err (BadShape e) 400 []), s4)
                | None \<Rightarrow> run sv (send_deposit cr cfg body q) s4))"
    using iso skew body q
    by (simp add: handleSend_def run_verifySenderAuth run_rateLimit s1_def s2_def s3_def s4_def split: option.splits)
  have o: "rl_ok sv s1 MAILBOX_KV ?b1 ?l1 60 = under_limit ?kv ?now ?b1 ?l1 60"
    "rl_ok sv s2 MAILBOX_KV ?b2 ?l2 60 = under_limit ?kv ?now ?b2 ?l2 60"
    "rl_ok sv s3 MAILBOX_KV ?b3 ?l3 60 = under_limit ?kv ?now ?b3 ?l3 60"
    using iso skew
    by (simp_all add: s1_def s2_def s3_def view_simps rl_key_def window_key_def auth_replay_key_def replay_key_def)
  show ?thesis
    unfolding run o send_verdict_def
    using r1 r2 r3 r4 by (auto split: option.splits intro!: exI [of _ s4])
qed

section \<open>The deposit on a stored mailbox\<close>

lemma isBacklogStale_enqueued:
  "isBacklogStale (Some (enqueued_json e)) ttl k =
     (case e of None \<Rightarrow> k False | Some t \<Rightarrow> Now (\<lambda>now. k (num_ge (Some ((now - t) div 1000)) ttl)))"
  by (simp add: isBacklogStale_def enqueued_json_def nullish_def split: option.splits)

text \<open>Purging is the abstract purge, and only reads the clock.\<close>

lemma run_purge_stale:
  assumes iso: "isolated sv" and st: "represents stored mb"
  shows "\<exists>st' s'. run sv (purge_stale cfg stored k) s = run sv (k st') s' \<and>
    represents st' (purge (TTL_SECONDS cfg) (sv_clock sv s) mb) \<and>
    sv_view sv s' = sv_view sv s \<and> sv_clock sv s' = sv_clock sv s"
proof -
  obtain s1 where s1: "set_prop ''messages'' (JArr []) stored = Inr s1" "represents s1 (mb\<lparr>mb_messages := []\<rparr>)"
    using represents_set_messages [OF st, of "[]"] by auto
  obtain s2 where s2: "set_prop ''messagesEnqueuedAt'' JNull s1 = Inr s2"
      "represents s2 (mb\<lparr>mb_messages := [], mb_enqueued := None\<rparr>)"
    using represents_set_enqueued [OF s1(2), of None] by (auto simp: enqueued_json_def)
  have clear: "clear_messages stored = Inr s2" "represents s2 (drain mb)"
    using s1 s2 by (simp_all add: clear_messages_def drain_def)
  have g: "get_prop (Some stored) ''messagesEnqueuedAt'' = Inr (Some (enqueued_json (mb_enqueued mb)))"
    using st by (simp add: represents_props)
  show ?thesis
  proof (cases "mb_enqueued mb")
    case None
    then have "run sv (purge_stale cfg stored k) s = run sv (k stored) s"
      by (simp add: purge_stale_def g isBacklogStale_enqueued)
    with st None show ?thesis by (auto simp: purge_def stale_def)
  next
    case (Some t)
    define s' where "s' = snd (sv_now sv s)"
    have v: "sv_view sv s' = sv_view sv s" "sv_clock sv s' = sv_clock sv s"
      using iso by (simp_all add: s'_def view_simps)
    have "run sv (purge_stale cfg stored k) s =
        run sv (if num_ge (Some ((sv_clock sv s - t) div 1000)) (TTL_SECONDS cfg) then k s2 else k stored) s'"
      using iso Some by (simp add: purge_stale_def g isBacklogStale_enqueued run_simps clear(1) s'_def)
    with st Some clear(2) v show ?thesis
      by (cases "num_ge (Some ((sv_clock sv s - t) div 1000)) (TTL_SECONDS cfg)")
        (auto simp: purge_def stale_def)
  qed
qed

lemma wf_new_entry [simp]: "wf_json (new_entry i t m pk)"
  by (simp add: new_entry_def obj_canonical_def key_precedes_def is_digit_def)

text \<open>Pushing an entry and stamping the enqueue time is the abstract deposit.\<close>

lemma run_push_and_stamp:
  assumes iso: "isolated sv" and st: "represents stored mb" and e: "wf_json e"
  shows "\<exists>st' s'. run sv (attempt (push_message e stored) (\<lambda>s1. stamp_enqueued s1 k)) s = run sv (k st') s' \<and>
    represents st' (deposit e (sv_clock sv s) mb) \<and>
    sv_view sv s' = sv_view sv s \<and> sv_clock sv s' = sv_clock sv s"
proof -
  have wf_ms: "list_all wf_json (mb_messages mb)"
    using st by (auto simp: represents_def list_all_iff dest!: wf_json_map_of [where k = "''messages''"] simp del: wf_json.simps(2))
  let ?mb1 = "mb\<lparr>mb_messages := mb_messages mb @ [e]\<rparr>"
  obtain s1 where s1: "push_message e stored = Inr s1" "represents s1 ?mb1"
    using represents_set_messages [OF st, of "mb_messages mb @ [e]"] wf_ms e st
    by (auto simp: push_message_def represents_props)
  have g: "get_prop (Some s1) ''messagesEnqueuedAt'' = Inr (Some (enqueued_json (mb_enqueued mb)))"
    using s1(2) by (simp add: represents_props)
  show ?thesis
  proof (cases "mb_enqueued mb")
    case None
    obtain s2 where s2: "set_prop ''messagesEnqueuedAt'' (JNum (sv_clock sv s)) s1 = Inr s2"
        "represents s2 (?mb1\<lparr>mb_enqueued := Some (sv_clock sv s)\<rparr>)"
      using represents_set_enqueued [OF s1(2), of "Some (sv_clock sv s)"] by (auto simp: enqueued_json_def)
    define s' where "s' = snd (sv_now sv s)"
    have v: "sv_view sv s' = sv_view sv s" "sv_clock sv s' = sv_clock sv s"
      using iso by (simp_all add: s'_def view_simps)
    have "run sv (attempt (push_message e stored) (\<lambda>s1. stamp_enqueued s1 k)) s = run sv (k s2) s'"
      using iso None by (simp add: s1 g stamp_enqueued_def run_simps s2 s'_def enqueued_json_def nullish_def)
    with s2(2) None v show ?thesis by (auto simp: deposit_def)
  next
    case (Some t)
    then have "run sv (attempt (push_message e stored) (\<lambda>s1. stamp_enqueued s1 k)) s = run sv (k s1) s"
      by (simp add: s1 g stamp_enqueued_def enqueued_json_def nullish_def)
    moreover have "represents s1 (deposit e (sv_clock sv s) mb)" using s1(2) Some
      by (cases mb) (simp add: deposit_def)
    ultimately show ?thesis by blast
  qed
qed

lemma message_count_represents: "represents st mb \<Longrightarrow> message_count st = Inr (Some (int (length (mb_messages mb))))"
  by (simp add: message_count_def represents_props)

lemma mailbox_at_load:
  assumes "mailbox_at kv m mb"
  obtains stored where "kv (mailbox_key m) = Some (json_stringify stored)" "represents stored mb"
    "json_parse (json_stringify stored) = Some stored"
  using assms wf_represents by (auto simp: mailbox_at_def)

lemma run_send_deposit:
  assumes iso: "isolated sv" and at: "mailbox_at (sv_view sv s MAILBOX_KV) (sq_mailboxId q) mb"
  shows "\<exists>st s'. run sv (send_deposit cr cfg body q) s = run sv (send_append cr cfg body q st) s' \<and>
    represents st (purge (TTL_SECONDS cfg) (sv_clock sv s) mb) \<and>
    sv_view sv s' = sv_view sv s \<and> sv_clock sv s' = sv_clock sv s"
proof -
  obtain stored where st: "sv_view sv s MAILBOX_KV (mailbox_key (sq_mailboxId q)) = Some (json_stringify stored)"
    "represents stored mb" "json_parse (json_stringify stored) = Some stored"
    using mailbox_at_load [OF at] .
  define s0 where "s0 = snd (sv_get sv s MAILBOX_KV (mailbox_key (sq_mailboxId q)))"
  have v0: "sv_view sv s0 = sv_view sv s" "sv_clock sv s0 = sv_clock sv s"
    using iso by (simp_all add: s0_def view_simps)
  have "run sv (send_deposit cr cfg body q) s = run sv (purge_stale cfg stored (send_append cr cfg body q)) s0"
    using iso st by (simp add: send_deposit_def run_simps s0_def)
  with run_purge_stale [OF iso st(2), of cfg "send_append cr cfg body q" s0] v0 show ?thesis by auto
qed

lemma run_send_append_full:
  assumes "represents st mb" and "num_ge (Some (int (length (mb_messages mb)))) (MAX_MESSAGES cfg)"
  shows "run sv (send_append cr cfg body q st) s =
    (Done (err (MailboxFull (MAX_MESSAGES cfg)) 429 [(''Retry-After'', ''3600'')]), s)"
  using assms by (simp add: send_append_def message_count_represents)

lemma run_send_append:
  assumes iso: "isolated sv" and ttl: "ttl_ok (Some (MAILBOX_TTL_SECONDS cfg))"
    and st: "represents st mb" and room: "\<not> num_ge (Some (int (length (mb_messages mb)))) (MAX_MESSAGES cfg)"
  shows "\<exists>entryId st' s'. length entryId = 16 \<and>
    run sv (send_append cr cfg body q st) s =
      run sv (send_respond cr body (send_result (Some (int (Suc (length (mb_messages mb))))))) s' \<and>
    represents st' (deposit (new_entry entryId (sv_clock sv s) (sq_message q) (sq_senderPubkey q)) (sv_clock sv s) mb) \<and>
    sv_view sv s' = (sv_view sv s)(MAILBOX_KV :=
      (sv_view sv s MAILBOX_KV)(mailbox_key (sq_mailboxId q) \<mapsto> json_stringify st')) \<and>
    sv_clock sv s' = sv_clock sv s"
proof -
  define i where "i = bytesToHex (fst (sv_random sv s 8))"
  define s1 where "s1 = snd (sv_now sv (snd (sv_random sv s 8)))"
  have v1: "sv_view sv s1 = sv_view sv s" "sv_clock sv s1 = sv_clock sv s"
    using iso by (simp_all add: s1_def view_simps)
  have len: "length i = 16" using isolated_random [OF iso, of s 8] by (simp add: i_def)
  define e where "e = new_entry i (sv_clock sv (snd (sv_random sv s 8))) (sq_message q) (sq_senderPubkey q)"
  have e: "e = new_entry i (sv_clock sv s) (sq_message q) (sq_senderPubkey q)"
    using iso by (simp add: e_def view_simps)
  let ?k = "\<lambda>stored2. kvPut MAILBOX_KV (mailbox_key (sq_mailboxId q)) (json_stringify stored2)
         (Some (MAILBOX_TTL_SECONDS cfg))
       (let respond = attempt (message_count stored2) (\<lambda>queued. send_respond cr body (send_result queued)) in
        if 1 < length (replica_list stored2)
        then WaitUntil (ReplicateToSiblings (lower (sq_mailboxId q)) e (replica_list stored2)) respond
        else respond)"
  have r0: "run sv (send_append cr cfg body q st) s =
      run sv (attempt (push_message e st) (\<lambda>s1. stamp_enqueued s1 ?k)) s1"
    unfolding e_def i_def s1_def
    using iso room by (simp add: send_append_def message_count_represents [OF st] run_simps randomHex_def Let_def)
  obtain st' s2 where r1: "run sv (attempt (push_message e st) (\<lambda>s1. stamp_enqueued s1 ?k)) s1 = run sv (?k st') s2"
      "represents st' (deposit e (sv_clock sv s1) mb)" "sv_view sv s2 = sv_view sv s1" "sv_clock sv s2 = sv_clock sv s1"
    using run_push_and_stamp [OF iso st, of e ?k s1] by (auto simp: e)
  define s3 where "s3 = snd (sv_put sv s2 MAILBOX_KV (mailbox_key (sq_mailboxId q)) (json_stringify st')
      (Some (MAILBOX_TTL_SECONDS cfg)))"
  have n: "message_count st' = Inr (Some (int (Suc (length (mb_messages mb)))))"
    using message_count_represents [OF r1(2)] by (simp add: deposit_def)
  have "run sv (?k st') s2 = run sv (send_respond cr body (send_result (Some (int (Suc (length (mb_messages mb))))))) s3"
    using iso ttl by (simp add: run_simps Let_def n s3_def)
  moreover have "sv_view sv s3 = (sv_view sv s)(MAILBOX_KV :=
      (sv_view sv s MAILBOX_KV)(mailbox_key (sq_mailboxId q) \<mapsto> json_stringify st'))" "sv_clock sv s3 = sv_clock sv s"
    using iso ttl by (simp_all add: s3_def view_simps r1(3,4) v1)
  ultimately show ?thesis using r0 r1(1,2) v1 len unfolding e by (intro exI [of _ i] exI [of _ st'] exI [of _ s3]) simp
qed

section \<open>Whatever the platform does\<close>

definition sender_verified :: "crypto \<Rightarrow> send_req \<Rightarrow> bool" where
  "sender_verified cr q \<longleftrightarrow>
     (\<exists>sig. opt_prop (sq_sender q) ''signature'' = Some (JStr sig) \<and>
        verifyEd25519Message cr (sq_senderPubkey q) (send_signed_message cr q) sig)"

definition writes_marks_only :: "event \<Rightarrow> bool" where
  "writes_marks_only e = (case e of EvPut n k v t \<Rightarrow> mark_key k | EvDelete n k \<Rightarrow> False
     | EvFetch rs \<Rightarrow> False | EvWaitUntil t \<Rightarrow> False | _ \<Rightarrow> True)"

lemma send_request_pubkey:
  "send_request cfg body = Inr q \<Longrightarrow>
     str_test (hex_re 64 64) (opt_prop (sq_sender q) ''pubkey'') = Some (sq_senderPubkey q)"
  by (auto simp: send_request_def split: option.splits if_splits)

lemma emits_handleSend_unverified:
  assumes "\<And>body q. body_of req = Some body \<Longrightarrow> send_request cfg body = Inr q \<Longrightarrow> \<not> sender_verified cr q"
  shows "emits writes_marks_only (handleSend cr cfg req)"
proof (cases "body_of req")
  case None
  then show ?thesis by (simp add: handleSend_def)
next
  case (Some body)
  show ?thesis
  proof (cases "send_request cfg body")
    case (Inl e)
    with Some show ?thesis by (simp add: handleSend_def)
  next
    case (Inr q)
    have nv: "\<not> verifyEd25519Message cr (sq_senderPubkey q) (send_signed_message cr q) sig"
      if "opt_prop (sq_sender q) ''signature'' = Some (JStr sig)" for sig
      using assms [OF Some Inr] that by (auto simp: sender_verified_def)
    show ?thesis
      using nv by (auto simp: handleSend_def Some Inr verifySenderAuth_def send_request_pubkey [OF Inr]
          emit_simps Let_def writes_marks_only_def str_test_Some split: option.splits)
  qed
qed

section \<open>An accepted send\<close>

lemma handleSend_appends:
  assumes iso: "isolated sv" and skew: "MAX_CLOCK_SKEW cfg \<noteq> None" and ttl: "ttl_ok (Some (MAILBOX_TTL_SECONDS cfg))"
    and body: "body_of req = Some body" and q: "send_request cfg body = Inr q" and plain: "js_prop body ''request_id'' = None"
    and pass: "send_verdict cr (sv_view sv s MAILBOX_KV) (sv_clock sv s) cfg req q = None"
    and at: "mailbox_at (sv_view sv s MAILBOX_KV) (sq_mailboxId q) mb"
    and room: "\<not> num_ge (Some (int (length (mb_messages (purge (TTL_SECONDS cfg) (sv_clock sv s) mb))))) (MAX_MESSAGES cfg)"
  shows "\<exists>entryId. length entryId = 16 \<and>
    (let kept = purge (TTL_SECONDS cfg) (sv_clock sv s) mb;
         entry = new_entry entryId (sv_clock sv s) (sq_message q) (sq_senderPubkey q) in
     fst (run sv (handleSend cr cfg req) s) =
       Done (json (send_result (Some (int (Suc (length (mb_messages kept)))))) 200 []) \<and>
     mailbox_at (sv_view sv (snd (run sv (handleSend cr cfg req) s)) MAILBOX_KV) (sq_mailboxId q)
       (deposit entry (sv_clock sv s) kept))"
proof -
  let ?kept = "purge (TTL_SECONDS cfg) (sv_clock sv s) mb"
  obtain s1 where s1: "same_records sv s s1" "run sv (handleSend cr cfg req) s = run sv (send_deposit cr cfg body q) s1"
    using run_handleSend [OF iso skew body q, where cr = cr and s = s] pass by auto
  have at1: "mailbox_at (sv_view sv s1 MAILBOX_KV) (sq_mailboxId q) mb"
    using at mailbox_at_same_records [OF s1(1)] by simp
  obtain st s2 where s2: "run sv (send_deposit cr cfg body q) s1 = run sv (send_append cr cfg body q st) s2"
      "represents st ?kept" "sv_clock sv s2 = sv_clock sv s"
    using run_send_deposit [OF iso at1, where cr = cr and cfg = cfg and body = body] same_recordsD(2) [OF s1(1)] by auto
  obtain i st' s3 where s3: "length i = 16" "run sv (send_append cr cfg body q st) s2 =
        run sv (send_respond cr body (send_result (Some (int (Suc (length (mb_messages ?kept))))))) s3"
      "represents st' (deposit (new_entry i (sv_clock sv s) (sq_message q) (sq_senderPubkey q)) (sv_clock sv s) ?kept)"
      "sv_view sv s3 MAILBOX_KV (mailbox_key (sq_mailboxId q)) = Some (json_stringify st')"
    using run_send_append [OF iso ttl s2(2) room, where cr = cr and body = body and q = q and s = s2] by (auto simp: s2(3))
  then show ?thesis
    by (intro exI [of _ i]) (auto simp: s1 s2 send_respond_def plain mailbox_at_def str_test_def)
qed

end
