(* ===== verification/MailboxRead.thy ===== *)
theory MailboxRead
  imports MailboxCreate ShardIdentity MailboxSend
begin

text \<open>
  \<open>GET /read\<close>: the bearer check of the read secret, the purge of a stale backlog, and the
  drain (or the peek).  The lemmas give the response and the stored mailbox on each branch.
\<close>

text \<open>\<open>constantTimeEqual(await sha256Hex(readSecret), stored.readSecretHash || "")\<close>.\<close>

definition read_secret_ok :: "crypto \<Rightarrow> string \<Rightarrow> jsval \<Rightarrow> bool" where
  "read_secret_ok cr readSecret storedHash =
     constantTimeEqual (sha256Hex cr readSecret) (js_string (Some (or_val storedHash (JStr []))))"

definition read_result :: "jsval \<Rightarrow> jsval \<Rightarrow> jsval \<Rightarrow> bool \<Rightarrow> json" where
  "read_result messages count createdAt peek =
     mk_obj [(''messages'', messages), (''count'', count), (''createdAt'', createdAt),
             (''consumed'', Some (JBool (\<not> peek)))]"

text \<open>From the stored record on, once the secret matched.\<close>

definition read_take :: "crypto \<Rightarrow> cfg \<Rightarrow> string \<Rightarrow> bool \<Rightarrow> string option \<Rightarrow> json \<Rightarrow> response prog" where
  "read_take cr cfg mailboxId peek requestId stored =
     attempt (get_prop (Some stored) ''messages'') (\<lambda>messagesToReturn.
     attempt (if peek then Inr stored else clear_messages stored) (\<lambda>stored'.
     kvPut MAILBOX_KV (mailbox_key mailboxId) (json_stringify stored') (Some (MAILBOX_TTL_SECONDS cfg))
     (attempt (get_prop messagesToReturn ''length'') (\<lambda>count.
      let readResult = read_result messagesToReturn count (js_prop stored' ''createdAt'') peek in
      case requestId of
        Some rid \<Rightarrow> buildShardSignedResponse cr rid 200 readResult (\<lambda>signed. Return (json signed 200 []))
      | None \<Rightarrow> Return (json readResult 200 [])))))"

definition handleRead :: "crypto \<Rightarrow> cfg \<Rightarrow> request \<Rightarrow> response prog" where
  "handleRead cr cfg req =
     (let params = map_of (req_query req);
          peek = (params ''peek'' = Some ''1'');
          requestId = present (params ''request_id'') in
      case query_mailbox req of
        None \<Rightarrow> Return (err MailboxIdRequired 400 [])
      | Some mailboxId \<Rightarrow>
     (case present (params ''read_secret'') of
        None \<Rightarrow> Return (err ReadSecretRequired 400 [])
      | Some readSecret \<Rightarrow>
          rateLimit (''read-ip:'' @ clientIp req) (Some 300) 60 (\<lambda>ipOk.
          if \<not> ipOk then Return (err TooManyReads 429 retry_after_60)
          else kvGet MAILBOX_KV (mailbox_key mailboxId) (\<lambda>raw.
            case present raw of
              None \<Rightarrow> Return (err MailboxNotFound 404 [])
            | Some text \<Rightarrow>
            (case json_parse text of
               None \<Rightarrow> Return (err StorageError 500 [])
             | Some stored \<Rightarrow>
                 attempt (get_prop (Some stored) ''readSecretHash'') (\<lambda>h.
                 if \<not> read_secret_ok cr readSecret h then Return (err InvalidReadSecret 401 [])
                 else purge_stale cfg stored (read_take cr cfg mailboxId peek requestId)))))))"

section \<open>What a read does\<close>

definition read_view :: "mailbox \<Rightarrow> bool \<Rightarrow> json" where
  "read_view mb peek =
     JObj [(''messages'', JArr (mb_messages mb)), (''count'', JNum (int (length (mb_messages mb)))),
           (''createdAt'', JNum (mb_created mb)), (''consumed'', JBool (\<not> peek))]"

lemma represents_clear:
  assumes "represents stored mb"
  obtains st where "clear_messages stored = Inr st" "represents st (drain mb)"
proof -
  obtain s1 where s1: "set_prop ''messages'' (JArr []) stored = Inr s1" "represents s1 (mb\<lparr>mb_messages := []\<rparr>)"
    using represents_set_messages [OF assms, of "[]"] by auto
  obtain s2 where s2: "set_prop ''messagesEnqueuedAt'' JNull s1 = Inr s2"
      "represents s2 (mb\<lparr>mb_messages := [], mb_enqueued := None\<rparr>)"
    using represents_set_enqueued [OF s1(2), of None] by (auto simp: enqueued_json_def)
  from s1 s2 show thesis by (intro that) (simp_all add: clear_messages_def drain_def)
qed

lemma run_read_take:
  assumes iso: "isolated sv" and ttl: "ttl_ok (Some (MAILBOX_TTL_SECONDS cfg))" and st: "represents stored mb"
  shows "\<exists>st' s'. run sv (read_take cr cfg mid peek rid stored) s =
      run sv (case rid of Some r \<Rightarrow> buildShardSignedResponse cr r 200 (read_view mb peek) (\<lambda>signed. Return (json signed 200 []))
                        | None \<Rightarrow> Return (json (read_view mb peek) 200 [])) s' \<and>
    represents st' (if peek then mb else drain mb) \<and>
    sv_view sv s' = (sv_view sv s)(MAILBOX_KV := (sv_view sv s MAILBOX_KV)(mailbox_key mid \<mapsto> json_stringify st')) \<and>
    sv_clock sv s' = sv_clock sv s"
proof -
  obtain st' where st': "(if peek then Inr stored else clear_messages stored) = Inr st'"
      "represents st' (if peek then mb else drain mb)"
    using st by (cases peek) (auto elim: represents_clear)
  have c: "js_prop st' ''createdAt'' = Some (JNum (mb_created mb))"
    using st'(2) by (auto simp: represents_props drain_def split: if_splits)
  define s' where "s' = snd (sv_put sv s MAILBOX_KV (mailbox_key mid) (json_stringify st') (Some (MAILBOX_TTL_SECONDS cfg)))"
  have g: "get_prop (Some stored) ''messages'' = Inr (Some (JArr (mb_messages mb)))"
    using st by (simp add: represents_props)
  have "run sv (read_take cr cfg mid peek rid stored) s =
      run sv (case rid of Some r \<Rightarrow> buildShardSignedResponse cr r 200 (read_view mb peek) (\<lambda>signed. Return (json signed 200 []))
                        | None \<Rightarrow> Return (json (read_view mb peek) 200 [])) s'"
    using iso ttl by (cases rid) (simp_all add: read_take_def g st'(1) run_simps c s'_def Let_def read_result_def
        read_view_def mk_obj_def)
  moreover have "sv_view sv s' = (sv_view sv s)(MAILBOX_KV := (sv_view sv s MAILBOX_KV)(mailbox_key mid \<mapsto> json_stringify st'))"
    "sv_clock sv s' = sv_clock sv s"
    using iso ttl by (simp_all add: s'_def view_simps)
  ultimately show ?thesis using st'(2) by blast
qed

text \<open>Whether a read of an existing mailbox is admitted, and the two outcomes.\<close>

definition read_limited :: "(string \<Rightarrow> string option) \<Rightarrow> int \<Rightarrow> request \<Rightarrow> bool" where
  "read_limited kv now req \<longleftrightarrow> \<not> under_limit kv now (''read-ip:'' @ clientIp req) (Some 300) 60"

lemma run_handleRead:
  assumes iso: "isolated sv" and q: "query_mailbox req = Some mid"
    and secret: "map_of (req_query req) ''read_secret'' = Some secret" "secret \<noteq> []"
    and adm: "\<not> read_limited (sv_view sv s MAILBOX_KV) (sv_clock sv s) req"
    and at: "mailbox_at (sv_view sv s MAILBOX_KV) mid mb"
  shows "\<exists>st s'. represents st mb \<and> same_records sv s s' \<and> run sv (handleRead cr cfg req) s =
    run sv (if read_secret_ok cr secret (Some (JStr (mb_hash mb)))
            then purge_stale cfg st (read_take cr cfg mid (map_of (req_query req) ''peek'' = Some ''1'')
                   (present (map_of (req_query req) ''request_id'')))
            else Return (err InvalidReadSecret 401 [])) s'"
proof -
  obtain st where st: "sv_view sv s MAILBOX_KV (mailbox_key mid) = Some (json_stringify st)"
    "represents st mb" "json_parse (json_stringify st) = Some st"
    using mailbox_at_load [OF at] .
  let ?b = "''read-ip:'' @ clientIp req"
  define s1 where "s1 = rl_next sv s MAILBOX_KV ?b (Some 300) 60"
  have r1: "same_records sv s s1" unfolding s1_def by (rule same_records_rl) (use iso in simp_all)
  define s2 where "s2 = snd (sv_get sv s1 MAILBOX_KV (mailbox_key mid))"
  have r2: "same_records sv s s2" unfolding s2_def
    by (rule same_records_trans [OF r1 same_records_get]) (rule iso)
  have v1: "sv_view sv s1 MAILBOX_KV (mailbox_key mid) = Some (json_stringify st)"
    using same_recordsD(1) [OF r1, of "mailbox_key mid"] st(1) by simp
  have ok: "rl_ok sv s MAILBOX_KV ?b (Some 300) 60"
    using adm by (simp add: read_limited_def rl_ok_under_limit)
  have "run sv (handleRead cr cfg req) s =
    run sv (if read_secret_ok cr secret (Some (JStr (mb_hash mb)))
            then purge_stale cfg st (read_take cr cfg mid (map_of (req_query req) ''peek'' = Some ''1'')
                   (present (map_of (req_query req) ''request_id'')))
            else Return (err InvalidReadSecret 401 [])) s2"
    using iso secret st(2)
    by (simp add: handleRead_def Let_def q run_rateLimit ok s1_def [symmetric] run_simps v1 st(3) s2_def
        represents_props del: append_Cons append_Nil)
  with st(2) r2 show ?thesis by blast
qed

text \<open>The empty hash of a shell record (see \<open>handleReplicate\<close>) matches no secret.\<close>

lemma read_secret_ok_iff:
  assumes "length (sha256 cr (utf8 secret)) = 32" and "length (utf8 h) < 2 ^ 32"
  shows "read_secret_ok cr secret (Some (JStr h)) \<longleftrightarrow> h = sha256Hex cr secret"
proof -
  have l: "length (utf8 (sha256Hex cr secret)) < 2 ^ 32"
  proof -
    have "utf8_char c = [of_nat (of_char c)]" if "is_hex_char c" for c
      using that by (auto simp: utf8_char_def is_hex_char_def is_digit_def Let_def)
    then have "list_all is_hex_char s \<Longrightarrow> length (utf8 s) = length s" for s
      by (induction s) auto
    then show ?thesis using assms(1) by (simp add: sha256Hex_def bytesToHex_hex)
  qed
  have "js_string (Some (or_val (Some (JStr h)) (JStr []))) = h"
    by (simp add: or_val_def js_string_def)
  then show ?thesis
    using constantTimeEqual_iff [OF l assms(2)] by (auto simp: read_secret_ok_def)
qed

section \<open>A read with the right secret\<close>

lemma handleRead_returns:
  assumes iso: "isolated sv" and ttl: "ttl_ok (Some (MAILBOX_TTL_SECONDS cfg))" and q: "query_mailbox req = Some mid"
    and secret: "map_of (req_query req) ''read_secret'' = Some secret" "secret \<noteq> []"
    and plain: "map_of (req_query req) ''request_id'' = None"
    and adm: "\<not> read_limited (sv_view sv s MAILBOX_KV) (sv_clock sv s) req"
    and at: "mailbox_at (sv_view sv s MAILBOX_KV) mid mb"
    and auth: "read_secret_ok cr secret (Some (JStr (mb_hash mb)))"
  shows "let peek = (map_of (req_query req) ''peek'' = Some ''1''); kept = purge (TTL_SECONDS cfg) (sv_clock sv s) mb in
    fst (run sv (handleRead cr cfg req) s) = Done (json (read_view kept peek) 200 []) \<and>
    mailbox_at (sv_view sv (snd (run sv (handleRead cr cfg req) s)) MAILBOX_KV) mid (if peek then kept else drain kept)"
proof -
  let ?peek = "map_of (req_query req) ''peek'' = Some ''1''" and ?kept = "purge (TTL_SECONDS cfg) (sv_clock sv s) mb"
  obtain st s1 where s1: "represents st mb" "same_records sv s s1"
      "run sv (handleRead cr cfg req) s = run sv (purge_stale cfg st (read_take cr cfg mid ?peek None)) s1"
    using run_handleRead [OF iso q secret adm at, where cr = cr and cfg = cfg] auth by (auto simp: plain)
  obtain st2 s2 where s2: "run sv (handleRead cr cfg req) s = run sv (read_take cr cfg mid ?peek None st2) s2"
      "represents st2 ?kept" "sv_clock sv s2 = sv_clock sv s"
    using run_purge_stale [OF iso s1(1), where cfg = cfg and s = s1 and k = "read_take cr cfg mid ?peek None"]
      same_recordsD(2) [OF s1(2)] by (auto simp: s1(3))
  obtain st3 s3 where "run sv (handleRead cr cfg req) s = run sv (Return (json (read_view ?kept ?peek) 200 [])) s3"
      "represents st3 (if ?peek then ?kept else drain ?kept)"
      "sv_view sv s3 MAILBOX_KV (mailbox_key mid) = Some (json_stringify st3)"
    using run_read_take [OF iso ttl s2(2), where cr = cr and mid = mid and peek = ?peek and rid = None and s = s2]
    by (auto simp: s2(1))
  then show ?thesis by (auto simp: mailbox_at_def Let_def)
qed

end
