(* ===== verification/Replication.thy ===== *)
theory Replication
  imports MailboxRead ShardRegister
begin

text \<open>
  Replication between shards (\<open>replicateToSiblings\<close>, \<open>POST /internal/replicate\<close>) and the
  routing table a shard caches for it (\<open>POST /internal/routing_table\<close>,
  \<open>GET /routing_table.json\<close>).  The lemmas show that what one shard sends another accepts
  when the Router-signed table names the sender, that a retry changes nothing, and what the
  handler does to the stored mailbox.
\<close>

definition ROUTING_TABLE_KV_KEY :: string where
  "ROUTING_TABLE_KV_KEY = ''routing_table_cache''"

section \<open>The cached routing table\<close>

definition getCachedRoutingTable :: "(json \<Rightarrow> 'a prog) \<Rightarrow> 'a prog" where
  "getCachedRoutingTable k =
     kvGet MAILBOX_KV ROUTING_TABLE_KV_KEY (\<lambda>raw.
       k (case present raw of
            None \<Rightarrow> JNull
          | Some text \<Rightarrow> (case json_parse text of Some v \<Rightarrow> v | None \<Rightarrow> JNull)))"

definition handleRoutingTablePush :: "crypto \<Rightarrow> env \<Rightarrow> request \<Rightarrow> response prog" where
  "handleRoutingTablePush cr env req =
     request_json req (\<lambda>body.
       let unsignedBody = rest_without ''signature'' body in
       case str_test (hex_re 128 128) (js_prop body ''signature'') of
         None \<Rightarrow> Return (err TableSignatureNotHex 400 [])
       | Some signature \<Rightarrow>
           (case js_prop unsignedBody ''shard_urls'' of
              Some (JArr (u # us)) \<Rightarrow>
                if js_number (js_prop unsignedBody ''expires_at'') = None
                then Return (err ExpiresAtRequired 400 [])
                else
                  let canonical = json_stringify unsignedBody in
                  if \<not> verify_with cr (ROUTER_SIGNING_PUBLIC env) canonical signature
                  then Return (err TableSignatureFailed 401 [])
                  else Now (\<lambda>now.
                    if num_gt (Some now) (js_number (js_prop unsignedBody ''expires_at''))
                    then Return (err TableExpired 400 [])
                    else kvPut MAILBOX_KV ROUTING_TABLE_KV_KEY (json_stringify body) None
                      (Return (json (mk_obj [(''cached'', Some (JBool True)),
                                             (''version'', js_prop unsignedBody ''version'')]) 200 [])))
            | _ \<Rightarrow> Return (err ShardUrlsRequired 400 [])))"

definition handleRoutingTableServe :: "response prog" where
  "handleRoutingTableServe =
     getCachedRoutingTable (\<lambda>cached.
       if \<not> truthy (Some cached) then Return (err NoTableCached 503 [(''Retry-After'', ''30'')])
       else Return (json cached 200 [(''Cache-Control'', ''public, max-age=300, s-maxage=300'')]))"

section \<open>Sending\<close>

definition replicate_payload :: "string \<Rightarrow> json \<Rightarrow> json list \<Rightarrow> jsval \<Rightarrow> string \<Rightarrow> (string \<times> json) list" where
  "replicate_payload mailboxId entry replicaShardUrls origin timestamp =
     [(''mailbox_id'', JStr mailboxId), (''entry'', entry), (''replica_shard_urls'', JArr replicaShardUrls)] @
     (case origin of None \<Rightarrow> [] | Some o' \<Rightarrow> [(''origin_shard_pubkey'', o')]) @
     [(''timestamp'', JStr timestamp)]"

definition replicate_message :: "json \<Rightarrow> string" where
  "replicate_message payload = ''replicate:'' @ json_stringify payload"

definition siblings :: "env \<Rightarrow> json list \<Rightarrow> json list" where
  "siblings env urls = filter (\<lambda>u. Some u \<noteq> str_val (SELF_URL env)) urls"

text \<open>The \<open>.catch\<close> of each push.\<close>

fun log_failures :: "json list \<Rightarrow> fetch_result list \<Rightarrow> unit prog \<Rightarrow> unit prog" where
  "log_failures (u # us) (FetchFailed name m # rs) p =
     Log (''replicate to '' @ js_string_json u @ '' failed: '' @ error_to_string name m) (log_failures us rs p)"
| "log_failures (u # us) (Fetched st t # rs) p = log_failures us rs p"
| "log_failures _ _ p = p"

definition replicate_requests :: "json list \<Rightarrow> json \<Rightarrow> out_request list" where
  "replicate_requests targets body = map (\<lambda>u. post_json (js_string_json u @ ''/internal/replicate'') body) targets"

definition replicateToSiblings :: "crypto \<Rightarrow> env \<Rightarrow> string \<Rightarrow> json \<Rightarrow> json list \<Rightarrow> unit prog" where
  "replicateToSiblings cr env mailboxId entry replicaShardUrls =
     (if siblings env replicaShardUrls = [] then Return ()
      else catch_with (\<lambda>e. Log (''replicateToSiblings error: '' @ error_message e) (Return ()))
        (ensureShardIdentity (\<lambda>identity.
         identity_private cr identity (\<lambda>privKey.
         Now (\<lambda>now.
         identity_public identity (\<lambda>pub.
         let payload = replicate_payload mailboxId entry replicaShardUrls pub (str_of_int now);
             signature = signWithShardKey cr privKey (replicate_message (JObj payload));
             body = JObj (payload @ [(''signature'', JStr signature)])
         in FetchAll (replicate_requests (siblings env replicaShardUrls) body)
              (\<lambda>results. log_failures (siblings env replicaShardUrls) results (Return ()))))))))"

section \<open>Receiving\<close>

record replicate_req =
  pq_mailboxId :: string
  pq_entry :: json
  pq_entryId :: string
  pq_origin :: jsval
  pq_timestamp :: jsval
  pq_signature :: jsval
  pq_replicas :: jsval

definition replicate_request :: "json \<Rightarrow> msg + replicate_req" where
  "replicate_request body =
     (case str_test (hex_re 16 128) (js_prop body ''mailbox_id'') of
        None \<Rightarrow> Inl MailboxIdNotHex
      | Some mailboxId \<Rightarrow>
     (case js_prop body ''entry'' of
        Some (JObj entry) \<Rightarrow>
          (case (map_of entry ''id'', map_of entry ''message'') of
             (Some (JStr entryId), Some (JStr m)) \<Rightarrow>
               if \<not> coerce_test (hex_re 64 64) (js_prop body ''origin_shard_pubkey'') then Inl OriginNotHex
               else if \<not> coerce_test digits_re (js_prop body ''timestamp'') then Inl TimestampRequired
               else if \<not> coerce_test (hex_re 128 128) (js_prop body ''signature'') then Inl SignatureNotHex
               else Inr \<lparr> pq_mailboxId = mailboxId, pq_entry = JObj entry, pq_entryId = entryId,
                          pq_origin = js_prop body ''origin_shard_pubkey'',
                          pq_timestamp = js_prop body ''timestamp'',
                          pq_signature = js_prop body ''signature'',
                          pq_replicas = js_prop body ''replica_shard_urls'' \<rparr>
           | _ \<Rightarrow> Inl EntryIncomplete)
      | _ \<Rightarrow> Inl EntryIncomplete))"

text \<open>\<open>shards.find(s => s.pubkey && s.pubkey.toLowerCase() === origin)\<close>.\<close>

fun find_shard :: "string \<Rightarrow> json list \<Rightarrow> js_error + bool" where
  "find_shard origin [] = Inr False"
| "find_shard origin (s # ss) =
     (case get_prop (Some s) ''pubkey'' of
        Inl e \<Rightarrow> Inl e
      | Inr pk \<Rightarrow>
          if truthy pk
          then (case js_lower pk of
                  Inl e \<Rightarrow> Inl e
                | Inr l \<Rightarrow> if l = origin then Inr True else find_shard origin ss)
          else find_shard origin ss)"

text \<open>\<open>cachedTable?.shards?.find(...)\<close>, and whether it found something.\<close>

definition known_shard :: "json \<Rightarrow> string \<Rightarrow> js_error + bool" where
  "known_shard table origin =
     (case js_prop table ''shards'' of
        None \<Rightarrow> Inr False
      | Some JNull \<Rightarrow> Inr False
      | Some (JArr ss) \<Rightarrow> find_shard origin ss
      | Some _ \<Rightarrow> Inl TypeError)"

text \<open>\<open>messages.some(m => m.id === entry.id)\<close>.\<close>

fun some_id :: "string \<Rightarrow> json list \<Rightarrow> js_error + bool" where
  "some_id i [] = Inr False"
| "some_id i (m # ms) =
     (case get_prop (Some m) ''id'' of
        Inl e \<Rightarrow> Inl e
      | Inr v \<Rightarrow> if v = Some (JStr i) then Inr True else some_id i ms)"

definition messages_have_id :: "string \<Rightarrow> json \<Rightarrow> js_error + bool" where
  "messages_have_id i stored =
     (case get_prop (Some stored) ''messages'' of
        Inl e \<Rightarrow> Inl e
      | Inr (Some (JArr ms)) \<Rightarrow> some_id i ms
      | Inr _ \<Rightarrow> Inl TypeError)"

definition verify_jsval :: "crypto \<Rightarrow> string \<Rightarrow> string \<Rightarrow> jsval \<Rightarrow> bool" where
  "verify_jsval cr pub m sig = (case sig of Some (JStr s) \<Rightarrow> verifyEd25519Message cr pub m s | _ \<Rightarrow> False)"

definition replicate_store :: "cfg \<Rightarrow> replicate_req \<Rightarrow> json \<Rightarrow> response prog" where
  "replicate_store cfg p stored =
     attempt (messages_have_id (pq_entryId p) stored) (\<lambda>dup.
     if dup then Return (json (JObj [(''replicated'', JBool True), (''deduped'', JBool True)]) 200 [])
     else
       attempt (push_message (pq_entry p) stored) (\<lambda>stored1.
       stamp_enqueued stored1 (\<lambda>stored2.
       kvPut MAILBOX_KV (mailbox_key (pq_mailboxId p)) (json_stringify stored2) (Some (MAILBOX_TTL_SECONDS cfg))
         (Return (json (JObj [(''replicated'', JBool True)]) 200 [])))))"

definition shell_record :: "replicate_req \<Rightarrow> int \<Rightarrow> json" where
  "shell_record p now =
     JObj [(''readSecretHash'', JStr []), (''messages'', JArr []), (''createdAt'', JNum now),
           (''messagesEnqueuedAt'', JNull), (''replicaShardUrls'', or_val (pq_replicas p) (JArr []))]"

definition replicate_apply :: "cfg \<Rightarrow> replicate_req \<Rightarrow> response prog" where
  "replicate_apply cfg p =
     kvGet MAILBOX_KV (mailbox_key (pq_mailboxId p)) (\<lambda>raw.
       case present raw of
         None \<Rightarrow> Now (\<lambda>now. replicate_store cfg p (shell_record p now))
       | Some text \<Rightarrow>
           (case json_parse text of
              None \<Rightarrow> Return (err StorageError 500 [])
            | Some stored \<Rightarrow> replicate_store cfg p stored))"

definition handleReplicate :: "crypto \<Rightarrow> cfg \<Rightarrow> request \<Rightarrow> response prog" where
  "handleReplicate cr cfg req =
     request_json req (\<lambda>body.
       case replicate_request body of
         Inl e \<Rightarrow> Return (err e 400 [])
       | Inr p \<Rightarrow>
           Now (\<lambda>now.
           if outside_skew now (js_number (pq_timestamp p)) (Some 60000)
           then Return (err OutsideAllowedSkew 401 [])
           else attempt (js_lower (pq_origin p)) (\<lambda>origin.
           rateLimit (''replicate-origin:'' @ origin) (MAX_REPLICATES_PER_ORIGIN cfg) 60 (\<lambda>originOk.
           if \<not> originOk then Return (err OriginTooFast 429 retry_after_60)
           else getCachedRoutingTable (\<lambda>table.
             attempt (known_shard table origin) (\<lambda>known.
             if \<not> known then Return (err OriginUnknown 401 [])
             else
               let unsignedBody = rest_without ''signature'' body in
               if \<not> verify_jsval cr (js_string (pq_origin p)) (replicate_message unsignedBody) (pq_signature p)
               then Return (err ReplicateSignatureFailed 401 [])
               else replicate_apply cfg p))))))"

section \<open>The table reaches the cache only with the Router's signature\<close>

definition table_signed :: "crypto \<Rightarrow> env \<Rightarrow> json \<Rightarrow> bool" where
  "table_signed cr env body \<longleftrightarrow>
     (\<exists>sig. js_prop body ''signature'' = Some (JStr sig) \<and>
        verify_with cr (ROUTER_SIGNING_PUBLIC env) (json_stringify (rest_without ''signature'' body)) sig)"

definition caches_only :: "(json \<Rightarrow> bool) \<Rightarrow> event \<Rightarrow> bool" where
  "caches_only P e = (case e of
      EvPut n k v t \<Rightarrow> k = ROUTING_TABLE_KV_KEY \<and> (\<exists>table. v = json_stringify table \<and> P table)
    | EvDelete n k \<Rightarrow> False | EvFetch rs \<Rightarrow> False | EvWaitUntil t \<Rightarrow> False | _ \<Rightarrow> True)"

lemma emits_handleRoutingTablePush:
  "emits (caches_only (\<lambda>t. body_of req = Some t \<and> table_signed cr env t)) (handleRoutingTablePush cr env req)"
proof (cases "body_of req")
  case None
  then show ?thesis by (simp add: handleRoutingTablePush_def)
next
  case (Some body)
  show ?thesis
    by (auto simp: handleRoutingTablePush_def Some Let_def emit_simps caches_only_def table_signed_def
        str_test_Some split: option.splits json.splits list.splits)
qed

lemma run_handleRoutingTablePush:
  assumes iso: "isolated sv" and body: "body_of req = Some body" and signed: "table_signed cr env body"
    and hex: "hex_re 128 128 (js_string (js_prop body ''signature''))"
    and urls: "js_prop (rest_without ''signature'' body) ''shard_urls'' = Some (JArr us)" "us \<noteq> []"
    and exp: "js_number (js_prop (rest_without ''signature'' body) ''expires_at'') = Some e" "sv_clock sv s \<le> e"
  shows "fst (run sv (handleRoutingTablePush cr env req) s) =
      Done (json (mk_obj [(''cached'', Some (JBool True)),
                          (''version'', js_prop (rest_without ''signature'' body) ''version'')]) 200 [])"
    and "sv_view sv (snd (run sv (handleRoutingTablePush cr env req) s)) MAILBOX_KV =
      (sv_view sv s MAILBOX_KV)(ROUTING_TABLE_KV_KEY \<mapsto> json_stringify body)"
proof -
  obtain sig where sig: "js_prop body ''signature'' = Some (JStr sig)"
    "verify_with cr (ROUTER_SIGNING_PUBLIC env) (json_stringify (rest_without ''signature'' body)) sig"
    using signed by (auto simp: table_signed_def)
  have ne: "sig \<noteq> [] \<and> hex_re 128 128 sig" using hex sig(1) by (auto simp: js_string_def hex_re_def)
  obtain u us' where us: "us = u # us'" using urls(2) by (cases us) auto
  have r: "run sv (handleRoutingTablePush cr env req) s =
      (Done (json (mk_obj [(''cached'', Some (JBool True)),
                          (''version'', js_prop (rest_without ''signature'' body) ''version'')]) 200 []),
       snd (sv_put sv (snd (sv_now sv s)) MAILBOX_KV ROUTING_TABLE_KV_KEY (json_stringify body) None))"
    using iso sig ne urls(1) exp us
    by (simp add: handleRoutingTablePush_def body Let_def run_simps)
  show "fst (run sv (handleRoutingTablePush cr env req) s) =
      Done (json (mk_obj [(''cached'', Some (JBool True)),
                          (''version'', js_prop (rest_without ''signature'' body) ''version'')]) 200 [])"
    by (simp add: r)
  show "sv_view sv (snd (run sv (handleRoutingTablePush cr env req) s)) MAILBOX_KV =
      (sv_view sv s MAILBOX_KV)(ROUTING_TABLE_KV_KEY \<mapsto> json_stringify body)"
    using iso by (simp add: r view_simps)
qed

text \<open>What the cache holds.\<close>

definition cached_table :: "(string \<Rightarrow> string option) \<Rightarrow> json" where
  "cached_table kv =
     (case present (kv ROUTING_TABLE_KV_KEY) of
        None \<Rightarrow> JNull
      | Some text \<Rightarrow> (case json_parse text of Some v \<Rightarrow> v | None \<Rightarrow> JNull))"

lemma run_getCachedRoutingTable:
  "isolated sv \<Longrightarrow> run sv (getCachedRoutingTable k) s =
     run sv (k (cached_table (sv_view sv s MAILBOX_KV))) (snd (sv_get sv s MAILBOX_KV ROUTING_TABLE_KV_KEY))"
  by (simp add: getCachedRoutingTable_def run_simps cached_table_def)

lemma cached_table_put [simp]: "wf_json t \<Longrightarrow> cached_table (kv(ROUTING_TABLE_KV_KEY \<mapsto> json_stringify t)) = t"
  by (simp add: cached_table_def)

section \<open>The effect of an accepted push\<close>

definition has_id :: "string \<Rightarrow> json \<Rightarrow> bool" where
  "has_id i m \<longleftrightarrow> js_prop m ''id'' = Some (JStr i)"

definition insert_replica :: "string \<Rightarrow> json \<Rightarrow> int \<Rightarrow> mailbox \<Rightarrow> mailbox" where
  "insert_replica i entry now mb =
     (if \<exists>m\<in>set (mb_messages mb). has_id i m then mb else deposit entry now mb)"

lemma some_id_iff:
  "JNull \<notin> set ms \<Longrightarrow> some_id i ms = Inr (\<exists>m\<in>set ms. has_id i m)"
proof (induction ms)
  case (Cons m ms)
  then have "get_prop (Some m) ''id'' = Inr (js_prop m ''id'')"
    by (cases m) (auto simp: get_prop_def)
  with Cons show ?case by (auto simp: has_id_def)
qed simp

lemma insert_replica_again:
  "has_id i entry \<Longrightarrow> insert_replica i entry now' (insert_replica i entry now mb) = insert_replica i entry now mb"
  by (auto simp: insert_replica_def deposit_def)

definition replicate_answer :: "bool \<Rightarrow> response" where
  "replicate_answer dup =
     (if dup then json (JObj [(''replicated'', JBool True), (''deduped'', JBool True)]) 200 []
      else json (JObj [(''replicated'', JBool True)]) 200 [])"

lemma run_replicate_store:
  assumes iso: "isolated sv" and ttl: "ttl_ok (Some (MAILBOX_TTL_SECONDS cfg))"
    and st: "represents st mb" and nn: "JNull \<notin> set (mb_messages mb)" and wf: "wf_json (pq_entry p)"
  shows "fst (run sv (replicate_store cfg p st) s) =
      Done (replicate_answer (\<exists>m\<in>set (mb_messages mb). has_id (pq_entryId p) m))"
    and "(\<exists>m\<in>set (mb_messages mb). has_id (pq_entryId p) m) \<Longrightarrow>
      sv_view sv (snd (run sv (replicate_store cfg p st) s)) = sv_view sv s"
    and "\<not> (\<exists>m\<in>set (mb_messages mb). has_id (pq_entryId p) m) \<Longrightarrow>
      \<exists>st'. represents st' (deposit (pq_entry p) (sv_clock sv s) mb) \<and>
        sv_view sv (snd (run sv (replicate_store cfg p st) s)) = (sv_view sv s)(MAILBOX_KV :=
          (sv_view sv s MAILBOX_KV)(mailbox_key (pq_mailboxId p) \<mapsto> json_stringify st'))"
proof -
  let ?dup = "\<exists>m\<in>set (mb_messages mb). has_id (pq_entryId p) m"
  have mh: "messages_have_id (pq_entryId p) st = Inr ?dup"
    using st nn by (simp add: messages_have_id_def represents_props some_id_iff)
  let ?k = "\<lambda>st2. kvPut MAILBOX_KV (mailbox_key (pq_mailboxId p)) (json_stringify st2)
      (Some (MAILBOX_TTL_SECONDS cfg)) (Return (json (JObj [(''replicated'', JBool True)]) 200 []))"
  obtain st' s' where r: "run sv (attempt (push_message (pq_entry p) st) (\<lambda>s1. stamp_enqueued s1 ?k)) s =
        run sv (?k st') s'"
      "represents st' (deposit (pq_entry p) (sv_clock sv s) mb)" "sv_view sv s' = sv_view sv s"
    using run_push_and_stamp [OF iso st wf, of ?k s] by blast
  have run: "run sv (replicate_store cfg p st) s =
      (if ?dup then (Done (replicate_answer True), s) else run sv (?k st') s')"
    using r(1) by (simp add: replicate_store_def mh replicate_answer_def)
  show "fst (run sv (replicate_store cfg p st) s) = Done (replicate_answer ?dup)"
    using iso ttl by (auto simp: run run_simps replicate_answer_def)
  show "?dup \<Longrightarrow> sv_view sv (snd (run sv (replicate_store cfg p st) s)) = sv_view sv s"
    by (simp add: run)
  show "\<not> ?dup \<Longrightarrow> \<exists>st'. represents st' (deposit (pq_entry p) (sv_clock sv s) mb) \<and>
        sv_view sv (snd (run sv (replicate_store cfg p st) s)) = (sv_view sv s)(MAILBOX_KV :=
          (sv_view sv s MAILBOX_KV)(mailbox_key (pq_mailboxId p) \<mapsto> json_stringify st'))"
    using iso ttl r(2,3) by (auto simp: run run_simps view_simps)
qed

text \<open>A mailbox that exists, and one the shard has never seen.\<close>

definition no_nulls :: "mailbox \<Rightarrow> bool" where
  "no_nulls mb \<longleftrightarrow> JNull \<notin> set (mb_messages mb)"

lemma run_replicate_apply:
  assumes iso: "isolated sv" and ttl: "ttl_ok (Some (MAILBOX_TTL_SECONDS cfg))"
    and at: "mailbox_at (sv_view sv s MAILBOX_KV) (pq_mailboxId p) mb" and nn: "no_nulls mb"
    and wf: "wf_json (pq_entry p)"
  shows "fst (run sv (replicate_apply cfg p) s) =
      Done (replicate_answer (\<exists>m\<in>set (mb_messages mb). has_id (pq_entryId p) m))"
    and "mailbox_at (sv_view sv (snd (run sv (replicate_apply cfg p) s)) MAILBOX_KV) (pq_mailboxId p)
      (insert_replica (pq_entryId p) (pq_entry p) (sv_clock sv s) mb)"
proof -
  obtain st where st: "sv_view sv s MAILBOX_KV (mailbox_key (pq_mailboxId p)) = Some (json_stringify st)"
    "represents st mb" "json_parse (json_stringify st) = Some st"
    using mailbox_at_load [OF at] .
  define s1 where "s1 = snd (sv_get sv s MAILBOX_KV (mailbox_key (pq_mailboxId p)))"
  have v1: "sv_view sv s1 = sv_view sv s" "sv_clock sv s1 = sv_clock sv s"
    using iso by (simp_all add: s1_def view_simps)
  have r: "run sv (replicate_apply cfg p) s = run sv (replicate_store cfg p st) s1"
    using iso st by (simp add: replicate_apply_def run_simps s1_def)
  note store = run_replicate_store [OF iso ttl st(2) nn [unfolded no_nulls_def] wf, where s = s1]
  show "fst (run sv (replicate_apply cfg p) s) =
      Done (replicate_answer (\<exists>m\<in>set (mb_messages mb). has_id (pq_entryId p) m))"
    using store(1) by (simp add: r)
  show "mailbox_at (sv_view sv (snd (run sv (replicate_apply cfg p) s)) MAILBOX_KV) (pq_mailboxId p)
      (insert_replica (pq_entryId p) (pq_entry p) (sv_clock sv s) mb)"
  proof (cases "\<exists>m\<in>set (mb_messages mb). has_id (pq_entryId p) m")
    case True
    with store(2) v1 at show ?thesis by (simp add: r insert_replica_def)
  next
    case False
    with store(3) v1 show ?thesis by (auto simp: r insert_replica_def mailbox_at_def)
  qed
qed

lemma run_replicate_apply_unknown:
  assumes iso: "isolated sv" and ttl: "ttl_ok (Some (MAILBOX_TTL_SECONDS cfg))"
    and none: "present (sv_view sv s MAILBOX_KV (mailbox_key (pq_mailboxId p))) = None"
    and wf: "wf_json (pq_entry p)" and urls: "wf_json (or_val (pq_replicas p) (JArr []))"
  shows "fst (run sv (replicate_apply cfg p) s) = Done (replicate_answer False)"
    and "mailbox_at (sv_view sv (snd (run sv (replicate_apply cfg p) s)) MAILBOX_KV) (pq_mailboxId p)
      \<lparr> mb_hash = [], mb_messages = [pq_entry p], mb_created = sv_clock sv s,
        mb_enqueued = Some (sv_clock sv s), mb_replicas = or_val (pq_replicas p) (JArr []) \<rparr>"
proof -
  let ?mb = "\<lparr> mb_hash = [], mb_messages = [], mb_created = sv_clock sv s, mb_enqueued = None, mb_replicas = or_val (pq_replicas p) (JArr []) \<rparr>"
  have st: "represents (shell_record p (sv_clock sv s)) ?mb"
    using urls by (simp add: represents_def shell_record_def enqueued_json_def obj_canonical_def
        key_precedes_def is_digit_def)
  define s1 where "s1 = snd (sv_now sv (snd (sv_get sv s MAILBOX_KV (mailbox_key (pq_mailboxId p)))))"
  have v1: "sv_view sv s1 = sv_view sv s" "sv_clock sv s1 = sv_clock sv s"
    using iso by (simp_all add: s1_def view_simps)
  have r: "run sv (replicate_apply cfg p) s = run sv (replicate_store cfg p (shell_record p (sv_clock sv s))) s1"
    using iso none by (simp add: replicate_apply_def run_simps view_simps s1_def)
  note store = run_replicate_store [OF iso ttl st _ wf, where s = s1]
  show "fst (run sv (replicate_apply cfg p) s) = Done (replicate_answer False)"
    using store(1) by (simp add: r)
  show "mailbox_at (sv_view sv (snd (run sv (replicate_apply cfg p) s)) MAILBOX_KV) (pq_mailboxId p)
      \<lparr> mb_hash = [], mb_messages = [pq_entry p], mb_created = sv_clock sv s,
        mb_enqueued = Some (sv_clock sv s), mb_replicas = or_val (pq_replicas p) (JArr []) \<rparr>"
    using store(3) v1 by (auto simp: r deposit_def mailbox_at_def)
qed

lemma run_handleReplicate:
  assumes iso: "isolated sv" and body: "body_of req = Some body" and p: "replicate_request body = Inr p"
    and origin: "pq_origin p = Some (JStr pk)"
    and skew: "\<not> outside_skew (sv_clock sv s) (js_number (pq_timestamp p)) (Some 60000)"
    and adm: "under_limit (sv_view sv s MAILBOX_KV) (sv_clock sv s) (''replicate-origin:'' @ lower pk)
        (MAX_REPLICATES_PER_ORIGIN cfg) 60"
    and known: "known_shard (cached_table (sv_view sv s MAILBOX_KV)) (lower pk) = Inr kn"
  shows "\<exists>s'. same_records sv s s' \<and> run sv (handleReplicate cr cfg req) s =
    run sv (if \<not> kn then Return (err OriginUnknown 401 [])
            else if \<not> verify_jsval cr pk (replicate_message (rest_without ''signature'' body)) (pq_signature p)
            then Return (err ReplicateSignatureFailed 401 [])
            else replicate_apply cfg p) s'"
proof -
  let ?b = "''replicate-origin:'' @ lower pk" and ?l = "MAX_REPLICATES_PER_ORIGIN cfg"
  define s1 where "s1 = snd (sv_now sv s)"
  have r1: "same_records sv s s1" unfolding s1_def by (rule same_records_now [OF iso])
  define s2 where "s2 = rl_next sv s1 MAILBOX_KV ?b ?l 60"
  have r2: "same_records sv s s2" unfolding s2_def by (rule same_records_trans [OF r1 same_records_rl]) (use iso in simp_all)
  define s3 where "s3 = snd (sv_get sv s2 MAILBOX_KV ROUTING_TABLE_KV_KEY)"
  have r3: "same_records sv s s3" unfolding s3_def by (rule same_records_trans [OF r2 same_records_get]) (rule iso)
  have "\<not> mark_key ROUTING_TABLE_KV_KEY" by (simp add: mark_key_def ROUTING_TABLE_KV_KEY_def)
  then have t2: "cached_table (sv_view sv s2 MAILBOX_KV) = cached_table (sv_view sv s MAILBOX_KV)"
    using same_recordsD(1) [OF r2] by (simp add: cached_table_def)
  have ok: "rl_ok sv s1 MAILBOX_KV ?b ?l 60"
    using adm iso by (simp add: rl_ok_under_limit s1_def view_simps)
  have "run sv (handleReplicate cr cfg req) s =
    run sv (if \<not> kn then Return (err OriginUnknown 401 [])
            else if \<not> verify_jsval cr pk (replicate_message (rest_without ''signature'' body)) (pq_signature p)
            then Return (err ReplicateSignatureFailed 401 [])
            else replicate_apply cfg p) s3"
    using iso skew ok known
    by (simp add: handleReplicate_def body p origin js_lower_def js_string_def run_Now run_rateLimit s1_def [symmetric]
        s2_def [symmetric] run_getCachedRoutingTable t2 s3_def [symmetric] Let_def del: append_Cons append_Nil)
  with r3 show ?thesis by blast
qed

section \<open>What one shard sends, another accepts\<close>

definition sent_body ::
  "crypto \<Rightarrow> byte list \<Rightarrow> byte list \<Rightarrow> string \<Rightarrow> json \<Rightarrow> json list \<Rightarrow> string \<Rightarrow> json" where
  "sent_body cr pub priv mailboxId entry urls timestamp =
     (let payload = replicate_payload mailboxId entry urls (Some (JStr (bytesToHex pub))) timestamp
      in JObj (payload @ [(''signature'', JStr (signWithShardKey cr priv (replicate_message (JObj payload))))]))"

lemma replication_sends:
  assumes "isolated sv" and "identity_stored (sv_view sv s MAILBOX_KV) pub priv" and "ed_import cr priv"
    and "siblings env urls \<noteq> []"
  shows "EvFetch (replicate_requests (siblings env urls)
      (sent_body cr pub priv mid entry urls (str_of_int (sv_clock sv s))))
      \<in> set (trace sv (replicateToSiblings cr env mid entry urls) s)"
  using assms
  by (auto simp: replicateToSiblings_def trace_simps view_simps Let_def sent_body_def intro!: trace_catch_with)

lemma digits_re_clock: "0 \<le> n \<Longrightarrow> digits_re (str_of_int n)"
  by (simp add: digits_re_def str_of_int_def str_of_nat_digits)

lemma wf_sent_body:
  "wf_json entry \<Longrightarrow> list_all wf_json urls \<Longrightarrow> wf_json (sent_body cr pub priv mid entry urls ts)"
  by (simp add: sent_body_def replicate_payload_def obj_canonical_def key_precedes_def is_digit_def list_all_iff)

lemma sent_body_unsigned:
  "rest_without ''signature'' (sent_body cr pub priv mid entry urls ts) =
     JObj (replicate_payload mid entry urls (Some (JStr (bytesToHex pub))) ts)"
  by (simp add: sent_body_def replicate_payload_def)

lemma sent_body_request:
  assumes "hex_re 16 128 mid" and "length pub = 32" and "\<And>m. length (ed_sign cr priv m) = 64"
    and "entry = JObj e" "map_of e ''id'' = Some (JStr i)" "map_of e ''message'' = Some (JStr m)"
    and "0 \<le> now"
  shows "\<exists>p. replicate_request (sent_body cr pub priv mid entry urls (str_of_int now)) = Inr p \<and>
    pq_mailboxId p = mid \<and> pq_entry p = entry \<and> pq_entryId p = i \<and>
    pq_origin p = Some (JStr (bytesToHex pub)) \<and> pq_timestamp p = Some (JStr (str_of_int now)) \<and>
    pq_signature p = Some (JStr (signWithShardKey cr priv
      (replicate_message (JObj (replicate_payload mid entry urls (Some (JStr (bytesToHex pub))) (str_of_int now)))))) \<and>
    pq_replicas p = Some (JArr urls)"
proof -
  have h64: "hex_re 64 64 (bytesToHex pub)" "bytesToHex pub \<noteq> []"
    using hex_re_bytesToHex [of pub] assms(2) by (auto simp: hex_re_def)
  have h128: "hex_re 128 128 (signWithShardKey cr priv x)" "signWithShardKey cr priv x \<noteq> []" for x
    using hex_re_bytesToHex [of "ed_sign cr priv (utf8 x)"] assms(3) [of "utf8 x"]
    by (auto simp: hex_re_def signWithShardKey_def)
  have "mid \<noteq> []" using assms(1) by (auto simp: hex_re_def)
  then show ?thesis
    using assms h64 h128 digits_re_clock [OF assms(7)]
    by (simp add: replicate_request_def sent_body_def replicate_payload_def coerce_test_def js_string_def)
qed

lemma sent_body_verifies:
  assumes "key_pair cr pub priv"
  shows "verify_jsval cr (bytesToHex pub)
    (replicate_message (rest_without ''signature'' (sent_body cr pub priv mid entry urls ts)))
    (Some (JStr (signWithShardKey cr priv
      (replicate_message (JObj (replicate_payload mid entry urls (Some (JStr (bytesToHex pub))) ts))))))"
  by (simp add: sent_body_unsigned verify_jsval_def verify_own_signature [OF assms])

end
