(* ===== verification/ShardWorker.thy ===== *)
theory ShardWorker
  imports Replication
begin

text \<open>
  The shard's entry points: the settings, \<open>GET /health\<close>, the dispatch of \<open>fetch\<close> with its
  outer \<open>try/catch\<close>, the cron entry and the background tasks.
\<close>

section \<open>Settings\<close>

definition setting :: "env \<Rightarrow> string \<Rightarrow> number \<Rightarrow> number" where
  "setting env name dflt = (case limit_var env name of Some s \<Rightarrow> number_of_string s | None \<Rightarrow> dflt)"

definition shard_cfg :: "env \<Rightarrow> cfg" where
  "shard_cfg env =
     \<lparr> MAX_MESSAGES = setting env ''MAX_MESSAGES'' (MAX_MESSAGES DEFAULTS),
       MAX_MSG_BYTES = setting env ''MAX_MSG_BYTES'' (MAX_MSG_BYTES DEFAULTS),
       TTL_SECONDS = setting env ''TTL_SECONDS'' (TTL_SECONDS DEFAULTS),
       MAILBOX_TTL_SECONDS = setting env ''MAILBOX_TTL_SECONDS'' (MAILBOX_TTL_SECONDS DEFAULTS),
       MAX_CLOCK_SKEW = setting env ''MAX_CLOCK_SKEW'' (MAX_CLOCK_SKEW DEFAULTS),
       MAX_SENDS_PER_SENDER = setting env ''MAX_SENDS_PER_SENDER'' (MAX_SENDS_PER_SENDER DEFAULTS),
       MAX_SENDS_PER_TARGET = setting env ''MAX_SENDS_PER_TARGET'' (MAX_SENDS_PER_TARGET DEFAULTS),
       MAX_SENDS_PER_IP = setting env ''MAX_SENDS_PER_IP'' (MAX_SENDS_PER_IP DEFAULTS),
       MAX_CREATES_PER_IP = setting env ''MAX_CREATES_PER_IP'' (MAX_CREATES_PER_IP DEFAULTS),
       MAX_REPLICATES_PER_ORIGIN = setting env ''MAX_REPLICATES_PER_ORIGIN'' (MAX_REPLICATES_PER_ORIGIN DEFAULTS) \<rparr>"

section \<open>GET /health\<close>

definition handleHealth :: "env \<Rightarrow> request \<Rightarrow> response prog" where
  "handleHealth env req =
     (if \<not> bearer_ok constantTimeEqual env req then Return unauthorized
      else catch_with (\<lambda>e. Return (err (KvUnreachable (error_message e)) 503 []))
        (kvGet MAILBOX_KV ''__health_check__'' (\<lambda>_.
         Now (\<lambda>now. Return (json (JObj [(''status'', JStr ''ok''), (''time'', JNum now)]) 200 [])))))"

section \<open>Dispatch\<close>

definition options_response :: response where
  "options_response = \<lparr> resp_status = 204, resp_headers = CORS_HEADERS, resp_body = NoBody \<rparr>"

definition not_found_response :: response where
  "not_found_response = \<lparr> resp_status = 404, resp_headers = CORS_HEADERS, resp_body = TextBody ''Not Found'' \<rparr>"

definition shard_route :: "crypto \<Rightarrow> env \<Rightarrow> cfg \<Rightarrow> request \<Rightarrow> response prog" where
  "shard_route cr env cfg req =
     (let at = (\<lambda>path m. req_path req = path \<and> req_method req = m) in
      if at ''/health'' ''GET'' then handleHealth env req
      else if at ''/server_hello'' ''POST'' then handleServerHello cr req
      else if at ''/create'' ''POST'' then handleCreate cr env cfg req
      else if at ''/exists'' ''GET'' then handleExists req
      else if at ''/send'' ''POST'' then handleSend cr cfg req
      else if at ''/read'' ''GET'' then handleRead cr cfg req
      else if at ''/internal/routing_table'' ''POST'' then handleRoutingTablePush cr env req
      else if at ''/internal/replicate'' ''POST'' then handleReplicate cr cfg req
      else if at ''/routing_table.json'' ''GET'' then handleRoutingTableServe
      else if at ''/admin/shard_info'' ''GET'' then handleAdminShardInfo env req
      else if at ''/admin/register'' ''POST'' then handleAdminRegister cr env req
      else if at ''/admin/rotate_key'' ''POST'' then handleAdminRotateKey cr env req
      else Return not_found_response)"

definition shard_fetch :: "crypto \<Rightarrow> env \<Rightarrow> request \<Rightarrow> response prog" where
  "shard_fetch cr env req =
     (if req_method req = ''OPTIONS'' then Return options_response
      else if \<not> is_set (ROUTER_SIGNING_PUBLIC env)
      then Log ''ROUTER_SIGNING_PUBLIC is not set'' (Return (err Misconfigured 500 []))
      else if \<not> has_MAILBOX_KV env
      then Log ''MAILBOX_KV binding is missing or misconfigured'' (Return (err MailboxKvMissing 500 []))
      else WaitUntil EnsureSelfRegistered
        (catch_with (\<lambda>e. Log (''Unhandled error: '' @ error_message e)
             (Return (err (InternalError (error_message e)) 500 [])))
           (shard_route cr env (shard_cfg env) req)))"

definition shard_scheduled :: "unit prog" where
  "shard_scheduled = WaitUntil EnsureSelfRegistered (Return ())"

definition shard_task :: "crypto \<Rightarrow> env \<Rightarrow> task \<Rightarrow> unit prog" where
  "shard_task cr env t =
     (case t of
        EnsureSelfRegistered \<Rightarrow> ensureSelfRegistered cr env
      | ReplicateToSiblings mailboxId entry urls \<Rightarrow> replicateToSiblings cr env mailboxId entry urls)"

section \<open>Every request is answered\<close>

lemma run_catch_total:
  assumes "\<And>e s. \<exists>r s'. run sv (h e) s = (Done r, s')"
  shows "\<exists>r s'. run sv (catch_with h p) s = (Done r, s')"
  using assms by (auto simp: run_catch_with split: prod.splits outcome.splits)

lemma shard_fetch_answers: "\<exists>r s'. run sv (shard_fetch cr env req) s = (Done r, s')"
proof -
  have "\<exists>r s'. run sv (catch_with (\<lambda>e. Log (''Unhandled error: '' @ error_message e)
             (Return (err (InternalError (error_message e)) 500 [])))
           (shard_route cr env (shard_cfg env) req)) s = (Done r, s')" for s
    by (rule run_catch_total) simp
  then show ?thesis by (simp add: shard_fetch_def)
qed

lemma shard_task_quiet: "\<exists>s'. run sv (replicateToSiblings cr env m e us) s = (Done (), s')"
proof -
  have "\<exists>r s'. run sv (catch_with (\<lambda>e. Log (''replicateToSiblings error: '' @ error_message e) (Return ())) p) s
      = (Done r, s')" for p :: "unit prog" and s
    by (rule run_catch_total) simp
  then show ?thesis by (simp add: replicateToSiblings_def)
qed

end
