(* ===== verification/MeshProtocol.thy ===== *)
theory MeshProtocol
  imports RouterWorker ShardWorker
begin

text \<open>
  The messages that cross between the components, each followed from the code that builds it
  to the code that checks it: the capability a Router mints and a shard accepts, the
  registration and the rotation a shard sends and the Router applies, the routing table the
  Router signs and a shard caches, and the replica a shard sends and its sibling stores.
\<close>

section \<open>Keys and signatures on the wire\<close>

text \<open>Ed25519 and SHA-256 have fixed sizes.\<close>

definition standard_sizes :: "crypto \<Rightarrow> bool" where
  "standard_sizes cr \<longleftrightarrow>
     (\<forall>m. length (sha256 cr m) = 32) \<and> (\<forall>k m. length (hmac cr k m) = 32) \<and>
     (\<forall>k m. length (ed_sign cr k m) = 64)"

lemma hex_64:
  assumes "length bs = 32"
  shows "hex_re 64 64 (bytesToHex bs)" "hex_re 16 128 (bytesToHex bs)" "bytesToHex bs \<noteq> []"
  using hex_re_bytesToHex [of bs] assms by (auto simp: hex_re_def)

lemma hex_signature:
  assumes "standard_sizes cr"
  shows "hex_re 128 128 (signWithShardKey cr priv m)" "signWithShardKey cr priv m \<noteq> []"
proof -
  have "length (ed_sign cr priv (utf8 m)) = 64" using assms by (simp add: standard_sizes_def)
  then show "hex_re 128 128 (signWithShardKey cr priv m)" "signWithShardKey cr priv m \<noteq> []"
    using hex_re_bytesToHex [of "ed_sign cr priv (utf8 m)"] by (auto simp: signWithShardKey_def)
qed

lemma sha256Hex_hex:
  assumes "standard_sizes cr"
  shows "hex_re 64 64 (sha256Hex cr m)" "sha256Hex cr m \<noteq> []" "lower (sha256Hex cr m) = sha256Hex cr m"
  using hex_64 [of "sha256 cr (utf8 m)"] assms by (auto simp: sha256Hex_def standard_sizes_def)

lemma hmacHex_hex:
  assumes "standard_sizes cr"
  shows "hex_re 16 128 (hmacHex cr m k)" "hmacHex cr m k \<noteq> []" "lower (hmacHex cr m k) = hmacHex cr m k"
  using hex_64 [of "hmac cr (utf8 k) (utf8 m)"] assms by (auto simp: hmacHex_def standard_sizes_def)

lemma lower_eq_Nil [simp]: "lower s = [] \<longleftrightarrow> s = []"
  by (simp add: lower_def)

lemma length_utf8_hex: "list_all is_hex_char s \<Longrightarrow> length (utf8 s) = length s"
  by (induction s) (auto simp: utf8_char_def is_hex_char_def Let_def)

text \<open>A read secret opens a mailbox exactly when it has the digest that was stored.\<close>

lemma secret_opens:
  assumes "standard_sizes cr"
  shows "read_secret_ok cr other (Some (JStr (sha256Hex cr secret))) \<longleftrightarrow> sha256Hex cr other = sha256Hex cr secret"
  using assms sha256Hex_hex(1) [OF assms, of secret]
  by (subst read_secret_ok_iff) (auto simp: standard_sizes_def length_utf8_hex hex_re_def)

section \<open>The capability: minted by \<open>/register\<close>, accepted by \<open>/create\<close>\<close>

definition minted_id :: "crypto \<Rightarrow> env \<Rightarrow> string \<Rightarrow> string" where
  "minted_id cr env pk = hmacHex cr (lower pk) (var_text (SERVER_SECRET env))"

lemma minted_capability:
  assumes sz: "standard_sizes cr" and pk: "hex_re 64 64 pk" and key: "router_key cr env pub priv"
    and trust: "ROUTER_SIGNING_PUBLIC env' = Some (bytesToHex pub)" and nonce: "nonce \<noteq> []"
    and now: "0 \<le> now" and fresh: "now' \<le> now + CAPABILITY_TTL_SECONDS * 1000"
  shows "\<exists>c. create_request (minted_body cr env priv pk replicas secret nonce now) = Inr c \<and>
    cap_accepted cr env' now' c \<and> cq_v2 c \<and> cq_clientPubkey c = Some (JStr (lower pk)) \<and>
    cq_mailboxId c = minted_id cr env pk \<and> cq_readSecretHash c = sha256Hex cr secret \<and>
    cq_safeReplicas c = safe_replicas (Some (arr_json replicas))"
proof -
  have pk': "pk \<noteq> []" using pk by (auto simp: hex_re_def)
  have kp: "key_pair cr pub priv" using key by (simp add: router_key_def)
  have exp: "now + CAPABILITY_TTL_SECONDS * 1000 \<noteq> 0" using now by (simp add: CAPABILITY_TTL_SECONDS_def)
  show ?thesis
    using hmacHex_hex [OF sz, of "lower pk"] sha256Hex_hex [OF sz, of secret] hex_signature [OF sz]
      pk pk' nonce exp fresh
    by (simp add: minted_body_def create_body_def create_request_def minted_id_def Let_def coerce_test_def
        js_string_def cap_accepted_def trust verify_with_def verify_own_signature [OF kp] num_gt_def)
qed

lemma wf_minted_body:
  "list_all (\<lambda>u. u = None \<or> (\<exists>j. u = Some j \<and> wf_json j)) replicas \<Longrightarrow>
     wf_json (minted_body cr env priv pk replicas secret nonce now)"
  by (auto simp: minted_body_def create_body_def Let_def arr_json_def obj_canonical_def key_precedes_def
      is_digit_def list_all_iff split: option.splits)

text \<open>
  The whole way of a new mailbox: the request the Router sends to a shard creates it there
  under the secret the Router returned to the client.
\<close>

lemma minted_mailbox_created:
  assumes iso: "isolated sv" and sz: "standard_sizes cr" and pk: "hex_re 64 64 pk"
    and key: "router_key cr env pub priv" and trust: "ROUTER_SIGNING_PUBLIC env' = Some (bytesToHex pub)"
    and nonce: "nonce \<noteq> []" and now: "0 \<le> now" and fresh: "sv_clock sv s \<le> now + CAPABILITY_TTL_SECONDS * 1000"
    and body: "body_of req = Some (minted_body cr env priv pk replicas secret nonce now)"
    and adm: "\<not> create_limited (sv_view sv s MAILBOX_KV) (sv_clock sv s) cfg req"
    and ttl: "ttl_ok (Some (MAILBOX_TTL_SECONDS cfg))"
    and none: "present (sv_view sv s MAILBOX_KV (mailbox_key (minted_id cr env pk))) = None"
  shows "fst (run sv (handleCreate cr env' cfg req) s) = Done (create_response (minted_id cr env pk) cfg True)"
    and "mailbox_at (sv_view sv (snd (run sv (handleCreate cr env' cfg req) s)) MAILBOX_KV) (minted_id cr env pk)
      \<lparr> mb_hash = sha256Hex cr secret, mb_messages = [], mb_created = sv_clock sv s, mb_enqueued = None,
        mb_replicas = json_strs (safe_replicas (Some (arr_json replicas))) \<rparr>"
proof -
  obtain c where c: "create_request (minted_body cr env priv pk replicas secret nonce now) = Inr c"
      "cap_accepted cr env' (sv_clock sv s) c" "cq_v2 c" "cq_clientPubkey c = Some (JStr (lower pk))"
      "cq_mailboxId c = minted_id cr env pk" "cq_readSecretHash c = sha256Hex cr secret"
      "cq_safeReplicas c = safe_replicas (Some (arr_json replicas))"
    using minted_capability [OF sz pk key trust nonce now fresh] by blast
  obtain s1 where s1: "run sv (handleCreate cr env' cfg req) s = run sv (create_store cfg c) s1" "same_records sv s s1"
    using run_create_admitted [OF iso body c(1) _ c(2) adm] c(4) by blast
  have "present (sv_view sv s1 MAILBOX_KV (mailbox_key (cq_mailboxId c))) = None"
    using same_recordsD(1) [OF s1(2)] none c(5) by simp
  note new = run_create_store_new [OF iso ttl _ this, of "lower pk"]
  show "fst (run sv (handleCreate cr env' cfg req) s) = Done (create_response (minted_id cr env pk) cfg True)"
    using new(1) c by (simp add: s1(1))
  show "mailbox_at (sv_view sv (snd (run sv (handleCreate cr env' cfg req) s)) MAILBOX_KV) (minted_id cr env pk)
      \<lparr> mb_hash = sha256Hex cr secret, mb_messages = [], mb_created = sv_clock sv s, mb_enqueued = None,
        mb_replicas = json_strs (safe_replicas (Some (arr_json replicas))) \<rparr>"
    using new(2) c same_recordsD(2) [OF s1(2)] sha256Hex_hex(3) [OF sz] by (simp add: s1(1) fresh_def)
qed

section \<open>Self-registration: sent by a shard, applied by the Router\<close>

lemma own_registration:
  assumes sz: "standard_sizes cr" and kp: "key_pair cr pub priv" and len: "length pub = 32"
    and url: "http_url_re url" "url \<noteq> []" and nonce: "nonce \<noteq> []" and sol: "solution \<noteq> []"
    and now: "0 \<le> now" and skew: "\<bar>now' - now\<bar> \<le> 60000"
  shows "\<exists>q. shard_request (own_register_body cr pub priv url (Some (JStr nonce)) solution (str_of_int now)) = Inr q \<and>
    sr_url q = url \<and> sr_nonce q = nonce \<and> sr_solution q = solution \<and>
    ownership_proved cr now' q (bytesToHex pub)"
  using hex_64 [OF len] hex_signature [OF sz] url nonce sol digits_re_clock [OF now] skew
  by (simp add: own_register_body_def register_body_def mk_obj_def shard_request_def coerce_test_def js_string_def
      ownership_proved_def outside_skew_def num_gt_def router_verifies_own [OF kp])

lemma solvePow_ok:
  assumes "solvePow cr nonce url d = Inr solution"
  shows "pow_ok cr nonce url d solution" "solution \<noteq> []"
  using assms by (auto simp: solvePow_def solvePow_loop_finds)

lemma self_registration_accepted:
  assumes iso: "isolated sv" and kv: "has_ROUTER_ADMIN_KV env"
    and sz: "standard_sizes cr" and kp: "key_pair cr pub priv" and len: "length pub = 32"
    and url: "http_url_re url" "url \<noteq> []" and nonce: "nonce \<noteq> []"
    and pow: "solvePow cr nonce url (Some d) = Inr solution"
    and now: "0 \<le> now" and skew: "\<bar>sv_clock sv s - now\<bar> \<le> 60000"
    and body: "body_of req = Some (own_register_body cr pub priv url (Some (JStr nonce)) solution (str_of_int now))"
    and pend: "challenge_pending (sv_view sv s ROUTER_ADMIN_KV) nonce (Some d) e" "sv_clock sv s \<le> e"
    and adm: "\<not> register_limited (sv_view sv s ROUTER_ADMIN_KV) (sv_clock sv s) req"
    and ok: "registry_ok (registered_of (sv_view sv s ROUTER_ADMIN_KV))"
    and room: "\<not> mesh_full env (registered_of (sv_view sv s ROUTER_ADMIN_KV)) url"
  defines "after \<equiv> after_registration url (bytesToHex pub) (sv_clock sv s) (registered_of (sv_view sv s ROUTER_ADMIN_KV))"
  shows "fst (run sv (handleRegisterShard cr env req) s) =
      Done (register_answer url after (next_version env (sv_view sv s ROUTER_ADMIN_KV)))"
    and "sv_view sv (snd (run sv (handleRegisterShard cr env req) s)) ROUTER_ADMIN_KV ''registered_shards'' =
      Some (json_stringify (JArr after))"
    and "sv_view sv (snd (run sv (handleRegisterShard cr env req) s)) ROUTER_ADMIN_KV (nonce_key nonce) = None"
proof -
  obtain q where q: "shard_request (own_register_body cr pub priv url (Some (JStr nonce)) solution (str_of_int now)) = Inr q"
      "sr_url q = url" "sr_nonce q = nonce" "sr_solution q = solution"
      "ownership_proved cr (sv_clock sv s) q (bytesToHex pub)"
    using own_registration [OF sz kp len url nonce solvePow_ok(2) [OF pow] now skew] by blast
  have "registers cr env (sv_view sv s ROUTER_ADMIN_KV) (sv_clock sv s) q (bytesToHex pub)"
    using pend q room solvePow_ok(1) [OF pow] by (auto simp: registers_def)
  note acc = handleRegisterShard_accepts [OF iso kv body q(1) adm ok this, unfolded q lower_bytesToHex, folded after_def]
  show "fst (run sv (handleRegisterShard cr env req) s) =
      Done (register_answer url after (next_version env (sv_view sv s ROUTER_ADMIN_KV)))"
    "sv_view sv (snd (run sv (handleRegisterShard cr env req) s)) ROUTER_ADMIN_KV ''registered_shards'' =
      Some (json_stringify (JArr after))"
    "sv_view sv (snd (run sv (handleRegisterShard cr env req) s)) ROUTER_ADMIN_KV (nonce_key nonce) = None"
    using acc by simp_all
qed

section \<open>Key rotation: sent by a shard, applied by the Router\<close>

lemma own_rotation:
  assumes sz: "standard_sizes cr" and old: "key_pair cr pub priv" "length pub = 32"
    and new: "key_pair cr pub' priv'" "length pub' = 32" and differ: "pub \<noteq> pub'"
    and url: "http_url_re url" "url \<noteq> []" and now: "0 \<le> now"
  shows "\<exists>q. rotate_request (rotation_bodies cr pub priv pub' priv' url (str_of_int now)) = Inr (Inr q) \<and>
    ro_url q = url \<and> ro_old q = Some (JStr (bytesToHex pub)) \<and> ro_new q = Some (JStr (bytesToHex pub')) \<and>
    ro_timestamp q = Some (JStr (str_of_int now)) \<and>
    rotation_authorized cr q (bytesToHex pub) (bytesToHex pub')"
  using hex_64 [OF old(2)] hex_64 [OF new(2)] hex_signature [OF sz] url differ digits_re_clock [OF now]
  by (simp add: rotation_bodies_def rotation_body_def mk_obj_def rotate_request_def Let_def coerce_test_def js_string_def
      js_lower_def rotation_authorized_def router_verifies_own [OF old(1)] router_verifies_own [OF new(1)])

lemma own_rotation_applied:
  assumes iso: "isolated sv" and kv: "has_ROUTER_ADMIN_KV env" and sz: "standard_sizes cr"
    and old: "key_pair cr pub priv" "length pub = 32"
    and new: "key_pair cr pub' priv'" "length pub' = 32" and differ: "pub \<noteq> pub'"
    and url: "http_url_re url" "url \<noteq> []" and now: "0 \<le> now" "\<bar>sv_clock sv s - now\<bar> \<le> 60000"
    and body: "body_of req = Some (rotation_bodies cr pub priv pub' priv' url (str_of_int now))"
    and ok: "registry_ok (registered_of (sv_view sv s ROUTER_ADMIN_KV))"
    and rec: "List.find (\<lambda>x. record_url x = url) (registered_of (sv_view sv s ROUTER_ADMIN_KV)) = Some r"
      "record_pubkey r = bytesToHex pub"
  shows "fst (run sv (handleRotateShardKey cr env req) s) =
      Done (rotate_answer url (bytesToHex pub') (next_version env (sv_view sv s ROUTER_ADMIN_KV)))"
    and "sv_view sv (snd (run sv (handleRotateShardKey cr env req) s)) ROUTER_ADMIN_KV =
      committed env (after_rotation url (bytesToHex pub) (bytesToHex pub') (sv_clock sv s)
        (registered_of (sv_view sv s ROUTER_ADMIN_KV))) (sv_view sv s ROUTER_ADMIN_KV)"
proof -
  obtain q where q: "rotate_request (rotation_bodies cr pub priv pub' priv' url (str_of_int now)) = Inr (Inr q)"
      "ro_url q = url" "ro_old q = Some (JStr (bytesToHex pub))" "ro_new q = Some (JStr (bytesToHex pub'))"
      "ro_timestamp q = Some (JStr (str_of_int now))" "rotation_authorized cr q (bytesToHex pub) (bytesToHex pub')"
    using own_rotation [OF sz old new differ url now(1)] by blast
  have run: "run sv (handleRotateShardKey cr env req) s = run sv (rotate_apply cr env q) (snd (sv_now sv s))"
    using iso kv now(2) by (simp add: handleRotateShardKey_def body q run_simps outside_skew_def num_gt_def)
  have v: "sv_view sv (snd (sv_now sv s)) = sv_view sv s" "sv_clock sv (snd (sv_now sv s)) = sv_clock sv s"
    using iso by (simp_all add: view_simps)
  note app = run_rotate_apply(1) [OF iso kv ok [folded v(1)] q(3,4), unfolded q(2) v lower_bytesToHex, OF rec(1) _ q(6)]
  show "fst (run sv (handleRotateShardKey cr env req) s) =
      Done (rotate_answer url (bytesToHex pub') (next_version env (sv_view sv s ROUTER_ADMIN_KV)))"
    "sv_view sv (snd (run sv (handleRotateShardKey cr env req) s)) ROUTER_ADMIN_KV =
      committed env (after_rotation url (bytesToHex pub) (bytesToHex pub') (sv_clock sv s)
        (registered_of (sv_view sv s ROUTER_ADMIN_KV))) (sv_view sv s ROUTER_ADMIN_KV)"
    using app rec(2) by (simp_all add: run)
qed

section \<open>The routing table: signed by the Router, cached by a shard\<close>

text \<open>\<open>getShardUrls\<close> on the state: the stored or configured list, then the registry.\<close>

definition base_urls :: "env \<Rightarrow> (string \<Rightarrow> string option) \<Rightarrow> json list \<Rightarrow> bool" where
  "base_urls env kv base \<longleftrightarrow>
     (case present (kv ''shard_urls'') of
        None \<Rightarrow> env_shard_urls env = JArr base
      | Some text \<Rightarrow> json_parse text = Some (JArr base) \<and> base \<noteq> [])"

definition mesh_urls :: "json list \<Rightarrow> json list \<Rightarrow> jsval list" where
  "mesh_urls base reg = merge_urls (map Some base) (map (\<lambda>r. Some (JStr (record_url r))) reg)"

lemma map_prop_url: "list_all record_ok xs \<Longrightarrow> map_prop ''url'' xs = Inr (map (\<lambda>r. Some (JStr (record_url r))) xs)"
  by (induction xs) (auto simp: record_okD)

lemma run_getShardUrls:
  assumes iso: "isolated sv" and kv: "has_ROUTER_ADMIN_KV env"
    and ok: "registry_ok (registered_of (sv_view sv s ROUTER_ADMIN_KV))"
    and base: "base_urls env (sv_view sv s ROUTER_ADMIN_KV) base"
  shows "\<exists>s'. run sv (getShardUrls env k) s =
      run sv (k (mesh_urls base (registered_of (sv_view sv s ROUTER_ADMIN_KV)))) s' \<and>
    sv_view sv s' = sv_view sv s \<and> sv_clock sv s' = sv_clock sv s"
proof -
  define s1 where "s1 = snd (sv_get sv s ROUTER_ADMIN_KV ''shard_urls'')"
  define s2 where "s2 = snd (sv_get sv s1 ROUTER_ADMIN_KV ''registered_shards'')"
  have v: "sv_view sv s1 = sv_view sv s" "sv_view sv s2 = sv_view sv s" "sv_clock sv s2 = sv_clock sv s"
    using iso by (simp_all add: s1_def s2_def view_simps)
  have all: "list_all record_ok (registered_of (sv_view sv s ROUTER_ADMIN_KV))"
    using ok by (simp add: registry_ok_def)
  have "run sv (getShardUrls env k) s =
      run sv (k (mesh_urls base (registered_of (sv_view sv s ROUTER_ADMIN_KV)))) s2"
    using iso kv base map_prop_url [OF all]
    by (auto simp: getShardUrls_def Let_def base_urls_def run_simps s1_def [symmetric] s2_def [symmetric] v
        mesh_urls_def js_parse_def split: option.splits list.splits)
  with v show ?thesis by blast
qed

text \<open>The pubkey map of the registry.\<close>

lemma pubkey_map_registry:
  "list_all record_ok xs \<Longrightarrow> \<exists>m'. pubkey_map xs m = Inr m' \<and>
     (\<forall>u. m' u = (if \<exists>x\<in>set xs. record_url x = u then m' u else m u)) \<and>
     (distinct (map record_url xs) \<longrightarrow> (\<forall>x\<in>set xs. m' (record_url x) = Some (JStr (record_pubkey x)))) \<and>
     (\<forall>u. m' u = m u \<or> (\<exists>p. m' u = Some (JStr p)))"
proof (induction xs arbitrary: m)
  case (Cons x xs)
  have x: "record_ok x" and xs: "list_all record_ok xs" using Cons.prems by auto
  let ?m = "m(record_url x := Some (JStr (record_pubkey x)))"
  obtain m' where m': "pubkey_map xs ?m = Inr m'"
      "\<forall>u. m' u = (if \<exists>x\<in>set xs. record_url x = u then m' u else ?m u)"
      "distinct (map record_url xs) \<longrightarrow> (\<forall>x\<in>set xs. m' (record_url x) = Some (JStr (record_pubkey x)))"
      "\<forall>u. m' u = ?m u \<or> (\<exists>p. m' u = Some (JStr p))"
    using Cons.IH [OF xs, of ?m] by blast
  have step: "pubkey_map (x # xs) m = Inr m'"
    using m'(1) by (simp add: record_okD [OF x] js_string_def)
  have own: "record_url x \<notin> record_url ` set xs \<longrightarrow> m' (record_url x) = Some (JStr (record_pubkey x))"
  proof
    assume "record_url x \<notin> record_url ` set xs"
    then have "\<not> (\<exists>y\<in>set xs. record_url y = record_url x)" by (metis imageI)
    then show "m' (record_url x) = Some (JStr (record_pubkey x))"
      using m'(2) [rule_format, of "record_url x"] by simp
  qed
  have outside: "m' u = m u" if "\<not> (\<exists>y\<in>set (x # xs). record_url y = u)" for u
    using m'(2) [rule_format, of u] that by auto
  show ?case
  proof (intro exI conjI allI)
    show "pubkey_map (x # xs) m = Inr m'" by (rule step)
    show "m' u = (if \<exists>y\<in>set (x # xs). record_url y = u then m' u else m u)" for u
      using outside [of u] by simp
    show "distinct (map record_url (x # xs)) \<longrightarrow> (\<forall>y\<in>set (x # xs). m' (record_url y) = Some (JStr (record_pubkey y)))"
      using m'(3) own by auto
    show "m' u = m u \<or> (\<exists>p. m' u = Some (JStr p))" for u
      using m'(4) [rule_format, of u] by (auto split: if_splits)
  qed
qed simp

text \<open>The table of a mesh, and how \<open>buildSignedRoutingTable\<close> arrives at it.\<close>

definition mesh_table ::
  "crypto \<Rightarrow> env \<Rightarrow> byte list \<Rightarrow> (string \<Rightarrow> string option) \<Rightarrow> json list \<Rightarrow> (string \<Rightarrow> jsval) \<Rightarrow> int \<Rightarrow> json" where
  "mesh_table cr env priv kv base pubkeys now =
     signed_table cr priv (table_fields env (mesh_urls base (registered_of kv)) (prior_of env kv) (version_of env kv) pubkeys now)"

lemma run_buildSignedRoutingTable:
  assumes iso: "isolated sv" and kv: "has_ROUTER_ADMIN_KV env" and key: "router_key cr env pub priv"
    and ok: "registry_ok (registered_of (sv_view sv s ROUTER_ADMIN_KV))"
    and base: "base_urls env (sv_view sv s ROUTER_ADMIN_KV) base"
    and keys: "pubkey_map (registered_of (sv_view sv s ROUTER_ADMIN_KV)) (\<lambda>_. None) = Inr m"
  shows "\<exists>s'. run sv (buildSignedRoutingTable cr env k) s =
      run sv (k (mesh_table cr env priv (sv_view sv s ROUTER_ADMIN_KV) base m (sv_clock sv s))) s' \<and>
    sv_view sv s' = sv_view sv s \<and> sv_clock sv s' = sv_clock sv s"
proof -
  let ?kv = "sv_view sv s ROUTER_ADMIN_KV"
  let ?cont = "\<lambda>shardUrls. getPriorShardCounts env (\<lambda>priorCounts. getRoutingTableVersion env (\<lambda>version.
     getShardPubkeys env (\<lambda>pubkeys. Now (\<lambda>now. signing_key cr env (\<lambda>key.
       k (signed_table cr key (table_fields env shardUrls priorCounts version pubkeys now)))))))"
  obtain s1 where s1: "run sv (buildSignedRoutingTable cr env k) s = run sv (?cont (mesh_urls base (registered_of ?kv))) s1"
      "sv_view sv s1 = sv_view sv s" "sv_clock sv s1 = sv_clock sv s"
    using run_getShardUrls [OF iso kv ok base, of ?cont] by (auto simp: buildSignedRoutingTable_def)
  define s2 where "s2 = snd (sv_get sv s1 ROUTER_ADMIN_KV ''prior_shard_counts'')"
  define s3 where "s3 = snd (sv_get sv s2 ROUTER_ADMIN_KV ''routing_table_version'')"
  define s4 where "s4 = snd (sv_get sv s3 ROUTER_ADMIN_KV ''registered_shards'')"
  define s5 where "s5 = snd (sv_now sv s4)"
  have v: "sv_view sv s2 = sv_view sv s" "sv_view sv s3 = sv_view sv s" "sv_view sv s4 = sv_view sv s"
      "sv_view sv s5 = sv_view sv s" "sv_clock sv s4 = sv_clock sv s" "sv_clock sv s5 = sv_clock sv s"
    using iso s1 by (simp_all add: s2_def s3_def s4_def s5_def view_simps)
  have "run sv (buildSignedRoutingTable cr env k) s = run sv (k (mesh_table cr env priv ?kv base m (sv_clock sv s))) s5"
    using iso kv keys v
    by (simp add: s1 run_simps getShardPubkeys_def mesh_table_def s2_def [symmetric] s3_def [symmetric]
        s4_def [symmetric] s5_def [symmetric] signing_key_configured [OF key])
  with v show ?thesis by blast
qed

lemma merge_urls_keeps: "set base \<subseteq> set (merge_urls base urls)"
proof (induction urls rule: rev_induct)
  case (snoc u us)
  then show ?case by (auto simp: merge_urls_def)
qed (simp add: merge_urls_def)

lemma merge_urls_adds: "Some (JStr u) \<in> set urls \<Longrightarrow> Some (JStr u) \<in> set (merge_urls base urls)"
proof (induction urls rule: rev_induct)
  case (snoc v us)
  then show ?case by (auto simp: merge_urls_def list_ex_iff same_value_def split: option.splits json.splits)
qed simp

lemma mesh_urls_registered: "r \<in> set reg \<Longrightarrow> Some (JStr (record_url r)) \<in> set (mesh_urls base reg)"
  unfolding mesh_urls_def by (rule merge_urls_adds) auto

text \<open>A shard with a new URL is appended to the list, so every older URL keeps its index.\<close>

lemma mesh_urls_new:
  assumes "JStr url \<notin> set base" and "\<not> (\<exists>s\<in>set reg. record_url s = url)" and "list_all record_ok reg"
  shows "mesh_urls base (after_registration url pk now reg) = mesh_urls base reg @ [Some (JStr url)]"
proof -
  have sub: "set (merge_urls us vs) \<subseteq> set us \<union> set vs" for us vs
    by (induction vs rule: rev_induct) (auto simp: merge_urls_def)
  have "Some (JStr url) \<notin> set (mesh_urls base reg)"
    using assms(1,2) sub [of "map Some base" "map (\<lambda>r. Some (JStr (record_url r))) reg"] by (auto simp: mesh_urls_def)
  then have "\<not> list_ex (same_value (Some (JStr url))) (mesh_urls base reg)"
    by (auto simp: list_ex_iff same_value_def)
  moreover have "after_registration url pk now reg = reg @ [new_shard url pk now]"
    using assms(2) by (simp add: after_registration_def registry_put_def)
  ultimately show ?thesis
    by (simp add: mesh_urls_def merge_urls_def record_ok_mk)
qed

text \<open>Every registered shard is a recognised origin in the table.\<close>

lemma find_shard_entries:
  assumes "\<forall>s\<in>set ss. \<exists>kvs. s = JObj kvs \<and> (map_of kvs ''pubkey'' = Some JNull \<or> (\<exists>p. map_of kvs ''pubkey'' = Some (JStr p)))"
  shows "find_shard origin ss =
    Inr (\<exists>s\<in>set ss. \<exists>p. js_prop s ''pubkey'' = Some (JStr p) \<and> p \<noteq> [] \<and> lower p = origin)"
  using assms by (induction ss) (auto simp: js_lower_def)

lemma table_recognises:
  assumes keys: "pubkey_map reg (\<lambda>_. None) = Inr m" and ok: "registry_ok reg" and r: "r \<in> set reg"
    and pk: "record_pubkey r \<noteq> []"
  shows "known_shard (signed_table cr key (table_fields env (mesh_urls base reg) prior v m now)) (lower (record_pubkey r)) = Inr True"
proof -
  let ?entries = "map (\<lambda>url. mk_obj [(''url'', url), (''pubkey'', Some (or_val (m (js_string url)) JNull))]) (mesh_urls base reg)"
  have m: "m (record_url r) = Some (JStr (record_pubkey r))" "\<forall>u. m u = None \<or> (\<exists>p. m u = Some (JStr p))"
    using pubkey_map_registry [of reg "\<lambda>_. None"] ok r keys by (auto simp: registry_ok_def)
  have "known_shard (signed_table cr key (table_fields env (mesh_urls base reg) prior v m now)) (lower (record_pubkey r)) =
      find_shard (lower (record_pubkey r)) ?entries"
    by (simp add: known_shard_def signed_table_def table_fields_def mk_obj_def table_shards_def)
  also have "\<dots> = Inr (\<exists>s\<in>set ?entries. \<exists>p. js_prop s ''pubkey'' = Some (JStr p) \<and> p \<noteq> [] \<and> lower p = lower (record_pubkey r))"
  proof (rule find_shard_entries, rule ballI)
    fix e assume "e \<in> set ?entries"
    then obtain url where "e = mk_obj [(''url'', url), (''pubkey'', Some (or_val (m (js_string url)) JNull))]" by auto
    then show "\<exists>kvs. e = JObj kvs \<and> (map_of kvs ''pubkey'' = Some JNull \<or> (\<exists>p. map_of kvs ''pubkey'' = Some (JStr p)))"
      using m(2) [rule_format, of "js_string url"]
      by (cases url) (auto simp: mk_obj_def or_val_def split: if_splits)
  qed
  also have "\<dots> = Inr True"
  proof -
    let ?e = "JObj [(''url'', JStr (record_url r)), (''pubkey'', JStr (record_pubkey r))]"
    let ?f = "\<lambda>url. mk_obj [(''url'', url), (''pubkey'', Some (or_val (m (js_string url)) JNull))]"
    have "?f (Some (JStr (record_url r))) \<in> set ?entries"
      unfolding set_map by (rule imageI) (rule mesh_urls_registered [OF r])
    moreover have "?f (Some (JStr (record_url r))) = ?e"
      using m(1) pk by (simp add: js_string_def mk_obj_def or_val_def)
    ultimately have "?e \<in> set ?entries" by simp
    moreover have "js_prop ?e ''pubkey'' = Some (JStr (record_pubkey r))" by simp
    ultimately show ?thesis using pk by blast
  qed
  finally show ?thesis .
qed

text \<open>The Router's own table passes the shard's checks, and its text parses back to it.\<close>

lemma mk_obj_Cons: "mk_obj ((k, Some v) # kvs) = (case mk_obj kvs of JObj r \<Rightarrow> JObj ((k, v) # r) | j \<Rightarrow> j)"
  by (simp add: mk_obj_def)

lemma wf_table_shards: "list_all (\<lambda>u. u = None \<or> (\<exists>j. u = Some j \<and> wf_json j)) urls \<Longrightarrow>
    (\<And>u. m u = None \<or> (\<exists>p. m u = Some (JStr p))) \<Longrightarrow> wf_json (table_shards urls m)"
proof (induction urls)
  case (Cons u us)
  have "wf_json (or_val (m (js_string u)) JNull)"
    using Cons.prems(2) [of "js_string u"] by (auto simp: or_val_def)
  then show ?case
    using Cons by (auto simp: table_shards_def mk_obj_def obj_canonical_def key_precedes_def is_digit_def)
qed (simp add: table_shards_def)

lemma wf_number [simp]: "wf_json (json_of_number n)"
  by (cases n) (simp_all add: json_of_number_def)

lemma wf_arr_json: "list_all (\<lambda>u. u = None \<or> (\<exists>j. u = Some j \<and> wf_json j)) urls \<Longrightarrow> wf_json (arr_json urls)"
  by (induction urls) (auto simp: arr_json_def)

lemma wf_signed_table:
  assumes "list_all (\<lambda>u. u = None \<or> (\<exists>j. u = Some j \<and> wf_json j)) urls" and "list_all wf_json prior"
    and "\<And>u. m u = None \<or> (\<exists>p. m u = Some (JStr p))" and "ROUTER_SIGNING_PUBLIC env \<noteq> None"
  shows "wf_json (signed_table cr key (table_fields env urls prior v m now))"
  using assms wf_table_shards [OF assms(1,3)] wf_arr_json [OF assms(1)]
  by (auto simp: signed_table_def table_fields_def mk_obj_def str_val_def obj_canonical_def key_precedes_def is_digit_def
      list_all_iff)

lemma wf_mesh_urls:
  assumes "list_all wf_json base" and "list_all record_ok reg"
  shows "list_all (\<lambda>u. u = None \<or> (\<exists>j. u = Some j \<and> wf_json j)) (mesh_urls base reg)"
proof -
  have sub: "set (merge_urls us vs) \<subseteq> set us \<union> set vs" for us vs
    by (induction vs rule: rev_induct) (auto simp: merge_urls_def)
  show ?thesis
    using assms(1) sub [of "map Some base" "map (\<lambda>r. Some (JStr (record_url r))) reg"]
    by (fastforce simp: mesh_urls_def list_all_iff)
qed

lemma router_table_cached:
  assumes iso: "isolated sv" and key: "router_key cr env pub priv" and sz: "standard_sizes cr"
    and trust: "ROUTER_SIGNING_PUBLIC env' = Some (bytesToHex pub)"
    and body: "body_of req = Some (signed_table cr priv (table_fields env urls prior v m now))"
    and urls: "urls \<noteq> []" and fresh: "sv_clock sv s \<le> now + ROUTING_TABLE_TTL_SECONDS * 1000"
  shows "fst (run sv (handleRoutingTablePush cr env' req) s) =
      Done (json (mk_obj [(''cached'', Some (JBool True)), (''version'', Some (json_of_number v))]) 200 [])"
    and "sv_view sv (snd (run sv (handleRoutingTablePush cr env' req) s)) MAILBOX_KV =
      (sv_view sv s MAILBOX_KV)(ROUTING_TABLE_KV_KEY \<mapsto>
        json_stringify (signed_table cr priv (table_fields env urls prior v m now)))"
proof -
  let ?t = "signed_table cr priv (table_fields env urls prior v m now)"
  let ?un = "mk_obj (table_fields env urls prior v m now)"
  obtain sig where sig: "js_prop ?t ''signature'' = Some (JStr sig)" "sig = signWithShardKey cr priv (json_stringify ?un)"
      "verifyEd25519Message cr (bytesToHex pub) (json_stringify ?un) sig"
    using table_signature [OF key] by blast
  have signed: "table_signed cr env' ?t"
    using sig(1,3) by (simp add: table_signed_def verify_with_def trust unsigned_table)
  have hex: "hex_re 128 128 (js_string (js_prop ?t ''signature''))"
    using sig(1,2) hex_signature [OF sz] by (simp add: js_string_def)
  have props: "js_prop ?un ''shard_urls'' = Some (arr_json urls)"
      "js_prop ?un ''expires_at'' = Some (JNum (now + ROUTING_TABLE_TTL_SECONDS * 1000))"
      "js_prop ?un ''version'' = Some (json_of_number v)"
    by (simp_all add: table_fields_def mk_obj_def)
  note push = run_handleRoutingTablePush [OF iso body signed hex, unfolded unsigned_table, unfolded props arr_json_def,
      OF refl _ _ fresh]
  show "fst (run sv (handleRoutingTablePush cr env' req) s) =
      Done (json (mk_obj [(''cached'', Some (JBool True)), (''version'', Some (json_of_number v))]) 200 [])"
    "sv_view sv (snd (run sv (handleRoutingTablePush cr env' req) s)) MAILBOX_KV =
      (sv_view sv s MAILBOX_KV)(ROUTING_TABLE_KV_KEY \<mapsto> json_stringify ?t)"
    using push urls by simp_all
qed

section \<open>Replication: sent by a shard, stored by its sibling\<close>

lemma sibling_accepts:
  assumes iso: "isolated sv" and sz: "standard_sizes cr" and kp: "key_pair cr pub priv" "length pub = 32"
    and mid: "hex_re 16 128 mid" and entry: "entry = JObj e" "map_of e ''id'' = Some (JStr i)" "map_of e ''message'' = Some (JStr msg)"
    and now: "0 \<le> now" "\<bar>sv_clock sv s - now\<bar> \<le> 60000"
    and body: "body_of req = Some (sent_body cr pub priv mid entry urls (str_of_int now))"
    and adm: "under_limit (sv_view sv s MAILBOX_KV) (sv_clock sv s) (''replicate-origin:'' @ bytesToHex pub)
        (MAX_REPLICATES_PER_ORIGIN cfg) 60"
    and known: "known_shard (cached_table (sv_view sv s MAILBOX_KV)) (bytesToHex pub) = Inr True"
    and ttl: "ttl_ok (Some (MAILBOX_TTL_SECONDS cfg))" and wf: "wf_json entry"
    and at: "mailbox_at (sv_view sv s MAILBOX_KV) mid mb" and nn: "no_nulls mb"
  shows "fst (run sv (handleReplicate cr cfg req) s) = Done (replicate_answer (\<exists>m\<in>set (mb_messages mb). has_id i m))"
    and "mailbox_at (sv_view sv (snd (run sv (handleReplicate cr cfg req) s)) MAILBOX_KV) mid
      (insert_replica i entry (sv_clock sv s) mb)"
proof -
  have len: "\<And>m. length (ed_sign cr priv m) = 64" using sz by (simp add: standard_sizes_def)
  obtain p where p: "replicate_request (sent_body cr pub priv mid entry urls (str_of_int now)) = Inr p"
      "pq_mailboxId p = mid" "pq_entry p = entry" "pq_entryId p = i" "pq_origin p = Some (JStr (bytesToHex pub))"
      "pq_timestamp p = Some (JStr (str_of_int now))"
      "pq_signature p = Some (JStr (signWithShardKey cr priv
        (replicate_message (JObj (replicate_payload mid entry urls (Some (JStr (bytesToHex pub))) (str_of_int now))))))"
    using sent_body_request [OF mid kp(2) len entry now(1)] by blast
  have skew: "\<not> outside_skew (sv_clock sv s) (js_number (pq_timestamp p)) (Some 60000)"
    using now(2) by (simp add: p outside_skew_iff)
  obtain s1 where s1: "same_records sv s s1"
      "run sv (handleReplicate cr cfg req) s = run sv (replicate_apply cfg p) s1"
    using run_handleReplicate [OF iso body p(1,5) skew, of cfg True cr] adm known sent_body_verifies [OF kp(1)]
    by (auto simp: p)
  have at1: "mailbox_at (sv_view sv s1 MAILBOX_KV) (pq_mailboxId p) mb"
    using at mailbox_at_same_records [OF s1(1)] by (simp add: p)
  note app = run_replicate_apply [OF iso ttl at1 nn, unfolded p(3), OF wf]
  show "fst (run sv (handleReplicate cr cfg req) s) = Done (replicate_answer (\<exists>m\<in>set (mb_messages mb). has_id i m))"
    using app(1) by (simp add: s1(2) p)
  show "mailbox_at (sv_view sv (snd (run sv (handleReplicate cr cfg req) s)) MAILBOX_KV) mid
      (insert_replica i entry (sv_clock sv s) mb)"
    using app(2) same_recordsD(2) [OF s1(1)] by (simp add: s1(2) p)
qed

end
