(* ===== verification/KvInvariant.thy ===== *)
theory KvInvariant
  imports Effects
begin

text \<open>
  Requests do not run alone: a KV namespace is shared by every isolate, a read may return
  an older value, and two handlers interleave at every \<open>await\<close>.  This theory gives that
  execution as a step relation and the invariants that survive it: a predicate on single
  stored values is kept by every interleaving when each program writes only good values
  after reading only good values (\<open>stable\<close>).
\<close>

section \<open>Programs that keep a predicate on stored values\<close>

type_synonym kv_pred = "ns \<Rightarrow> string \<Rightarrow> string \<Rightarrow> bool"

primrec stable :: "kv_pred \<Rightarrow> 'a prog \<Rightarrow> bool" where
  "stable I (Return a) \<longleftrightarrow> True"
| "stable I (Throw e) \<longleftrightarrow> True"
| "stable I (KvGet n k f) \<longleftrightarrow> (\<forall>a. (\<forall>v. a = Inr (Some v) \<longrightarrow> I n k v) \<longrightarrow> stable I (f a))"
| "stable I (KvPut n k v t f) \<longleftrightarrow> I n k v \<and> (\<forall>a. stable I (f a))"
| "stable I (KvDelete n k f) \<longleftrightarrow> (\<forall>a. stable I (f a))"
| "stable I (Now f) \<longleftrightarrow> (\<forall>a. stable I (f a))"
| "stable I (Random n f) \<longleftrightarrow> (\<forall>a. stable I (f a))"
| "stable I (GenerateKey f) \<longleftrightarrow> (\<forall>a. stable I (f a))"
| "stable I (FetchAll rs f) \<longleftrightarrow> (\<forall>a. stable I (f a))"
| "stable I (WaitUntil t p) \<longleftrightarrow> stable I p"
| "stable I (Log m p) \<longleftrightarrow> stable I p"

named_theorems stable_intros \<open>programs that keep a predicate on stored values\<close>

lemma stable_kvGet [stable_intros]:
  "stable I (f None) \<Longrightarrow> (\<And>v. I n k v \<Longrightarrow> stable I (f (Some v))) \<Longrightarrow> stable I (kvGet n k f)"
  by (auto simp: kvGet_def split: sum.splits) (metis not_Some_eq)

lemma stable_kvPut [stable_intros]: "I n k v \<Longrightarrow> stable I p \<Longrightarrow> stable I (kvPut n k v t p)"
  by (auto simp: kvPut_def split: option.splits)

lemma stable_kvDelete [stable_intros]: "stable I p \<Longrightarrow> stable I (kvDelete n k p)"
  by (auto simp: kvDelete_def split: option.splits)

lemma stable_attempt [stable_intros]: "(\<And>v. r = Inr v \<Longrightarrow> stable I (f v)) \<Longrightarrow> stable I (attempt r f)"
  by (cases r) auto

lemma stable_fetch1 [stable_intros]: "(\<And>a. stable I (f a)) \<Longrightarrow> stable I (fetch1 r f)"
  by (auto simp: fetch1_def split: list.splits)

lemma stable_catch_with [stable_intros]: "stable I p \<Longrightarrow> (\<And>e. stable I (h e)) \<Longrightarrow> stable I (catch_with h p)"
  by (induction p) auto

lemma stable_bind [stable_intros]: "stable I p \<Longrightarrow> (\<And>a. stable I (k a)) \<Longrightarrow> stable I (bind p k)"
  by (induction p) auto

lemma stable_bind_Return: "stable I (bind p (\<lambda>a. Return (f a))) \<longleftrightarrow> stable I p"
  by (induction p) auto

section \<open>Interleaved execution\<close>

type_synonym history = "(ns \<times> string \<times> string) set"

text \<open>
  One effect of one program.  A read answers an error, nothing, or any value ever written
  under the key (an edge cache may be behind); a write that fails may still have been stored.
\<close>

inductive effect_step :: "history \<Rightarrow> 'a prog \<Rightarrow> history \<Rightarrow> 'a prog \<Rightarrow> bool" where
  get_value: "(n, k, v) \<in> H \<Longrightarrow> effect_step H (KvGet n k f) H (f (Inr (Some v)))"
| get_nothing: "effect_step H (KvGet n k f) H (f (Inr None))"
| get_fails: "effect_step H (KvGet n k f) H (f (Inl e))"
| put_done: "effect_step H (KvPut n k v t f) (insert (n, k, v) H) (f None)"
| put_fails: "effect_step H (KvPut n k v t f) H (f (Some e))"
| put_stored_fails: "effect_step H (KvPut n k v t f) (insert (n, k, v) H) (f (Some e))"
| deletes: "effect_step H (KvDelete n k f) H (f a)"
| now: "effect_step H (Now f) H (f a)"
| random: "effect_step H (Random m f) H (f b)"
| generate_key: "effect_step H (GenerateKey f) H (f kp)"
| fetches: "effect_step H (FetchAll rs f) H (f answers)"
| waits: "effect_step H (WaitUntil t p) H p"
| logs: "effect_step H (Log m p) H p"

inductive_cases effect_stepE: "effect_step H p H' p'"

text \<open>Any number of programs, started at any time, one effect at a time.\<close>

inductive reachable :: "'a prog set \<Rightarrow> history \<Rightarrow> 'a prog list \<Rightarrow> bool" for progs where
  initially: "reachable progs {} []"
| starts: "reachable progs H ps \<Longrightarrow> p \<in> progs \<Longrightarrow> reachable progs H (ps @ [p])"
| steps: "reachable progs H ps \<Longrightarrow> i < length ps \<Longrightarrow> effect_step H (ps ! i) H' p' \<Longrightarrow> reachable progs H' (ps[i := p'])"

definition all_good :: "kv_pred \<Rightarrow> history \<Rightarrow> bool" where
  "all_good I H \<longleftrightarrow> (\<forall>n k v. (n, k, v) \<in> H \<longrightarrow> I n k v)"

lemma effect_step_good:
  "effect_step H p H' p' \<Longrightarrow> all_good I H \<Longrightarrow> stable I p \<Longrightarrow> all_good I H' \<and> stable I p'"
  by (induction rule: effect_step.induct) (auto simp: all_good_def)

text \<open>The contract of a worker whose programs keep a predicate, and its consequence.\<close>

locale kv_worker =
  fixes progs :: "'a prog set" and I :: kv_pred
  assumes progs_stable: "p \<in> progs \<Longrightarrow> stable I p"
begin

lemma reachable_good: "reachable progs H ps \<Longrightarrow> all_good I H \<and> list_all (stable I) ps"
proof (induction rule: reachable.induct)
  case initially
  show ?case by (simp add: all_good_def)
next
  case (starts H ps p)
  then show ?case by (simp add: progs_stable)
next
  case (steps H ps i H' p')
  then have "stable I (ps ! i)" by (simp add: list_all_length)
  with steps effect_step_good have "all_good I H'" "stable I p'" by blast+
  moreover from this steps have "list_all (stable I) (ps[i := p'])"
    by (auto simp: list_all_length nth_list_update)
  ultimately show ?case by blast
qed

lemma reachable_value: "reachable progs H ps \<Longrightarrow> (n, k, v) \<in> H \<Longrightarrow> I n k v"
  using reachable_good by (auto simp: all_good_def)

end

end
