(* ===== verification/ShardInvariant.thy ===== *)
theory ShardInvariant
  imports ShardWorker KvInvariant
begin

text \<open>
  What a shard's KV namespace can hold, however its requests and background tasks
  interleave: every mailbox record is well formed, the cached routing table carries the
  Router's signature, the identity is a key pair record, every rate counter is a number.
\<close>

section \<open>The predicate\<close>

definition mailbox_value :: "string \<Rightarrow> bool" where
  "mailbox_value v \<longleftrightarrow> (\<exists>st mb. v = json_stringify st \<and> represents st mb \<and> no_nulls mb)"

definition table_value :: "crypto \<Rightarrow> env \<Rightarrow> string \<Rightarrow> bool" where
  "table_value cr env v \<longleftrightarrow> (\<exists>t. v = json_stringify t \<and> wf_json t \<and> table_signed cr env t)"

definition identity_value :: "string \<Rightarrow> bool" where
  "identity_value v \<longleftrightarrow> (\<exists>pub priv. v = json_stringify (identity_json pub priv))"

definition counter_text :: "string \<Rightarrow> bool" where
  "counter_text v \<longleftrightarrow> (\<exists>i. v = str_of_number (Some i))"

lemma counter_text_own [simp]: "counter_text (str_of_number (Some i))"
  by (auto simp: counter_text_def)

definition shard_value_with :: "(string \<Rightarrow> bool) \<Rightarrow> kv_pred" where
  "shard_value_with T n k v \<longleftrightarrow>
     n = MAILBOX_KV \<and>
     (take 8 k = ''mailbox:'' \<longrightarrow> mailbox_value v) \<and>
     (k = ROUTING_TABLE_KV_KEY \<longrightarrow> T v) \<and>
     (k = SHARD_IDENTITY_KV_KEY \<longrightarrow> identity_value v) \<and>
     (take 3 k = ''rl:'' \<longrightarrow> counter_text v)"

definition shard_value :: "crypto \<Rightarrow> env \<Rightarrow> kv_pred" where
  "shard_value cr env n k v \<longleftrightarrow>
     n = MAILBOX_KV \<and>
     (take 8 k = ''mailbox:'' \<longrightarrow> mailbox_value v) \<and>
     (k = ROUTING_TABLE_KV_KEY \<longrightarrow> table_value cr env v) \<and>
     (k = SHARD_IDENTITY_KV_KEY \<longrightarrow> identity_value v) \<and>
     (take 3 k = ''rl:'' \<longrightarrow> counter_text v)"

lemma shard_value_parts: "shard_value cr env = shard_value_with (table_value cr env)"
  by (simp add: fun_eq_iff shard_value_def shard_value_with_def)

lemma shard_value_with_mailbox [simp]: "shard_value_with T MAILBOX_KV (mailbox_key m) v \<longleftrightarrow> mailbox_value v"
  by (simp add: shard_value_with_def mailbox_key_def ROUTING_TABLE_KV_KEY_def SHARD_IDENTITY_KV_KEY_def)

lemma shard_value_with_table [simp]: "shard_value_with T MAILBOX_KV ROUTING_TABLE_KV_KEY v \<longleftrightarrow> T v"
  by (simp add: shard_value_with_def ROUTING_TABLE_KV_KEY_def SHARD_IDENTITY_KV_KEY_def)

lemma shard_value_with_identity [simp]: "shard_value_with T MAILBOX_KV SHARD_IDENTITY_KV_KEY v \<longleftrightarrow> identity_value v"
  by (simp add: shard_value_with_def ROUTING_TABLE_KV_KEY_def SHARD_IDENTITY_KV_KEY_def)

lemma shard_value_with_window [simp]:
  "shard_value_with T MAILBOX_KV (window_key b w now) v \<longleftrightarrow> counter_text v"
  by (simp add: shard_value_with_def window_key_def ROUTING_TABLE_KV_KEY_def SHARD_IDENTITY_KV_KEY_def)

lemma shard_value_with_other [simp]:
  "shard_value_with T MAILBOX_KV (replay_key cr pk ts sig) v"
  "shard_value_with T MAILBOX_KV SELF_REGISTER_KV_KEY v"
  by (simp_all add: shard_value_with_def replay_key_def SELF_REGISTER_KV_KEY_def ROUTING_TABLE_KV_KEY_def
      SHARD_IDENTITY_KV_KEY_def)

lemma identity_value_own [simp]: "identity_value (json_stringify (identity_json pub priv))"
  by (auto simp: identity_value_def)

section \<open>The shared steps\<close>

text \<open>
  Only the handler of \<open>POST /internal/routing_table\<close> writes the table, and it verifies the signature:
  every other step keeps the predicate whatever the table's part \<open>T\<close> of it is.
\<close>

abbreviation good :: "(string \<Rightarrow> bool) \<Rightarrow> 'a prog \<Rightarrow> bool" where
  "good T \<equiv> stable (shard_value_with T)"

lemma good_rateLimit [stable_intros]:
  assumes "\<And>b. good T (k b)"
  shows "good T (rateLimit bucket limit w k)"
proof -
  have c: "counter_text (str_of_number (map_option (\<lambda>c. c + 1) (counter_value (Some v))))" if "counter_text v" for v
    using that by (auto simp: counter_text_def)
  show ?thesis
    using assms unfolding rateLimit_def Let_def stable.simps(6)
    by (intro allI stable_kvGet) (auto intro!: stable_kvPut c)
qed

lemma good_verifyCapability [stable_intros]:
  "(\<And>b. good T (k b)) \<Longrightarrow> good T (verifyCapability cr' m h e sig pub k)"
  "(\<And>b. good T (k b)) \<Longrightarrow> good T (verifyCapabilityV2 cr' m pk sc e n sig pub k)"
  by (auto simp: verifyCapability_def verifyCapabilityV2_def intro!: stable_intros)

lemma good_verifySenderAuth [stable_intros]:
  "(\<And>e. good T (k e)) \<Longrightarrow> good T (verifySenderAuth cr auth skew m k)"
  by (auto simp: verifySenderAuth_def Let_def intro!: stable_intros split: option.splits)

lemma stable_ensureShardIdentity:
  assumes I: "\<And>v. I MAILBOX_KV SHARD_IDENTITY_KV_KEY v \<longleftrightarrow> identity_value v"
    and k: "\<And>pub priv. stable I (k (identity_json pub priv))"
  shows "stable I (ensureShardIdentity k)"
  unfolding ensureShardIdentity_def
proof (rule stable_kvGet)
  show "stable I (case present None of None \<Rightarrow> GenerateKey (\<lambda>(pub, priv).
             let identity = identity_json pub priv in
             kvPut MAILBOX_KV SHARD_IDENTITY_KV_KEY (json_stringify identity) None (k identity))
         | Some text \<Rightarrow> attempt (js_parse text) k)"
    using k by (auto simp: Let_def I intro!: stable_intros)
  fix v assume "I MAILBOX_KV SHARD_IDENTITY_KV_KEY v"
  then obtain pub priv where "v = json_stringify (identity_json pub priv)" by (auto simp: identity_value_def I)
  then show "stable I (case present (Some v) of None \<Rightarrow> GenerateKey (\<lambda>(pub, priv).
             let identity = identity_json pub priv in
             kvPut MAILBOX_KV SHARD_IDENTITY_KV_KEY (json_stringify identity) None (k identity))
         | Some text \<Rightarrow> attempt (js_parse text) k)"
    using k by (simp add: js_parse_def wf_identity_json)
qed

lemma good_ensureShardIdentity [stable_intros]:
  "(\<And>pub priv. good T (k (identity_json pub priv))) \<Longrightarrow> good T (ensureShardIdentity k)"
  by (rule stable_ensureShardIdentity) simp_all

lemma good_buildShardSignedResponse [stable_intros]:
  "(\<And>j. good T (k j)) \<Longrightarrow> good T (buildShardSignedResponse cr' rid st body k)"
  by (auto simp: buildShardSignedResponse_def identity_private_def Let_def intro!: stable_intros)

lemma good_request_json [stable_intros]:
  "(\<And>b. body_of req = Some b \<Longrightarrow> good T (k b)) \<Longrightarrow> good T (request_json req k)"
  by (cases "body_of req") auto

lemma body_of_wf: "body_of req = Some b \<Longrightarrow> wf_json b"
  by (auto simp: body_of_def or_val_def obj_canonical_def dest: json_parse_wf split: if_splits)

text \<open>A mailbox read back is a representation; a representation may be stored.\<close>

lemma mailbox_valueI: "represents st mb \<Longrightarrow> no_nulls mb \<Longrightarrow> mailbox_value (json_stringify st)"
  by (auto simp: mailbox_value_def)

lemma mailbox_valueE:
  assumes "mailbox_value v"
  obtains st mb where "v = json_stringify st" "json_parse v = Some st" "represents st mb" "no_nulls mb" "v \<noteq> []"
  using assms wf_represents by (force simp: mailbox_value_def)

lemma no_nulls_ops [simp]:
  "no_nulls (drain mb)" "no_nulls (mb\<lparr>mb_messages := []\<rparr>)"
  "no_nulls (mb\<lparr>mb_hash := h\<rparr>) \<longleftrightarrow> no_nulls mb" "no_nulls (mb\<lparr>mb_replicas := r\<rparr>) \<longleftrightarrow> no_nulls mb"
  "no_nulls (mb\<lparr>mb_enqueued := e\<rparr>) \<longleftrightarrow> no_nulls mb"
  "no_nulls (deposit x now mb) \<longleftrightarrow> no_nulls mb \<and> x \<noteq> JNull"
  by (auto simp: no_nulls_def drain_def deposit_def)

lemma good_purge_stale:
  assumes st: "represents st mb" and nn: "no_nulls mb"
    and k: "\<And>st' mb'. represents st' mb' \<Longrightarrow> no_nulls mb' \<Longrightarrow> good T (k st')"
  shows "good T (purge_stale cfg st k)"
proof -
  obtain st' where st': "clear_messages st = Inr st'" "represents st' (drain mb)"
    using st by (rule represents_clear)
  then have "good T (k st')" "good T (k st)" using st nn k by auto
  then show ?thesis
    by (auto simp: purge_stale_def isBacklogStale_def st'(1) intro!: stable_intros)
qed

lemma good_push_and_stamp:
  assumes st: "represents st mb" and nn: "no_nulls mb" and e: "wf_json e" "e \<noteq> JNull"
    and k: "\<And>st' mb'. represents st' mb' \<Longrightarrow> no_nulls mb' \<Longrightarrow> good T (k st')"
  shows "good T (attempt (push_message e st) (\<lambda>s1. stamp_enqueued s1 k))"
proof -
  have wf_ms: "list_all wf_json (mb_messages mb)"
    using st by (auto simp: represents_def list_all_iff dest!: wf_json_map_of [where k = "''messages''"]
        simp del: wf_json.simps(2))
  let ?mb1 = "mb\<lparr>mb_messages := mb_messages mb @ [e]\<rparr>"
  obtain s1 where s1: "push_message e st = Inr s1" "represents s1 ?mb1"
    using represents_set_messages [OF st, of "mb_messages mb @ [e]"] wf_ms e st
    by (auto simp: push_message_def represents_props)
  have nn1: "no_nulls ?mb1" using nn e(2) by (simp add: no_nulls_def)
  have "good T (attempt (set_prop ''messagesEnqueuedAt'' (JNum now) s1) k)" for now
    using represents_set_enqueued [OF s1(2), of "Some now"] k nn1 by (auto simp: enqueued_json_def)
  moreover have "good T (k s1)" using k s1(2) nn1 by blast
  ultimately show ?thesis
    by (auto simp: s1(1) stamp_enqueued_def intro!: stable_intros)
qed

section \<open>Every handler\<close>

lemma good_create_refresh:
  assumes st: "represents st mb" and nn: "no_nulls mb"
  shows "good T (create_refresh cfg c st)"
proof -
  obtain s1 where s1: "set_prop ''readSecretHash'' (JStr (lower (cq_readSecretHash c))) st = Inr s1"
      "represents s1 (mb\<lparr>mb_hash := lower (cq_readSecretHash c)\<rparr>)"
    using represents_set_hash [OF st] by blast
  let ?mb = "mb\<lparr>mb_hash := lower (cq_readSecretHash c)\<rparr>"
  have nn1: "no_nulls ?mb" using nn by simp
  have other: "represents s2 ?mb" if "set_prop ''clientPubkey'' (JStr x) s1 = Inr s2" for x s2
    using represents_set_other [OF s1(2), of "JStr x" "''clientPubkey''"] that by auto
  have two: "\<exists>mb'. represents s2 mb' \<and> no_nulls mb'"
    if "(if cq_v2 c \<and> truthy (cq_clientPubkey c)
         then (case js_lower (cq_clientPubkey c) of Inl e \<Rightarrow> Inl e | Inr pk \<Rightarrow> set_prop ''clientPubkey'' (JStr pk) s1)
         else Inr s1) = Inr s2" for s2
    using that s1(2) nn1 other by (fastforce split: if_splits sum.splits)
  have three: "mailbox_value (json_stringify s3)"
    if "represents s2 mb'" "no_nulls mb'" "(if cq_safeReplicas c \<noteq> []
         then set_prop ''replicaShardUrls'' (json_strs (cq_safeReplicas c)) s2 else Inr s2) = Inr s3" for s2 s3 mb'
    using that represents_set_replicas [OF that(1) wf_json_strs, of "cq_safeReplicas c"]
    by (auto split: if_splits intro: mailbox_valueI)
  show ?thesis
    unfolding create_refresh_def s1(1) attempt_simps
    by (intro stable_attempt stable_kvPut) (use two three in force)+
qed

lemma fresh_record_value:
  "wf_json pk \<Longrightarrow> mailbox_value (json_stringify (JObj
      [(''readSecretHash'', JStr h), (''clientPubkey'', pk), (''messages'', JArr []), (''createdAt'', JNum now),
       (''messagesEnqueuedAt'', JNull), (''replicaShardUrls'', json_strs urls)]))"
  by (rule mailbox_valueI [of _ "fresh h now urls"])
    (auto simp: represents_def fresh_def enqueued_json_def obj_canonical_def key_precedes_def is_digit_def no_nulls_def)

lemma good_create_store: "good T (create_store cfg c)"
  unfolding create_store_def
proof (rule stable_kvGet)
  let ?p = "\<lambda>existingRaw. case present existingRaw of
         Some text \<Rightarrow>
           (case json_parse text of
              Some stored \<Rightarrow> create_refresh cfg c stored
            | None \<Rightarrow> Now (\<lambda>now.
                create_refresh cfg c
                  (JObj [(''messages'', JArr []), (''createdAt'', JNum now), (''messagesEnqueuedAt'', JNull)])))
       | None \<Rightarrow>
           attempt (if cq_v2 c \<and> truthy (cq_clientPubkey c)
                    then (case js_lower (cq_clientPubkey c) of Inl e \<Rightarrow> Inl e | Inr pk \<Rightarrow> Inr (JStr pk))
                    else Inr JNull) (\<lambda>clientPubkey.
           Now (\<lambda>now.
             kvPut MAILBOX_KV (mailbox_key (cq_mailboxId c))
               (json_stringify (JObj
                  [(''readSecretHash'', JStr (lower (cq_readSecretHash c))),
                   (''clientPubkey'', clientPubkey),
                   (''messages'', JArr []),
                   (''createdAt'', JNum now),
                   (''messagesEnqueuedAt'', JNull),
                   (''replicaShardUrls'', json_strs (cq_safeReplicas c))]))
               (Some (MAILBOX_TTL_SECONDS cfg))
               (Return (create_response (cq_mailboxId c) cfg True))))"
  show "good T (?p None)"
    by (auto intro!: stable_intros fresh_record_value split: if_splits sum.splits)
  fix v assume "shard_value_with T MAILBOX_KV (mailbox_key (cq_mailboxId c)) v"
  then obtain st mb where "v = json_stringify st" "json_parse v = Some st" "represents st mb" "no_nulls mb" "v \<noteq> []"
    by (auto elim: mailbox_valueE)
  then show "good T (?p (Some v))" by (simp add: good_create_refresh)
qed

lemma good_handleCreate: "good T (handleCreate cr env cfg req)"
  by (auto simp: handleCreate_def create_authorized_def intro!: stable_intros good_create_store split: sum.splits)

lemma good_handleExists: "good T (handleExists req)"
  by (auto simp: handleExists_def intro!: stable_intros split: option.splits)

lemma new_entry_not_null: "new_entry i t m pk \<noteq> JNull"
  by (simp add: new_entry_def)

lemma good_send_append:
  assumes st: "represents st mb" and nn: "no_nulls mb"
  shows "good T (send_append cr cfg body q st)"
proof -
  let ?k = "\<lambda>e stored2. kvPut MAILBOX_KV (mailbox_key (sq_mailboxId q)) (json_stringify stored2)
         (Some (MAILBOX_TTL_SECONDS cfg))
       (let respond = attempt (message_count stored2) (\<lambda>queued. send_respond cr body (send_result queued)) in
        if 1 < length (replica_list stored2)
        then WaitUntil (ReplicateToSiblings (lower (sq_mailboxId q)) e (replica_list stored2)) respond
        else respond)"
  have respond: "good T (send_respond cr body r)" for r
    by (auto simp: send_respond_def intro!: stable_intros split: option.splits)
  have k: "good T (?k e st')" if "represents st' mb'" "no_nulls mb'" for e st' mb'
    using that by (auto simp: Let_def intro!: stable_intros respond mailbox_valueI)
  have "good T (attempt (push_message e st) (\<lambda>s1. stamp_enqueued s1 (?k e)))" if "e = new_entry i t m pk" for e i t m pk
    by (rule good_push_and_stamp [OF st nn]) (use that k in \<open>simp_all add: new_entry_not_null\<close>)
  then show ?thesis
    by (auto simp: send_append_def randomHex_def Let_def intro!: stable_attempt)
qed

lemma good_send_deposit: "good T (send_deposit cr cfg body q)"
  unfolding send_deposit_def
proof (rule stable_kvGet)
  fix v assume "shard_value_with T MAILBOX_KV (mailbox_key (sq_mailboxId q)) v"
  then obtain st mb where "v = json_stringify st" "json_parse v = Some st" "represents st mb" "no_nulls mb" "v \<noteq> []"
    by (auto elim: mailbox_valueE)
  then show "good T (case present (Some v) of
         None \<Rightarrow> Return (err MailboxNotFound 404 [])
       | Some text \<Rightarrow>
       (case json_parse text of
          None \<Rightarrow> Return (err StorageError 500 [])
        | Some stored \<Rightarrow> purge_stale cfg stored (send_append cr cfg body q)))"
    by (simp add: good_purge_stale good_send_append)
qed simp

lemma good_handleSend: "good T (handleSend cr cfg req)"
  by (auto simp: handleSend_def intro!: stable_intros good_send_deposit split: sum.splits option.splits)

lemma good_read_take:
  assumes st: "represents st mb" and nn: "no_nulls mb"
  shows "good T (read_take cr cfg m peek rid st)"
proof -
  obtain st' where st': "clear_messages st = Inr st'" "represents st' (drain mb)"
    using st by (rule represents_clear)
  have "mailbox_value (json_stringify st)" "mailbox_value (json_stringify st')"
    using st st'(2) nn by (auto intro: mailbox_valueI)
  then show ?thesis
    by (auto simp: read_take_def st'(1) Let_def intro!: stable_intros split: option.splits if_splits)
qed

lemma good_handleRead: "good T (handleRead cr cfg req)"
proof -
  have step: "good T (case present (Some v) of None \<Rightarrow> Return (err MailboxNotFound 404 [])
            | Some text \<Rightarrow> (case json_parse text of
               None \<Rightarrow> Return (err StorageError 500 [])
             | Some stored \<Rightarrow>
                 attempt (get_prop (Some stored) ''readSecretHash'') (\<lambda>h.
                 if \<not> read_secret_ok cr secret h then Return (err InvalidReadSecret 401 [])
                 else purge_stale cfg stored (read_take cr cfg m peek rid))))"
    if "mailbox_value v" for v secret m peek rid
    using that by (elim mailbox_valueE) (auto intro!: stable_intros good_purge_stale good_read_take)
  show ?thesis
    unfolding handleRead_def Let_def
    using step by (auto intro!: stable_intros split: option.splits)
qed

lemma good_getCachedRoutingTable [stable_intros]:
  "(\<And>t. good T (k t)) \<Longrightarrow> good T (getCachedRoutingTable k)"
  by (auto simp: getCachedRoutingTable_def intro!: stable_intros)

lemma good_handleRoutingTablePush:
  assumes T: "\<And>v. table_value cr env v \<Longrightarrow> T v"
  shows "good T (handleRoutingTablePush cr env req)"
proof (cases "body_of req")
  case None
  then show ?thesis by (simp add: handleRoutingTablePush_def)
next
  case (Some body)
  have tv: "T (json_stringify body)"
    if "js_prop body ''signature'' = Some (JStr sig)"
      "verify_with cr (ROUTER_SIGNING_PUBLIC env) (json_stringify (rest_without ''signature'' body)) sig" for sig
    using that body_of_wf [OF Some] by (intro T) (auto simp: table_value_def table_signed_def)
  show ?thesis
    by (auto simp: handleRoutingTablePush_def Some Let_def str_test_Some intro!: stable_intros tv
        split: option.splits json.splits list.splits)
qed

lemma good_handleRoutingTableServe: "good T handleRoutingTableServe"
  by (auto simp: handleRoutingTableServe_def intro!: stable_intros)

lemma good_replicate_store:
  assumes st: "represents st mb" and nn: "no_nulls mb" and e: "wf_json (pq_entry p)" "pq_entry p \<noteq> JNull"
  shows "good T (replicate_store cfg p st)"
proof -
  let ?k = "\<lambda>st2. kvPut MAILBOX_KV (mailbox_key (pq_mailboxId p)) (json_stringify st2)
      (Some (MAILBOX_TTL_SECONDS cfg)) (Return (json (JObj [(''replicated'', JBool True)]) 200 []))"
  have "good T (attempt (push_message (pq_entry p) st) (\<lambda>s1. stamp_enqueued s1 ?k))"
    by (rule good_push_and_stamp [OF st nn e]) (auto intro!: stable_intros mailbox_valueI)
  then show ?thesis by (auto simp: replicate_store_def intro!: stable_attempt)
qed

lemma represents_shell:
  assumes "wf_json (or_val (pq_replicas p) (JArr []))"
  shows "represents (shell_record p now)
    \<lparr> mb_hash = [], mb_messages = [], mb_created = now, mb_enqueued = None, mb_replicas = or_val (pq_replicas p) (JArr []) \<rparr>"
  using assms by (simp add: represents_def shell_record_def enqueued_json_def obj_canonical_def
      key_precedes_def is_digit_def)

lemma good_replicate_apply:
  assumes e: "wf_json (pq_entry p)" "pq_entry p \<noteq> JNull" and r: "wf_json (or_val (pq_replicas p) (JArr []))"
  shows "good T (replicate_apply cfg p)"
  unfolding replicate_apply_def
proof (rule stable_kvGet)
  have "good T (replicate_store cfg p (shell_record p now))" for now
    by (rule good_replicate_store [OF represents_shell [OF r] _ e]) (simp add: no_nulls_def)
  then show "good T (case present None of None \<Rightarrow> Now (\<lambda>now. replicate_store cfg p (shell_record p now))
       | Some text \<Rightarrow> (case json_parse text of None \<Rightarrow> Return (err StorageError 500 [])
            | Some stored \<Rightarrow> replicate_store cfg p stored))" by simp
  fix v assume "shard_value_with T MAILBOX_KV (mailbox_key (pq_mailboxId p)) v"
  then obtain st mb where "v = json_stringify st" "json_parse v = Some st" "represents st mb" "no_nulls mb" "v \<noteq> []"
    by (auto elim: mailbox_valueE)
  then show "good T (case present (Some v) of None \<Rightarrow> Now (\<lambda>now. replicate_store cfg p (shell_record p now))
       | Some text \<Rightarrow> (case json_parse text of None \<Rightarrow> Return (err StorageError 500 [])
            | Some stored \<Rightarrow> replicate_store cfg p stored))"
    by (simp add: good_replicate_store [OF _ _ e])
qed

lemma wf_js_prop: "wf_json b \<Longrightarrow> js_prop b k = Some v \<Longrightarrow> wf_json v"
  by (cases b) (auto dest: wf_json_map_of split: if_splits simp del: wf_json.simps(2))

lemma replicate_request_wf:
  assumes "wf_json body" and "replicate_request body = Inr p"
  shows "wf_json (pq_entry p)" "pq_entry p \<noteq> JNull" "wf_json (or_val (pq_replicas p) (JArr []))"
proof -
  have e: "js_prop body ''entry'' = Some (pq_entry p)" "pq_entry p \<noteq> JNull"
    "pq_replicas p = js_prop body ''replica_shard_urls''"
    using assms(2) by (auto simp: replicate_request_def split: option.splits json.splits if_splits)
  show "wf_json (pq_entry p)" "pq_entry p \<noteq> JNull" using wf_js_prop [OF assms(1) e(1)] e(2) by auto
  show "wf_json (or_val (pq_replicas p) (JArr []))"
    unfolding e(3) using wf_js_prop [OF assms(1)] by (auto simp: or_val_def split: option.splits)
qed

lemma good_handleReplicate: "good T (handleReplicate cr cfg req)"
  unfolding handleReplicate_def
proof (rule good_request_json)
  fix body assume "body_of req = Some body"
  then have wf: "wf_json body" by (rule body_of_wf)
  have ap: "good T (replicate_apply cfg p)" if "replicate_request body = Inr p" for p
    using replicate_request_wf [OF wf that] by (rule good_replicate_apply)
  show "good T (case replicate_request body of
         Inl e \<Rightarrow> Return (err e 400 [])
       | Inr p \<Rightarrow>
           Now (\<lambda>now.
           if outside_skew now (js_number (pq_timestamp p)) (Some 60000)
           then Return (err OutsideAllowedSkew 401 [])
           else attempt (js_lower (pq_origin p)) (\<lambda>origin.
           rateLimit (''replicate-origin:'' @ origin) (MAX_REPLICATES_PER_ORIGIN cfg) 60 (\<lambda>originOk.
           if \<not> originOk then Return (err OriginTooFast 429 retry_after_60)
           else getCachedRoutingTable (\<lambda>table.
             attempt (known_shard table origin) (\<lambda>known.
             if \<not> known then Return (err OriginUnknown 401 [])
             else
               let unsignedBody = rest_without ''signature'' body in
               if \<not> verify_jsval cr (js_string (pq_origin p)) (replicate_message unsignedBody) (pq_signature p)
               then Return (err ReplicateSignatureFailed 401 [])
               else replicate_apply cfg p))))))"
    using ap by (auto simp: Let_def intro!: stable_intros split: sum.splits)
qed

lemma good_handleHealth: "good T (handleHealth env req)"
  by (auto simp: handleHealth_def intro!: stable_intros split: sum.splits)

lemma good_handleServerHello: "good T (handleServerHello cr req)"
  by (auto simp: handleServerHello_def identity_private_def identity_public_def Let_def intro!: stable_intros
      split: sum.splits)

lemma good_registration_request [stable_intros]:
  "(\<And>r. good T (k r)) \<Longrightarrow> good T (registration_request cr' router url identity key nonce sol ts k)"
  by (auto simp: registration_request_def identity_public_def intro!: stable_intros)

lemma good_identity_private [stable_intros]:
  "(\<And>k'. good T (k k')) \<Longrightarrow> good T (identity_private cr' identity k)"
  by (auto simp: identity_private_def intro!: stable_intros)

lemma good_identity_public [stable_intros]:
  "(\<And>p. good T (k p)) \<Longrightarrow> good T (identity_public identity k)"
  by (auto simp: identity_public_def intro!: stable_intros)

lemma good_handleAdminShardInfo: "good T (handleAdminShardInfo env req)"
  by (auto simp: handleAdminShardInfo_def intro!: stable_intros)

lemma good_handleAdminRegister: "good T (handleAdminRegister cr env req)"
  by (auto simp: handleAdminRegister_def intro!: stable_intros split: option.splits fetch_result.splits)

lemma good_handleAdminRotateKey: "good T (handleAdminRotateKey cr env req)"
  by (auto simp: handleAdminRotateKey_def Let_def intro!: stable_intros split: fetch_result.splits)

lemma good_attempt_registration: "good T (attempt_registration cr router url)"
  by (auto simp: attempt_registration_def intro!: stable_intros split: fetch_result.splits)

lemma good_ensureSelfRegistered: "good T (ensureSelfRegistered cr env)"
  by (auto simp: ensureSelfRegistered_def Let_def intro!: stable_intros good_attempt_registration split: option.splits)

lemma good_log_failures: "good T (log_failures us rs (Return ()))"
  by (induction us rs "Return () :: unit prog" rule: log_failures.induct) auto

lemma good_replicateToSiblings: "good T (replicateToSiblings cr env m e us)"
  by (auto simp: replicateToSiblings_def Let_def intro!: stable_intros good_log_failures)

lemma good_shard_route: "(\<And>v. table_value cr env v \<Longrightarrow> T v) \<Longrightarrow> good T (shard_route cr env cfg req)"
  by (auto simp: shard_route_def Let_def good_handleHealth good_handleServerHello good_handleCreate good_handleExists
      good_handleSend good_handleRead good_handleRoutingTablePush good_handleReplicate good_handleRoutingTableServe
      good_handleAdminShardInfo good_handleAdminRegister good_handleAdminRotateKey)

lemma good_shard_fetch: "(\<And>v. table_value cr env v \<Longrightarrow> T v) \<Longrightarrow> good T (shard_fetch cr env req)"
  by (auto simp: shard_fetch_def intro!: stable_intros good_shard_route)

lemma good_shard_task: "good T (shard_task cr env t)"
  by (cases t) (simp_all add: shard_task_def good_ensureSelfRegistered good_replicateToSiblings)

section \<open>Every interleaving\<close>

text \<open>A request whose response is dropped, and a background task.\<close>

definition shard_programs :: "crypto \<Rightarrow> env \<Rightarrow> unit prog set" where
  "shard_programs cr env =
     range (\<lambda>req. bind (shard_fetch cr env req) (\<lambda>_. Return ())) \<union> range (shard_task cr env) \<union> {shard_scheduled}"

interpretation shard_kv: kv_worker "shard_programs cr env" "shard_value cr env" for cr env
proof
  fix p assume "p \<in> shard_programs cr env"
  then show "stable (shard_value cr env) p"
    unfolding shard_value_parts
    by (auto simp: shard_programs_def shard_scheduled_def intro!: stable_bind good_shard_fetch good_shard_task)
qed

end
