(* ===== verification/RouterInvariant.thy ===== *)
theory RouterInvariant
  imports RouterWorker KvInvariant
begin

text \<open>
  What \<open>ROUTER_ADMIN_KV\<close> can hold when only the Router writes it, however its requests
  interleave: the registry has one well-formed record per URL and never more than
  \<open>MAX_REGISTERED_SHARDS\<close> of them, pending challenges are the ones it minted, counters are
  numbers.
\<close>

section \<open>The predicate\<close>

definition within_cap :: "env \<Rightarrow> json list \<Rightarrow> bool" where
  "within_cap env xs =
     (case var_number (MAX_REGISTERED_SHARDS env) 200 of None \<Rightarrow> True | Some m \<Rightarrow> int (length xs) \<le> max 0 m)"

definition registry_value :: "env \<Rightarrow> string \<Rightarrow> bool" where
  "registry_value env v \<longleftrightarrow> (\<exists>xs. v = json_stringify (JArr xs) \<and> registry_ok xs \<and> within_cap env xs)"

definition challenge_value :: "string \<Rightarrow> bool" where
  "challenge_value v \<longleftrightarrow> (\<exists>d e. v = json_stringify (challenge_json d e))"

definition router_counter :: "string \<Rightarrow> bool" where
  "router_counter v \<longleftrightarrow> (\<exists>i. v = str_of_number (Some i))"

definition router_value :: "env \<Rightarrow> kv_pred" where
  "router_value env n k v \<longleftrightarrow>
     n = ROUTER_ADMIN_KV \<and>
     (k = ''registered_shards'' \<longrightarrow> registry_value env v) \<and>
     (take 10 k = ''pow_nonce:'' \<longrightarrow> challenge_value v) \<and>
     (take 3 k = ''rl:'' \<longrightarrow> router_counter v)"

lemma router_value_keys [simp]:
  "router_value env ROUTER_ADMIN_KV ''registered_shards'' v \<longleftrightarrow> registry_value env v"
  "router_value env ROUTER_ADMIN_KV (nonce_key x) v \<longleftrightarrow> challenge_value v"
  "router_value env ROUTER_ADMIN_KV (window_key b w now) v \<longleftrightarrow> router_counter v"
  "router_value env ROUTER_ADMIN_KV ''routing_table_version'' v"
  by (simp_all add: router_value_def nonce_key_def window_key_def)

lemma router_counter_own [simp]: "router_counter (str_of_number (Some i))"
  by (auto simp: router_counter_def)

lemma challenge_value_own [simp]: "challenge_value (json_stringify (challenge_json d e))"
  by (auto simp: challenge_value_def)

abbreviation rgood :: "env \<Rightarrow> 'a prog \<Rightarrow> bool" where
  "rgood env \<equiv> stable (router_value env)"

lemma within_cap_same: "length ys = length xs \<Longrightarrow> within_cap env xs \<Longrightarrow> within_cap env ys"
  by (simp add: within_cap_def split: option.splits)

section \<open>The shared steps\<close>

lemma rgood_adminRateLimit [stable_intros]:
  assumes "\<And>b. rgood env (k b)"
  shows "rgood env (adminRateLimit env' bucket limit w k)"
proof -
  have c: "router_counter (str_of_number (map_option (\<lambda>c. c + 1) (counter_value (Some v))))" if "router_counter v" for v
    using that by (auto simp: router_counter_def)
  have "rgood env (kvGet ROUTER_ADMIN_KV (window_key bucket w now) (\<lambda>raw.
          let current = counter_value raw in
          if num_ge current (Some limit) then k False
          else kvPut ROUTER_ADMIN_KV (window_key bucket w now) (str_of_number (map_option (\<lambda>c. c + 1) current))
                 (Some (Some (w + 5))) (k True)))" for now
    unfolding Let_def by (rule stable_kvGet) (auto intro!: stable_kvPut c assms)
  then show ?thesis using assms by (simp add: adminRateLimit_def Let_def)
qed

lemma rgood_body [stable_intros]:
  "(\<And>b. body_of req = Some b \<Longrightarrow> rgood env (k b)) \<Longrightarrow> rgood env (router_body req k)"
  by (cases "body_of req") auto

lemma registry_value_parse:
  assumes "registry_value env v"
  obtains xs where "v = json_stringify (JArr xs)" "json_parse v = Some (JArr xs)" "v \<noteq> []" "registry_ok xs"
    "within_cap env xs" "list_all wf_json xs"
proof -
  obtain xs where xs: "v = json_stringify (JArr xs)" "registry_ok xs" "within_cap env xs"
    using assms by (auto simp: registry_value_def)
  then have wf: "list_all wf_json xs" by (auto simp: registry_ok_def list_all_iff dest: record_okD(4))
  then have "json_parse v = Some (JArr xs)" by (simp add: xs(1) list_all_iff)
  with that xs wf show thesis by simp
qed

lemma stable_getRegisteredShards:
  assumes I: "\<And>v. I ROUTER_ADMIN_KV ''registered_shards'' v \<Longrightarrow> registry_value env v"
    and k: "\<And>xs. registry_ok xs \<Longrightarrow> within_cap env xs \<Longrightarrow> stable I (k xs)"
  shows "stable I (getRegisteredShards env' k)"
proof -
  have nil: "stable I (k [])" by (rule k) (auto simp: registry_ok_def within_cap_def split: option.splits)
  have "stable I (kvGet ROUTER_ADMIN_KV ''registered_shards'' (\<lambda>raw.
        case present raw of None \<Rightarrow> k []
        | Some text \<Rightarrow> k (case json_parse text of Some (JArr xs) \<Rightarrow> xs | _ \<Rightarrow> [])))"
  proof (rule stable_kvGet)
    fix v assume "I ROUTER_ADMIN_KV ''registered_shards'' v"
    then obtain xs where "json_parse v = Some (JArr xs)" "v \<noteq> []" "registry_ok xs" "within_cap env xs"
      by (auto elim: registry_value_parse dest: I)
    then show "stable I (case present (Some v) of None \<Rightarrow> k []
        | Some text \<Rightarrow> k (case json_parse text of Some (JArr xs) \<Rightarrow> xs | _ \<Rightarrow> []))"
      by (simp add: k)
  qed (simp add: nil)
  with nil show ?thesis by (simp add: getRegisteredShards_def)
qed

lemma rgood_getRegisteredShards:
  assumes "\<And>xs. registry_ok xs \<Longrightarrow> within_cap env xs \<Longrightarrow> rgood env (k xs)"
  shows "rgood env (getRegisteredShards env' k)"
  by (rule stable_getRegisteredShards [where env = env]) (simp_all add: assms)

lemma rgood_config [stable_intros]:
  "(\<And>x. rgood env (k1 x)) \<Longrightarrow> rgood env (getRegisteredShards env' k1)"
  "(\<And>x. rgood env (k1 x)) \<Longrightarrow> rgood env (getPriorShardCounts env' k1)"
  "(\<And>v. rgood env (k2 v)) \<Longrightarrow> rgood env (getRoutingTableVersion env' k2)"
  "(\<And>u. rgood env (k3 u)) \<Longrightarrow> rgood env (getShardUrls env' k3)"
  "(\<And>m. rgood env (k4 m)) \<Longrightarrow> rgood env (getShardPubkeys env' k4)"
  "(\<And>m. rgood env (k5 m)) \<Longrightarrow> rgood env (signing_key cr env' k5)"
  by (auto simp: getRegisteredShards_def getPriorShardCounts_def getRoutingTableVersion_def getShardUrls_def
      getShardPubkeys_def signing_key_def Let_def intro!: stable_intros split: option.splits json.splits list.splits)

lemma rgood_map_url:
  assumes "list_all record_ok xs" and "keeps_url url upd"
    and "\<And>ys. list_all record_ok ys \<Longrightarrow> map record_url ys = map record_url xs \<Longrightarrow> rgood env (k ys)"
  shows "rgood env (map_url url upd xs k)"
  using assms(1,3)
proof (induction xs arbitrary: k)
  case (Cons x xs)
  have x: "record_ok x" and xs: "list_all record_ok xs" using Cons.prems by auto
  have upd: "record_ok (upd x now) \<and> record_url (upd x now) = url" for now
    using assms(2) x by (simp add: keeps_url_def)
  have "rgood env (map_url url upd xs (\<lambda>rest. k (upd x now # rest)))" if "record_url x = url" for now
    by (rule Cons.IH [OF xs]) (rule Cons.prems(2), use upd that in auto)
  moreover have "rgood env (map_url url upd xs (\<lambda>rest. k (x # rest)))"
    by (rule Cons.IH [OF xs]) (rule Cons.prems(2), use x in auto)
  ultimately show ?case by (simp add: record_okD [OF x])
qed simp

lemma rgood_commit:
  "registry_ok xs \<Longrightarrow> within_cap env xs \<Longrightarrow> rgood env (commit_shards env' xs answer)"
  by (auto simp: commit_shards_def Let_def registry_value_def intro!: stable_intros)

section \<open>Every handler\<close>

lemma rgood_register_store: "rgood env (register_store env q pk)"
  unfolding register_store_def Let_def
proof (rule rgood_getRegisteredShards)
  fix reg assume ok: "registry_ok reg" and cap: "within_cap env reg"
  then have all: "list_all record_ok reg" and dist: "distinct (map record_url reg)" by (auto simp: registry_ok_def)
  have upd: "rgood env (map_url (sr_url q) (updated_shard (sr_url q) pk) reg (\<lambda>updated.
      commit_shards env updated (register_answer (sr_url q) updated)))"
  proof (rule rgood_map_url [OF all keeps_url_updated])
    fix ys assume ys: "list_all record_ok ys" "map record_url ys = map record_url reg"
    then have "length ys = length reg" by (metis length_map)
    then show "rgood env (commit_shards env ys (register_answer (sr_url q) ys))"
      using ys dist cap by (intro rgood_commit) (auto simp: registry_ok_def intro: within_cap_same)
  qed
  have new: "rgood env (commit_shards env (reg @ [new_shard (sr_url q) pk now])
      (register_answer (sr_url q) (reg @ [new_shard (sr_url q) pk now])))"
    if "List.find (\<lambda>s. record_url s = sr_url q) reg = None"
      "\<not> num_ge (Some (int (length reg))) (var_number (MAX_REGISTERED_SHARDS env) 200)" for now
  proof (rule rgood_commit)
    show "registry_ok (reg @ [new_shard (sr_url q) pk now])"
      using ok that(1) record_ok_mk [of "sr_url q" pk now] by (auto simp: registry_ok_def find_None_all)
    show "within_cap env (reg @ [new_shard (sr_url q) pk now])"
      using that(2) by (auto simp: within_cap_def split: option.splits)
  qed
  show "rgood env (attempt (find_url (sr_url q) reg) (\<lambda>already.
       case already of
         Some _ \<Rightarrow>
           map_url (sr_url q) (updated_shard (sr_url q) pk) reg (\<lambda>updated.
             commit_shards env updated (register_answer (sr_url q) updated))
       | None \<Rightarrow>
           if num_ge (Some (int (length reg))) (var_number (MAX_REGISTERED_SHARDS env) 200)
           then Return (jsonErr (R_MeshFull (var_number (MAX_REGISTERED_SHARDS env) 200)) 403)
           else Now (\<lambda>now. commit_shards env (reg @ [new_shard (sr_url q) pk now])
             (register_answer (sr_url q) (reg @ [new_shard (sr_url q) pk now])))))"
    using upd new by (auto simp: find_url_iff [OF all] split: option.splits)
qed

lemma rgood_handleRegisterShard: "rgood env (handleRegisterShard cr env req)"
  by (auto simp: handleRegisterShard_def register_redeem_def register_verify_def
      intro!: stable_intros rgood_register_store split: sum.splits option.splits)

lemma rgood_rotation_commit:
  assumes ok: "registry_ok reg" and cap: "within_cap env reg"
  shows "rgood env (map_url url (rotated_shard url old new) reg (\<lambda>updated.
      commit_shards env' updated (rotate_answer url new)))"
proof (rule rgood_map_url [OF _ keeps_url_rotated])
  show "list_all record_ok reg" using ok by (simp add: registry_ok_def)
  fix ys assume ys: "list_all record_ok ys" "map record_url ys = map record_url reg"
  then have "length ys = length reg" by (metis length_map)
  then show "rgood env (commit_shards env' ys (rotate_answer url new))"
    using ys ok cap by (intro rgood_commit) (auto simp: registry_ok_def intro: within_cap_same)
qed

lemma rgood_rotate_apply: "rgood env (rotate_apply cr env q)"
  unfolding rotate_apply_def Let_def
proof (rule rgood_getRegisteredShards)
  fix reg assume ok: "registry_ok reg" and cap: "within_cap env reg"
  note upd = rgood_rotation_commit [OF ok cap]
  show "rgood env (attempt (find_url (ro_url q) reg) (\<lambda>record.
       case record of
         None \<Rightarrow> Return (jsonErr R_ShardNotFound 404)
       | Some r \<Rightarrow>
           attempt (js_lower (js_prop r ''pubkey'')) (\<lambda>current.
           attempt (js_lower (ro_old q)) (\<lambda>oldLower.
           if current \<noteq> oldLower then Return (jsonErr R_OldPubkeyMismatch 401)
           else
             attempt (js_lower (ro_new q)) (\<lambda>newLower.
             if \<not> verifyEd25519 cr (js_string (ro_old q))
                 (rotation_message ''key_rotation'' (ro_url q) oldLower newLower (js_string (ro_timestamp q))) (ro_oldSig q)
             then Return (jsonErr R_OldSigFailed 401)
             else if \<not> verifyEd25519 cr (js_string (ro_new q))
                 (rotation_message ''key_rotation_accept'' (ro_url q) oldLower newLower (js_string (ro_timestamp q))) (ro_newSig q)
             then Return (jsonErr R_NewSigFailed 401)
             else
               map_url (ro_url q) (rotated_shard (ro_url q) oldLower newLower) reg (\<lambda>updated.
                 commit_shards env updated (rotate_answer (ro_url q) newLower)))))))"
    by (auto intro!: stable_intros upd split: option.splits)
qed

lemma rgood_handleRotateShardKey: "rgood env (handleRotateShardKey cr env req)"
  by (auto simp: handleRotateShardKey_def intro!: stable_intros rgood_rotate_apply split: sum.splits)

lemma rgood_handlePowChallenge: "rgood env (handlePowChallenge env req)"
  by (auto simp: handlePowChallenge_def randomHex_def Let_def intro!: stable_intros)

lemma rgood_signed [stable_intros]:
  "(\<And>t. rgood env (k t)) \<Longrightarrow> rgood env (buildSignedRoutingTable cr env k)"
  "(\<And>t. rgood env (k t)) \<Longrightarrow> rgood env (buildSignedResponse cr env rid st body k)"
  "(\<And>v rs. rgood env (k' v rs)) \<Longrightarrow> rgood env (pushRoutingTableToShards cr env urls k')"
  by (auto simp: buildSignedRoutingTable_def buildSignedResponse_def pushRoutingTableToShards_def Let_def
      intro!: stable_intros)

lemma rgood_handleRegister: "rgood env (handleRegister cr env urls req)"
  by (auto simp: handleRegister_def register_mint_def register_finish_def randomHex_def Let_def
      intro!: stable_intros split: sum.splits list.splits option.splits)

lemma rgood_resolve_eras: "rgood env (resolve_eras cr env pk m urls ns)"
  by (induction ns) (auto simp: Let_def intro!: stable_intros)

lemma rgood_handleResolve: "rgood env (handleResolve cr env urls req)"
  by (auto simp: handleResolve_def Let_def intro!: stable_intros rgood_resolve_eras split: option.splits)

lemma rgood_routes:
  "rgood env (handleRoutingTable cr env)"
  "rgood env (handleStatus env cache urls)"
  "rgood env (router_handleServerHello cr env req)"
  "rgood env (handlePushRoutingTable cr env urls req)"
  "rgood env (handleAdminConfig env urls req)"
  by (auto simp: handleRoutingTable_def handleStatus_def getHealthyShards_def router_handleServerHello_def
      handlePushRoutingTable_def handleAdminConfig_def Let_def intro!: stable_intros
      split: option.splits sum.splits prod.splits)

lemma rgood_route: "rgood env (router_route cr env cache urls req)"
  unfolding router_route_def Let_def
  by (simp add: stable_bind rgood_routes rgood_handleRegister rgood_handleResolve rgood_handleRegisterShard
      rgood_handleRotateShardKey rgood_handlePowChallenge)

lemma rgood_try_urls: "rgood env (try_shard_urls env)"
  by (auto simp: try_shard_urls_def intro!: stable_intros)

lemma rgood_router_fetch: "rgood env (router_fetch cr env cache req)"
  by (auto simp: router_fetch_def intro!: stable_intros rgood_route rgood_try_urls split: option.splits)

lemma rgood_router_scheduled: "rgood env (router_scheduled cr env)"
  by (auto simp: router_scheduled_def Let_def intro!: stable_intros rgood_try_urls split: option.splits)

section \<open>Every interleaving\<close>

definition router_programs :: "crypto \<Rightarrow> env \<Rightarrow> unit prog set" where
  "router_programs cr env =
     {bind (router_fetch cr env cache req) (\<lambda>_. Return ()) | cache req. True} \<union> {router_scheduled cr env}"

interpretation router_kv: kv_worker "router_programs cr env" "router_value env" for cr env
proof
  fix p assume "p \<in> router_programs cr env"
  then show "rgood env p"
    by (auto simp: router_programs_def intro!: stable_bind rgood_router_fetch rgood_router_scheduled)
qed

end
