(* ===== verification/Concrete.thy ===== *)
theory Concrete
  imports MeshProtocol ShardInvariant RouterInvariant
begin

text \<open>
  A concrete platform: a signature scheme in which a key signs for itself, the \<open>ideal\<close>
  service with a given store and clock, a configured environment.  The properties are applied
  to it to show that their hypotheses can hold.
\<close>

definition demo :: crypto where
  "demo =
     \<lparr> sha256 = (\<lambda>m. take 32 (m @ replicate 32 0)),
       hmac = (\<lambda>k m. take 32 (k @ m @ replicate 32 0)),
       ed_import = (\<lambda>k. True),
       ed_sign = (\<lambda>k m. take 64 (k @ m @ replicate 64 0)),
       ed_verify = (\<lambda>k sig m. Some (sig = take 64 (k @ m @ replicate 64 0))) \<rparr>"

lemma demo_pair [simp]: "key_pair demo k k"
  by (simp add: key_pair_def demo_def)

lemma demo_import [simp]: "ed_import demo k"
  by (simp add: demo_def)

lemma demo_sizes [simp]: "standard_sizes demo"
  by (auto simp: standard_sizes_def demo_def min_def)

definition key_a :: "byte list" where "key_a = replicate 32 1"
definition key_b :: "byte list" where "key_b = replicate 32 2"

lemma keys [simp]: "length key_a = 32" "length key_b = 32" "key_a \<noteq> key_b" "key_b \<noteq> key_a"
  by (simp_all add: key_a_def key_b_def)

lemma keys_not_Nil [simp]: "key_a \<noteq> []" "key_b \<noteq> []"
  by (simp_all add: key_a_def key_b_def)

definition demo_env :: env where
  "demo_env =
     \<lparr> SERVER_SECRET = Some ''secret'', ROUTER_SIGNING_KEY = Some (btoa key_a),
       ROUTER_SIGNING_PUBLIC = Some (bytesToHex key_a), ROUTER_SHARED_SECRET = None,
       ROUTER_URL = Some ''https://router'', SELF_URL = Some ''https://shard'', SHARD_URLS = None,
       PRIOR_SHARD_COUNTS = None, ROUTING_TABLE_VERSION = None, REPLICATION_FACTOR = None,
       SHARD_POW_DIFFICULTY_BITS = None, MAX_REGISTERED_SHARDS = None, limit_var = (\<lambda>_. None),
       has_MAILBOX_KV = True, has_ROUTER_ADMIN_KV = True \<rparr>"

lemma demo_env_simps [simp]:
  "SERVER_SECRET demo_env = Some ''secret''" "ROUTER_SIGNING_KEY demo_env = Some (btoa key_a)"
  "ROUTER_SIGNING_PUBLIC demo_env = Some (bytesToHex key_a)" "has_ROUTER_ADMIN_KV demo_env"
  "MAX_REGISTERED_SHARDS demo_env = None" "REPLICATION_FACTOR demo_env = None"
  "PRIOR_SHARD_COUNTS demo_env = None" "SHARD_URLS demo_env = None" "ROUTING_TABLE_VERSION demo_env = None"
  "SELF_URL demo_env = Some ''https://shard''" "ROUTER_SHARED_SECRET demo_env = None"
  "SHARD_POW_DIFFICULTY_BITS demo_env = None"
  by (simp_all add: demo_env_def)

lemma demo_router_key [simp]: "router_key demo demo_env key_a key_a"
  by (simp add: router_key_def)

definition silent :: "world service" where
  "silent = ideal (\<lambda>_. [])"

definition world_at :: "(string \<Rightarrow> string option) \<Rightarrow> (string \<Rightarrow> string option) \<Rightarrow> int \<Rightarrow> world" where
  "world_at mailboxes admin now =
     \<lparr> w_store = (\<lambda>n. case n of MAILBOX_KV \<Rightarrow> mailboxes | ROUTER_ADMIN_KV \<Rightarrow> admin), w_clock = now, w_seed = 7 \<rparr>"

lemma silent_isolated [simp]: "isolated silent"
  by (simp add: silent_def ideal_isolated)

lemma world_simps [simp]:
  "sv_view silent (world_at m a now) MAILBOX_KV = m" "sv_view silent (world_at m a now) ROUTER_ADMIN_KV = a"
  "sv_clock silent (world_at m a now) = now"
  by (simp_all add: silent_def ideal_def world_at_def)

lemma silent_steps:
  "sv_get silent w n k = (Inr (w_store w n k), w)"
  "ttl_ok t \<Longrightarrow> sv_put silent w n k v t = (None, w\<lparr>w_store := (w_store w)(n := (w_store w n)(k \<mapsto> v))\<rparr>)"
  "sv_now silent w = (w_clock w, w)"
  "sv_random silent w m = (replicate m (of_nat (w_seed w)), w\<lparr>w_seed := Suc (w_seed w)\<rparr>)"
  by (simp_all add: silent_def ideal_def)

lemma silent_clock: "sv_clock silent (snd (run silent p w)) = sv_clock silent w"
  using ideal_clock [of "\<lambda>_. []" p w] by (simp add: silent_def) (simp add: ideal_def)

text \<open>The same worlds under other networks, and with a given next key.\<close>

lemma ideal_simps:
  "sv_view (ideal net) (world_at m a now) MAILBOX_KV = m" "sv_clock (ideal net) (world_at m a now) = now"
  "sv_get (ideal net) w n k = (Inr (w_store w n k), w)"
  "net rs = [r] \<Longrightarrow> length rs = 1 \<Longrightarrow> fst (sv_fetch (ideal net) w rs) = [r]"
  by (auto simp: ideal_def world_at_def)

definition minting :: "byte list \<Rightarrow> world service" where
  "minting key = silent\<lparr>sv_generate_key := (\<lambda>w. ((key, key), w))\<rparr>"

lemma minting_isolated [simp]: "isolated (minting key)"
  using silent_isolated by (simp add: isolated_def minting_def keeps_def)

lemma minting_simps [simp]:
  "sv_view (minting key) (world_at m a now) MAILBOX_KV = m" "sv_clock (minting key) (world_at m a now) = now"
  "fst (sv_generate_key (minting key) w) = (key, key)"
  by (simp_all add: minting_def)

definition with_identity :: "byte list \<Rightarrow> string \<Rightarrow> string option" where
  "with_identity key = [SHARD_IDENTITY_KV_KEY \<mapsto> json_stringify (identity_json key key)]"

lemma identity_stored_demo [simp]: "identity_stored (with_identity key) key key"
  by (simp add: identity_stored_def with_identity_def)

lemma DEFAULTS_simps [simp]:
  "MAX_MESSAGES DEFAULTS = Some 50" "MAX_MSG_BYTES DEFAULTS = Some 32768" "TTL_SECONDS DEFAULTS = Some 1209600"
  "MAILBOX_TTL_SECONDS DEFAULTS = Some 31536000" "MAX_CLOCK_SKEW DEFAULTS = Some 30000"
  "MAX_SENDS_PER_SENDER DEFAULTS = Some 30" "MAX_SENDS_PER_TARGET DEFAULTS = Some 60"
  "MAX_SENDS_PER_IP DEFAULTS = Some 120" "MAX_CREATES_PER_IP DEFAULTS = Some 20"
  "MAX_REPLICATES_PER_ORIGIN DEFAULTS = Some 200"
  by (simp_all add: DEFAULTS_def)

lemma ttl_defaults [simp]: "ttl_ok (Some (Some 31536000))"
  by (simp add: ttl_ok_def)

text \<open>A POST with a JSON body, a GET with query parameters.\<close>

definition post :: "string \<Rightarrow> json \<Rightarrow> request" where
  "post path body =
     \<lparr> req_method = ''POST'', req_path = path, req_query = [], req_headers = [], req_body = json_stringify body \<rparr>"

definition get :: "string \<Rightarrow> (string \<times> string) list \<Rightarrow> request" where
  "get path query =
     \<lparr> req_method = ''GET'', req_path = path, req_query = query, req_headers = [], req_body = [] \<rparr>"

lemma post_body [simp]: "wf_json (JObj kvs) \<Longrightarrow> body_of (post path (JObj kvs)) = Some (JObj kvs)"
  by (rule body_of_text) (simp_all add: post_def del: wf_json.simps)

lemma get_simps [simp]: "req_query (get path query) = query" "req_headers (get path query) = []"
  by (simp_all add: get_def)

lemma post_headers [simp]: "req_headers (post path body) = []" "clientIp (post path body) = ''unknown''"
  by (simp_all add: post_def clientIp_def)

lemma under_limit_empty [simp]: "under_limit Map.empty now b (Some l) w \<longleftrightarrow> 0 < l"
  by (auto simp: under_limit_def)

lemma under_limit_other [simp]:
  "kv (window_key b w now) = None \<Longrightarrow> under_limit kv now b (Some l) w \<longleftrightarrow> 0 < l"
  by (auto simp: under_limit_def)

text \<open>A stored mailbox.\<close>

definition mailbox_text :: "string \<Rightarrow> json list \<Rightarrow> int option \<Rightarrow> string" where
  "mailbox_text hash messages enqueued =
     json_stringify (JObj [(''readSecretHash'', JStr hash), (''messages'', JArr messages), (''createdAt'', JNum 0),
       (''messagesEnqueuedAt'', enqueued_json enqueued), (''replicaShardUrls'', JArr [])])"

definition mailbox_rec :: "string \<Rightarrow> json list \<Rightarrow> int option \<Rightarrow> mailbox" where
  "mailbox_rec hash messages enqueued =
     \<lparr> mb_hash = hash, mb_messages = messages, mb_created = 0, mb_enqueued = enqueued, mb_replicas = JArr [] \<rparr>"

lemma mailbox_rec_simps [simp]:
  "mb_messages (mailbox_rec h ms e) = ms" "mb_hash (mailbox_rec h ms e) = h" "mb_created (mailbox_rec h ms e) = 0"
  "purge t now (mailbox_rec h ms None) = mailbox_rec h ms None"
  "purge (Some l) now (mailbox_rec h ms (Some t0)) =
     (if l \<le> (now - t0) div 1000 then mailbox_rec h [] None else mailbox_rec h ms (Some t0))"
  "drain (mailbox_rec h ms en) = mailbox_rec h [] None"
  by (simp_all add: mailbox_rec_def purge_def stale_def drain_def)

definition holding :: "string \<Rightarrow> string \<Rightarrow> json list \<Rightarrow> int option \<Rightarrow> string \<Rightarrow> string option" where
  "holding mid hash messages enqueued = [mailbox_key mid \<mapsto> mailbox_text hash messages enqueued]"

lemma mailbox_at_holding [simp]:
  assumes "list_all wf_json messages"
  shows "mailbox_at (holding mid hash messages enqueued) mid (mailbox_rec hash messages enqueued)"
  using assms
  by (cases enqueued) (auto simp: mailbox_at_def holding_def mailbox_text_def represents_def mailbox_rec_def
      enqueued_json_def obj_canonical_def key_precedes_def is_digit_def list_all_iff)

lemma mailbox_not_window [simp]: "window_key b w now \<noteq> mailbox_key mid" "auth_replay_key cr a \<noteq> mailbox_key mid"
  by (metis mailbox_key_not_mark mark_key_window, metis mailbox_key_not_mark mark_key_replay(2))

lemma holding_other [simp]:
  "holding mid hash ms e (window_key b w now) = None" "holding mid hash ms e (auth_replay_key cr a) = None"
  "holding mid hash ms e (replay_key cr pk ts sig) = None"
  by (simp_all add: holding_def) (metis mailbox_key_not_mark mark_key_replay(1))

definition mbox :: string where "mbox = replicate 64 (CHR ''c'')"

lemma mbox_simps [simp]: "hex_re 16 128 mbox" "mbox \<noteq> []" "lower mbox = mbox"
  by (simp_all add: mbox_def hex_re_def is_hex_char_def lower_def lower_char_def)

lemma key_hex [simp]: "hex_re 64 64 (bytesToHex key_a)" "hex_re 64 64 (bytesToHex key_b)"
    "bytesToHex key_a \<noteq> []" "bytesToHex key_b \<noteq> []"
  using hex_64 [of key_a] hex_64 [of key_b] by simp_all

end
