(* ===== verification/ShardProperties.thy ===== *)
theory ShardProperties
  imports Concrete
begin

text \<open>
  The properties of the Shard worker: the life of a mailbox (create, send, read), the
  authentication in front of it, the replicas, the cached table, and what holds of the KV
  store under every interleaving of its requests.  Each property that has hypotheses is
  applied to the concrete platform of \<open>Concrete\<close> right after it.
\<close>

section \<open>Sending to a mailbox\<close>

text \<open>C5 A send that passes the checks of \<open>handleSend\<close> and finds room appends exactly one
  entry, with a fresh 16-character id, the clock as its time and the sender's key, to the mailbox
  (after a backlog older than the TTL is dropped), and answers with the new number of
  messages.\<close>

theorem send_appends:
  assumes iso: "isolated sv" and skew: "MAX_CLOCK_SKEW cfg \<noteq> None" and ttl: "ttl_ok (Some (MAILBOX_TTL_SECONDS cfg))"
    and body: "body_of req = Some body" and q: "send_request cfg body = Inr q" and plain: "js_prop body ''request_id'' = None"
    and pass: "send_verdict cr (sv_view sv s MAILBOX_KV) (sv_clock sv s) cfg req q = None"
    and at: "mailbox_at (sv_view sv s MAILBOX_KV) (sq_mailboxId q) mb"
    and room: "\<not> num_ge (Some (int (length (mb_messages (purge (TTL_SECONDS cfg) (sv_clock sv s) mb))))) (MAX_MESSAGES cfg)"
  shows "\<exists>entryId. length entryId = 16 \<and>
    (let kept = purge (TTL_SECONDS cfg) (sv_clock sv s) mb;
         entry = new_entry entryId (sv_clock sv s) (sq_message q) (sq_senderPubkey q) in
     fst (run sv (handleSend cr cfg req) s) =
       Done (json (send_result (Some (int (Suc (length (mb_messages kept)))))) 200 []) \<and>
     mailbox_at (sv_view sv (snd (run sv (handleSend cr cfg req) s)) MAILBOX_KV) (sq_mailboxId q)
       (deposit entry (sv_clock sv s) kept))"
  using assms by (rule handleSend_appends)

definition demo_send :: "string \<Rightarrow> int \<Rightarrow> json" where
  "demo_send message now =
     (let sender = (\<lambda>sig. JObj [(''pubkey'', JStr (bytesToHex key_b)), (''timestamp'', JStr (str_of_int now)),
                               (''signature'', JStr sig)]);
          q = (\<lambda>sig. \<lparr> sq_mailboxId = mbox, sq_message = message, sq_senderPubkey = bytesToHex key_b,
                      sq_sender = Some (sender sig) \<rparr>)
      in JObj [(''mailbox_id'', JStr mbox), (''message'', JStr message),
               (''sender'', sender (signWithShardKey demo key_b (send_signed_message demo (q []))))])"

definition demo_send_req :: "string \<Rightarrow> int \<Rightarrow> send_req" where
  "demo_send_req message now =
     \<lparr> sq_mailboxId = mbox, sq_message = message, sq_senderPubkey = bytesToHex key_b,
       sq_sender = js_prop (demo_send message now) ''sender'' \<rparr>"

lemma demo_send_props [simp]:
  "sq_mailboxId (demo_send_req m n) = mbox" "sq_message (demo_send_req m n) = m"
  "sq_senderPubkey (demo_send_req m n) = bytesToHex key_b" "js_prop (demo_send m n) ''request_id'' = None"
  by (simp_all add: demo_send_req_def demo_send_def Let_def)

lemma demo_send_body [simp]: "body_of (post ''/send'' (demo_send m now)) = Some (demo_send m now)"
  unfolding demo_send_def Let_def
  by (rule post_body) (simp add: obj_canonical_def key_precedes_def is_digit_def)

lemma demo_send_request [simp]:
  "int (length (utf8 m)) \<le> 32768 \<Longrightarrow> m \<noteq> [] \<Longrightarrow> send_request DEFAULTS (demo_send m now) = Inr (demo_send_req m now)"
  by (simp add: send_request_def demo_send_def demo_send_req_def Let_def opt_prop_def num_gt_def)

lemma demo_send_passes:
  assumes "0 \<le> now" and "message_shape_error m = None"
    and "present (kv (auth_replay_key demo (sq_sender (demo_send_req m now)))) = None"
    and "\<And>b. kv (window_key b 60 now) = None"
  shows "send_verdict demo kv now DEFAULTS (post p body) (demo_send_req m now) = None"
proof -
  let ?q = "demo_send_req m now"
  let ?msg = "send_signed_message demo ?q"
  let ?sig = "signWithShardKey demo key_b ?msg"
  have sig: "sq_sender ?q = Some (JObj [(''pubkey'', JStr (bytesToHex key_b)), (''timestamp'', JStr (str_of_int now)),
      (''signature'', JStr ?sig)])"
    by (simp add: demo_send_req_def demo_send_def Let_def send_signed_message_def opt_prop_def)
  have "sender_decision demo kv now (sq_sender ?q) (Some 30000) ?msg = None"
    using assms(1,3) hex_signature [OF demo_sizes, of key_b ?msg] verify_own_signature [OF demo_pair, of key_b ?msg]
      digits_re_clock [OF assms(1)]
    unfolding sender_decision_None
    by (simp add: sig opt_prop_def auth_replay_key_def js_string_def outside_skew_iff)
  then show ?thesis using assms by (simp add: send_verdict_def)
qed

theorem send_appends_witness:
  "\<exists>entryId. length entryId = 16 \<and>
     mailbox_at (sv_view silent (snd (run silent (handleSend demo DEFAULTS (post ''/send'' (demo_send ''hello'' 5)))
         (world_at (holding mbox ''h'' [] None) Map.empty 5))) MAILBOX_KV) mbox
       (deposit (new_entry entryId 5 ''hello'' (bytesToHex key_b)) 5 (mailbox_rec ''h'' [] None))"
proof -
  have shape: "message_shape_error ''hello'' = None" and len: "int (length (utf8 ''hello'')) \<le> 32768"
    by code_simp+
  show ?thesis
    using send_appends [where sv = silent and cr = demo and cfg = DEFAULTS and req = "post ''/send'' (demo_send ''hello'' 5)"
        and s = "world_at (holding mbox ''h'' [] None) Map.empty 5" and q = "demo_send_req ''hello'' 5"
        and mb = "mailbox_rec ''h'' [] None", OF silent_isolated _ _ demo_send_body] len
    by (auto simp: demo_send_passes shape)
qed

text \<open>A full mailbox refuses the send with 429, and what it holds stays as it was.\<close>

theorem send_full:
  assumes iso: "isolated sv" and skew: "MAX_CLOCK_SKEW cfg \<noteq> None"
    and body: "body_of req = Some body" and q: "send_request cfg body = Inr q"
    and pass: "send_verdict cr (sv_view sv s MAILBOX_KV) (sv_clock sv s) cfg req q = None"
    and at: "mailbox_at (sv_view sv s MAILBOX_KV) (sq_mailboxId q) mb"
    and full: "num_ge (Some (int (length (mb_messages (purge (TTL_SECONDS cfg) (sv_clock sv s) mb))))) (MAX_MESSAGES cfg)"
  shows "fst (run sv (handleSend cr cfg req) s) =
      Done (err (MailboxFull (MAX_MESSAGES cfg)) 429 [(''Retry-After'', ''3600'')]) \<and>
    mailbox_at (sv_view sv (snd (run sv (handleSend cr cfg req) s)) MAILBOX_KV) (sq_mailboxId q) mb"
proof -
  obtain s1 where s1: "same_records sv s s1" "run sv (handleSend cr cfg req) s = run sv (send_deposit cr cfg body q) s1"
    using run_handleSend [OF iso skew body q, where cr = cr and s = s] pass by auto
  have at1: "mailbox_at (sv_view sv s1 MAILBOX_KV) (sq_mailboxId q) mb"
    using at mailbox_at_same_records [OF s1(1)] by simp
  obtain st s2 where s2: "run sv (send_deposit cr cfg body q) s1 = run sv (send_append cr cfg body q st) s2"
      "represents st (purge (TTL_SECONDS cfg) (sv_clock sv s) mb)" "sv_view sv s2 = sv_view sv s1"
    using run_send_deposit [OF iso at1, where cr = cr and cfg = cfg and body = body] same_recordsD(2) [OF s1(1)] by auto
  show ?thesis
    using at1 by (simp add: s1 s2 run_send_append_full [OF s2(2) full])
qed

text \<open>A mailbox of 50 messages, the default capacity.\<close>

theorem send_full_witness:
  "fst (run silent (handleSend demo DEFAULTS (post ''/send'' (demo_send ''hello'' 5)))
      (world_at (holding mbox ''h'' (replicate 50 (JStr ''m'')) None) Map.empty 5)) =
    Done (err (MailboxFull (Some 50)) 429 [(''Retry-After'', ''3600'')])"
proof -
  have shape: "message_shape_error ''hello'' = None" and len: "int (length (utf8 ''hello'')) \<le> 32768"
    by code_simp+
  show ?thesis
    using send_full [where sv = silent and cr = demo and cfg = DEFAULTS and req = "post ''/send'' (demo_send ''hello'' 5)"
        and s = "world_at (holding mbox ''h'' (replicate 50 (JStr ''m'')) None) Map.empty 5" and q = "demo_send_req ''hello'' 5"
        and mb = "mailbox_rec ''h'' (replicate 50 (JStr ''m'')) None", OF silent_isolated _ demo_send_body] len
    by (auto simp: demo_send_passes shape)
qed

text \<open>C6 On any platform, and whatever it answers, a send whose signature does not verify for the
  sender's key over mailbox, timestamp and message hash writes no mailbox, starts no replication and
  contacts no other server: it can leave rate-limit counters and replay marks only.\<close>

theorem send_unverified_writes_nothing:
  assumes "\<And>body q. body_of req = Some body \<Longrightarrow> send_request cfg body = Inr q \<Longrightarrow> \<not> sender_verified cr q"
    and "e \<in> set (trace sv (handleSend cr cfg req) s)"
  shows "writes_marks_only e"
  by (rule emits_trace [OF emits_handleSend_unverified assms(2)]) (rule assms(1))

theorem send_unverified_writes_nothing_witness:
  "list_all writes_marks_only (trace silent (handleSend (demo\<lparr>ed_verify := \<lambda>_ _ _. None\<rparr>) DEFAULTS
      (post ''/send'' (demo_send ''hello'' 5))) (world_at (holding mbox ''h'' [] None) Map.empty 5))"
  unfolding list_all_iff
  by (intro ballI, rule send_unverified_writes_nothing [rotated])
    (auto simp: sender_verified_def verifyEd25519Message_def split: sum.splits)

section \<open>Replayed requests\<close>

text \<open>C18 A sender authentication that was accepted is marked under its key, timestamp and
  signature, and the same authentication is refused, for whatever message it is presented, in every
  later state in which the mark is still stored.\<close>

theorem sender_auth_once:
  assumes "isolated sv" and "maxSkew \<noteq> None"
    and "fst (run sv (verifySenderAuth cr auth maxSkew msg Return) s) = Done None"
  shows "sv_view sv (snd (run sv (verifySenderAuth cr auth maxSkew msg Return) s)) MAILBOX_KV (auth_replay_key cr auth) = Some ''1'' \<and>
    (\<forall>s' msg'. sv_view sv s' MAILBOX_KV (auth_replay_key cr auth) = Some ''1'' \<longrightarrow>
       fst (run sv (verifySenderAuth cr auth maxSkew msg' Return) s') \<noteq> Done None)"
proof -
  have run: "run sv (verifySenderAuth cr auth maxSkew m Return) t =
      (Done (sender_decision cr (sv_view sv t MAILBOX_KV) (sv_clock sv t) auth maxSkew m), sender_next sv t cr auth maxSkew m)" for m t
    using assms(1,2) by (simp add: run_verifySenderAuth)
  have "sender_decision cr (sv_view sv s MAILBOX_KV) (sv_clock sv s) auth maxSkew msg = None"
    using assms(3) by (simp add: run)
  then have "sv_view sv (sender_next sv s cr auth maxSkew msg) MAILBOX_KV (auth_replay_key cr auth) = Some ''1''"
    by (simp add: view_sender_next [OF assms(1,2)])
  moreover have "sender_decision cr (sv_view sv s' MAILBOX_KV) (sv_clock sv s') auth maxSkew msg' \<noteq> None"
    if "sv_view sv s' MAILBOX_KV (auth_replay_key cr auth) = Some ''1''" for s' msg'
    by (rule sender_decision_replayed) (simp add: that)
  ultimately show ?thesis by (simp add: run)
qed

theorem sender_auth_once_witness:
  "\<exists>auth msg. fst (run silent (verifySenderAuth demo auth (Some 30000) msg Return) (world_at Map.empty Map.empty 5)) = Done None \<and>
     fst (run silent (verifySenderAuth demo auth (Some 30000) msg Return)
       (snd (run silent (verifySenderAuth demo auth (Some 30000) msg Return) (world_at Map.empty Map.empty 5)))) \<noteq> Done None"
proof -
  let ?q = "demo_send_req ''hello'' 5" and ?s = "world_at Map.empty Map.empty 5"
  have shape: "message_shape_error ''hello'' = None" by code_simp
  have "send_verdict demo Map.empty 5 DEFAULTS (post ''/send'' (JObj [])) ?q = None"
    by (rule demo_send_passes) (simp_all add: shape)
  then have "sender_decision demo Map.empty 5 (sq_sender ?q) (Some 30000) (send_signed_message demo ?q) = None"
    by (simp add: send_verdict_def split: option.splits)
  then have ok: "fst (run silent (verifySenderAuth demo (sq_sender ?q) (Some 30000) (send_signed_message demo ?q) Return) ?s) = Done None"
    by (simp add: run_verifySenderAuth)
  show ?thesis
    using ok sender_auth_once [OF silent_isolated _ ok] by blast
qed

text \<open>C19 The replay mark outlives the window in which its timestamp is accepted exactly when the
  allowed skew is below 30 seconds: with a larger \<open>MAX_CLOCK_SKEW\<close> (the default is 30000) a
  request can be accepted again after its mark expired.\<close>

theorem replay_mark_covers_window:
  assumes "0 \<le> m" and "replay_ttl (Some m) = Some ttl"
  shows "(\<forall>ts t1 t2. \<not> outside_skew t1 (Some ts) (Some m) \<and> \<not> outside_skew t2 (Some ts) (Some m)
            \<longrightarrow> t2 < t1 + 1000 * ttl) \<longleftrightarrow> m < 30000"
  using replay_window [OF assms] .

theorem replay_mark_covers_window_witness:
  "\<not> (\<forall>ts t1 t2. \<not> outside_skew t1 (Some ts) (Some 30000) \<and> \<not> outside_skew t2 (Some ts) (Some 30000) \<longrightarrow> t2 < t1 + 60000)"
  using replay_mark_covers_window [of 30000 60] by (simp add: replay_ttl_def)

section \<open>Reading a mailbox\<close>

text \<open>C7 A read with the right secret answers with exactly the messages of the mailbox, in
  order (none when the backlog is older than the TTL); a plain read empties the mailbox, a peek leaves it.\<close>

theorem read_returns:
  assumes iso: "isolated sv" and ttl: "ttl_ok (Some (MAILBOX_TTL_SECONDS cfg))" and q: "query_mailbox req = Some mid"
    and secret: "map_of (req_query req) ''read_secret'' = Some secret" "secret \<noteq> []"
    and plain: "map_of (req_query req) ''request_id'' = None"
    and adm: "\<not> read_limited (sv_view sv s MAILBOX_KV) (sv_clock sv s) req"
    and at: "mailbox_at (sv_view sv s MAILBOX_KV) mid mb"
    and auth: "read_secret_ok cr secret (Some (JStr (mb_hash mb)))"
  shows "let peek = (map_of (req_query req) ''peek'' = Some ''1''); kept = purge (TTL_SECONDS cfg) (sv_clock sv s) mb in
    fst (run sv (handleRead cr cfg req) s) = Done (json (read_view kept peek) 200 []) \<and>
    mailbox_at (sv_view sv (snd (run sv (handleRead cr cfg req) s)) MAILBOX_KV) mid (if peek then kept else drain kept)"
  using assms by (rule handleRead_returns)

lemma demo_query [simp]:
  "query_mailbox (get p ((''mailbox_id'', mbox) # q)) = Some mbox"
  by (simp add: query_mailbox_def str_val_def str_test_def)

lemma demo_secret [simp]: "read_secret_ok demo s (Some (JStr (sha256Hex demo s)))"
proof -
  have "length (sha256 demo (utf8 s)) = 32" for s using demo_sizes by (simp add: standard_sizes_def)
  moreover have "length (utf8 (sha256Hex demo s)) < 2 ^ 32"
    using sha256Hex_hex(1) [OF demo_sizes, of s] by (simp add: length_utf8_hex hex_re_def)
  ultimately show ?thesis by (simp add: read_secret_ok_iff)
qed

theorem read_returns_witness:
  "fst (run silent (handleRead demo DEFAULTS (get ''/read'' [(''mailbox_id'', mbox), (''read_secret'', ''key'')]))
      (world_at (holding mbox (sha256Hex demo ''key'') [JStr ''a'', JStr ''b''] (Some 3)) Map.empty 5)) =
     Done (json (read_view (mailbox_rec (sha256Hex demo ''key'') [JStr ''a'', JStr ''b''] (Some 3)) False) 200 [])"
  using read_returns [where sv = silent and cr = demo and cfg = DEFAULTS and mid = mbox and secret = "''key''"
      and req = "get ''/read'' [(''mailbox_id'', mbox), (''read_secret'', ''key'')]"
      and s = "world_at (holding mbox (sha256Hex demo ''key'') [JStr ''a'', JStr ''b''] (Some 3)) Map.empty 5"
      and mb = "mailbox_rec (sha256Hex demo ''key'') [JStr ''a'', JStr ''b''] (Some 3)", OF silent_isolated]
  by (simp add: read_limited_def Let_def)

text \<open>A wrong secret is refused with 401 and changes no stored mailbox, table or identity: the
  only trace is the rate-limit counter.\<close>

theorem read_wrong_secret:
  assumes iso: "isolated sv" and q: "query_mailbox req = Some mid"
    and secret: "map_of (req_query req) ''read_secret'' = Some secret" "secret \<noteq> []"
    and adm: "\<not> read_limited (sv_view sv s MAILBOX_KV) (sv_clock sv s) req"
    and at: "mailbox_at (sv_view sv s MAILBOX_KV) mid mb"
    and sizes: "length (sha256 cr (utf8 secret)) = 32" "length (utf8 (mb_hash mb)) < 2 ^ 32"
    and wrong: "mb_hash mb \<noteq> sha256Hex cr secret"
  shows "fst (run sv (handleRead cr cfg req) s) = Done (err InvalidReadSecret 401 []) \<and>
    same_records sv s (snd (run sv (handleRead cr cfg req) s))"
proof -
  have "\<not> read_secret_ok cr secret (Some (JStr (mb_hash mb)))"
    using wrong by (simp add: read_secret_ok_iff [OF sizes])
  then show ?thesis
    using run_handleRead [OF iso q secret adm at, where cr = cr and cfg = cfg] by auto
qed

text \<open>In particular a mailbox with the empty hash of a replica shell is opened by no secret.\<close>

theorem read_wrong_secret_witness:
  "fst (run silent (handleRead demo DEFAULTS (get ''/read'' [(''mailbox_id'', mbox), (''read_secret'', ''key'')]))
      (world_at (holding mbox [] [JStr ''a''] None) Map.empty 5)) = Done (err InvalidReadSecret 401 [])"
proof -
  have "length (sha256 demo (utf8 ''key'')) = 32" using demo_sizes by (simp add: standard_sizes_def)
  moreover have "sha256Hex demo ''key'' \<noteq> []" by (rule sha256Hex_hex(2)) simp
  ultimately show ?thesis
    using read_wrong_secret [where sv = silent and cr = demo and cfg = DEFAULTS and mid = mbox and secret = "''key''"
        and req = "get ''/read'' [(''mailbox_id'', mbox), (''read_secret'', ''key'')]"
        and s = "world_at (holding mbox [] [JStr ''a''] None) Map.empty 5" and mb = "mailbox_rec [] [JStr ''a''] None", OF silent_isolated]
    by (simp add: read_limited_def)
qed

section \<open>Creating a mailbox\<close>

text \<open>C8 A create request without a capability the Router signed for it (or with an expired one)
  is refused with 401 and leaves the whole store as it was.\<close>

theorem create_needs_capability:
  assumes "isolated sv" and "body_of req = Some body" and "create_request body = Inr c"
    and "cq_v2 c \<longrightarrow> cq_clientPubkey c = Some (JStr pk)"
    and "\<not> cap_accepted cr env (sv_clock sv s) c"
  shows "fst (run sv (handleCreate cr env cfg req) s) = Done (err InvalidCapability 401 []) \<and>
    sv_view sv (snd (run sv (handleCreate cr env cfg req) s)) = sv_view sv s"
  using handleCreate_refused [OF assms] by simp

definition demo_create :: "string \<Rightarrow> int \<Rightarrow> json" where
  "demo_create hash capExp =
     JObj [(''mailbox_id'', JStr mbox), (''read_secret_hash'', JStr hash), (''cap_exp'', JNum capExp),
           (''cap_sig'', JStr (signWithShardKey demo key_a
              (cap_message_v2 mbox (bytesToHex key_b) ''mailbox.create'' (Some 100) ''n''))),
           (''cap_version'', JNum 2), (''client_pubkey'', JStr (bytesToHex key_b)), (''cap_nonce'', JStr ''n'')]"

definition demo_create_req :: "string \<Rightarrow> int \<Rightarrow> create_req" where
  "demo_create_req hash capExp =
     \<lparr> cq_mailboxId = mbox, cq_readSecretHash = hash, cq_capExp = Some capExp,
       cq_capSig = signWithShardKey demo key_a (cap_message_v2 mbox (bytesToHex key_b) ''mailbox.create'' (Some 100) ''n''),
       cq_v2 = True, cq_clientPubkey = Some (JStr (bytesToHex key_b)), cq_capNonce = ''n'', cq_safeReplicas = [] \<rparr>"

lemma demo_create_body [simp]: "body_of (post p (demo_create h e)) = Some (demo_create h e)"
  unfolding demo_create_def by (rule post_body) (simp add: obj_canonical_def key_precedes_def is_digit_def)

lemma demo_create_request [simp]:
  "hex_re 64 64 h \<Longrightarrow> e \<noteq> 0 \<Longrightarrow> create_request (demo_create h e) = Inr (demo_create_req h e)"
  using hex_signature(2) [OF demo_sizes]
  by (auto simp: create_request_def demo_create_def demo_create_req_def Let_def coerce_test_def js_string_def
      safe_replicas_def hex_re_def [of 64 64 h])

lemma demo_cap_accepted [simp]: "now \<le> 100 \<Longrightarrow> cap_accepted demo demo_env now (demo_create_req h 100)"
  using verify_own_signature [OF demo_pair, of key_a]
  by (simp add: cap_accepted_def demo_create_req_def verify_with_def)

lemma demo_cap_expired [simp]: "e < now \<Longrightarrow> \<not> cap_accepted demo demo_env now (demo_create_req h e)"
  by (simp add: cap_accepted_def demo_create_req_def)

lemma demo_create_props [simp]:
  "cq_v2 (demo_create_req h e)" "cq_clientPubkey (demo_create_req h e) = Some (JStr (bytesToHex key_b))"
  "cq_mailboxId (demo_create_req h e) = mbox" "cq_readSecretHash (demo_create_req h e) = h"
  "cq_safeReplicas (demo_create_req h e) = []"
  by (simp_all add: demo_create_req_def)

theorem create_needs_capability_witness:
  "fst (run silent (handleCreate demo demo_env DEFAULTS (post ''/create'' (demo_create (bytesToHex key_b) 100)))
      (world_at Map.empty Map.empty 101)) = Done (err InvalidCapability 401 [])"
  using create_needs_capability [OF silent_isolated demo_create_body demo_create_request, of "bytesToHex key_b" 100 _ demo demo_env
      "world_at Map.empty Map.empty 101"] by simp

text \<open>An admitted create request for a new mailbox stores an empty mailbox under the lower-case
  identifier and hash, with the clock as creation time and the string entries of the replica list; the
  answer says \<open>created: true\<close>.\<close>

theorem create_new_mailbox:
  assumes iso: "isolated sv" and body: "body_of req = Some body" and c: "create_request body = Inr c"
    and pk: "cq_v2 c \<longrightarrow> cq_clientPubkey c = Some (JStr pk)" and cap: "cap_accepted cr env (sv_clock sv s) c"
    and adm: "\<not> create_limited (sv_view sv s MAILBOX_KV) (sv_clock sv s) cfg req" and ttl: "ttl_ok (Some (MAILBOX_TTL_SECONDS cfg))"
    and none: "present (sv_view sv s MAILBOX_KV (mailbox_key (cq_mailboxId c))) = None"
  shows "fst (run sv (handleCreate cr env cfg req) s) = Done (create_response (cq_mailboxId c) cfg True) \<and>
    mailbox_at (sv_view sv (snd (run sv (handleCreate cr env cfg req) s)) MAILBOX_KV) (cq_mailboxId c)
      (fresh (lower (cq_readSecretHash c)) (sv_clock sv s) (cq_safeReplicas c))"
proof -
  obtain s1 where s1: "run sv (handleCreate cr env cfg req) s = run sv (create_store cfg c) s1" "same_records sv s s1"
    using run_create_admitted [OF iso body c pk cap adm] by blast
  have "present (sv_view sv s1 MAILBOX_KV (mailbox_key (cq_mailboxId c))) = None"
    using same_recordsD(1) [OF s1(2)] none by simp
  from run_create_store_new [OF iso ttl pk this] show ?thesis
    using same_recordsD(2) [OF s1(2)] by (simp add: s1(1))
qed

theorem create_new_mailbox_witness:
  "mailbox_at (sv_view silent (snd (run silent (handleCreate demo demo_env DEFAULTS (post ''/create'' (demo_create (bytesToHex key_b) 100)))
      (world_at Map.empty Map.empty 5))) MAILBOX_KV) mbox (fresh (bytesToHex key_b) 5 [])"
  using create_new_mailbox [where sv = silent and cr = demo and env = demo_env and cfg = DEFAULTS
      and req = "post ''/create'' (demo_create (bytesToHex key_b) 100)" and c = "demo_create_req (bytesToHex key_b) 100"
      and s = "world_at Map.empty Map.empty 5", OF silent_isolated demo_create_body]
  by (simp add: create_limited_def)

text \<open>A create request for a mailbox that exists keeps its queued messages, its creation time and
  its backlog clock, and replaces the read secret hash (and the replica list when one is given); the
  answer says \<open>created: false\<close>.\<close>

theorem create_again_keeps_messages:
  assumes iso: "isolated sv" and body: "body_of req = Some body" and c: "create_request body = Inr c"
    and pk: "cq_v2 c \<longrightarrow> cq_clientPubkey c = Some (JStr pk)" and cap: "cap_accepted cr env (sv_clock sv s) c"
    and adm: "\<not> create_limited (sv_view sv s MAILBOX_KV) (sv_clock sv s) cfg req" and ttl: "ttl_ok (Some (MAILBOX_TTL_SECONDS cfg))"
    and at: "mailbox_at (sv_view sv s MAILBOX_KV) (cq_mailboxId c) mb"
  shows "fst (run sv (handleCreate cr env cfg req) s) = Done (create_response (cq_mailboxId c) cfg False) \<and>
    mailbox_at (sv_view sv (snd (run sv (handleCreate cr env cfg req) s)) MAILBOX_KV) (cq_mailboxId c)
      (rekey (lower (cq_readSecretHash c)) (cq_safeReplicas c) mb)"
proof -
  obtain s1 where s1: "run sv (handleCreate cr env cfg req) s = run sv (create_store cfg c) s1" "same_records sv s s1"
    using run_create_admitted [OF iso body c pk cap adm] by blast
  have "mailbox_at (sv_view sv s1 MAILBOX_KV) (cq_mailboxId c) mb"
    using at mailbox_at_same_records [OF s1(2)] by simp
  from run_create_store_again [OF iso ttl pk this] show ?thesis by (simp add: s1(1))
qed

lemma rekey_holding [simp]: "rekey h [] (mailbox_rec h' ms e) = mailbox_rec h ms e"
  by (simp add: rekey_def mailbox_rec_def)

theorem create_again_keeps_messages_witness:
  "mailbox_at (sv_view silent (snd (run silent (handleCreate demo demo_env DEFAULTS (post ''/create'' (demo_create (bytesToHex key_b) 100)))
      (world_at (holding mbox ''h'' [JStr ''m''] (Some 2)) Map.empty 5))) MAILBOX_KV) mbox
    (mailbox_rec (bytesToHex key_b) [JStr ''m''] (Some 2))"
  using create_again_keeps_messages [where sv = silent and cr = demo and env = demo_env and cfg = DEFAULTS
      and req = "post ''/create'' (demo_create (bytesToHex key_b) 100)" and c = "demo_create_req (bytesToHex key_b) 100"
      and s = "world_at (holding mbox ''h'' [JStr ''m''] (Some 2)) Map.empty 5" and mb = "mailbox_rec ''h'' [JStr ''m''] (Some 2)",
      OF silent_isolated demo_create_body]
  by (simp add: create_limited_def)

text \<open>C20 A version-2 capability does not cover the read secret hash: who presents a captured one again
  before it expires chooses the secret that opens the mailbox, and reads what is queued there.\<close>

theorem v2_capability_leaves_hash_open:
  assumes iso: "isolated sv" and body: "body_of req = Some body" and c: "create_request body = Inr c"
    and v2: "cq_v2 c" and pk: "cq_clientPubkey c = Some (JStr pk)" and cap: "cap_accepted cr env (sv_clock sv s) c"
    and other: "body_of req' = Some body'" "create_request body' = Inr (c\<lparr>cq_readSecretHash := sha256Hex cr secret\<rparr>)"
    and adm: "\<not> create_limited (sv_view sv s MAILBOX_KV) (sv_clock sv s) cfg req'" and ttl: "ttl_ok (Some (MAILBOX_TTL_SECONDS cfg))"
    and at: "mailbox_at (sv_view sv s MAILBOX_KV) (cq_mailboxId c) mb" and sizes: "standard_sizes cr"
  shows "\<exists>mb'. mailbox_at (sv_view sv (snd (run sv (handleCreate cr env cfg req') s)) MAILBOX_KV) (cq_mailboxId c) mb' \<and>
    mb_messages mb' = mb_messages mb \<and> read_secret_ok cr secret (Some (JStr (mb_hash mb')))"
proof -
  let ?c = "c\<lparr>cq_readSecretHash := sha256Hex cr secret\<rparr>"
  have cap': "cap_accepted cr env (sv_clock sv s) ?c" using cap v2 by (simp add: cap_accepted_def)
  obtain s1 where s1: "run sv (handleCreate cr env cfg req') s = run sv (create_store cfg ?c) s1" "same_records sv s s1"
    using run_create_admitted [OF iso other _ cap' adm, of pk] pk by auto
  have at1: "mailbox_at (sv_view sv s1 MAILBOX_KV) (cq_mailboxId ?c) mb"
    using at mailbox_at_same_records [OF s1(2)] by simp
  have "length (sha256 cr (utf8 secret)) = 32" using sizes by (simp add: standard_sizes_def)
  moreover have "length (utf8 (sha256Hex cr secret)) < 2 ^ 32"
    using sha256Hex_hex(1) [OF sizes, of secret] by (simp add: length_utf8_hex hex_re_def)
  ultimately have "read_secret_ok cr secret (Some (JStr (sha256Hex cr secret)))" by (simp add: read_secret_ok_iff)
  then show ?thesis
    using run_create_store_again(2) [OF iso ttl _ at1, of pk] pk sha256Hex_hex(3) [OF sizes, of secret]
    by (intro exI [of _ "rekey (sha256Hex cr secret) (cq_safeReplicas c) mb"]) (auto simp: s1(1) rekey_def)
qed

theorem v2_capability_leaves_hash_open_witness:
  "\<exists>mb'. mailbox_at (sv_view silent (snd (run silent (handleCreate demo demo_env DEFAULTS
        (post ''/create'' (demo_create (sha256Hex demo ''mine'') 100))) (world_at (holding mbox ''h'' [JStr ''m''] (Some 2)) Map.empty 5)))
      MAILBOX_KV) mbox mb' \<and>
    mb_messages mb' = [JStr ''m''] \<and> read_secret_ok demo ''mine'' (Some (JStr (mb_hash mb')))"
proof -
  have upd: "demo_create_req h e\<lparr>cq_readSecretHash := h'\<rparr> = demo_create_req h' e" for h h' e
    by (simp add: demo_create_req_def)
  show ?thesis
    using v2_capability_leaves_hash_open [where sv = silent and cr = demo and env = demo_env and cfg = DEFAULTS
        and req = "post ''/create'' (demo_create (bytesToHex key_b) 100)" and c = "demo_create_req (bytesToHex key_b) 100"
        and req' = "post ''/create'' (demo_create (sha256Hex demo ''mine'') 100)"
        and s = "world_at (holding mbox ''h'' [JStr ''m''] (Some 2)) Map.empty 5" and mb = "mailbox_rec ''h'' [JStr ''m''] (Some 2)"
        and secret = "''mine''", OF silent_isolated demo_create_body _ _ _ _ demo_create_body] sha256Hex_hex [OF demo_sizes]
    by (simp add: create_limited_def upd)
qed

section \<open>Replicas\<close>

text \<open>C21 Storing the same replicated entry twice is the same as storing it once: the first push appends
  an entry whose id is new, however many messages the mailbox holds (\<open>MAX_MESSAGES\<close> is not looked at);
  the second is answered as deduplicated and leaves the mailbox record as it is.\<close>

theorem replicate_idempotent:
  assumes iso: "isolated sv" and ttl: "ttl_ok (Some (MAILBOX_TTL_SECONDS cfg))"
    and at: "mailbox_at (sv_view sv s MAILBOX_KV) (pq_mailboxId p) mb" and nn: "no_nulls mb"
    and wf: "wf_json (pq_entry p)" and id: "has_id (pq_entryId p) (pq_entry p)" "pq_entry p \<noteq> JNull"
  shows "let s1 = snd (run sv (replicate_apply cfg p) s); dup = (\<exists>m\<in>set (mb_messages mb). has_id (pq_entryId p) m);
      mb1 = (if dup then mb else deposit (pq_entry p) (sv_clock sv s) mb) in
    fst (run sv (replicate_apply cfg p) s) = Done (replicate_answer dup) \<and>
    mailbox_at (sv_view sv s1 MAILBOX_KV) (pq_mailboxId p) mb1 \<and>
    fst (run sv (replicate_apply cfg p) s1) = Done (replicate_answer True) \<and>
    mailbox_at (sv_view sv (snd (run sv (replicate_apply cfg p) s1)) MAILBOX_KV) (pq_mailboxId p) mb1"
proof -
  define s1 where "s1 = snd (run sv (replicate_apply cfg p) s)"
  define mb1 where "mb1 = insert_replica (pq_entryId p) (pq_entry p) (sv_clock sv s) mb"
  have at1: "mailbox_at (sv_view sv s1 MAILBOX_KV) (pq_mailboxId p) mb1"
    using run_replicate_apply(2) [OF iso ttl at nn wf] by (simp add: s1_def mb1_def)
  have nn1: "no_nulls mb1" using nn id(2) by (simp add: mb1_def insert_replica_def)
  have dup: "\<exists>m\<in>set (mb_messages mb1). has_id (pq_entryId p) m"
    using id(1) by (auto simp: mb1_def insert_replica_def deposit_def)
  have again: "insert_replica (pq_entryId p) (pq_entry p) (sv_clock sv s1) mb1 = mb1"
    by (simp add: mb1_def insert_replica_again [OF id(1)])
  have "fst (run sv (replicate_apply cfg p) s1) = Done (replicate_answer True)"
    "mailbox_at (sv_view sv (snd (run sv (replicate_apply cfg p) s1)) MAILBOX_KV) (pq_mailboxId p) mb1"
    using dup run_replicate_apply [OF iso ttl at1 nn1 wf] by (simp_all add: again)
  with at1 run_replicate_apply(1) [OF iso ttl at nn wf] show ?thesis
    by (simp add: Let_def s1_def mb1_def insert_replica_def)
qed

definition demo_replica :: replicate_req where
  "demo_replica =
     \<lparr> pq_mailboxId = mbox, pq_entry = JObj [(''id'', JStr ''e1''), (''message'', JStr ''hi'')], pq_entryId = ''e1'',
       pq_origin = Some (JStr (bytesToHex key_a)), pq_timestamp = Some (JStr ''5''), pq_signature = None, pq_replicas = None \<rparr>"

lemma demo_replica_props [simp]:
  "pq_mailboxId demo_replica = mbox" "wf_json (pq_entry demo_replica)" "has_id (pq_entryId demo_replica) (pq_entry demo_replica)"
  "pq_entry demo_replica \<noteq> JNull" "wf_json (or_val (pq_replicas demo_replica) (JArr []))"
  by (simp_all add: demo_replica_def has_id_def obj_canonical_def key_precedes_def is_digit_def or_val_def)

theorem replicate_idempotent_witness:
  "let w = world_at (holding mbox ''h'' (replicate 50 (JStr ''m'')) (Some 2)) Map.empty 5; p = replicate_apply DEFAULTS demo_replica in
   fst (run silent p w) = Done (replicate_answer False) \<and>
   fst (run silent p (snd (run silent p w))) = Done (replicate_answer True)"
proof -
  have new: "\<not> has_id (pq_entryId demo_replica) (JStr ''m'')" by (simp add: has_id_def)
  show ?thesis
    using replicate_idempotent [where sv = silent and cfg = DEFAULTS and p = demo_replica
        and s = "world_at (holding mbox ''h'' (replicate 50 (JStr ''m'')) (Some 2)) Map.empty 5"
        and mb = "mailbox_rec ''h'' (replicate 50 (JStr ''m'')) (Some 2)", OF silent_isolated]
    by (simp add: Let_def no_nulls_def new)
qed

text \<open>A replica for a mailbox the shard has never seen builds a shell with the entry in it; the
  shell's hash is empty, so no read secret opens it until a create request sets one.\<close>

theorem replica_shell_is_locked:
  assumes iso: "isolated sv" and ttl: "ttl_ok (Some (MAILBOX_TTL_SECONDS cfg))"
    and none: "present (sv_view sv s MAILBOX_KV (mailbox_key (pq_mailboxId p))) = None"
    and wf: "wf_json (pq_entry p)" "wf_json (or_val (pq_replicas p) (JArr []))" and sizes: "standard_sizes cr"
  shows "fst (run sv (replicate_apply cfg p) s) = Done (replicate_answer False) \<and>
    (\<exists>mb. mailbox_at (sv_view sv (snd (run sv (replicate_apply cfg p) s)) MAILBOX_KV) (pq_mailboxId p) mb \<and>
      mb_messages mb = [pq_entry p] \<and> (\<forall>secret. \<not> read_secret_ok cr secret (Some (JStr (mb_hash mb)))))"
proof -
  have "\<not> read_secret_ok cr secret (Some (JStr []))" for secret
  proof -
    have "length (sha256 cr (utf8 secret)) = 32" using sizes by (simp add: standard_sizes_def)
    then show ?thesis using sha256Hex_hex(2) [OF sizes, of secret] by (auto simp: read_secret_ok_iff)
  qed
  then show ?thesis using run_replicate_apply_unknown [OF iso ttl none wf] by fastforce
qed

theorem replica_shell_is_locked_witness:
  "\<exists>mb. mailbox_at (sv_view silent (snd (run silent (replicate_apply DEFAULTS demo_replica) (world_at Map.empty Map.empty 5))) MAILBOX_KV)
      mbox mb \<and> mb_messages mb = [pq_entry demo_replica] \<and> (\<forall>secret. \<not> read_secret_ok demo secret (Some (JStr (mb_hash mb))))"
  using replica_shell_is_locked [where sv = silent and cfg = DEFAULTS and p = demo_replica and cr = demo
      and s = "world_at Map.empty Map.empty 5", OF silent_isolated]
  by simp

text \<open>Replication does not look at \<open>MAX_MESSAGES\<close>: an accepted replica is appended to a
  mailbox however many messages it already holds.\<close>

theorem replica_ignores_capacity:
  assumes iso: "isolated sv" and ttl: "ttl_ok (Some (MAILBOX_TTL_SECONDS cfg))"
    and at: "mailbox_at (sv_view sv s MAILBOX_KV) (pq_mailboxId p) mb" and nn: "no_nulls mb" and wf: "wf_json (pq_entry p)"
    and new: "list_all (\<lambda>m. \<not> has_id (pq_entryId p) m) (mb_messages mb)"
    and full: "num_ge (Some (int (length (mb_messages mb)))) (MAX_MESSAGES cfg)"
  shows "fst (run sv (replicate_apply cfg p) s) = Done (replicate_answer False) \<and>
    mailbox_at (sv_view sv (snd (run sv (replicate_apply cfg p) s)) MAILBOX_KV) (pq_mailboxId p)
      (deposit (pq_entry p) (sv_clock sv s) mb)"
proof -
  have "\<not> (\<exists>m\<in>set (mb_messages mb). has_id (pq_entryId p) m)" using new by (auto simp: list_all_iff)
  then show ?thesis using run_replicate_apply [OF iso ttl at nn wf] by (simp add: insert_replica_def)
qed

theorem replica_ignores_capacity_witness:
  "fst (run silent (replicate_apply DEFAULTS demo_replica) (world_at (holding mbox ''h'' (replicate 50 (JStr ''m'')) (Some 2)) Map.empty 5)) =
    Done (replicate_answer False)"
  using replica_ignores_capacity [where sv = silent and cfg = DEFAULTS and p = demo_replica
      and s = "world_at (holding mbox ''h'' (replicate 50 (JStr ''m'')) (Some 2)) Map.empty 5"
      and mb = "mailbox_rec ''h'' (replicate 50 (JStr ''m'')) (Some 2)", OF silent_isolated]
  by (simp add: no_nulls_def has_id_def)

section \<open>The routing table on a shard\<close>

text \<open>On any platform a pushed table reaches the store only under \<open>routing_table_cache\<close>, and
  only when it is the body of the request and carries the Router's signature over all its other fields.\<close>

theorem only_signed_tables_cached:
  "e \<in> set (trace sv (handleRoutingTablePush cr env req) s) \<Longrightarrow>
     caches_only (\<lambda>t. body_of req = Some t \<and> table_signed cr env t) e"
  by (rule emits_trace [OF emits_handleRoutingTablePush])

theorem only_signed_tables_cached_witness:
  "list_all (caches_only (\<lambda>t. body_of (post ''/internal/routing_table'' (JObj [])) = Some t \<and> table_signed demo demo_env t))
     (trace silent (handleRoutingTablePush demo demo_env (post ''/internal/routing_table'' (JObj []))) (world_at Map.empty Map.empty 5))"
  unfolding list_all_iff by (intro ballI, rule only_signed_tables_cached)

section \<open>Every interleaving\<close>

text \<open>C3 However the requests and tasks of the shard interleave at their KV operations, with reads
  that may return any value written before and operations that may fail, every value under a mailbox key
  is the text of a well-formed mailbox, every cached table carries the Router's signature, every stored
  identity is a key pair record and every counter is a number.\<close>

theorem shard_store_well_formed:
  "reachable (shard_programs cr env) H ps \<Longrightarrow> (n, k, v) \<in> H \<Longrightarrow> shard_value cr env n k v"
  by (rule shard_kv.reachable_value)

theorem shard_store_well_formed_witness:
  "\<exists>H ps. reachable (shard_programs demo demo_env) H ps \<and> (MAILBOX_KV, SHARD_IDENTITY_KV_KEY,
       json_stringify (identity_json key_a key_a)) \<in> H \<and>
     shard_value demo demo_env MAILBOX_KV SHARD_IDENTITY_KV_KEY (json_stringify (identity_json key_a key_a))"
proof -
  let ?P = "shard_programs demo demo_env"
  let ?p = "replicateToSiblings demo demo_env mbox (JStr ''e'') [JStr ''https://other'']"
  define v where "v = json_stringify (identity_json key_a key_a)"
  have task: "?p \<in> ?P"
    by (auto simp: shard_programs_def shard_task_def intro!: image_eqI [of _ _ "ReplicateToSiblings mbox (JStr ''e'') [JStr ''https://other'']"])
  have sib: "siblings demo_env [JStr ''https://other''] \<noteq> []" by (simp add: siblings_def str_val_def)
  have "reachable ?P {} ([] @ [?p])" by (rule reachable.starts [OF reachable.initially task])
  moreover obtain f where p: "?p = KvGet MAILBOX_KV SHARD_IDENTITY_KV_KEY f"
      and f: "\<exists>g. f (Inr None) = GenerateKey g \<and> (\<exists>h. g (key_a, key_a) = KvPut MAILBOX_KV SHARD_IDENTITY_KV_KEY v None h)"
    using sib by (simp add: replicateToSiblings_def ensureShardIdentity_def kvPut_def v_def Let_def)
  ultimately have r0: "reachable ?P {} [KvGet MAILBOX_KV SHARD_IDENTITY_KV_KEY f]" by simp
  obtain g h where g: "f (Inr None) = GenerateKey g" "g (key_a, key_a) = KvPut MAILBOX_KV SHARD_IDENTITY_KV_KEY v None h"
    using f by blast
  have "reachable ?P {} ([KvGet MAILBOX_KV SHARD_IDENTITY_KV_KEY f][0 := f (Inr None)])"
    by (rule reachable.steps [OF r0]) (auto intro: effect_step.get_nothing)
  then have r1: "reachable ?P {} [GenerateKey g]" by (simp add: g)
  have "reachable ?P {} ([GenerateKey g][0 := g (key_a, key_a)])"
    by (rule reachable.steps [OF r1]) (auto intro: effect_step.generate_key)
  then have r2: "reachable ?P {} [KvPut MAILBOX_KV SHARD_IDENTITY_KV_KEY v None h]" by (simp add: g)
  have r3: "reachable ?P (insert (MAILBOX_KV, SHARD_IDENTITY_KV_KEY, v) {}) ([KvPut MAILBOX_KV SHARD_IDENTITY_KV_KEY v None h][0 := h None])"
    by (rule reachable.steps [OF r2]) (auto intro: effect_step.put_done)
  then show ?thesis
    using shard_store_well_formed [OF r3, of MAILBOX_KV SHARD_IDENTITY_KV_KEY v] unfolding v_def by blast
qed

end
