(* ===== verification/ServiceProperties.thy ===== *)
theory ServiceProperties
  imports Concrete
begin

text \<open>
  The properties of the parts both workers share: the codecs, the comparison of secrets, JSON
  text, the depth check of envelopes, proof of work, rate limits, and the signed responses a client
  verifies.
\<close>

section \<open>Encodings\<close>

text \<open>Reading back the hex text of bytes gives the bytes, for the shard's decoder (which checks
  the length) and the Router's (which does not).\<close>

theorem hex_round_trip:
  "hexToBytes (bytesToHex bs) = Inr bs \<and> router_hexToBytes (bytesToHex bs) = Inr bs"
  by (simp add: hex.dec_enc router_hex.dec_enc)

text \<open>The stored private key survives its base64 text: what \<open>importShardPrivateKey\<close> hands to
  the key import is exactly the bytes \<open>ensureShardIdentity\<close> encoded.\<close>

theorem stored_key_round_trip:
  "importShardPrivateKey cr (btoa priv) = (if ed_import cr priv then Inr priv else Inl (ServiceError ''DataError''))"
  by (simp add: importShardPrivateKey_def base64.dec_enc)

text \<open>The comparison of secrets is equality: scanning the zero-padded bytes and the difference
  of the lengths accepts exactly equal strings.\<close>

theorem constantTimeEqual_is_equality:
  "length (utf8 a) < 2 ^ 32 \<Longrightarrow> length (utf8 b) < 2 ^ 32 \<Longrightarrow> constantTimeEqual a b \<longleftrightarrow> a = b"
  by (rule constantTimeEqual_iff)

theorem constantTimeEqual_is_equality_witness: "\<not> constantTimeEqual ''key'' ''kez'' \<and> constantTimeEqual ''key'' ''key''"
proof -
  have "length (utf8 ''key'') < 2 ^ 32" "length (utf8 ''kez'') < 2 ^ 32"
    by (simp_all add: utf8_char_def)
  then show ?thesis using constantTimeEqual_is_equality by simp
qed

section \<open>Envelopes\<close>

text \<open>The depth check, which stops early and keeps a running maximum, rejects exactly the values
  nested deeper than 8, and measures the others exactly.\<close>

theorem depth_check_is_height:
  "(MAX_JSON_DEPTH < jsonDepth v 0 \<longleftrightarrow> 8 < height v) \<and> (height v \<le> 8 \<longrightarrow> jsonDepth v 0 = height v)"
  using jsonDepth_exceeds [of v] jsonDepth_exact [of v] by (simp add: MAX_JSON_DEPTH_def)

theorem depth_check_is_height_witness: "jsonDepth (JArr [JArr [JNull]]) 0 = 2"
  using depth_check_is_height [of "JArr [JArr [JNull]]"] by simp

section \<open>Proof of work\<close>

text \<open>C23 The shift loop of \<open>leadingZeroBits\<close> always ends, and its result is at least \<open>d\<close> exactly
  when the digest, read as a big-endian number, is below \<open>2 ^ (8 * length - d)\<close>.\<close>

theorem leadingZeroBits_is_magnitude:
  "\<exists>k. leadingZeroBits bytes = Some k \<and> k \<le> 8 * length bytes \<and>
     (\<forall>d. d \<le> 8 * length bytes \<longrightarrow> (d \<le> k \<longleftrightarrow> be_value bytes < 2 ^ (8 * length bytes - d)))"
  using leadingZeroBits_total leadingZeroBits_value by blast

theorem leadingZeroBits_is_magnitude_witness: "leadingZeroBits [0, 0x1F] = Some 11"
proof -
  obtain k where k: "leadingZeroBits [0, 0x1F] = Some k" "k \<le> 16"
      "11 \<le> k \<longleftrightarrow> be_value [0, 0x1F] < 2 ^ 5" "12 \<le> k \<longleftrightarrow> be_value [0, 0x1F] < 2 ^ 4"
    using leadingZeroBits_is_magnitude [of "[0, 0x1F]"] by (force simp: numeral_eq_Suc)
  then have "k = 11" by simp
  with k show ?thesis by simp
qed

text \<open>C24 The solver returns the least counter that meets the difficulty within its budget, and
  fails exactly when none does.\<close>

theorem solvePow_least:
  "(solvePow cr nonce url d = Inr s \<longleftrightarrow>
     (\<exists>j<POW_SOLVE_MAX_ATTEMPTS. s = str_of_nat j \<and> pow_ok cr nonce url d s \<and>
        (\<forall>i<j. \<not> pow_ok cr nonce url d (str_of_nat i)))) \<and>
   ((\<exists>e. solvePow cr nonce url d = Inl e) \<longleftrightarrow> (\<forall>j<POW_SOLVE_MAX_ATTEMPTS. \<not> pow_ok cr nonce url d (str_of_nat j)))"
  unfolding solvePow_def using solvePow_loop_finds [of cr nonce url d POW_SOLVE_MAX_ATTEMPTS 0 s]
    solvePow_loop_fails [of cr nonce url d POW_SOLVE_MAX_ATTEMPTS 0] by simp

theorem solvePow_least_witness: "solvePow demo ''n1'' ''https://b'' (Some 0) = Inr ''0''"
proof -
  have "str_of_nat 0 = ''0''" by code_simp
  moreover have "0 < POW_SOLVE_MAX_ATTEMPTS" by (simp add: POW_SOLVE_MAX_ATTEMPTS_def)
  ultimately show ?thesis
    using solvePow_least [of demo "''n1''" "''https://b''" "Some 0" "''0''"] by (auto simp: pow_ok_0)
qed

section \<open>Rate limits\<close>

text \<open>C22 Of \<open>n\<close> calls in one window the shard's limiter admits exactly the first \<open>limit - used\<close>,
  whatever else the requests between them do to other keys.\<close>

theorem shard_limiter_exact:
  assumes "attempt_ok MAILBOX_KV b w (sv, s)"
  shows "int (admitted_calls (\<lambda>_. rateLimit b (Some l) w Return) n sv s) =
    min (int n) (max 0 (l - attempt_used MAILBOX_KV b w (sv, s)))"
  using shard_limiter.admitted_count [OF assms] by (simp add: admitted_calls_shard)

lemma attempt_ok_empty: "55 \<le> w \<Longrightarrow> attempt_ok n b w (silent, world_at Map.empty Map.empty now)"
  by (cases n) (auto simp: attempt_ok_def counter_ok_def rl_count_def)

lemma attempt_used_empty: "attempt_used n b w (silent, world_at Map.empty Map.empty now) = 0"
  by (cases n) (simp_all add: attempt_used_def rl_count_def)

theorem shard_limiter_exact_witness:
  "int (admitted_calls (\<lambda>_. rateLimit ''read-ip:1'' (Some 300) 60 Return) 1000 silent (world_at Map.empty Map.empty 5)) = 300"
  using shard_limiter_exact [OF attempt_ok_empty [where now = 5], where w = 60 and b = "''read-ip:1''" and l = 300 and n = 1000] by (simp add: attempt_used_empty)

text \<open>The Router's limiter does the same when \<open>ROUTER_ADMIN_KV\<close> is bound.\<close>

theorem router_limiter_exact:
  assumes "has_ROUTER_ADMIN_KV env" and "attempt_ok ROUTER_ADMIN_KV b w (sv, s)"
  shows "int (admitted_calls (\<lambda>_. adminRateLimit env b l w Return) n sv s) =
    min (int n) (max 0 (l - attempt_used ROUTER_ADMIN_KV b w (sv, s)))"
  using router_limiter.admitted_count [OF conjI [OF assms]] by (simp add: admitted_calls_router)

theorem router_limiter_exact_witness:
  "int (admitted_calls (\<lambda>_. adminRateLimit demo_env ''register-shard-ip:1'' 6 3600 Return) 10 silent
      (world_at Map.empty Map.empty 5)) = 6"
  using router_limiter_exact [OF _ attempt_ok_empty [where now = 5], where env = demo_env and w = 3600
      and b = "''register-shard-ip:1''" and l = 6 and n = 10]
  by (simp add: attempt_used_empty)

section \<open>Signed responses\<close>

text \<open>A response wrapped for a request identifier verifies under the public key of the stored
  identity, for that identifier and the body it carries, and building it leaves the store as it was.\<close>

theorem signed_response_verifies:
  assumes "isolated sv" and "identity_stored (sv_view sv s MAILBOX_KV) pub priv" and "key_pair cr pub priv"
  shows "\<exists>e s'. run sv (buildShardSignedResponse cr rid st body Return) s = (Done e, s') \<and>
    envelope_verifies cr (bytesToHex pub) rid body e \<and> sv_view sv s' = sv_view sv s"
  using run_buildShardSignedResponse [OF assms, of rid st body Return] by auto

theorem signed_response_verifies_witness:
  "\<exists>e s'. run silent (buildShardSignedResponse demo ''r1'' 200 (JObj []) Return) (world_at (with_identity key_a) Map.empty 5) = (Done e, s') \<and>
     envelope_verifies demo (bytesToHex key_a) ''r1'' (JObj []) e"
  using signed_response_verifies [OF silent_isolated _ demo_pair, of "world_at (with_identity key_a) Map.empty 5" key_a "''r1''" 200 "JObj []"]
  by auto

text \<open>The answer to a server hello carries a signature by the shard's identity over exactly the
  protocol and nonce the client sent, the published key and the time in the answer.\<close>

theorem server_hello_verifies:
  assumes "isolated sv" and "identity_stored (sv_view sv s MAILBOX_KV) pub priv" and "key_pair cr pub priv"
    and "json_parse (req_body req) = Some body" and "hello_request body = Inr (nonce, protocol)"
  shows "\<exists>ts sig. fst (run sv (handleServerHello cr req) s) =
      Done (hello_response protocol (Some (JStr (bytesToHex pub))) nonce ts sig) \<and>
    verifyEd25519Message cr (bytesToHex pub) (hello_payload protocol nonce (bytesToHex pub) ts) sig"
  using run_handleServerHello [OF assms] by blast

lemma hello_witness_body: "json_parse (req_body (post p (JObj [(''nonce'', JStr n)]))) = Some (JObj [(''nonce'', JStr n)])"
proof -
  have "wf_json (JObj [(''nonce'', JStr n)])" by (simp add: obj_canonical_def)
  then show ?thesis by (simp add: post_def)
qed

theorem server_hello_verifies_witness:
  "\<exists>ts sig. fst (run silent (handleServerHello demo (post ''/server_hello'' (JObj [(''nonce'', JStr ''12345678'')])))
       (world_at (with_identity key_a) Map.empty 5)) =
      Done (hello_response ''nextalk/v1'' (Some (JStr (bytesToHex key_a))) ''12345678'' ts sig) \<and>
    verifyEd25519Message demo (bytesToHex key_a) (hello_payload ''nextalk/v1'' ''12345678'' (bytesToHex key_a) ts) sig"
  by (rule server_hello_verifies [OF silent_isolated _ demo_pair hello_witness_body]) (simp_all add: hello_request_def)

end
