(* ===== verification/Serving.thy ===== *)
theory Serving
  imports KvInvariant
begin

text \<open>
  Sequential service as a special case: a program run alone on the \<open>ideal\<close> platform is one of
  the interleavings of \<open>KvInvariant\<close>, and so is any number of requests served one after the other.
  What is proved of every interleaving therefore holds of the store after every served request.
\<close>

text \<open>One program run alone is one of the interleavings, so what holds of all of them holds of it.\<close>

definition stored_in :: "history \<Rightarrow> world \<Rightarrow> bool" where
  "stored_in H w \<longleftrightarrow> (\<forall>n k v. w_store w n k = Some v \<longrightarrow> (n, k, v) \<in> H)"

lemma stored_in_simps [simp]:
  "stored_in H (w\<lparr>w_seed := i\<rparr>) = stored_in H w"
  "stored_in H w \<Longrightarrow> stored_in (insert (n, k, v) H) (w\<lparr>w_store := (w_store w)(n := (w_store w n)(k \<mapsto> v))\<rparr>)"
  "stored_in H w \<Longrightarrow> stored_in H (w\<lparr>w_store := (w_store w)(n := (w_store w n)(k := None))\<rparr>)"
  by (auto simp: stored_in_def)

lemma step_reaches:
  assumes "reachable progs H (ps @ [p])" and "effect_step H p H' p'"
  shows "reachable progs H' (ps @ [p'])"
  using reachable.steps [OF assms(1), of "length ps" H' p'] assms(2) by (simp add: nth_append)

lemma run_reachable:
  assumes "reachable progs H (ps @ [p])" and "stored_in H w"
  shows "\<exists>H' p'. reachable progs H' (ps @ [p']) \<and> H \<subseteq> H' \<and> stored_in H' (snd (run (ideal net) p w))"
  using assms
proof (induction p arbitrary: H w)
  case (KvGet n k f)
  have "effect_step H (KvGet n k f) H (f (Inr (w_store w n k)))"
    using KvGet.prems(2) by (cases "w_store w n k") (auto simp: stored_in_def intro: effect_step.intros)
  from KvGet.IH [OF _ step_reaches [OF KvGet.prems(1) this] KvGet.prems(2)] show ?case
    by (simp add: run.simps ideal_def)
next
  case (KvPut n k v t f)
  show ?case
  proof (cases "ttl_ok t")
    case True
    have "effect_step H (KvPut n k v t f) (insert (n, k, v) H) (f None)" by (rule effect_step.intros)
    from KvPut.IH [OF _ step_reaches [OF KvPut.prems(1) this] stored_in_simps(2) [OF KvPut.prems(2)]] True show ?thesis
      by (auto simp: run.simps ideal_def)
  next
    case False
    have "effect_step H (KvPut n k v t f) H (f (Some ''invalid expiration_ttl''))" by (rule effect_step.intros)
    from KvPut.IH [OF _ step_reaches [OF KvPut.prems(1) this] KvPut.prems(2)] False show ?thesis
      by (simp add: run.simps ideal_def)
  qed
next
  case (KvDelete n k f)
  have "effect_step H (KvDelete n k f) H (f None)" by (rule effect_step.intros)
  from KvDelete.IH [OF _ step_reaches [OF KvDelete.prems(1) this] stored_in_simps(3) [OF KvDelete.prems(2)]] show ?case
    by (simp add: run.simps ideal_def)
next
  case (Now f)
  have "effect_step H (Now f) H (f (w_clock w))" by (rule effect_step.intros)
  from Now.IH [OF _ step_reaches [OF Now.prems(1) this] Now.prems(2)] show ?case
    by (simp add: run.simps ideal_def)
next
  case (Random m f)
  have "effect_step H (Random m f) H (f (replicate m (of_nat (w_seed w))))" by (rule effect_step.intros)
  from Random.IH [OF _ step_reaches [OF Random.prems(1) this], of "w\<lparr>w_seed := Suc (w_seed w)\<rparr>"] Random.prems(2) show ?case
    by (simp add: run.simps ideal_def)
next
  case (GenerateKey f)
  let ?kp = "(replicate 32 (of_nat (w_seed w)), replicate 48 (of_nat (w_seed w)))"
  have "effect_step H (GenerateKey f) H (f ?kp)" by (rule effect_step.intros)
  from GenerateKey.IH [OF _ step_reaches [OF GenerateKey.prems(1) this], of "w\<lparr>w_seed := Suc (w_seed w)\<rparr>"] GenerateKey.prems(2)
  show ?case by (simp add: run.simps ideal_def)
next
  case (FetchAll rs f)
  have "effect_step H (FetchAll rs f) H (f (fst (sv_fetch (ideal net) w rs)))" by (rule effect_step.intros)
  from FetchAll.IH [OF _ step_reaches [OF FetchAll.prems(1) this] FetchAll.prems(2)] show ?case
    by (simp add: run.simps ideal_def)
next
  case (WaitUntil t p)
  have "effect_step H (WaitUntil t p) H p" by (rule effect_step.intros)
  from WaitUntil.IH [OF step_reaches [OF WaitUntil.prems(1) this] WaitUntil.prems(2)] show ?case by simp
next
  case (Log m p)
  have "effect_step H (Log m p) H p" by (rule effect_step.intros)
  from Log.IH [OF step_reaches [OF Log.prems(1) this] Log.prems(2)] show ?case by simp
qed auto

text \<open>Requests served one after the other, at any clock, with any answers of the network.\<close>

inductive serves :: "'a prog set \<Rightarrow> world \<Rightarrow> bool" for progs where
  starts_empty: "w_store w = (\<lambda>_ _. None) \<Longrightarrow> serves progs w"
| serves_one: "serves progs w \<Longrightarrow> p \<in> progs \<Longrightarrow> serves progs (snd (run (ideal net) p (w\<lparr>w_clock := now\<rparr>)))"

lemma serves_reachable: "serves progs w \<Longrightarrow> \<exists>H ps. reachable progs H ps \<and> stored_in H w"
proof (induction rule: serves.induct)
  case (starts_empty w)
  then have "stored_in {} w" by (simp add: stored_in_def)
  then show ?case using reachable.initially by blast
next
  case (serves_one w p net now)
  then obtain H ps where H: "reachable progs H ps" "stored_in H w" by blast
  then have "stored_in H (w\<lparr>w_clock := now\<rparr>)" by (simp add: stored_in_def)
  from run_reachable [OF reachable.starts [OF H(1) serves_one.hyps(2)] this] show ?case by blast
qed

context kv_worker
begin

lemma served_value: "serves progs w \<Longrightarrow> w_store w n k = Some v \<Longrightarrow> I n k v"
  using serves_reachable [of progs w] reachable_value by (fastforce simp: stored_in_def)

end

end
