(* ===== verification/RouterProperties.thy ===== *)
theory RouterProperties
  imports Concrete Serving
begin

text \<open>
  The properties of the Router: who gets a capability, where mailboxes are placed and found
  again, how shards join the mesh and change their keys, and what holds of \<open>ROUTER_ADMIN_KV\<close> under
  every interleaving of its requests.
\<close>

section \<open>Registering a mailbox\<close>

definition answers_only :: "event \<Rightarrow> bool" where
  "answers_only e = (case e of EvGet n k \<Rightarrow> True | EvLog m \<Rightarrow> True | _ \<Rightarrow> False)"

text \<open>C13 On any platform, a \<open>/register\<close> request whose signature does not verify for the public key
  it names mints nothing: no shard is contacted and nothing is written.\<close>

theorem register_needs_ownership:
  assumes "\<And>body q pk. body_of req = Some body \<Longrightarrow> register_request body = Inr q \<Longrightarrow> rq_pubkey q = Some (JStr pk) \<Longrightarrow>
      \<not> verifyEd25519 cr pk (ownership_message (lower pk) (js_string (rq_timestamp q))) (rq_signature q)"
    and "e \<in> set (trace sv (handleRegister cr env urls req) s)"
  shows "answers_only e"
proof (rule emits_trace [OF _ assms(2)])
  show "emits answers_only (handleRegister cr env urls req)"
  proof (cases "body_of req")
    case (Some body)
    then show ?thesis
      using assms(1) by (fastforce simp: handleRegister_def emit_simps js_lower_def js_string_def
          split: sum.splits option.splits json.splits)
  qed (simp add: handleRegister_def)
qed

definition demo_register :: "string \<Rightarrow> int \<Rightarrow> json" where
  "demo_register sig now =
     JObj [(''pubkey'', JStr (bytesToHex key_b)), (''timestamp'', JStr (str_of_int now)), (''signature'', JStr sig)]"

lemma demo_register_body [simp]: "body_of (post p (demo_register sig now)) = Some (demo_register sig now)"
  unfolding demo_register_def by (rule post_body) (simp add: obj_canonical_def key_precedes_def is_digit_def)

theorem register_needs_ownership_witness:
  "list_all answers_only (trace silent (handleRegister (demo\<lparr>ed_verify := \<lambda>_ _ _. None\<rparr>) demo_env [Some (JStr ''https://a'')]
     (post ''/register'' (demo_register ''00'' 5))) (world_at Map.empty Map.empty 5))"
  unfolding list_all_iff
  by (intro ballI, rule register_needs_ownership [rotated]) (auto simp: verifyEd25519_def split: sum.splits)

text \<open>A proven owner gets one capability, over the HMAC of the key, presented with the same body to
  every member of the current replica set.\<close>

theorem register_fans_out:
  assumes iso: "isolated sv" and body: "body_of req = Some body" and q: "register_request body = Inr q"
    and own: "registers_owner cr (sv_clock sv s) q pk" and key: "router_key cr env pub priv"
  shows "\<exists>secret nonce. length secret = 64 \<and> length nonce = 32 \<and>
    EvFetch (create_requests (minted_replicas cr env urls pk)
        (minted_body cr env priv pk (minted_replicas cr env urls pk) secret nonce (sv_clock sv s)))
      \<in> set (trace sv (handleRegister cr env urls req) s)"
proof -
  let ?s = "snd (sv_now sv s)"
  have clock: "sv_clock sv ?s = sv_clock sv s" using iso by (simp add: view_simps)
  have len: "length (minted_secret sv ?s) = 64" "length (minted_nonce sv ?s) = 32"
    using iso by (simp_all add: minted_secret_def minted_nonce_def isolated_random)
  have "EvFetch (create_requests (minted_replicas cr env urls pk)
        (minted_body cr env priv pk (minted_replicas cr env urls pk) (minted_secret sv ?s) (minted_nonce sv ?s) (sv_clock sv s)))
      \<in> set (trace sv (register_mint cr env urls q pk) ?s)"
    using trace_register_mint [OF iso key, where urls = urls and pk = pk and s = ?s and q = q] by (auto simp: clock)
  with len show ?thesis using handleRegister_owner(2) [OF iso body q own] by metis
qed

definition demo_owner :: json where
  "demo_owner = demo_register (signWithShardKey demo key_b (ownership_message (bytesToHex key_b) ''5'')) 5"

definition demo_owner_req :: register_req where
  "demo_owner_req =
     \<lparr> rq_pubkey = Some (JStr (bytesToHex key_b)), rq_timestamp = Some (JStr ''5''),
       rq_signature = Some (JStr (signWithShardKey demo key_b (ownership_message (bytesToHex key_b) ''5''))), rq_requestId = None \<rparr>"

lemma str_of_5: "str_of_int 5 = ''5''" by code_simp

lemma demo_owner_request: "register_request demo_owner = Inr demo_owner_req"
proof -
  have "digits_re ''5''" by code_simp
  then show ?thesis
    using hex_signature [OF demo_sizes]
    by (simp add: register_request_def demo_owner_def demo_register_def demo_owner_req_def Let_def coerce_test_def js_string_def str_of_5)
qed

lemma demo_owner_registers: "registers_owner demo 5 demo_owner_req (bytesToHex key_b)"
proof -
  have "number_of_string ''5'' = Some 5" by code_simp
  then show ?thesis
    by (simp add: registers_owner_def demo_owner_req_def outside_skew_iff js_string_def router_verifies_own [OF demo_pair])
qed

theorem register_fans_out_witness:
  "\<exists>secret nonce. length secret = 64 \<and> length nonce = 32 \<and>
    EvFetch (create_requests (minted_replicas demo demo_env [Some (JStr ''https://a'')] (bytesToHex key_b))
        (minted_body demo demo_env key_a (bytesToHex key_b)
          (minted_replicas demo demo_env [Some (JStr ''https://a'')] (bytesToHex key_b)) secret nonce 5))
      \<in> set (trace silent (handleRegister demo demo_env [Some (JStr ''https://a'')] (post ''/register'' demo_owner))
               (world_at Map.empty Map.empty 5))"
  using register_fans_out [OF silent_isolated _ demo_owner_request _ demo_router_key,
      where req = "post ''/register'' demo_owner" and s = "world_at Map.empty Map.empty 5"
      and pk = "bytesToHex key_b" and urls = "[Some (JStr ''https://a'')]"] demo_owner_registers
  by (simp add: demo_owner_def)

text \<open>When the primary accepts, the Router writes the whole response, the read secret included, to
  its log.\<close>

theorem register_logs_secret:
  assumes "isolated sv" and "has_ROUTER_ADMIN_KV env" and "cr_ok primary"
  shows "EvLog (json_stringify (register_response mid secret reps capExp (version_of env (sv_view sv s ROUTER_ADMIN_KV))))
    \<in> set (trace sv (register_finish cr env q mid secret reps capExp (primary # others)) s)"
  by (rule trace_register_finish [OF assms])

theorem register_logs_secret_witness:
  "EvLog (json_stringify (register_response mbox ''the secret'' [] 9 (Some 1)))
     \<in> set (trace silent (register_finish demo demo_env demo_owner_req mbox ''the secret'' [] 9
         [\<lparr> cr_ok = True, cr_status = 200, cr_text = [] \<rparr>]) (world_at Map.empty Map.empty 5))"
  using register_logs_secret [OF silent_isolated, of demo_env "\<lparr> cr_ok = True, cr_status = 200, cr_text = [] \<rparr>" mbox "''the secret''" "[]" 9
      "world_at Map.empty Map.empty 5" demo demo_owner_req "[]"]
  by (simp add: version_of_def var_version_def)

section \<open>Placement and resolution\<close>

text \<open>The replica set of an era consists of as many shards as the replication factor says, all
  different when the list has no duplicates, and all from the first \<open>n\<close> of the list.\<close>

theorem replica_set_members:
  assumes "distinct urls" and "0 < n" and "n \<le> int (length urls)" and "replicationFactor env n = Some k"
    and "4 \<le> length (sha256 cr (utf8 (lower pk)))"
  shows "length (era_replicas cr env pk urls n) = nat k \<and> 1 \<le> k \<and> k \<le> n \<and>
    distinct (era_replicas cr env pk urls n) \<and> set (era_replicas cr env pk urls n) \<subseteq> set (take (nat n) urls)"
proof -
  define p where "p = be_value (take 4 (sha256 cr (utf8 (lower pk))))"
  have k: "1 \<le> k" "k \<le> n" using replicationFactor_bounds [of n env k] assms by auto
  have eq: "era_replicas cr env pk urls n = replicaSetForEra (Some (int p)) n urls (Some k)"
    using hashPoint_bytes [OF assms(5)] by (simp add: era_replicas_def replicasForEra_def assms(4) p_def)
  have "urls ! nat ((int p + int i) mod n) \<in> set (take (nat n) urls)" for i
  proof -
    have b: "0 \<le> (int p + int i) mod n" "(int p + int i) mod n < n" using assms(2) by simp_all
    then have "nat ((int p + int i) mod n) < length (take (nat n) urls)"
      "take (nat n) urls ! nat ((int p + int i) mod n) = urls ! nat ((int p + int i) mod n)"
      using assms(3) by auto
    then show ?thesis by (metis nth_mem)
  qed
  then have "set (era_replicas cr env pk urls n) \<subseteq> set (take (nat n) urls)"
    using assms(2,3) by (auto simp: eq replicaSet_ring)
  then show ?thesis
    using k ring_distinct [OF assms(1-3) k(2), of p] assms(2,3) by (simp add: eq replicaSet_ring)
qed

definition three_shards :: "jsval list" where
  "three_shards = [Some (JStr ''https://a''), Some (JStr ''https://b''), Some (JStr ''https://c'')]"

theorem replica_set_members_witness:
  "distinct (era_replicas demo (demo_env\<lparr>REPLICATION_FACTOR := Some ''2''\<rparr>) ''k'' three_shards 3) \<and>
   length (era_replicas demo (demo_env\<lparr>REPLICATION_FACTOR := Some ''2''\<rparr>) ''k'' three_shards 3) = 2"
proof -
  have two: "number_of_string ''2'' = Some 2" by code_simp
  have len: "4 \<le> length (sha256 demo (utf8 (lower ''k'')))" using demo_sizes by (simp add: standard_sizes_def)
  show ?thesis
    using replica_set_members [of three_shards 3 "demo_env\<lparr>REPLICATION_FACTOR := Some ''2''\<rparr>" 2 demo "''k''"] len
    by (simp add: three_shards_def replicationFactor_def two)
qed

text \<open>C14 A mailbox placed while the mesh had \<open>n\<close> shards is still found after shards were appended, as
  long as \<open>n\<close> is among the prior counts: \<open>/resolve\<close> then answers with an era whose primary holds it,
  the newest such era first.\<close>

theorem resolve_finds_after_growth:
  fixes sv :: "'s service" and urls :: "jsval list"
  assumes iso: "isolated sv" and kv: "has_ROUTER_ADMIN_KV env"
    and q: "map_of (req_query req) ''pubkey'' = Some pubkey" "hex_re 64 64 pubkey"
    and mid: "mid = hmacHex cr (lower pubkey) (var_text (SERVER_SECRET env))"
    and probes: "probes sv mid holds" and point: "hashPoint cr (lower pubkey) = Some (int p)"
    and rf: "\<And>n. replicationFactor env n \<noteq> None" and some: "urls \<noteq> []"
    and prior: "JNum (int (length urls)) \<in> set (prior_of env (sv_view sv s ROUTER_ADMIN_KV))"
    and there: "holds (hd (era_replicas cr env pubkey urls (int (length urls))))"
  shows "\<exists>m. int (length urls) \<le> m \<and> holds (hd (era_replicas cr env pubkey (urls @ new) m)) \<and>
    fst (run sv (handleResolve cr env (urls @ new) req) s) =
      Done (jsonOk (resolve_response mid (era_replicas cr env pubkey (urls @ new) m) m
        (version_of env (sv_view sv s ROUTER_ADMIN_KV)) None) [])"
proof -
  let ?n = "int (length urls)" and ?eras = "eraCountsDescending (urls @ new) (prior_of env (sv_view sv s ROUTER_ADMIN_KV))"
  have era: "era_replicas cr env pubkey us n = replicaSetForEra (Some (int p)) n us (replicationFactor env n)" for us n
    by (simp add: era_replicas_def replicasForEra_def point)
  have mem: "?n \<in> set ?eras" using some prior by (auto simp: eras_set)
  then obtain pre post where split: "?eras = pre @ ?n # post" using split_list by metis
  have "?n \<in> set (pre @ [?n])" by simp
  from ring.walk_finds [of ?n urls env holds p "pre @ [?n]" new] this
  obtain m where m: "ring.walk env holds p (pre @ [?n]) (urls @ new) = Some m" "holds (hd (era_replicas cr env pubkey (urls @ new) m))"
    using some rf there by (auto simp: era)
  have ext: "ring.walk env holds p (xs @ ys) us = (case ring.walk env holds p xs us of Some n \<Rightarrow> Some n | None \<Rightarrow> ring.walk env holds p ys us)" for xs ys us
    by (induction xs) auto
  have "ring.walk env holds p ((pre @ [?n]) @ post) (urls @ new) = Some m" by (simp only: ext [of "pre @ [?n]"] m(1) option.case)
  then have all: "ring.walk env holds p ?eras (urls @ new) = Some m" by (simp add: split)
  have "m \<in> set (pre @ [?n])" using ring.walk_Some [OF m(1)] by blast
  moreover have "sorted_wrt (>) (pre @ ?n # post)" using eras_descending [of "urls @ new"] by (metis split)
  ultimately have "?n \<le> m" by (auto simp: sorted_wrt_append)
  then show ?thesis
    using m(2) run_handleResolve [OF iso kv q mid probes point rf, where urls = "urls @ new" and s = s] all
    by (auto simp: Let_def)
qed

definition only_a :: "string \<Rightarrow> world service" where
  "only_a mid = ideal (map (\<lambda>r. Fetched (if out_url r = ''https://a/exists?mailbox_id='' @ mid then 200 else 404) []))"

lemma only_a_probes: "probes (only_a mid) mid (\<lambda>u. js_string u = ''https://a'')"
proof -
  have "(js_string u @ ''/exists?mailbox_id='' @ mid = ''https://a/exists?mailbox_id='' @ mid) = (js_string u = ''https://a'')" for u
    using append_same_eq [of "js_string u" "''/exists?mailbox_id='' @ mid" "''https://a''"] by simp
  then show ?thesis
    by (simp add: probes_def only_a_def ideal_def exists_request_def probe_ok_def resp_ok_def)
qed

theorem resolve_finds_after_growth_witness:
  "let mid = hmacHex demo (bytesToHex key_b) ''secret'';
       w = world_at Map.empty [''prior_shard_counts'' \<mapsto> ''[1]''] 5;
       urls = [Some (JStr ''https://a''), Some (JStr ''https://b'')] in
   \<exists>m\<ge>1. fst (run (only_a mid) (handleResolve demo demo_env urls (get ''/resolve'' [(''pubkey'', bytesToHex key_b)])) w) =
     Done (jsonOk (resolve_response mid (era_replicas demo demo_env (bytesToHex key_b) urls m) m (Some 1) None) [])"
proof -
  define mid where "mid = hmacHex demo (bytesToHex key_b) ''secret''"
  have view: "sv_view (only_a mid) (world_at m a now) ROUTER_ADMIN_KV = a" for m a now
    by (simp add: only_a_def ideal_def world_at_def)
  have prior: "json_array_of ''[1]'' = Some [JNum 1]" by code_simp
  have rf: "replicationFactor demo_env n = Some 1" if "1 \<le> n" for n using that by (simp add: replicationFactor_def)
  have rf': "replicationFactor demo_env n \<noteq> None" for n by (simp add: replicationFactor_def)
  have point: "hashPoint demo (bytesToHex key_b) = Some (int (be_value (take 4 (sha256 demo (utf8 (bytesToHex key_b))))))"
    using demo_sizes by (intro hashPoint_bytes) (simp add: standard_sizes_def)
  have there: "js_string (hd (era_replicas demo demo_env (bytesToHex key_b) [Some (JStr ''https://a'')] 1)) = ''https://a''"
    by (simp add: era_replicas_def replicasForEra_def point rf replicaSet_ring js_string_def)
  let ?kv = "[''prior_shard_counts'' \<mapsto> ''[1]'']" and ?a = "[Some (JStr ''https://a'')]" and ?b = "[Some (JStr ''https://b'')]"
  let ?w = "world_at Map.empty ?kv 5" and ?req = "get ''/resolve'' [(''pubkey'', bytesToHex key_b)]"
  have state: "prior_of demo_env ?kv = [JNum 1]" "version_of demo_env ?kv = Some 1"
    by (simp_all add: prior_of_def prior version_of_def var_version_def)
  have "\<exists>m. int (length ?a) \<le> m \<and> js_string (hd (era_replicas demo demo_env (bytesToHex key_b) (?a @ ?b) m)) = ''https://a'' \<and>
      fst (run (only_a mid) (handleResolve demo demo_env (?a @ ?b) ?req) ?w) =
        Done (jsonOk (resolve_response mid (era_replicas demo demo_env (bytesToHex key_b) (?a @ ?b) m) m
          (version_of demo_env (sv_view (only_a mid) ?w ROUTER_ADMIN_KV)) None) [])"
  proof (rule resolve_finds_after_growth [where pubkey = "bytesToHex key_b" and holds = "\<lambda>u. js_string u = ''https://a''", OF _ _ _ _ _ only_a_probes _ rf'])
    show "isolated (only_a mid)" by (simp add: only_a_def ideal_isolated)
    show "mid = hmacHex demo (lower (bytesToHex key_b)) (var_text (SERVER_SECRET demo_env))"
      by (simp add: mid_def var_text_def)
    show "hashPoint demo (lower (bytesToHex key_b)) = Some (int (be_value (take 4 (sha256 demo (utf8 (bytesToHex key_b))))))"
      by (simp add: point)
    show "JNum (int (length ?a)) \<in> set (prior_of demo_env (sv_view (only_a mid) ?w ROUTER_ADMIN_KV))"
      by (simp add: view state)
  qed (use there in simp_all)
  then show ?thesis unfolding Let_def mid_def [symmetric] by (auto simp: view state)
qed

section \<open>Joining the mesh\<close>

text \<open>A registration with a pending challenge, enough work and a valid self-signature, when the mesh
  has room, puts the shard into the registry under its URL and key, bumps the table version by one and
  leaves the prior counts alone; its nonce is spent, so redeeming it again is refused.\<close>

theorem shard_registration:
  assumes iso: "isolated sv" and kv: "has_ROUTER_ADMIN_KV env" and body: "body_of req = Some body"
    and q: "shard_request body = Inr q" and adm: "\<not> register_limited (sv_view sv s ROUTER_ADMIN_KV) (sv_clock sv s) req"
    and ok: "registry_ok (registered_of (sv_view sv s ROUTER_ADMIN_KV))"
    and regs: "registers cr env (sv_view sv s ROUTER_ADMIN_KV) (sv_clock sv s) q pk"
  shows "let after = after_registration (sr_url q) (lower pk) (sv_clock sv s) (registered_of (sv_view sv s ROUTER_ADMIN_KV));
      v = next_version env (sv_view sv s ROUTER_ADMIN_KV); s' = snd (run sv (handleRegisterShard cr env req) s);
      final = sv_view sv s' ROUTER_ADMIN_KV in
    fst (run sv (handleRegisterShard cr env req) s) = Done (register_answer (sr_url q) after v) \<and>
    final ''registered_shards'' = Some (json_stringify (JArr after)) \<and>
    final ''routing_table_version'' = Some (str_of_number v) \<and>
    final ''prior_shard_counts'' = sv_view sv s ROUTER_ADMIN_KV ''prior_shard_counts'' \<and>
    fst (run sv (register_redeem cr env q) s') = Done (jsonErr R_NonceUnknown 401)"
proof -
  note acc = handleRegisterShard_accepts [OF iso kv body q adm ok regs]
  have "present (sv_view sv (snd (run sv (handleRegisterShard cr env req) s)) ROUTER_ADMIN_KV (nonce_key (sr_nonce q))) = None"
    using acc(4) by simp
  from run_register_redeem_unknown [OF iso this, of cr env] show ?thesis
    unfolding Let_def using acc by simp
qed

text \<open>A registration on the concrete platform, at difficulty 0.\<close>

definition demo_join :: json where
  "demo_join = own_register_body demo key_b key_b ''https://b'' (Some (JStr ''n1'')) ''0'' (str_of_int 5)"

definition registry_text :: "json list \<Rightarrow> string" where
  "registry_text reg = json_stringify (JArr reg)"

definition mesh_kv :: "json list \<Rightarrow> number \<Rightarrow> string \<Rightarrow> string option" where
  "mesh_kv reg d =
     [nonce_key ''n1'' \<mapsto> json_stringify (challenge_json d 100), ''registered_shards'' \<mapsto> registry_text reg]"

lemma mesh_kv_simps [simp]:
  assumes "registry_ok reg"
  shows "registered_of (mesh_kv reg d) = reg"
proof -
  have "list_all wf_json reg" by (rule registry_ok_wf [OF assms])
  then show ?thesis unfolding mesh_kv_def registry_text_def by simp
qed

lemma mesh_kv_keys [simp]:
  "challenge_pending (mesh_kv reg d) ''n1'' d 100" "mesh_kv reg d (window_key b w now) = None"
  "version_of env (mesh_kv reg d) = var_version env"
  by (simp_all add: mesh_kv_def challenge_pending_def version_of_def)
    (simp add: nonce_key_def window_key_def)

lemma demo_join_body [simp]: "body_of (post p demo_join) = Some demo_join"
  unfolding demo_join_def own_register_body_def register_body_def mk_obj_def
  by (rule post_body) (simp add: obj_canonical_def key_precedes_def is_digit_def)

lemma demo_join_request:
  "\<exists>q. shard_request demo_join = Inr q \<and> sr_url q = ''https://b'' \<and> sr_nonce q = ''n1'' \<and> sr_solution q = ''0'' \<and>
     ownership_proved demo 5 q (bytesToHex key_b)"
proof -
  have "http_url_re ''https://b''" by code_simp
  then show ?thesis
    unfolding demo_join_def by (intro own_registration) simp_all
qed

lemma register_limited_mesh [simp]: "\<not> register_limited (mesh_kv reg d) now req"
  by (simp add: register_limited_def)

definition old_shard :: json where
  "old_shard = new_shard ''https://a'' (bytesToHex key_a) 1"

lemma old_shard_ok [simp]: "registry_ok [old_shard]" "record_url old_shard = ''https://a''"
    "record_pubkey old_shard = bytesToHex key_a"
  by (simp_all add: registry_ok_def old_shard_def record_ok_mk)

lemma demo_join_registers:
  "\<exists>q. shard_request demo_join = Inr q \<and> sr_url q = ''https://b'' \<and> sr_nonce q = ''n1'' \<and>
     registers demo demo_env (mesh_kv [old_shard] (Some 0)) 5 q (bytesToHex key_b)"
proof -
  obtain q where q: "shard_request demo_join = Inr q" "sr_url q = ''https://b''" "sr_nonce q = ''n1''" "sr_solution q = ''0''"
      "ownership_proved demo 5 q (bytesToHex key_b)" using demo_join_request by blast
  have "\<exists>d e. challenge_pending (mesh_kv [old_shard] (Some 0)) (sr_nonce q) (Some d) e \<and> 5 \<le> e \<and>
      pow_ok demo (sr_nonce q) (sr_url q) (Some d) (sr_solution q)"
    by (rule exI [of _ 0], rule exI [of _ 100]) (simp add: q pow_ok_0)
  then show ?thesis using q by (auto simp: registers_def mesh_full_def var_number_def)
qed

theorem shard_registration_witness:
  "fst (run silent (handleRegisterShard demo demo_env (post ''/register_shard'' demo_join)) (world_at Map.empty (mesh_kv [old_shard] (Some 0)) 5)) =
    Done (register_answer ''https://b'' [old_shard, new_shard ''https://b'' (bytesToHex key_b) 5] (Some 2))"
proof -
  obtain q where q: "shard_request demo_join = Inr q" "sr_url q = ''https://b''" "sr_nonce q = ''n1''"
      "registers demo demo_env (mesh_kv [old_shard] (Some 0)) 5 q (bytesToHex key_b)" using demo_join_registers by blast
  show ?thesis
    using shard_registration [OF silent_isolated _ demo_join_body q(1), where s = "world_at Map.empty (mesh_kv [old_shard] (Some 0)) 5"
        and env = demo_env and cr = demo and pk = "bytesToHex key_b"] q(4)
    by (simp add: q(2,3) after_registration_def registry_put_def next_version_def var_version_def Let_def)
qed

text \<open>A registration whose solution does not meet the difficulty of its challenge is refused with
  401: the registry, the version and the challenge stay.\<close>

theorem weak_work_refused:
  assumes iso: "isolated sv" and kv: "has_ROUTER_ADMIN_KV env" and body: "body_of req = Some body"
    and q: "shard_request body = Inr q" and adm: "\<not> register_limited (sv_view sv s ROUTER_ADMIN_KV) (sv_clock sv s) req"
    and ch: "challenge_pending (sv_view sv s ROUTER_ADMIN_KV) (sr_nonce q) (Some d) e" "sv_clock sv s \<le> e"
    and weak: "\<not> pow_ok cr (sr_nonce q) (sr_url q) (Some d) (sr_solution q)"
  shows "fst (run sv (handleRegisterShard cr env req) s) = Done (jsonErr R_PowTooWeak 401) \<and>
    (\<forall>k. mark_key k \<or> sv_view sv (snd (run sv (handleRegisterShard cr env req) s)) ROUTER_ADMIN_KV k = sv_view sv s ROUTER_ADMIN_KV k)"
proof -
  obtain s1 where s1: "run sv (handleRegisterShard cr env req) s = run sv (register_redeem cr env q) s1"
      "sv_clock sv s1 = sv_clock sv s"
      "\<And>k. \<not> mark_key k \<Longrightarrow> sv_view sv s1 ROUTER_ADMIN_KV k = sv_view sv s ROUTER_ADMIN_KV k"
    using run_handleRegisterShard [OF iso kv body q adm] by blast
  have "challenge_pending (sv_view sv s1 ROUTER_ADMIN_KV) (sr_nonce q) (Some d) e" "sv_clock sv s1 \<le> e"
    using ch s1(2,3) by (auto simp: challenge_pending_def)
  from run_register_redeem_weak [OF iso this weak] show ?thesis using s1(3) by (auto simp: s1(1))
qed

theorem weak_work_refused_witness:
  "fst (run silent (handleRegisterShard demo demo_env (post ''/register_shard'' demo_join)) (world_at Map.empty (mesh_kv [old_shard] (Some 257)) 5)) =
    Done (jsonErr R_PowTooWeak 401)"
proof -
  obtain q where q: "shard_request demo_join = Inr q" "sr_nonce q = ''n1''" using demo_join_request by blast
  have "length (pow_digest demo (sr_nonce q) (sr_url q) (sr_solution q)) = 32"
    using demo_sizes by (simp add: pow_digest_def standard_sizes_def)
  then have "\<not> pow_ok demo (sr_nonce q) (sr_url q) (Some 257) (sr_solution q)"
    using leadingZeroBits_total [of "pow_digest demo (sr_nonce q) (sr_url q) (sr_solution q)"] by (auto simp: pow_ok_def)
  then show ?thesis
    using weak_work_refused [OF silent_isolated _ demo_join_body q(1), where s = "world_at Map.empty (mesh_kv [old_shard] (Some 257)) 5"
        and env = demo_env and cr = demo and d = 257 and e = 100] by (simp add: q)
qed

text \<open>When the mesh is at capacity, a shard with a new URL is refused with 403 and the registry and
  the table version stay as they were, although its challenge is spent.\<close>

theorem full_mesh_refuses:
  assumes iso: "isolated sv" and kv: "has_ROUTER_ADMIN_KV env" and body: "body_of req = Some body"
    and q: "shard_request body = Inr q" and adm: "\<not> register_limited (sv_view sv s ROUTER_ADMIN_KV) (sv_clock sv s) req"
    and ok: "registry_ok (registered_of (sv_view sv s ROUTER_ADMIN_KV))"
    and ch: "challenge_pending (sv_view sv s ROUTER_ADMIN_KV) (sr_nonce q) (Some d) e" "sv_clock sv s \<le> e"
    and pow: "pow_ok cr (sr_nonce q) (sr_url q) (Some d) (sr_solution q)"
    and own: "ownership_proved cr (sv_clock sv s) q pk"
    and full: "mesh_full env (registered_of (sv_view sv s ROUTER_ADMIN_KV)) (sr_url q)"
  shows "let final = sv_view sv (snd (run sv (handleRegisterShard cr env req) s)) ROUTER_ADMIN_KV in
    fst (run sv (handleRegisterShard cr env req) s) = Done (jsonErr (R_MeshFull (var_number (MAX_REGISTERED_SHARDS env) 200)) 403) \<and>
    final ''registered_shards'' = sv_view sv s ROUTER_ADMIN_KV ''registered_shards'' \<and>
    final ''routing_table_version'' = sv_view sv s ROUTER_ADMIN_KV ''routing_table_version'' \<and>
    final (nonce_key (sr_nonce q)) = None"
proof -
  obtain s3 where s3: "run sv (handleRegisterShard cr env req) s = run sv (register_store env q (lower pk)) s3"
      "sv_view sv s3 ROUTER_ADMIN_KV (nonce_key (sr_nonce q)) = None"
      "\<And>k. \<not> mark_key k \<Longrightarrow> k \<noteq> nonce_key (sr_nonce q) \<Longrightarrow> sv_view sv s3 ROUTER_ADMIN_KV k = sv_view sv s ROUTER_ADMIN_KV k"
    using registration_reaches_store [OF iso kv body q adm ch pow own] by blast
  have reg: "registered_of (sv_view sv s3 ROUTER_ADMIN_KV) = registered_of (sv_view sv s ROUTER_ADMIN_KV)"
    using s3(3) by (simp add: registered_of_def)
  show ?thesis
    using run_register_store(1) [OF iso kv ok [folded reg] full [folded reg], of "lower pk"] s3(2,3)
    by (simp add: s3(1) Let_def)
qed

theorem full_mesh_refuses_witness:
  "fst (run silent (handleRegisterShard demo (demo_env\<lparr>MAX_REGISTERED_SHARDS := Some ''1''\<rparr>) (post ''/register_shard'' demo_join))
      (world_at Map.empty (mesh_kv [old_shard] (Some 0)) 5)) = Done (jsonErr (R_MeshFull (Some 1)) 403)"
proof -
  obtain q where q: "shard_request demo_join = Inr q" "sr_url q = ''https://b''" "sr_nonce q = ''n1''" "sr_solution q = ''0''"
      "ownership_proved demo 5 q (bytesToHex key_b)" using demo_join_request by blast
  have one: "number_of_string ''1'' = Some 1" by code_simp
  show ?thesis
    using full_mesh_refuses [OF silent_isolated _ demo_join_body q(1), where s = "world_at Map.empty (mesh_kv [old_shard] (Some 0)) 5"
        and env = "demo_env\<lparr>MAX_REGISTERED_SHARDS := Some ''1''\<rparr>" and cr = demo and pk = "bytesToHex key_b" and d = 0 and e = 100]
    by (simp add: q pow_ok_0 mesh_full_def var_number_def var_text_def one Let_def)
qed

text \<open>C17 A shard that is already registered gets the key of the registration, whatever key it had
  before: proof of work and a signature by the new key suffice, the old key is not asked.\<close>

theorem registration_replaces_key:
  assumes iso: "isolated sv" and kv: "has_ROUTER_ADMIN_KV env" and body: "body_of req = Some body"
    and q: "shard_request body = Inr q" and adm: "\<not> register_limited (sv_view sv s ROUTER_ADMIN_KV) (sv_clock sv s) req"
    and ok: "registry_ok (registered_of (sv_view sv s ROUTER_ADMIN_KV))"
    and ch: "challenge_pending (sv_view sv s ROUTER_ADMIN_KV) (sr_nonce q) (Some d) e" "sv_clock sv s \<le> e"
    and pow: "pow_ok cr (sr_nonce q) (sr_url q) (Some d) (sr_solution q)"
    and own: "ownership_proved cr (sv_clock sv s) q pk"
    and old: "r \<in> set (registered_of (sv_view sv s ROUTER_ADMIN_KV))" "record_url r = sr_url q" "record_pubkey r \<noteq> lower pk"
  shows "\<exists>x \<in> set (registered_of (sv_view sv (snd (run sv (handleRegisterShard cr env req) s)) ROUTER_ADMIN_KV)).
    record_url x = sr_url q \<and> record_pubkey x = lower pk"
proof -
  let ?reg = "registered_of (sv_view sv s ROUTER_ADMIN_KV)" and ?now = "sv_clock sv s"
  let ?after = "after_registration (sr_url q) (lower pk) ?now ?reg" and ?upd = "updated_shard (sr_url q) (lower pk)"
  have regs: "registers cr env (sv_view sv s ROUTER_ADMIN_KV) ?now q pk"
    using ch pow own old by (auto simp: registers_def mesh_full_def)
  have reg': "registered_of (sv_view sv (snd (run sv (handleRegisterShard cr env req) s)) ROUTER_ADMIN_KV) = ?after"
    by (rule registered_of_text [where kv = "sv_view sv (snd (run sv (handleRegisterShard cr env req) s)) ROUTER_ADMIN_KV",
        OF handleRegisterShard_accepts(2) [OF iso kv body q adm ok regs] after_registration_ok [OF ok]])
  have "?upd r ?now \<in> set ?after"
    using old by (auto simp: after_registration_def registry_put_def)
  moreover have "record_url (?upd r ?now) = sr_url q" "record_pubkey (?upd r ?now) = lower pk"
    by (simp_all add: record_url_def record_pubkey_def updated_shard_def mk_obj_def js_string_def)
  ultimately show ?thesis unfolding reg' by blast
qed

theorem registration_replaces_key_witness:
  "\<exists>x. x \<in> set (registered_of (sv_view silent (snd (run silent (handleRegisterShard demo demo_env (post ''/register_shard'' demo_join))
        (world_at Map.empty (mesh_kv [new_shard ''https://b'' (bytesToHex key_a) 1] (Some 0)) 5))) ROUTER_ADMIN_KV)) \<and>
     record_url x = ''https://b'' \<and> record_pubkey x = bytesToHex key_b"
proof -
  obtain q where q: "shard_request demo_join = Inr q" "sr_url q = ''https://b''" "sr_nonce q = ''n1''" "sr_solution q = ''0''"
      "ownership_proved demo 5 q (bytesToHex key_b)" using demo_join_request by blast
  have reg: "registry_ok [new_shard ''https://b'' (bytesToHex key_a) 1]" by (simp add: registry_ok_def record_ok_mk)
  show ?thesis
    using registration_replaces_key [OF silent_isolated _ demo_join_body q(1), where env = demo_env and cr = demo and pk = "bytesToHex key_b"
        and s = "world_at Map.empty (mesh_kv [new_shard ''https://b'' (bytesToHex key_a) 1] (Some 0)) 5" and d = 0 and e = 100
        and r = "new_shard ''https://b'' (bytesToHex key_a) 1"] reg
    by (auto simp: q pow_ok_0 record_ok_mk)
qed

text \<open>C16 Growing the mesh by a registration does not record the old shard count: unless an operator
  had already listed it among the prior counts, the era of the count before the registration, which the
  Router used up to now, is none of the eras \<open>/resolve\<close> walks afterwards.\<close>

theorem growth_forgets_era:
  assumes iso: "isolated sv" and kv: "has_ROUTER_ADMIN_KV env" and body: "body_of req = Some body"
    and q: "shard_request body = Inr q" and adm: "\<not> register_limited (sv_view sv s ROUTER_ADMIN_KV) (sv_clock sv s) req"
    and ok: "registry_ok (registered_of (sv_view sv s ROUTER_ADMIN_KV))"
    and regs: "registers cr env (sv_view sv s ROUTER_ADMIN_KV) (sv_clock sv s) q pk"
    and base: "base_urls env (sv_view sv s ROUTER_ADMIN_KV) base"
    and new: "JStr (sr_url q) \<notin> set base" "\<not> (\<exists>r\<in>set (registered_of (sv_view sv s ROUTER_ADMIN_KV)). record_url r = sr_url q)"
    and some: "mesh_urls base (registered_of (sv_view sv s ROUTER_ADMIN_KV)) \<noteq> []"
    and unlisted: "JNum (int (length (mesh_urls base (registered_of (sv_view sv s ROUTER_ADMIN_KV))))) \<notin>
      set (prior_of env (sv_view sv s ROUTER_ADMIN_KV))"
  shows "let before = mesh_urls base (registered_of (sv_view sv s ROUTER_ADMIN_KV)); n = int (length before);
      s' = snd (run sv (handleRegisterShard cr env req) s); after = before @ [Some (JStr (sr_url q))] in
    n \<in> set (eraCountsDescending before (prior_of env (sv_view sv s ROUTER_ADMIN_KV))) \<and>
    fst (run sv (getShardUrls env Return) s') = Done after \<and>
    n \<notin> set (eraCountsDescending after (prior_of env (sv_view sv s' ROUTER_ADMIN_KV)))"
proof -
  let ?reg = "registered_of (sv_view sv s ROUTER_ADMIN_KV)" and ?s' = "snd (run sv (handleRegisterShard cr env req) s)"
  let ?after = "after_registration (sr_url q) (lower pk) (sv_clock sv s) ?reg"
  note acc = handleRegisterShard_accepts [OF iso kv body q adm ok regs]
  have all: "list_all record_ok ?reg" using ok by (simp add: registry_ok_def)
  have ok': "registry_ok ?after" by (rule after_registration_ok [OF ok])
  have reg': "registered_of (sv_view sv ?s' ROUTER_ADMIN_KV) = ?after" 
    by (rule registered_of_text [where kv = "sv_view sv ?s' ROUTER_ADMIN_KV", OF acc(2) ok'])
  have base': "base_urls env (sv_view sv ?s' ROUTER_ADMIN_KV) base"
    using base acc(6) by (simp add: base_urls_def)
  have prior': "prior_of env (sv_view sv ?s' ROUTER_ADMIN_KV) = prior_of env (sv_view sv s ROUTER_ADMIN_KV)"
    using acc(5) by (simp add: prior_of_def)
  show ?thesis
    using run_getShardUrls [OF iso kv ok' [folded reg'] base', of Return] mesh_urls_new [OF new(1,2) all, of "lower pk" "sv_clock sv s"]
      some unlisted by (auto simp: Let_def eras_set reg' prior')
qed

theorem growth_forgets_era_witness:
  "let s' = snd (run silent (handleRegisterShard demo demo_env (post ''/register_shard'' demo_join))
        (world_at Map.empty (mesh_kv [old_shard] (Some 0)) 5)) in
   1 \<notin> set (eraCountsDescending [Some (JStr ''https://a''), Some (JStr ''https://b'')] (prior_of demo_env (sv_view silent s' ROUTER_ADMIN_KV)))"
proof -
  obtain q where q: "shard_request demo_join = Inr q" "sr_url q = ''https://b''" "sr_nonce q = ''n1''"
      "registers demo demo_env (mesh_kv [old_shard] (Some 0)) 5 q (bytesToHex key_b)" using demo_join_registers by blast
  have none: "json_parse ''[]'' = Some (JArr [])" by code_simp
  have state: "base_urls demo_env (mesh_kv [old_shard] (Some 0)) []" "prior_of demo_env (mesh_kv [old_shard] (Some 0)) = []"
    by (simp_all add: base_urls_def prior_of_def mesh_kv_def nonce_key_def env_shard_urls_def var_prior_counts_def none)
  have urls: "mesh_urls [] [old_shard] = [Some (JStr ''https://a'')]" by (simp add: mesh_urls_def merge_urls_def)
  show ?thesis
    using growth_forgets_era [OF silent_isolated _ demo_join_body q(1), where s = "world_at Map.empty (mesh_kv [old_shard] (Some 0)) 5"
        and env = demo_env and cr = demo and pk = "bytesToHex key_b" and base = "[]"] q(4)
    by (simp add: q(2,3) state urls Let_def)
qed

section \<open>Rotating a key\<close>

text \<open>C15 A rotation is applied exactly when the registered key of the shard is the old key named and both
  the old and the new key signed it; otherwise it is refused with 401 and nothing is written.  When applied,
  only the record of that shard changes, and the table version goes up.\<close>

theorem rotation_needs_both_keys:
  assumes iso: "isolated sv" and kv: "has_ROUTER_ADMIN_KV env" and body: "body_of req = Some body"
    and q: "rotate_request body = Inr (Inr q)" and keys: "ro_old q = Some (JStr old)" "ro_new q = Some (JStr new)"
    and skew: "\<not> outside_skew (sv_clock sv s) (js_number (ro_timestamp q)) (Some 60000)"
    and ok: "registry_ok (registered_of (sv_view sv s ROUTER_ADMIN_KV))"
    and rec: "List.find (\<lambda>x. record_url x = ro_url q) (registered_of (sv_view sv s ROUTER_ADMIN_KV)) = Some r"
  shows "let run' = run sv (handleRotateShardKey cr env req) s; kv = sv_view sv s ROUTER_ADMIN_KV in
    if lower (record_pubkey r) = lower old \<and> rotation_authorized cr q old new
    then fst run' = Done (rotate_answer (ro_url q) (lower new) (next_version env kv)) \<and>
      sv_view sv (snd run') ROUTER_ADMIN_KV =
        committed env (after_rotation (ro_url q) (lower old) (lower new) (sv_clock sv s) (registered_of kv)) kv
    else fst run' \<in> {Done (jsonErr R_OldPubkeyMismatch 401), Done (jsonErr R_OldSigFailed 401), Done (jsonErr R_NewSigFailed 401)} \<and>
      sv_view sv (snd run') = sv_view sv s"
proof -
  have run: "run sv (handleRotateShardKey cr env req) s = run sv (rotate_apply cr env q) (snd (sv_now sv s))"
    using iso kv skew by (simp add: handleRotateShardKey_def body q run_simps)
  have v: "sv_view sv (snd (sv_now sv s)) = sv_view sv s" "sv_clock sv (snd (sv_now sv s)) = sv_clock sv s"
    using iso by (simp_all add: view_simps)
  note app = run_rotate_apply [OF iso kv ok [folded v(1)] keys rec [folded v(1)], of cr, unfolded v]
  show ?thesis
  proof (cases "lower (record_pubkey r) = lower old \<and> rotation_authorized cr q old new")
    case True
    then have "lower (record_pubkey r) = lower old" "rotation_authorized cr q old new" by simp_all
    from app(1) [OF this] True show ?thesis by (simp add: run)
  next
    case False
    then show ?thesis using app(2) [OF False] by (simp only: Let_def run if_False)
  qed
qed

lemma demo_rotation_body:
  "body_of (post p (rotation_bodies demo key_a key_a key_b key_b ''https://a'' (str_of_int 5))) =
     Some (rotation_bodies demo key_a key_a key_b key_b ''https://a'' (str_of_int 5))"
  unfolding rotation_bodies_def rotation_body_def mk_obj_def
  by (rule post_body) (simp add: obj_canonical_def key_precedes_def is_digit_def)

theorem rotation_needs_both_keys_witness:
  "fst (run silent (handleRotateShardKey demo demo_env
        (post ''/rotate_shard_key'' (rotation_bodies demo key_a key_a key_b key_b ''https://a'' (str_of_int 5))))
      (world_at Map.empty (mesh_kv [old_shard] (Some 0)) 5)) =
    Done (rotate_answer ''https://a'' (bytesToHex key_b) (Some 2))"
proof -
  have url: "http_url_re ''https://a''" by code_simp
  obtain q where q: "rotate_request (rotation_bodies demo key_a key_a key_b key_b ''https://a'' (str_of_int 5)) = Inr (Inr q)"
      "ro_url q = ''https://a''" "ro_old q = Some (JStr (bytesToHex key_a))" "ro_new q = Some (JStr (bytesToHex key_b))"
      "ro_timestamp q = Some (JStr (str_of_int 5))" "rotation_authorized demo q (bytesToHex key_a) (bytesToHex key_b)"
    using own_rotation [of demo key_a key_a key_b key_b "''https://a''" 5] url by auto
  show ?thesis
    using rotation_needs_both_keys [OF silent_isolated _ demo_rotation_body q(1,3,4), where s = "world_at Map.empty (mesh_kv [old_shard] (Some 0)) 5"
        and env = demo_env and r = old_shard] q(6)
    by (simp add: q outside_skew_iff next_version_def var_version_def Let_def)
qed

section \<open>Every request, every interleaving\<close>

text \<open>C4 However the requests of the Router interleave at their KV operations, with reads that may
  return any value written before and operations that may fail, the Router writes only its own namespace, a
  stored registry is the text of well-formed records with distinct URLs within the capacity of the mesh, a
  stored challenge carries its difficulty and expiry and every counter is a number.\<close>

theorem router_store_well_formed:
  "reachable (router_programs cr env) H ps \<Longrightarrow> (n, k, v) \<in> H \<Longrightarrow> router_value env n k v"
  by (rule router_kv.reachable_value)

theorem router_store_well_formed_witness:
  "let env = demo_env\<lparr>SHARD_URLS := Some (json_stringify (JArr [JStr ''https://a'']))\<rparr>; nonce = bytesToHex (replicate 16 7) in
   \<exists>H ps. reachable (router_programs demo env) H ps \<and>
     (ROUTER_ADMIN_KV, nonce_key nonce, json_stringify (challenge_json (Some 20) 120000)) \<in> H \<and>
     router_value env ROUTER_ADMIN_KV (nonce_key nonce) (json_stringify (challenge_json (Some 20) 120000))"
proof -
  let ?env = "demo_env\<lparr>SHARD_URLS := Some (json_stringify (JArr [JStr ''https://a'']))\<rparr>" and ?w = "world_at Map.empty Map.empty 0"
  let ?p = "bind (router_fetch demo ?env initial_health (get ''/pow_challenge'' [])) (\<lambda>_. Return ())"
  let ?n = "bytesToHex (replicate 16 7)" and ?v = "json_stringify (challenge_json (Some 20) 120000)"
  have p: "?p \<in> router_programs demo ?env" by (auto simp: router_programs_def)
  have "serves (router_programs demo ?env) (world_at Map.empty Map.empty 0)"
    by (rule serves.starts_empty) (simp add: world_at_def fun_eq_iff split: ns.split)
  from serves.serves_one [OF this p, of "\<lambda>_. []" 0]
  have served: "serves (router_programs demo ?env) (snd (run silent ?p ?w))"
    by (simp only: silent_def world_at_def world.simps)
  have secret: "btoa key_a \<noteq> []" by (simp add: btoa_Nil)
  have "w_store (snd (run silent ?p ?w)) ROUTER_ADMIN_KV (nonce_key ?n) = Some ?v"
    using secret by (simp add: router_fetch_def run_bind run_catch_with try_shard_urls_def router_secrets_set_def get_def
        getShardUrls_def kvGet_def kvPut_def run.simps silent_steps env_shard_urls_def getRegisteredShards_def merge_urls_def
        router_route_def handlePowChallenge_def adminRateLimit_def randomHex_def var_number_def POW_CHALLENGE_TTL_SECONDS_def
        world_at_def Let_def del: catch_with_smart)
  then show ?thesis using serves_reachable [OF served] router_store_well_formed unfolding Let_def stored_in_def by blast
qed

end
