(* ===== verification/CombinedHelpers.thy ===== *)
theory CombinedHelpers
  imports RouterWorker ShardWorker
begin

text \<open>
  \<open>combined/worker.js\<close> imports nothing: it repeats the helpers of \<open>shard/worker.js\<close> and
  \<open>router/router.js\<close> in its own text.  This theory translates its copies, under their names with
  the prefix \<open>c_\<close>, and proves each equal to the original, so that the lemmas about the originals
  hold for the combined worker.  The equations are simplification rules from the copy to the
  original, collected in \<open>combined_copies\<close>.
\<close>

named_theorems combined_copies \<open>the helpers of the combined worker are those it was copied from\<close>

section \<open>Constants\<close>

definition c_POW_SOLVE_MAX_ATTEMPTS :: nat where
  "c_POW_SOLVE_MAX_ATTEMPTS = 8000000"

definition c_HEALTH_CACHE_TTL_MS :: int where
  "c_HEALTH_CACHE_TTL_MS = 10000"

definition c_REPLICATION_FACTOR_DEFAULT :: int where
  "c_REPLICATION_FACTOR_DEFAULT = 1"

definition c_ALLOWED_ENVELOPE_TYPES :: "string list" where
  "c_ALLOWED_ENVELOPE_TYPES = [''offer'', ''answer'', ''message'', ''finish'']"

definition c_MAX_JSON_DEPTH :: nat where
  "c_MAX_JSON_DEPTH = 8"

definition c_DEFAULTS :: cfg where
  "c_DEFAULTS =
     \<lparr> MAX_MESSAGES = Some 50, MAX_MSG_BYTES = Some 32768, TTL_SECONDS = Some 1209600,
       MAILBOX_TTL_SECONDS = Some 31536000, MAX_CLOCK_SKEW = Some 30000,
       MAX_SENDS_PER_SENDER = Some 30, MAX_SENDS_PER_TARGET = Some 60, MAX_SENDS_PER_IP = Some 120,
       MAX_CREATES_PER_IP = Some 20, MAX_REPLICATES_PER_ORIGIN = Some 200 \<rparr>"

lemma c_DEFAULTS_eq [simp, combined_copies]: "c_DEFAULTS = DEFAULTS"
  by (simp add: c_DEFAULTS_def DEFAULTS_def)

section \<open>Bytes, hashes and comparison\<close>

definition c_bytesToHex :: "byte list \<Rightarrow> string" where
  "c_bytesToHex bytes = concat (map (\<lambda>b. pad_start 2 (CHR ''0'') (to_string16 (unat b))) bytes)"

definition c_hexToBytes :: "string \<Rightarrow> js_error + byte list" where
  "c_hexToBytes hex =
     (if length hex mod 2 \<noteq> 0 then Inl (UserError ''odd-length hex'')
      else Inr (map (\<lambda>i. to_uint8 (parse_int16 (take 2 (drop (i * 2) hex)))) [0..<length hex div 2]))"

definition c_sha256Hex :: "crypto \<Rightarrow> string \<Rightarrow> string" where
  "c_sha256Hex cr str = c_bytesToHex (sha256 cr (utf8 str))"

definition c_hmacHex :: "crypto \<Rightarrow> string \<Rightarrow> string \<Rightarrow> string" where
  "c_hmacHex cr message secret = c_bytesToHex (hmac cr (utf8 secret) (utf8 message))"

definition c_randomHex :: "nat \<Rightarrow> (string \<Rightarrow> 'a prog) \<Rightarrow> 'a prog" where
  "c_randomHex bytes k = Random bytes (\<lambda>r. k (c_bytesToHex r))"

definition c_constantTimeEqual :: "string \<Rightarrow> string \<Rightarrow> bool" where
  "c_constantTimeEqual a b =
     (let aBytes = utf8 a; bBytes = utf8 b;
          len = max (max (length aBytes) (length bBytes)) 32;
          aPad = aBytes @ replicate (len - length aBytes) 0;
          bPad = bBytes @ replicate (len - length bBytes) 0;
          diff0 = (of_nat (length aBytes) XOR of_nat (length bBytes) :: 32 word);
          diff = foldl (\<lambda>d i. d OR ucast (aPad ! i XOR bPad ! i)) diff0 [0..<len]
      in diff = 0)"

fun c_leadingZeroBits_from :: "byte list \<Rightarrow> nat \<Rightarrow> nat option" where
  "c_leadingZeroBits_from [] bits = Some bits"
| "c_leadingZeroBits_from (b # bytes) bits =
     (if b = 0 then c_leadingZeroBits_from bytes (bits + 8) else shiftLoop (ucast b) bits)"

definition c_leadingZeroBits :: "byte list \<Rightarrow> nat option" where
  "c_leadingZeroBits bytes = c_leadingZeroBits_from bytes 0"

lemma c_bytes_eq [simp, combined_copies]:
  shows "c_bytesToHex = bytesToHex" and "c_hexToBytes = hexToBytes"
  by (simp_all add: fun_eq_iff c_bytesToHex_def bytesToHex_def c_hexToBytes_def hexToBytes_def hex_byte_at_def)

lemma c_crypto_eq [simp, combined_copies]:
  shows "c_sha256Hex = sha256Hex" and "c_hmacHex = hmacHex" and "c_randomHex = randomHex"
  by (simp_all add: fun_eq_iff c_sha256Hex_def sha256Hex_def c_hmacHex_def hmacHex_def c_randomHex_def randomHex_def)

lemma c_constantTimeEqual_eq [simp, combined_copies]: "c_constantTimeEqual = constantTimeEqual"
  by (intro ext) (simp only: c_constantTimeEqual_def constantTimeEqual_def)

lemma c_leadingZeroBits_from_eq: "c_leadingZeroBits_from bytes bits = leadingZeroBits_from bytes bits"
  by (induction bytes arbitrary: bits) simp_all

lemma c_leadingZeroBits_eq [simp, combined_copies]: "c_leadingZeroBits = leadingZeroBits"
  by (simp add: fun_eq_iff c_leadingZeroBits_def leadingZeroBits_def c_leadingZeroBits_from_eq)

section \<open>Proof of work\<close>

fun c_solvePow_loop :: "crypto \<Rightarrow> string \<Rightarrow> string \<Rightarrow> number \<Rightarrow> nat \<Rightarrow> nat \<Rightarrow> js_error + string" where
  "c_solvePow_loop cr nonce shardUrl difficulty 0 i =
     Inl (UserError ''failed to solve PoW within attempt budget'')"
| "c_solvePow_loop cr nonce shardUrl difficulty (Suc n) i =
     (let solution = str_of_nat i;
          digest = sha256 cr (utf8 (nonce @ '':'' @ shardUrl @ '':'' @ solution))
      in if num_ge (map_option int (c_leadingZeroBits digest)) difficulty then Inr solution
         else c_solvePow_loop cr nonce shardUrl difficulty n (Suc i))"

definition c_solvePow :: "crypto \<Rightarrow> string \<Rightarrow> string \<Rightarrow> number \<Rightarrow> js_error + string" where
  "c_solvePow cr nonce shardUrl difficulty =
     c_solvePow_loop cr nonce shardUrl difficulty c_POW_SOLVE_MAX_ATTEMPTS 0"

lemma c_solvePow_loop_eq:
  "c_solvePow_loop cr nonce shardUrl difficulty n i = solvePow_loop cr nonce shardUrl difficulty n i"
  by (induction n arbitrary: i) (simp_all add: Let_def pow_ok_def pow_digest_def)

lemma c_solvePow_eq [simp, combined_copies]: "c_solvePow = solvePow"
  by (simp only: fun_eq_iff c_solvePow_def solvePow_def c_solvePow_loop_eq c_POW_SOLVE_MAX_ATTEMPTS_def
      POW_SOLVE_MAX_ATTEMPTS_def simp_thms)

section \<open>Keys and signatures\<close>

definition c_importSigningKey :: "crypto \<Rightarrow> string \<Rightarrow> js_error + byte list" where
  "c_importSigningKey cr pkcs8Base64 =
     (case atob pkcs8Base64 of
        Inl e \<Rightarrow> Inl e
      | Inr raw \<Rightarrow> if ed_import cr raw then Inr raw else Inl (ServiceError ''DataError''))"

text \<open>\<open>importSigningKey(env.ROUTER_SIGNING_KEY)\<close>.\<close>

definition c_signing_key :: "crypto \<Rightarrow> env \<Rightarrow> (byte list \<Rightarrow> 'a prog) \<Rightarrow> 'a prog" where
  "c_signing_key cr env k = attempt (c_importSigningKey cr (js_string (str_val (ROUTER_SIGNING_KEY env)))) k"

definition c_signHex :: "crypto \<Rightarrow> byte list \<Rightarrow> string \<Rightarrow> string" where
  "c_signHex cr privKey message = c_bytesToHex (ed_sign cr privKey (utf8 message))"

text \<open>
  \<open>verifyEd25519\<close> on a signature that need not be a string: one that is not, but passes the hex
  test of the callers, is an array of one element, whose odd \<open>length\<close> \<open>hexToBytes\<close> rejects.
\<close>

definition c_verifyEd25519 :: "crypto \<Rightarrow> string \<Rightarrow> string \<Rightarrow> jsval \<Rightarrow> bool" where
  "c_verifyEd25519 cr pubkeyHex message sigHex =
     (case c_hexToBytes pubkeyHex of
        Inl e \<Rightarrow> False
      | Inr pubkeyBytes \<Rightarrow>
          (case sigHex of
             Some (JStr s) \<Rightarrow>
               (case c_hexToBytes s of
                  Inl e \<Rightarrow> False
                | Inr sigBytes \<Rightarrow>
                    (case ed_verify cr pubkeyBytes sigBytes (utf8 message) of None \<Rightarrow> False | Some b \<Rightarrow> b))
           | _ \<Rightarrow> False))"

lemma c_sign_eq [simp, combined_copies]:
  shows "c_importSigningKey = importShardPrivateKey" and "c_signHex = signWithShardKey"
  by (simp_all add: fun_eq_iff c_importSigningKey_def importShardPrivateKey_def c_signHex_def signWithShardKey_def)

lemma c_signing_key_eq [simp, combined_copies]: "c_signing_key = signing_key"
  by (simp add: fun_eq_iff c_signing_key_def signing_key_def)

lemma c_verifyEd25519_string [simp]:
  "c_verifyEd25519 cr pub m (Some (JStr s)) = verifyEd25519Message cr pub m s"
  by (auto simp: c_verifyEd25519_def verifyEd25519Message_def split: sum.splits)

lemma c_verifyEd25519_is: "c_verifyEd25519 = verify_jsval"
  by (auto simp: fun_eq_iff c_verifyEd25519_def verify_jsval_def verifyEd25519Message_def
      split: option.splits json.splits sum.splits)

section \<open>Placement\<close>

definition c_hashPoint :: "crypto \<Rightarrow> string \<Rightarrow> number" where
  "c_hashPoint cr str = (let hex = c_sha256Hex cr str in parse_int16 (take 8 hex))"

definition c_replicaSetForEra :: "number \<Rightarrow> int \<Rightarrow> jsval list \<Rightarrow> number \<Rightarrow> jsval list" where
  "c_replicaSetForEra point n shardUrls r =
     (let start = js_mod point (Some n)
      in map (\<lambda>i. elem_at shardUrls (js_mod (num_add start (int i)) (Some n)))
           [0..<(case r of Some k \<Rightarrow> nat k | None \<Rightarrow> 0)])"

definition c_replicasForEra :: "crypto \<Rightarrow> string \<Rightarrow> int \<Rightarrow> jsval list \<Rightarrow> number \<Rightarrow> jsval list" where
  "c_replicasForEra cr pubkeyOrId n shardUrls r =
     (let point = c_hashPoint cr (lower pubkeyOrId) in c_replicaSetForEra point n shardUrls r)"

definition c_replicationFactor :: "env \<Rightarrow> int \<Rightarrow> number" where
  "c_replicationFactor env n =
     (let want = (case present (REPLICATION_FACTOR env) of
                    Some s \<Rightarrow> number_of_string s
                  | None \<Rightarrow> Some c_REPLICATION_FACTOR_DEFAULT)
      in map_option (\<lambda>w. max 1 (min w n)) want)"

definition c_eraCountsDescending :: "jsval list \<Rightarrow> json list \<Rightarrow> int list" where
  "c_eraCountsDescending shardUrls priorCounts =
     (let currentN = JNum (int (length shardUrls));
          all = List.map_filter (era_ok (length shardUrls)) (currentN # priorCounts)
      in rev (sort (js_set all)))"

lemma c_placement_eq [simp, combined_copies]:
  shows "c_hashPoint = hashPoint" and "c_replicaSetForEra = replicaSetForEra"
    and "c_replicasForEra = replicasForEra"
  by (simp_all add: fun_eq_iff c_hashPoint_def hashPoint_def c_replicaSetForEra_def replicaSetForEra_def
      c_replicasForEra_def replicasForEra_def Let_def)

lemma c_replicationFactor_eq [simp, combined_copies]: "c_replicationFactor = replicationFactor"
  by (auto simp: fun_eq_iff c_replicationFactor_def replicationFactor_def present_def is_set_def
      c_REPLICATION_FACTOR_DEFAULT_def split: option.splits)

lemma sort_descending:
  fixes xs :: "int list"
  assumes "distinct xs"
  shows "sort_key uminus xs = rev (sort xs)"
proof (rule map_sorted_distinct_set_unique [where f = uminus])
  show "sorted (map uminus (rev (sort xs)))"
    by (simp add: sorted_map sorted_wrt_rev)
qed (use assms in \<open>auto simp: distinct_map inj_on_def\<close>)

lemma c_eraCountsDescending_eq [simp, combined_copies]: "c_eraCountsDescending = eraCountsDescending"
  by (simp add: fun_eq_iff c_eraCountsDescending_def eraCountsDescending_def Let_def sort_descending)

section \<open>Configuration in \<open>ROUTER_ADMIN_KV\<close>\<close>

definition c_getRegisteredShards :: "env \<Rightarrow> (json list \<Rightarrow> 'a prog) \<Rightarrow> 'a prog" where
  "c_getRegisteredShards env k =
     (if \<not> has_ROUTER_ADMIN_KV env then k []
      else kvGet ROUTER_ADMIN_KV ''registered_shards'' (\<lambda>raw.
        case present raw of
          None \<Rightarrow> k []
        | Some text \<Rightarrow> k (case json_array_of text of Some parsed \<Rightarrow> parsed | None \<Rightarrow> [])))"

definition c_getShardPubkeys :: "env \<Rightarrow> ((string \<Rightarrow> jsval) \<Rightarrow> 'a prog) \<Rightarrow> 'a prog" where
  "c_getShardPubkeys env k =
     c_getRegisteredShards env (\<lambda>registered. attempt (pubkey_map registered (\<lambda>_. None)) k)"

definition c_adminRateLimit :: "env \<Rightarrow> string \<Rightarrow> int \<Rightarrow> int \<Rightarrow> (bool \<Rightarrow> 'a prog) \<Rightarrow> 'a prog" where
  "c_adminRateLimit env bucketKey limit windowSeconds k =
     (if \<not> has_ROUTER_ADMIN_KV env then k True
      else Now (\<lambda>now.
        let key = ''rl:'' @ bucketKey @ '':'' @ str_of_int (now div (windowSeconds * 1000)) in
        kvGet ROUTER_ADMIN_KV key (\<lambda>raw.
          let current = counter_value raw in
          if num_ge current (Some limit) then k False
          else kvPut ROUTER_ADMIN_KV key (str_of_number (map_option (\<lambda>c. c + 1) current))
                 (Some (Some (windowSeconds + 5))) (k True))))"

definition c_getPriorShardCounts :: "env \<Rightarrow> (json list \<Rightarrow> 'a prog) \<Rightarrow> 'a prog" where
  "c_getPriorShardCounts env k =
     (let from_var = (case present (PRIOR_SHARD_COUNTS env) of
                        None \<Rightarrow> []
                      | Some text \<Rightarrow> (case json_array_of text of Some parsed \<Rightarrow> parsed | None \<Rightarrow> []))
      in if has_ROUTER_ADMIN_KV env
         then kvGet ROUTER_ADMIN_KV ''prior_shard_counts'' (\<lambda>raw.
           k (case present raw of
                Some text \<Rightarrow> (case json_array_of text of Some parsed \<Rightarrow> parsed | None \<Rightarrow> from_var)
              | None \<Rightarrow> from_var))
         else k from_var)"

definition c_getRoutingTableVersion :: "env \<Rightarrow> (number \<Rightarrow> 'a prog) \<Rightarrow> 'a prog" where
  "c_getRoutingTableVersion env k =
     (let from_var = (case present (ROUTING_TABLE_VERSION env) of
                        Some s \<Rightarrow> number_of_string s | None \<Rightarrow> Some 1)
      in if has_ROUTER_ADMIN_KV env
         then kvGet ROUTER_ADMIN_KV ''routing_table_version'' (\<lambda>raw.
           k (case present raw of
                Some text \<Rightarrow> if digits_re (trim text) then number_of_string (trim text) else from_var
              | None \<Rightarrow> from_var))
         else k from_var)"

lemma c_getRegisteredShards_eq [simp, combined_copies]: "c_getRegisteredShards = getRegisteredShards"
  by (auto simp: fun_eq_iff c_getRegisteredShards_def getRegisteredShards_def json_array_of_def
      intro!: arg_cong [where f = "kvGet _ _"] split: option.splits json.splits)

lemma c_getShardPubkeys_eq [simp, combined_copies]: "c_getShardPubkeys = getShardPubkeys"
  by (simp add: fun_eq_iff c_getShardPubkeys_def getShardPubkeys_def)

lemma c_adminRateLimit_eq [simp, combined_copies]: "c_adminRateLimit = adminRateLimit"
  by (simp add: fun_eq_iff c_adminRateLimit_def adminRateLimit_def window_key_def)

lemma c_getPriorShardCounts_eq [simp, combined_copies]: "c_getPriorShardCounts = getPriorShardCounts"
  by (simp add: fun_eq_iff c_getPriorShardCounts_def getPriorShardCounts_def var_prior_counts_def Let_def
      cong: option.case_cong)

lemma var_version_present:
  "var_version env = (case present (ROUTING_TABLE_VERSION env) of Some s \<Rightarrow> number_of_string s | None \<Rightarrow> Some 1)"
  by (auto simp: var_version_def present_def is_set_def split: option.splits)

lemma c_getRoutingTableVersion_eq [simp, combined_copies]: "c_getRoutingTableVersion = getRoutingTableVersion"
  by (auto simp: fun_eq_iff c_getRoutingTableVersion_def getRoutingTableVersion_def var_version_present Let_def
      intro!: arg_cong [where f = "kvGet _ _"] split: option.splits)

section \<open>Shard health\<close>

definition c_health_call :: "string option \<Rightarrow> jsval \<Rightarrow> out_request" where
  "c_health_call secret shardUrl =
     \<lparr> out_method = ''GET'', out_url = js_string shardUrl @ ''/health'',
       out_headers = (case present secret of
                        Some s \<Rightarrow> [(''Authorization'', ''Bearer '' @ s)] | None \<Rightarrow> []),
       out_body = None \<rparr>"

definition c_checkShardHealth :: "fetch_result \<Rightarrow> bool" where
  "c_checkShardHealth resp = (case resp of Fetched st text \<Rightarrow> resp_ok st | FetchFailed name m \<Rightarrow> False)"

definition c_getHealthyShards ::
  "string option \<Rightarrow> health_cache \<Rightarrow> jsval list \<Rightarrow> (jsval list \<Rightarrow> health_cache \<Rightarrow> 'a prog) \<Rightarrow> 'a prog" where
  "c_getHealthyShards secret cache shardUrls k =
     Now (\<lambda>now.
       let refresh = FetchAll (map (c_health_call secret) shardUrls) (\<lambda>results.
             let healthy = map fst (filter (\<lambda>(u, ok). ok) (zip shardUrls (map c_checkShardHealth results)));
                 kept = (if healthy \<noteq> [] then healthy else shardUrls)
             in k kept \<lparr> hc_checkedAt = now, hc_urls = Some kept \<rparr>)
       in case hc_urls cache of
            Some urls \<Rightarrow> if now - hc_checkedAt cache < c_HEALTH_CACHE_TTL_MS then k urls cache else refresh
          | None \<Rightarrow> refresh)"

lemma c_health_call_eq: "c_health_call (ROUTER_SHARED_SECRET env) = health_request env"
  by (auto simp: fun_eq_iff c_health_call_def health_request_def present_def is_set_def var_text_def split: option.splits)

lemma c_checkShardHealth_eq: "c_checkShardHealth = probe_ok"
  by (auto simp: fun_eq_iff c_checkShardHealth_def probe_ok_def split: fetch_result.splits)

lemma healthy_zip: "map fst (filter (\<lambda>(u, ok). ok) (zip us (map P rs))) = map fst (filter (\<lambda>(u, r). P r) (zip us rs))"
  by (induction us rs rule: list_induct2') auto

lemma c_getHealthyShards_eq [simp, combined_copies]:
  "c_getHealthyShards (ROUTER_SHARED_SECRET env) = getHealthyShards env"
proof (intro ext)
  fix cache and shardUrls :: "jsval list" and k :: "jsval list \<Rightarrow> health_cache \<Rightarrow> 'a prog"
  have kept: "(if xs \<noteq> [] then xs else shardUrls) = (if xs = [] then shardUrls else xs)" for xs by simp
  show "c_getHealthyShards (ROUTER_SHARED_SECRET env) cache shardUrls k = getHealthyShards env cache shardUrls k"
    by (simp only: c_getHealthyShards_def getHealthyShards_def c_health_call_eq c_checkShardHealth_eq
        healthy_zip c_HEALTH_CACHE_TTL_MS_def Let_def kept)
qed

end
