(* ===== verification/CombinedShard.thy ===== *)
theory CombinedShard
  imports CombinedHelpers
begin

text \<open>
  The shard half of \<open>combined/worker.js\<close>: its copies of the response helpers, the node's identity,
  the checks of a request and the shard handlers, and that each is the original of
  \<open>shard/worker.js\<close>.  The handlers differ from it in line breaks and in the name of the signature
  check.
\<close>

section \<open>Responses\<close>

definition c_json :: "json \<Rightarrow> nat \<Rightarrow> (string \<times> string) list \<Rightarrow> response" where
  "c_json data status extraHeaders =
     \<lparr> resp_status = status,
       resp_headers = spread (CORS_HEADERS @ [(''Cache-Control'', ''no-store'')]) extraHeaders,
       resp_body = JsonBody data \<rparr>"

definition c_error :: "msg \<Rightarrow> nat \<Rightarrow> (string \<times> string) list \<Rightarrow> response" where
  "c_error message status extraHeaders = c_json (JObj [(''error'', JStr (msg_text message))]) status extraHeaders"

definition c_jsonOk :: "json \<Rightarrow> (string \<times> string) list \<Rightarrow> response" where
  "c_jsonOk data extraHeaders =
     \<lparr> resp_status = 200, resp_headers = spread CORS_HEADERS extraHeaders, resp_body = JsonBody data \<rparr>"

definition c_clientIp :: "request \<Rightarrow> string" where
  "c_clientIp req =
     (case present (map_of (req_headers req) ''CF-Connecting-IP'') of Some ip \<Rightarrow> ip | None \<Rightarrow> ''unknown'')"

lemma c_json_eq [simp, combined_copies]: "c_json = json"
  by (simp add: fun_eq_iff c_json_def json_def)

lemma c_responses_eq [simp, combined_copies]: "c_error = err" "c_jsonOk = jsonOk"
  by (simp_all add: fun_eq_iff c_error_def err_def c_jsonOk_def jsonOk_def)

lemma c_clientIp_eq [simp, combined_copies]: "c_clientIp = clientIp"
  by (auto simp: fun_eq_iff c_clientIp_def clientIp_def present_def split: option.splits)

section \<open>The identity of the node\<close>

definition c_ensureShardIdentity :: "(json \<Rightarrow> 'a prog) \<Rightarrow> 'a prog" where
  "c_ensureShardIdentity k =
     kvGet MAILBOX_KV SHARD_IDENTITY_KV_KEY (\<lambda>raw.
       case present raw of
         Some text \<Rightarrow> attempt (js_parse text) k
       | None \<Rightarrow>
           GenerateKey (\<lambda>(pubBytes, privBytes).
             let identity = JObj [(''publicKeyHex'', JStr (c_bytesToHex pubBytes)),
                                  (''privateKeyPkcs8Base64'', JStr (btoa privBytes))] in
             kvPut MAILBOX_KV SHARD_IDENTITY_KV_KEY (json_stringify identity) None (k identity)))"

definition c_importShardPrivateKey :: "crypto \<Rightarrow> string \<Rightarrow> js_error + byte list" where
  "c_importShardPrivateKey cr pkcs8Base64 =
     (case atob pkcs8Base64 of
        Inl e \<Rightarrow> Inl e
      | Inr raw \<Rightarrow> if ed_import cr raw then Inr raw else Inl (ServiceError ''DataError''))"

definition c_signWithShardKey :: "crypto \<Rightarrow> byte list \<Rightarrow> string \<Rightarrow> string" where
  "c_signWithShardKey cr privKey message = c_bytesToHex (ed_sign cr privKey (utf8 message))"

text \<open>\<open>importShardPrivateKey(identity.privateKeyPkcs8Base64)\<close>.\<close>

definition c_identity_private :: "crypto \<Rightarrow> json \<Rightarrow> (byte list \<Rightarrow> 'a prog) \<Rightarrow> 'a prog" where
  "c_identity_private cr identity k =
     attempt (get_prop (Some identity) ''privateKeyPkcs8Base64'') (\<lambda>b64.
       attempt (c_importShardPrivateKey cr (js_string b64)) k)"

lemma c_ensureShardIdentity_eq [simp, combined_copies]: "c_ensureShardIdentity = ensureShardIdentity"
  unfolding fun_eq_iff c_ensureShardIdentity_def ensureShardIdentity_def identity_json_def c_bytes_eq by simp

lemma c_shard_key_eq [simp, combined_copies]:
  shows "c_importShardPrivateKey = importShardPrivateKey" and "c_signWithShardKey = signWithShardKey"
  by (simp_all add: fun_eq_iff c_importShardPrivateKey_def importShardPrivateKey_def
      c_signWithShardKey_def signWithShardKey_def)

lemma c_identity_private_eq [simp, combined_copies]: "c_identity_private = identity_private"
  by (simp add: fun_eq_iff c_identity_private_def identity_private_def)

section \<open>Signed responses\<close>

definition c_buildSignedResponse :: "crypto \<Rightarrow> env \<Rightarrow> json \<Rightarrow> nat \<Rightarrow> json \<Rightarrow> (json \<Rightarrow> 'a prog) \<Rightarrow> 'a prog" where
  "c_buildSignedResponse cr env requestId status body k =
     Now (\<lambda>now.
       let timestamp = str_of_int now;
           bodyJson = json_stringify body;
           bodyHash = c_sha256Hex cr bodyJson;
           signedData = js_string_json requestId @ '':'' @ str_of_nat status @ '':'' @ timestamp @ '':'' @ bodyHash in
       c_signing_key cr env (\<lambda>signingKey.
         let signature = c_signHex cr signingKey signedData
         in k (mk_obj [(''version'', Some (JNum 1)),
                       (''request_id'', Some requestId),
                       (''status'', Some (JNum (int status))),
                       (''timestamp'', Some (JStr timestamp)),
                       (''body_hash'', Some (JStr bodyHash)),
                       (''body'', Some body),
                       (''server_public_key'', str_val (ROUTER_SIGNING_PUBLIC env)),
                       (''signature'', Some (JStr signature))])))"

definition c_buildShardSignedResponse ::
  "crypto \<Rightarrow> string \<Rightarrow> nat \<Rightarrow> json \<Rightarrow> (json \<Rightarrow> 'a prog) \<Rightarrow> 'a prog" where
  "c_buildShardSignedResponse cr requestId status body k =
     c_ensureShardIdentity (\<lambda>identity.
     c_identity_private cr identity (\<lambda>privKey.
     Now (\<lambda>now.
       let timestamp = str_of_int now;
           bodyJson = json_stringify body;
           bodyHash = c_sha256Hex cr bodyJson;
           signedData = requestId @ '':'' @ str_of_nat status @ '':'' @ timestamp @ '':'' @ bodyHash;
           signature = c_signWithShardKey cr privKey signedData
       in k (mk_obj [(''version'', Some (JNum 1)),
                     (''request_id'', Some (JStr requestId)),
                     (''status'', Some (JNum (int status))),
                     (''timestamp'', Some (JStr timestamp)),
                     (''body_hash'', Some (JStr bodyHash)),
                     (''body'', Some body),
                     (''server_public_key'', js_prop identity ''publicKeyHex''),
                     (''signature'', Some (JStr signature))]))))"

lemma c_signed_responses_eq [simp, combined_copies]:
  shows "c_buildSignedResponse = buildSignedResponse"
    and "c_buildShardSignedResponse = buildShardSignedResponse"
  by (simp_all add: fun_eq_iff c_buildSignedResponse_def buildSignedResponse_def signed_data_def
      c_buildShardSignedResponse_def buildShardSignedResponse_def signed_envelope_def Let_def)

section \<open>The shape of an envelope\<close>

function (sequential) c_jsonDepth :: "json \<Rightarrow> nat \<Rightarrow> nat"
  and c_jsonDepth_children :: "json list \<Rightarrow> nat \<Rightarrow> nat \<Rightarrow> nat" where
  "c_jsonDepth (JArr children) depth =
     (if c_MAX_JSON_DEPTH < depth then depth else c_jsonDepth_children children depth depth)"
| "c_jsonDepth (JObj kvs) depth =
     (if c_MAX_JSON_DEPTH < depth then depth else c_jsonDepth_children (map snd kvs) depth depth)"
| "c_jsonDepth v depth = depth"
| "c_jsonDepth_children [] depth mx = mx"
| "c_jsonDepth_children (child # rest) depth mx =
     (let d = c_jsonDepth child (depth + 1);
          mx' = (if mx < d then d else mx)
      in if c_MAX_JSON_DEPTH < mx' then mx' else c_jsonDepth_children rest depth mx')"
  by pat_completeness auto

termination
  by (relation "measure (\<lambda>p. case p of Inl (v, d) \<Rightarrow> 2 * size v
                                      | Inr (vs, d, m) \<Rightarrow> 2 * size_list size vs + 1)")
     (use size_values_obj in \<open>auto simp: less_Suc_eq_le\<close>)

definition c_validateEnvelopeShape :: "json \<Rightarrow> shape_error option" where
  "c_validateEnvelopeShape parsed =
     (if \<not> truthy (Some parsed) \<or> \<not> typeof_object (Some parsed) then Some NotAnObject
      else
        (case js_prop parsed ''type'' of
           Some (JStr t) \<Rightarrow>
             if t \<notin> set c_ALLOWED_ENVELOPE_TYPES then Some (UnknownType t)
             else if c_MAX_JSON_DEPTH < c_jsonDepth parsed 0 then Some TooDeep
             else None
         | _ \<Rightarrow> if c_MAX_JSON_DEPTH < c_jsonDepth parsed 0 then Some TooDeep else None))"

lemma c_envelope_constants [simp, combined_copies]:
  shows "c_MAX_JSON_DEPTH = MAX_JSON_DEPTH" and "c_ALLOWED_ENVELOPE_TYPES = ALLOWED_ENVELOPE_TYPES"
  by (simp_all add: c_MAX_JSON_DEPTH_def MAX_JSON_DEPTH_def c_ALLOWED_ENVELOPE_TYPES_def ALLOWED_ENVELOPE_TYPES_def)

lemma c_jsonDepth_same:
  shows "c_jsonDepth v depth = jsonDepth v depth"
    and "c_jsonDepth_children vs depth mx = jsonDepth_children vs depth mx"
  by (induction v depth and vs depth mx rule: c_jsonDepth_c_jsonDepth_children.induct) (simp_all add: Let_def)

lemma c_validateEnvelopeShape_eq [simp, combined_copies]: "c_validateEnvelopeShape = validateEnvelopeShape"
  by (intro ext) (simp only: c_validateEnvelopeShape_def validateEnvelopeShape_def c_jsonDepth_same c_envelope_constants)

section \<open>Limits, replays and capabilities\<close>

definition c_rateLimit :: "string \<Rightarrow> number \<Rightarrow> int \<Rightarrow> (bool \<Rightarrow> 'a prog) \<Rightarrow> 'a prog" where
  "c_rateLimit bucketKey limit windowSeconds k =
     Now (\<lambda>now.
       let key = ''rl:'' @ bucketKey @ '':'' @ str_of_int (now div (windowSeconds * 1000)) in
       kvGet MAILBOX_KV key (\<lambda>raw.
         let current = counter_value raw in
         if num_ge current limit then k False
         else kvPut MAILBOX_KV key (str_of_number (map_option (\<lambda>c. c + 1) current))
                (Some (Some (windowSeconds + 5))) (k True)))"

definition c_isBacklogStale :: "jsval \<Rightarrow> number \<Rightarrow> (bool \<Rightarrow> 'a prog) \<Rightarrow> 'a prog" where
  "c_isBacklogStale enqueuedAt ttlSeconds k =
     (if nullish enqueuedAt then k False
      else Now (\<lambda>now. k (num_ge (map_option (\<lambda>e. (now - e) div 1000) (js_number enqueuedAt)) ttlSeconds)))"

text \<open>\<open>verifyEd25519(routerPublicHex, message, capSig)\<close>, with a key variable that may be unset.\<close>

definition c_verify_with :: "crypto \<Rightarrow> string option \<Rightarrow> string \<Rightarrow> string \<Rightarrow> bool" where
  "c_verify_with cr pub message sig =
     (case pub of None \<Rightarrow> False | Some p \<Rightarrow> c_verifyEd25519 cr p message (Some (JStr sig)))"

definition c_verifyCapability ::
  "crypto \<Rightarrow> string \<Rightarrow> string \<Rightarrow> number \<Rightarrow> string \<Rightarrow> string option \<Rightarrow> (bool \<Rightarrow> 'a prog) \<Rightarrow> 'a prog" where
  "c_verifyCapability cr mailboxId readSecretHash capExp capSig routerPublicHex k =
     Now (\<lambda>now.
       if num_gt (Some now) capExp then k False
       else
         let message = ''cap:'' @ mailboxId @ '':'' @ readSecretHash @ '':'' @ str_of_number capExp
         in k (c_verify_with cr routerPublicHex message capSig))"

definition c_verifyCapabilityV2 ::
  "crypto \<Rightarrow> string \<Rightarrow> jsval \<Rightarrow> string \<Rightarrow> number \<Rightarrow> string \<Rightarrow> string \<Rightarrow> string option \<Rightarrow>
   (bool \<Rightarrow> 'a prog) \<Rightarrow> 'a prog" where
  "c_verifyCapabilityV2 cr mailboxId clientPubkey scope capExp nonce capSig routerPublicHex k =
     Now (\<lambda>now.
       if num_gt (Some now) capExp then k False
       else attempt (js_lower clientPubkey) (\<lambda>pk.
         let message = ''cap:v2:'' @ mailboxId @ '':'' @ pk @ '':'' @ scope @ '':'' @ str_of_number capExp @ '':'' @ nonce
         in k (c_verify_with cr routerPublicHex message capSig)))"

definition c_verifySenderAuth ::
  "crypto \<Rightarrow> jsval \<Rightarrow> number \<Rightarrow> string \<Rightarrow> (auth_error option \<Rightarrow> 'a prog) \<Rightarrow> 'a prog" where
  "c_verifySenderAuth cr auth maxSkewMs signedMessage k =
     (case str_test (hex_re 64 64) (opt_prop auth ''pubkey'') of
        None \<Rightarrow> k (Some BadSenderPubkey)
      | Some pubkey \<Rightarrow>
     (case str_test digits_re (opt_prop auth ''timestamp'') of
        None \<Rightarrow> k (Some BadSenderTimestamp)
      | Some timestamp \<Rightarrow>
     (case str_test (hex_re 128 128) (opt_prop auth ''signature'') of
        None \<Rightarrow> k (Some BadSenderSignature)
      | Some signature \<Rightarrow>
          let tsMs = number_of_string timestamp in
          Now (\<lambda>nowMs.
            if num_gt (map_option (\<lambda>t. \<bar>nowMs - t\<bar>) tsMs) maxSkewMs then k (Some (OutsideSkew maxSkewMs))
            else
              let replayKeyMaterial = lower pubkey @ '':'' @ timestamp @ '':'' @ lower signature;
                  replayDigest = sha256 cr (utf8 replayKeyMaterial);
                  replayKey = ''replay:'' @ c_bytesToHex replayDigest in
              kvGet MAILBOX_KV replayKey (\<lambda>alreadySeen.
                if present alreadySeen \<noteq> None then k (Some ReplayDetected)
                else if \<not> c_verifyEd25519 cr pubkey signedMessage (Some (JStr signature))
                then k (Some SignatureFailed)
                else kvPut MAILBOX_KV replayKey ''1''
                       (Some (map_option (\<lambda>m. max 60 (- ((- m) div 1000))) maxSkewMs)) (k None))))))"

definition c_getCachedRoutingTable :: "(json \<Rightarrow> 'a prog) \<Rightarrow> 'a prog" where
  "c_getCachedRoutingTable k =
     kvGet MAILBOX_KV ROUTING_TABLE_KV_KEY (\<lambda>raw.
       case present raw of
         None \<Rightarrow> k JNull
       | Some text \<Rightarrow> k (case json_parse text of Some v \<Rightarrow> v | None \<Rightarrow> JNull))"

lemma c_limits_eq [simp, combined_copies]:
  shows "c_rateLimit = rateLimit" and "c_isBacklogStale = isBacklogStale"
  by (simp_all add: fun_eq_iff c_rateLimit_def rateLimit_def window_key_def c_isBacklogStale_def isBacklogStale_def)

lemma c_verify_with_eq [simp, combined_copies]: "c_verify_with = verify_with"
  unfolding fun_eq_iff c_verify_with_def verify_with_def c_verifyEd25519_string by simp

lemma c_capabilities_eq [simp, combined_copies]:
  shows "c_verifyCapability = verifyCapability" and "c_verifyCapabilityV2 = verifyCapabilityV2"
  by (simp_all add: fun_eq_iff c_verifyCapability_def verifyCapability_def cap_message_def
      c_verifyCapabilityV2_def verifyCapabilityV2_def cap_message_v2_def Let_def)

lemma c_verifySenderAuth_eq [simp, combined_copies]: "c_verifySenderAuth = verifySenderAuth"
  unfolding fun_eq_iff c_verifySenderAuth_def verifySenderAuth_def outside_skew_def replay_key_def
    replay_ttl_def Let_def c_verifyEd25519_string c_bytes_eq by simp

lemma c_getCachedRoutingTable_eq [simp, combined_copies]: "c_getCachedRoutingTable = getCachedRoutingTable"
  by (auto simp: fun_eq_iff c_getCachedRoutingTable_def getCachedRoutingTable_def
      intro!: arg_cong [where f = "kvGet _ _"] split: option.splits)

end
