(* ===== verification/CombinedHandlers.thy ===== *)
theory CombinedHandlers
  imports CombinedShard
begin

text \<open>
  The handlers \<open>combined/worker.js\<close> shares with \<open>shard/worker.js\<close>, and \<open>/status\<close>, which it shares
  with \<open>router/router.js\<close>, over its own helpers.  Each is the original's program, so what is proved
  about the shard's mailboxes holds for the mailboxes of the combined worker.  The tests and field
  lists of a request, the same text in both files, are those of the originals.
\<close>

section \<open>Existence\<close>

definition c_handleExists :: "request \<Rightarrow> response prog" where
  "c_handleExists req =
     (case query_mailbox req of
        None \<Rightarrow> Return (c_error MailboxIdRequired 400 [])
      | Some mailboxId \<Rightarrow>
          c_rateLimit (''exists-ip:'' @ c_clientIp req) (Some 300) 60 (\<lambda>okIp.
            if \<not> okIp then Return (c_error TooManyRequests 429 retry_after_60)
            else kvGet MAILBOX_KV (mailbox_key mailboxId) (\<lambda>raw.
              case present raw of
                None \<Rightarrow> Return (c_error NotFound 404 [])
              | Some t \<Rightarrow> Return (c_json (JObj [(''exists'', JBool True)]) 200 []))))"

lemma c_handleExists_eq [simp, combined_copies]: "c_handleExists = handleExists"
  unfolding fun_eq_iff c_handleExists_def handleExists_def combined_copies by simp

section \<open>Sending\<close>

definition c_purge_stale :: "cfg \<Rightarrow> json \<Rightarrow> (json \<Rightarrow> 'a prog) \<Rightarrow> 'a prog" where
  "c_purge_stale cfg stored k =
     attempt (get_prop (Some stored) ''messagesEnqueuedAt'') (\<lambda>enq.
     c_isBacklogStale enq (TTL_SECONDS cfg) (\<lambda>isStale.
     attempt (if isStale then clear_messages stored else Inr stored) k))"

definition c_send_signed_message :: "crypto \<Rightarrow> send_req \<Rightarrow> string" where
  "c_send_signed_message cr q =
     ''send:'' @ lower (sq_senderPubkey q) @ '':'' @ lower (sq_mailboxId q) @ '':'' @
     js_string (opt_prop (sq_sender q) ''timestamp'') @ '':'' @ c_sha256Hex cr (sq_message q)"

definition c_send_respond :: "crypto \<Rightarrow> json \<Rightarrow> json \<Rightarrow> response prog" where
  "c_send_respond cr body sendResult =
     (case str_test (\<lambda>_. True) (js_prop body ''request_id'') of
        Some requestId \<Rightarrow> c_buildShardSignedResponse cr requestId 200 sendResult (\<lambda>signed. Return (c_json signed 200 []))
      | None \<Rightarrow> Return (c_json sendResult 200 []))"

definition c_send_append :: "crypto \<Rightarrow> cfg \<Rightarrow> json \<Rightarrow> send_req \<Rightarrow> json \<Rightarrow> response prog" where
  "c_send_append cr cfg body q stored =
     attempt (message_count stored) (\<lambda>n.
     if num_ge n (MAX_MESSAGES cfg)
     then Return (c_error (MailboxFull (MAX_MESSAGES cfg)) 429 [(''Retry-After'', ''3600'')])
     else
       c_randomHex 8 (\<lambda>entryId.
       Now (\<lambda>time.
       let newEntry = new_entry entryId time (sq_message q) (sq_senderPubkey q) in
       attempt (push_message newEntry stored) (\<lambda>stored1.
       stamp_enqueued stored1 (\<lambda>stored2.
       kvPut MAILBOX_KV (mailbox_key (sq_mailboxId q)) (json_stringify stored2)
         (Some (MAILBOX_TTL_SECONDS cfg))
       (let respond = attempt (message_count stored2) (\<lambda>queued. c_send_respond cr body (send_result queued)) in
        if 1 < length (replica_list stored2)
        then WaitUntil (ReplicateToSiblings (lower (sq_mailboxId q)) newEntry (replica_list stored2)) respond
        else respond))))))"

definition c_send_deposit :: "crypto \<Rightarrow> cfg \<Rightarrow> json \<Rightarrow> send_req \<Rightarrow> response prog" where
  "c_send_deposit cr cfg body q =
     kvGet MAILBOX_KV (mailbox_key (sq_mailboxId q)) (\<lambda>raw.
       case present raw of
         None \<Rightarrow> Return (c_error MailboxNotFound 404 [])
       | Some text \<Rightarrow>
       (case json_parse text of
          None \<Rightarrow> Return (c_error StorageError 500 [])
        | Some stored \<Rightarrow> c_purge_stale cfg stored (c_send_append cr cfg body q)))"

definition c_message_shape_error :: "string \<Rightarrow> shape_error option" where
  "c_message_shape_error message =
     (case json_parse message of None \<Rightarrow> None | Some parsed \<Rightarrow> c_validateEnvelopeShape parsed)"

definition c_handleSend :: "crypto \<Rightarrow> cfg \<Rightarrow> request \<Rightarrow> response prog" where
  "c_handleSend cr cfg req =
     request_json req (\<lambda>body.
       case send_request cfg body of
         Inl e \<Rightarrow> Return (c_error e 400 [])
       | Inr q \<Rightarrow>
           c_verifySenderAuth cr (sq_sender q) (MAX_CLOCK_SKEW cfg) (c_send_signed_message cr q) (\<lambda>authError.
           case authError of
             Some e \<Rightarrow> Return (c_error (SenderAuthFailed e) 401 [])
           | None \<Rightarrow>
               c_rateLimit (''send-sender:'' @ lower (sq_senderPubkey q)) (MAX_SENDS_PER_SENDER cfg) 60 (\<lambda>senderOk.
               if \<not> senderOk then Return (c_error SenderTooFast 429 retry_after_60) else
               c_rateLimit (''send-target:'' @ lower (sq_mailboxId q)) (MAX_SENDS_PER_TARGET cfg) 60 (\<lambda>targetOk.
               if \<not> targetOk then Return (c_error TargetTooFast 429 retry_after_60) else
               c_rateLimit (''send-ip:'' @ c_clientIp req) (MAX_SENDS_PER_IP cfg) 60 (\<lambda>ipOk.
               if \<not> ipOk then Return (c_error IpTooFast 429 retry_after_60) else
               (case c_message_shape_error (sq_message q) of
                  Some e \<Rightarrow> Return (c_error (BadShape e) 400 [])
                | None \<Rightarrow> c_send_deposit cr cfg body q))))))"

lemma c_purge_stale_eq [simp, combined_copies]: "c_purge_stale = purge_stale"
  unfolding fun_eq_iff c_purge_stale_def purge_stale_def combined_copies by simp

lemma c_send_signed_message_eq [simp, combined_copies]: "c_send_signed_message = send_signed_message"
  unfolding fun_eq_iff c_send_signed_message_def send_signed_message_def combined_copies by simp

lemma c_send_respond_eq [simp, combined_copies]: "c_send_respond = send_respond"
  unfolding fun_eq_iff c_send_respond_def send_respond_def combined_copies by simp

lemma c_send_append_eq [simp, combined_copies]: "c_send_append = send_append"
  unfolding fun_eq_iff c_send_append_def send_append_def combined_copies by simp

lemma c_send_deposit_eq [simp, combined_copies]: "c_send_deposit = send_deposit"
  unfolding fun_eq_iff c_send_deposit_def send_deposit_def combined_copies by simp

lemma c_message_shape_error_eq [simp, combined_copies]: "c_message_shape_error = message_shape_error"
  unfolding fun_eq_iff c_message_shape_error_def message_shape_error_def combined_copies by simp

lemma c_handleSend_eq [simp, combined_copies]: "c_handleSend = handleSend"
  unfolding fun_eq_iff c_handleSend_def handleSend_def combined_copies by simp

section \<open>Replication\<close>

definition c_replicateToSiblings :: "crypto \<Rightarrow> env \<Rightarrow> string \<Rightarrow> json \<Rightarrow> json list \<Rightarrow> unit prog" where
  "c_replicateToSiblings cr env mailboxId entry replicaShardUrls =
     (if siblings env replicaShardUrls = [] then Return ()
      else catch_with (\<lambda>e. Log (''replicateToSiblings error: '' @ error_message e) (Return ()))
        (c_ensureShardIdentity (\<lambda>identity.
         c_identity_private cr identity (\<lambda>privKey.
         Now (\<lambda>now.
         identity_public identity (\<lambda>pub.
         let payload = replicate_payload mailboxId entry replicaShardUrls pub (str_of_int now);
             signature = c_signWithShardKey cr privKey (replicate_message (JObj payload));
             body = JObj (payload @ [(''signature'', JStr signature)])
         in FetchAll (replicate_requests (siblings env replicaShardUrls) body)
              (\<lambda>results. log_failures (siblings env replicaShardUrls) results (Return ()))))))))"

definition c_replicate_store :: "cfg \<Rightarrow> replicate_req \<Rightarrow> json \<Rightarrow> response prog" where
  "c_replicate_store cfg p stored =
     attempt (messages_have_id (pq_entryId p) stored) (\<lambda>dup.
     if dup then Return (c_json (JObj [(''replicated'', JBool True), (''deduped'', JBool True)]) 200 [])
     else
       attempt (push_message (pq_entry p) stored) (\<lambda>stored1.
       stamp_enqueued stored1 (\<lambda>stored2.
       kvPut MAILBOX_KV (mailbox_key (pq_mailboxId p)) (json_stringify stored2) (Some (MAILBOX_TTL_SECONDS cfg))
         (Return (c_json (JObj [(''replicated'', JBool True)]) 200 [])))))"

definition c_replicate_apply :: "cfg \<Rightarrow> replicate_req \<Rightarrow> response prog" where
  "c_replicate_apply cfg p =
     kvGet MAILBOX_KV (mailbox_key (pq_mailboxId p)) (\<lambda>raw.
       case present raw of
         None \<Rightarrow> Now (\<lambda>now. c_replicate_store cfg p (shell_record p now))
       | Some text \<Rightarrow>
           (case json_parse text of
              None \<Rightarrow> Return (c_error StorageError 500 [])
            | Some stored \<Rightarrow> c_replicate_store cfg p stored))"

definition c_handleReplicate :: "crypto \<Rightarrow> cfg \<Rightarrow> request \<Rightarrow> response prog" where
  "c_handleReplicate cr cfg req =
     request_json req (\<lambda>body.
       case replicate_request body of
         Inl e \<Rightarrow> Return (c_error e 400 [])
       | Inr p \<Rightarrow>
           Now (\<lambda>now.
           if outside_skew now (js_number (pq_timestamp p)) (Some 60000)
           then Return (c_error OutsideAllowedSkew 401 [])
           else attempt (js_lower (pq_origin p)) (\<lambda>origin.
           c_rateLimit (''replicate-origin:'' @ origin) (MAX_REPLICATES_PER_ORIGIN cfg) 60 (\<lambda>originOk.
           if \<not> originOk then Return (c_error OriginTooFast 429 retry_after_60)
           else c_getCachedRoutingTable (\<lambda>table.
             attempt (known_shard table origin) (\<lambda>known.
             if \<not> known then Return (c_error OriginUnknown 401 [])
             else
               let unsignedBody = rest_without ''signature'' body in
               if \<not> c_verifyEd25519 cr (js_string (pq_origin p)) (replicate_message unsignedBody) (pq_signature p)
               then Return (c_error ReplicateSignatureFailed 401 [])
               else c_replicate_apply cfg p))))))"

lemma c_replicateToSiblings_eq [simp, combined_copies]: "c_replicateToSiblings = replicateToSiblings"
  unfolding fun_eq_iff c_replicateToSiblings_def replicateToSiblings_def combined_copies by simp

lemma c_replicate_store_eq [simp, combined_copies]: "c_replicate_store = replicate_store"
  unfolding fun_eq_iff c_replicate_store_def replicate_store_def combined_copies by simp

lemma c_replicate_apply_eq [simp, combined_copies]: "c_replicate_apply = replicate_apply"
  unfolding fun_eq_iff c_replicate_apply_def replicate_apply_def combined_copies by simp

lemma c_handleReplicate_eq [simp, combined_copies]: "c_handleReplicate = handleReplicate"
  unfolding fun_eq_iff c_handleReplicate_def handleReplicate_def combined_copies c_verifyEd25519_is by simp

section \<open>Reading\<close>

definition c_read_secret_ok :: "crypto \<Rightarrow> string \<Rightarrow> jsval \<Rightarrow> bool" where
  "c_read_secret_ok cr readSecret storedHash =
     c_constantTimeEqual (c_sha256Hex cr readSecret) (js_string (Some (or_val storedHash (JStr []))))"

definition c_read_take :: "crypto \<Rightarrow> cfg \<Rightarrow> string \<Rightarrow> bool \<Rightarrow> string option \<Rightarrow> json \<Rightarrow> response prog" where
  "c_read_take cr cfg mailboxId peek requestId stored =
     attempt (get_prop (Some stored) ''messages'') (\<lambda>messagesToReturn.
     attempt (if peek then Inr stored else clear_messages stored) (\<lambda>stored'.
     kvPut MAILBOX_KV (mailbox_key mailboxId) (json_stringify stored') (Some (MAILBOX_TTL_SECONDS cfg))
     (attempt (get_prop messagesToReturn ''length'') (\<lambda>count.
      let readResult = read_result messagesToReturn count (js_prop stored' ''createdAt'') peek in
      case requestId of
        Some rid \<Rightarrow> c_buildShardSignedResponse cr rid 200 readResult (\<lambda>signed. Return (c_json signed 200 []))
      | None \<Rightarrow> Return (c_json readResult 200 [])))))"

definition c_handleRead :: "crypto \<Rightarrow> cfg \<Rightarrow> request \<Rightarrow> response prog" where
  "c_handleRead cr cfg req =
     (let params = map_of (req_query req);
          peek = (params ''peek'' = Some ''1'');
          requestId = present (params ''request_id'') in
      case query_mailbox req of
        None \<Rightarrow> Return (c_error MailboxIdRequired 400 [])
      | Some mailboxId \<Rightarrow>
     (case present (params ''read_secret'') of
        None \<Rightarrow> Return (c_error ReadSecretRequired 400 [])
      | Some readSecret \<Rightarrow>
          c_rateLimit (''read-ip:'' @ c_clientIp req) (Some 300) 60 (\<lambda>ipOk.
          if \<not> ipOk then Return (c_error TooManyReads 429 retry_after_60)
          else kvGet MAILBOX_KV (mailbox_key mailboxId) (\<lambda>raw.
            case present raw of
              None \<Rightarrow> Return (c_error MailboxNotFound 404 [])
            | Some text \<Rightarrow>
            (case json_parse text of
               None \<Rightarrow> Return (c_error StorageError 500 [])
             | Some stored \<Rightarrow>
                 attempt (get_prop (Some stored) ''readSecretHash'') (\<lambda>h.
                 if \<not> c_read_secret_ok cr readSecret h then Return (c_error InvalidReadSecret 401 [])
                 else c_purge_stale cfg stored (c_read_take cr cfg mailboxId peek requestId)))))))"

lemma c_read_secret_ok_eq [simp, combined_copies]: "c_read_secret_ok = read_secret_ok"
  unfolding fun_eq_iff c_read_secret_ok_def read_secret_ok_def combined_copies by simp

lemma c_read_take_eq [simp, combined_copies]: "c_read_take = read_take"
  unfolding fun_eq_iff c_read_take_def read_take_def combined_copies by simp

lemma c_handleRead_eq [simp, combined_copies]: "c_handleRead = handleRead"
  unfolding fun_eq_iff c_handleRead_def handleRead_def combined_copies by simp

section \<open>Health and the routing table\<close>

definition c_unauthorized :: response where
  "c_unauthorized = c_error Unauthorized 401 []"

definition c_handleHealth :: "env \<Rightarrow> request \<Rightarrow> response prog" where
  "c_handleHealth env req =
     (if \<not> bearer_ok c_constantTimeEqual env req then Return c_unauthorized
      else catch_with (\<lambda>e. Return (c_error (KvUnreachable (error_message e)) 503 []))
        (kvGet MAILBOX_KV ''__health_check__'' (\<lambda>_.
         Now (\<lambda>now. Return (c_json (JObj [(''status'', JStr ''ok''), (''time'', JNum now)]) 200 [])))))"

definition c_handleRoutingTablePush :: "crypto \<Rightarrow> env \<Rightarrow> request \<Rightarrow> response prog" where
  "c_handleRoutingTablePush cr env req =
     request_json req (\<lambda>body.
       let unsignedBody = rest_without ''signature'' body in
       case str_test (hex_re 128 128) (js_prop body ''signature'') of
         None \<Rightarrow> Return (c_error TableSignatureNotHex 400 [])
       | Some signature \<Rightarrow>
           (case js_prop unsignedBody ''shard_urls'' of
              Some (JArr (u # us)) \<Rightarrow>
                if js_number (js_prop unsignedBody ''expires_at'') = None
                then Return (c_error ExpiresAtRequired 400 [])
                else
                  let canonical = json_stringify unsignedBody in
                  if \<not> c_verify_with cr (ROUTER_SIGNING_PUBLIC env) canonical signature
                  then Return (c_error TableSignatureFailed 401 [])
                  else Now (\<lambda>now.
                    if num_gt (Some now) (js_number (js_prop unsignedBody ''expires_at''))
                    then Return (c_error TableExpired 400 [])
                    else kvPut MAILBOX_KV ROUTING_TABLE_KV_KEY (json_stringify body) None
                      (Return (c_json (mk_obj [(''cached'', Some (JBool True)),
                                               (''version'', js_prop unsignedBody ''version'')]) 200 [])))
            | _ \<Rightarrow> Return (c_error ShardUrlsRequired 400 [])))"

lemma c_unauthorized_eq [simp, combined_copies]: "c_unauthorized = unauthorized"
  by (simp add: c_unauthorized_def unauthorized_def)

lemma c_handleHealth_eq [simp, combined_copies]: "c_handleHealth = handleHealth"
  unfolding fun_eq_iff c_handleHealth_def handleHealth_def combined_copies by simp

lemma c_handleRoutingTablePush_eq [simp, combined_copies]: "c_handleRoutingTablePush = handleRoutingTablePush"
  unfolding fun_eq_iff c_handleRoutingTablePush_def handleRoutingTablePush_def combined_copies by simp

section \<open>Operator endpoints\<close>

definition c_handleAdminShardInfo :: "env \<Rightarrow> request \<Rightarrow> response prog" where
  "c_handleAdminShardInfo env req =
     (if \<not> bearer_ok c_constantTimeEqual env req then Return c_unauthorized
      else
        c_ensureShardIdentity (\<lambda>identity.
        identity_public identity (\<lambda>pub.
          Return (c_json (mk_obj [(''shard_pubkey'', pub),
                                  (''router_url'', Some (var_or_null (ROUTER_URL env))),
                                  (''self_url'', Some (var_or_null (SELF_URL env)))]) 200 []))))"

definition c_registration_request ::
  "crypto \<Rightarrow> string \<Rightarrow> string \<Rightarrow> json \<Rightarrow> byte list \<Rightarrow> jsval \<Rightarrow> string \<Rightarrow> string \<Rightarrow>
   (out_request \<Rightarrow> 'a prog) \<Rightarrow> 'a prog" where
  "c_registration_request cr router selfUrl identity privKey nonce solution timestamp k =
     identity_public identity (\<lambda>pub.
       let signature = c_signWithShardKey cr privKey (register_message selfUrl (js_string pub) timestamp)
       in k (post_json (router @ ''/register_shard'')
               (register_body selfUrl pub nonce solution timestamp signature)))"

definition c_handleAdminRegister :: "crypto \<Rightarrow> env \<Rightarrow> request \<Rightarrow> response prog" where
  "c_handleAdminRegister cr env req =
     (if \<not> bearer_ok c_constantTimeEqual env req then Return c_unauthorized
      else request_json req (\<lambda>body.
        case str_test (\<lambda>_. True) (js_prop body ''nonce'') of
          None \<Rightarrow> Return (c_error NonceRequired 400 [])
        | Some nonce \<Rightarrow>
        (case str_test (\<lambda>_. True) (js_prop body ''solution'') of
          None \<Rightarrow> Return (c_error SolutionRequired 400 [])
        | Some solution \<Rightarrow>
            attempt (target_router (js_prop body ''router_url'') env) (\<lambda>targetRouter.
            if targetRouter = [] then Return (c_error RouterUrlRequired 400 [])
            else if \<not> is_set (SELF_URL env) then Return (c_error SelfUrlMissing 400 [])
            else
              c_ensureShardIdentity (\<lambda>identity.
              c_identity_private cr identity (\<lambda>privKey.
              Now (\<lambda>now.
              c_registration_request cr targetRouter (var_text (SELF_URL env)) identity privKey
                  (Some (JStr nonce)) solution (str_of_int now) (\<lambda>out.
              fetch1 out (\<lambda>regResp.
                case regResp of
                  FetchFailed name m \<Rightarrow> Return (c_error (RouterUnreachable m) 502 [])
                | Fetched st text \<Rightarrow>
                    if \<not> resp_ok st then Return (c_error (RouterRejected st text) 502 [])
                    else Now (\<lambda>now'.
                      kvPut MAILBOX_KV SELF_REGISTER_KV_KEY (str_of_int now') None
                        (Return (c_json (JObj [(''registered'', JBool True),
                                               (''router_response'', parse_or_empty text)]) 200 []))))))))))))"

lemma c_handleAdminShardInfo_eq [simp, combined_copies]: "c_handleAdminShardInfo = handleAdminShardInfo"
  unfolding fun_eq_iff c_handleAdminShardInfo_def handleAdminShardInfo_def combined_copies by simp

lemma c_registration_request_eq [simp, combined_copies]: "c_registration_request = registration_request"
  unfolding fun_eq_iff c_registration_request_def registration_request_def combined_copies by simp

lemma c_handleAdminRegister_eq [simp, combined_copies]: "c_handleAdminRegister = handleAdminRegister"
  unfolding fun_eq_iff c_handleAdminRegister_def handleAdminRegister_def combined_copies by simp

section \<open>Status\<close>

definition c_status_answer :: "jsval list \<Rightarrow> jsval list \<Rightarrow> response" where
  "c_status_answer shardUrls healthy =
     c_jsonOk (JObj [(''totalShards'', JNum (int (length shardUrls))),
                     (''healthyShards'', JNum (int (length healthy))),
                     (''shards'', JArr (map (\<lambda>u. mk_obj [(''url'', u),
                        (''healthy'', Some (JBool (list_ex (same_value u) healthy)))]) shardUrls))]) []"

definition c_handleStatus :: "env \<Rightarrow> health_cache \<Rightarrow> jsval list \<Rightarrow> (response \<times> health_cache) prog" where
  "c_handleStatus env cache shardUrls =
     c_getHealthyShards (ROUTER_SHARED_SECRET env) cache shardUrls (\<lambda>healthy cache'. Return (c_status_answer shardUrls healthy, cache'))"

lemma c_status_answer_eq [simp, combined_copies]: "c_status_answer = status_answer"
  unfolding fun_eq_iff c_status_answer_def status_answer_def combined_copies by simp

lemma c_handleStatus_eq [simp, combined_copies]: "c_handleStatus = handleStatus"
  unfolding fun_eq_iff c_handleStatus_def handleStatus_def combined_copies by simp

end
