(* ===== verification/CombinedTable.thy ===== *)
theory CombinedTable
  imports CombinedHandlers
begin

text \<open>
  \<open>combined/worker.js\<close> is the Router and a shard in one worker.  What it copies from
  \<open>shard/worker.js\<close> and \<open>router/router.js\<close> is in \<open>CombinedHelpers\<close>, \<open>CombinedShard\<close> and
  \<open>CombinedHandlers\<close>; this theory and the other \<open>Combined\<close> theories define what is different
  because the node is one of the shards it routes to: its own URL joins the mesh, the routing table
  lists its own identity and is cached in its own mailbox namespace.
\<close>

section \<open>The node in its own mesh\<close>

text \<open>\<open>url === env.SELF_URL\<close>.\<close>

definition is_self :: "env \<Rightarrow> jsval \<Rightarrow> bool" where
  "is_self env u \<longleftrightarrow> u = str_val (SELF_URL env)"

text \<open>\<open>if (env.SELF_URL && !merged.includes(env.SELF_URL)) merged.push(env.SELF_URL)\<close>.\<close>

definition add_self :: "env \<Rightarrow> jsval list \<Rightarrow> jsval list" where
  "add_self env merged =
     (if is_set (SELF_URL env) \<and> \<not> list_ex (is_self env) merged
      then merged @ [str_val (SELF_URL env)] else merged)"

definition c_getShardUrls :: "env \<Rightarrow> (jsval list \<Rightarrow> 'a prog) \<Rightarrow> 'a prog" where
  "c_getShardUrls env k =
     (let go = (\<lambda>base. c_getRegisteredShards env (\<lambda>shards.
           attempt (map_prop ''url'' shards) (\<lambda>registered.
           attempt (js_spread base) (\<lambda>merged. k (add_self env (merge_urls merged registered))))))
      in if \<not> has_ROUTER_ADMIN_KV env then go (env_shard_urls env)
         else kvGet ROUTER_ADMIN_KV ''shard_urls'' (\<lambda>raw.
           case present raw of
             None \<Rightarrow> go (env_shard_urls env)
           | Some text \<Rightarrow>
               attempt (js_parse text) (\<lambda>parsed.
                 case parsed of
                   JArr (x # xs) \<Rightarrow> go parsed
                 | _ \<Rightarrow> go (env_shard_urls env))))"

text \<open>The list is the Router's with the node at its end.\<close>

lemma c_getShardUrls_add_self: "c_getShardUrls env k = getShardUrls env (\<lambda>merged. k (add_self env merged))"
  unfolding c_getShardUrls_def getShardUrls_def combined_copies ..

text \<open>
  \<open>Promise.all\<close> over calls that are not a bare \<open>fetch\<close>: every call is started, so every call runs,
  whether or not another one throws; the result is the list of their values, or the error of one
  that threw.  The calls run in list order here, one of the orders the event loop allows, so the
  error is the first in the list; each call is to another node or to the node's own store.
\<close>

definition settled ::
  "('u \<Rightarrow> ('r \<Rightarrow> (js_error + 'r) prog) \<Rightarrow> (js_error + 'r) prog) \<Rightarrow> 'u \<Rightarrow> (js_error + 'r) prog" where
  "settled call u = catch_with (\<lambda>e. Return (Inl e)) (call u (\<lambda>r. Return (Inr r)))"

fun all_settled ::
  "('u \<Rightarrow> ('r \<Rightarrow> (js_error + 'r) prog) \<Rightarrow> (js_error + 'r) prog) \<Rightarrow> 'u list \<Rightarrow>
   ((js_error + 'r) list \<Rightarrow> 'a prog) \<Rightarrow> 'a prog" where
  "all_settled call [] k = k []"
| "all_settled call (u # us) k = bind (settled call u) (\<lambda>r. all_settled call us (\<lambda>rs. k (r # rs)))"

fun fulfilled :: "(js_error + 'r) list \<Rightarrow> js_error + 'r list" where
  "fulfilled [] = Inr []"
| "fulfilled (Inl e # rs) = Inl e"
| "fulfilled (Inr r # rs) = map_sum id (Cons r) (fulfilled rs)"

definition all_calls ::
  "('u \<Rightarrow> ('r \<Rightarrow> (js_error + 'r) prog) \<Rightarrow> (js_error + 'r) prog) \<Rightarrow> 'u list \<Rightarrow>
   ('r list \<Rightarrow> 'a prog) \<Rightarrow> 'a prog" where
  "all_calls call us k = all_settled call us (\<lambda>rs. attempt (fulfilled rs) k)"

lemma fulfilled_Inr [simp]: "fulfilled (map Inr rs) = Inr rs"
  by (induction rs) simp_all

lemma run_all_settled:
  assumes "run sv (call u (\<lambda>r. Return (Inr r))) s = run sv (Return (Inr r)) s'"
  shows "run sv (all_settled call (u # us) k) s = run sv (all_settled call us (\<lambda>rs. k (Inr r # rs))) s'"
  using assms by (simp add: settled_def run_bind run_catch_with)

section \<open>The routing table\<close>

text \<open>\<open>url === env.SELF_URL ? selfIdentity.publicKeyHex : (pubkeys[url] || null)\<close>.\<close>

definition listed_key :: "env \<Rightarrow> (string \<Rightarrow> jsval) \<Rightarrow> jsval \<Rightarrow> jsval \<Rightarrow> jsval" where
  "listed_key env pubkeys selfPub url =
     (if is_self env url then selfPub else Some (or_val (pubkeys (js_string url)) JNull))"

definition c_table_shards :: "env \<Rightarrow> jsval list \<Rightarrow> (string \<Rightarrow> jsval) \<Rightarrow> jsval \<Rightarrow> json" where
  "c_table_shards env shardUrls pubkeys selfPub =
     JArr (map (\<lambda>url. mk_obj [(''url'', url), (''pubkey'', listed_key env pubkeys selfPub url)]) shardUrls)"

definition c_table_fields ::
  "env \<Rightarrow> jsval list \<Rightarrow> json list \<Rightarrow> number \<Rightarrow> (string \<Rightarrow> jsval) \<Rightarrow> jsval \<Rightarrow> int \<Rightarrow> (string \<times> jsval) list" where
  "c_table_fields env shardUrls priorCounts version pubkeys selfPub now =
     [(''version'', Some (json_of_number version)),
      (''generated_at'', Some (JNum now)),
      (''expires_at'', Some (JNum (now + ROUTING_TABLE_TTL_SECONDS * 1000))),
      (''algorithm'', Some (JStr ''sha256-hashpoint-modn-era-fallback-v1'')),
      (''shard_urls'', Some (arr_json shardUrls)),
      (''shards'', Some (c_table_shards env shardUrls pubkeys selfPub)),
      (''replication_factor'', Some (json_of_number (c_replicationFactor env (int (length shardUrls))))),
      (''prior_shard_counts'', Some (JArr priorCounts)),
      (''router_public_key'', str_val (ROUTER_SIGNING_PUBLIC env))]"

text \<open>The identity's key is read only when the node is in the list.\<close>

definition self_key :: "env \<Rightarrow> jsval list \<Rightarrow> json \<Rightarrow> (jsval \<Rightarrow> 'a prog) \<Rightarrow> 'a prog" where
  "self_key env shardUrls identity k =
     (if list_ex (is_self env) shardUrls then identity_public identity k else k None)"

definition c_buildSignedRoutingTable :: "crypto \<Rightarrow> env \<Rightarrow> (json \<Rightarrow> 'a prog) \<Rightarrow> 'a prog" where
  "c_buildSignedRoutingTable cr env k =
     c_getShardUrls env (\<lambda>shardUrls.
     c_getPriorShardCounts env (\<lambda>priorCounts.
     c_getRoutingTableVersion env (\<lambda>version.
     c_getShardPubkeys env (\<lambda>pubkeys.
     Now (\<lambda>now.
     c_ensureShardIdentity (\<lambda>identity.
     self_key env shardUrls identity (\<lambda>selfPub.
     c_signing_key cr env (\<lambda>key.
       k (signed_table cr key (c_table_fields env shardUrls priorCounts version pubkeys selfPub now))))))))))"

definition c_handleRoutingTable :: "crypto \<Rightarrow> env \<Rightarrow> response prog" where
  "c_handleRoutingTable cr env =
     c_buildSignedRoutingTable cr env (\<lambda>table.
     kvPut MAILBOX_KV ROUTING_TABLE_KV_KEY (json_stringify table) None
       (Return (c_jsonOk table table_cache_headers)))"

definition push_to :: "env \<Rightarrow> json \<Rightarrow> jsval \<Rightarrow> (json \<Rightarrow> 'a prog) \<Rightarrow> 'a prog" where
  "push_to env table shardUrl k =
     (if is_self env shardUrl
      then kvPut MAILBOX_KV ROUTING_TABLE_KV_KEY (json_stringify table) None
             (k (mk_obj [(''shardUrl'', shardUrl), (''ok'', Some (JBool True)), (''status'', Some (JNum 200))]))
      else fetch1 (post_json (js_string shardUrl @ ''/internal/routing_table'') table)
             (\<lambda>resp. k (push_outcome shardUrl resp)))"

definition c_pushRoutingTableToShards ::
  "crypto \<Rightarrow> env \<Rightarrow> jsval list \<Rightarrow> (jsval \<Rightarrow> json list \<Rightarrow> 'a prog) \<Rightarrow> 'a prog" where
  "c_pushRoutingTableToShards cr env shardUrls k =
     c_buildSignedRoutingTable cr env (\<lambda>table.
     all_calls (push_to env table) shardUrls (\<lambda>results. k (js_prop table ''version'') results))"

text \<open>\<open>GET /routing_table.json\<close>: a node that can sign builds the table, another serves its cache.\<close>

definition c_handleRoutingTableServe :: "crypto \<Rightarrow> env \<Rightarrow> response prog" where
  "c_handleRoutingTableServe cr env =
     (if is_set (ROUTER_SIGNING_KEY env) then c_handleRoutingTable cr env
      else c_getCachedRoutingTable (\<lambda>cached.
        if \<not> truthy (Some cached) then Return (c_error NoTableCached 503 [(''Retry-After'', ''30'')])
        else Return (c_json cached 200 [(''Cache-Control'', ''public, max-age=300, s-maxage=300'')])))"

lemma c_handleRoutingTableServe_unsigned:
  "\<not> is_set (ROUTER_SIGNING_KEY env) \<Longrightarrow> c_handleRoutingTableServe cr env = handleRoutingTableServe"
  unfolding c_handleRoutingTableServe_def handleRoutingTableServe_def combined_copies by simp

section \<open>The server hello\<close>

definition c_handleServerHello :: "crypto \<Rightarrow> env \<Rightarrow> request \<Rightarrow> response prog" where
  "c_handleServerHello cr env req =
     request_json req (\<lambda>body.
       case hello_request body of
         Inl e \<Rightarrow> Return (c_error e 400 [])
       | Inr (nonce, protocol) \<Rightarrow>
           Now (\<lambda>now.
           let timestamp = str_of_int now in
           if is_set (ROUTER_SIGNING_KEY env) \<and> is_set (ROUTER_SIGNING_PUBLIC env)
           then
             let pub = str_val (ROUTER_SIGNING_PUBLIC env);
                 signedPayload = hello_payload protocol nonce (js_string pub) timestamp in
             c_signing_key cr env (\<lambda>signingKey.
               Return (hello_response protocol pub nonce timestamp (c_signHex cr signingKey signedPayload)))
           else
             c_ensureShardIdentity (\<lambda>identity.
             identity_public identity (\<lambda>pub.
             let signedPayload = hello_payload protocol nonce (js_string pub) timestamp in
             c_identity_private cr identity (\<lambda>privKey.
               Return (hello_response protocol pub nonce timestamp
                         (c_signWithShardKey cr privKey signedPayload)))))))"

section \<open>The node's URL in the mesh\<close>

lemma is_self_set [simp]: "SELF_URL env = Some u \<Longrightarrow> is_self env v \<longleftrightarrow> v = Some (JStr u)"
  by (simp add: is_self_def str_val_def)

lemma add_self_contains:
  assumes "SELF_URL env = Some u" and "u \<noteq> []"
  shows "Some (JStr u) \<in> set (add_self env urls)"
  using assms by (auto simp: add_self_def is_set_def str_val_def list_ex_iff)

lemma add_self_present:
  "SELF_URL env = Some u \<Longrightarrow> Some (JStr u) \<in> set urls \<Longrightarrow> add_self env urls = urls"
  by (auto simp: add_self_def list_ex_iff)

lemma add_self_last:
  "SELF_URL env = Some u \<Longrightarrow> u \<noteq> [] \<Longrightarrow> Some (JStr u) \<notin> set urls \<Longrightarrow> add_self env urls = urls @ [Some (JStr u)]"
  by (auto simp: add_self_def is_set_def str_val_def list_ex_iff)

lemma add_self_distinct: "distinct urls \<Longrightarrow> distinct (add_self env urls)"
  by (auto simp: add_self_def list_ex_iff is_self_def)

lemma self_key_stored [simp]:
  "self_key env urls (identity_json pub priv) k =
     k (if list_ex (is_self env) urls then Some (JStr (bytesToHex pub)) else None)"
  by (simp add: self_key_def identity_public_def identity_json_def)

section \<open>The signature of the combined table\<close>

lemma c_unsigned_table:
  "rest_without ''signature'' (signed_table cr key (c_table_fields env urls prior version pks self now)) =
     mk_obj (c_table_fields env urls prior version pks self now)"
  by (auto simp: signed_table_def c_table_fields_def mk_obj_def str_val_def split: option.splits)

lemma c_table_signature:
  assumes "router_key cr env pub priv"
  shows "\<exists>sig. js_prop (signed_table cr priv (c_table_fields env urls prior version pks self now)) ''signature'' = Some (JStr sig) \<and>
    sig = signWithShardKey cr priv (json_stringify (mk_obj (c_table_fields env urls prior version pks self now))) \<and>
    verifyEd25519Message cr (bytesToHex pub) (json_stringify (mk_obj (c_table_fields env urls prior version pks self now))) sig"
proof -
  have "key_pair cr pub priv" using assms by (simp add: router_key_def)
  then show ?thesis
    by (auto simp: signed_table_def c_table_fields_def mk_obj_def str_val_def verify_own_signature split: option.splits)
qed

end
