(* ===== verification/CombinedRegister.thy ===== *)
theory CombinedRegister
  imports CombinedTable MailboxCreate RouterRegister
begin

text \<open>
  Registration, lookup and creation in \<open>combined/worker.js\<close>: a replica that is the node itself
  is served from its own namespace (\<open>localCreate\<close>, the first branches of \<open>createOnReplica\<close> and
  \<open>existsOnReplica\<close>), every other one over HTTP.  \<open>local_store\<close> is the storing half of the
  shard's \<open>/create\<close> with the answer left to its caller; \<open>create_store_local\<close> proves that.
\<close>

section \<open>Answers\<close>

text \<open>\<open>err\<close> of this worker, which forbids caching, on the Router's messages.\<close>

definition c_err :: "router_msg \<Rightarrow> nat \<Rightarrow> response" where
  "c_err m status = c_json (JObj [(''error'', JStr (router_text m))]) status []"

definition c_body :: "request \<Rightarrow> (json \<Rightarrow> response prog) \<Rightarrow> response prog" where
  "c_body req k =
     (case json_parse (req_body req) of
        None \<Rightarrow> Return (c_err R_BodyNotJson 400)
      | Some body \<Rightarrow> k (or_val (Some body) (JObj [])))"

section \<open>Creating a mailbox\<close>

definition local_refresh :: "cfg \<Rightarrow> create_req \<Rightarrow> json \<Rightarrow> (bool \<Rightarrow> 'a prog) \<Rightarrow> 'a prog" where
  "local_refresh cfg c stored k =
     attempt (set_prop ''readSecretHash'' (JStr (lower (cq_readSecretHash c))) stored) (\<lambda>s1.
     attempt (if cq_v2 c \<and> truthy (cq_clientPubkey c)
              then (case js_lower (cq_clientPubkey c) of
                      Inl e \<Rightarrow> Inl e
                    | Inr pk \<Rightarrow> set_prop ''clientPubkey'' (JStr pk) s1)
              else Inr s1) (\<lambda>s2.
     attempt (if cq_safeReplicas c \<noteq> []
              then set_prop ''replicaShardUrls'' (json_strs (cq_safeReplicas c)) s2
              else Inr s2) (\<lambda>s3.
     kvPut MAILBOX_KV (mailbox_key (cq_mailboxId c)) (json_stringify s3) (Some (MAILBOX_TTL_SECONDS cfg))
       (k False))))"

definition local_store :: "cfg \<Rightarrow> create_req \<Rightarrow> (bool \<Rightarrow> 'a prog) \<Rightarrow> 'a prog" where
  "local_store cfg c k =
     kvGet MAILBOX_KV (mailbox_key (cq_mailboxId c)) (\<lambda>existingRaw.
       case present existingRaw of
         Some text \<Rightarrow>
           (case json_parse text of
              Some stored \<Rightarrow> local_refresh cfg c stored k
            | None \<Rightarrow> Now (\<lambda>now.
                local_refresh cfg c
                  (JObj [(''messages'', JArr []), (''createdAt'', JNum now), (''messagesEnqueuedAt'', JNull)]) k))
       | None \<Rightarrow>
           attempt (if cq_v2 c \<and> truthy (cq_clientPubkey c)
                    then (case js_lower (cq_clientPubkey c) of Inl e \<Rightarrow> Inl e | Inr pk \<Rightarrow> Inr (JStr pk))
                    else Inr JNull) (\<lambda>clientPubkey.
           Now (\<lambda>now.
             kvPut MAILBOX_KV (mailbox_key (cq_mailboxId c))
               (json_stringify (JObj
                  [(''readSecretHash'', JStr (lower (cq_readSecretHash c))),
                   (''clientPubkey'', clientPubkey),
                   (''messages'', JArr []),
                   (''createdAt'', JNum now),
                   (''messagesEnqueuedAt'', JNull),
                   (''replicaShardUrls'', json_strs (cq_safeReplicas c))]))
               (Some (MAILBOX_TTL_SECONDS cfg))
               (k True))))"

text \<open>\<open>None\<close> is \<open>{ ok: false }\<close>, \<open>Some created\<close> is \<open>{ ok: true, created }\<close>.\<close>

definition localCreate ::
  "crypto \<Rightarrow> env \<Rightarrow> cfg \<Rightarrow> create_req \<Rightarrow> (bool option \<Rightarrow> 'a prog) \<Rightarrow> 'a prog" where
  "localCreate cr env cfg c k =
     (let decided = (\<lambda>capOk. if \<not> capOk then k None else local_store cfg c (\<lambda>created. k (Some created))) in
      if cq_v2 c
      then c_verifyCapabilityV2 cr (lower (cq_mailboxId c)) (cq_clientPubkey c) ''mailbox.create'' (cq_capExp c)
             (cq_capNonce c) (cq_capSig c) (ROUTER_SIGNING_PUBLIC env) decided
      else c_verifyCapability cr (lower (cq_mailboxId c)) (lower (cq_readSecretHash c)) (cq_capExp c)
             (cq_capSig c) (ROUTER_SIGNING_PUBLIC env) decided)"

text \<open>
  The arguments \<open>createOnReplica\<close> takes out of the body it would have sent.  \<open>handleRegister\<close>, its
  only caller, writes every one of these as a string (\<open>local_args_minted\<close>); a value of another
  kind is refused here.
\<close>

definition str_field :: "json \<Rightarrow> string \<Rightarrow> js_error + string" where
  "str_field v k = (case js_prop v k of Some (JStr s) \<Rightarrow> Inr s | _ \<Rightarrow> Inl TypeError)"

definition local_args :: "json \<Rightarrow> js_error + create_req" where
  "local_args parsed =
     (case (str_field parsed ''mailbox_id'', str_field parsed ''read_secret_hash'',
            str_field parsed ''cap_sig'', str_field parsed ''cap_nonce'') of
        (Inr mailboxId, Inr readSecretHash, Inr capSig, Inr capNonce) \<Rightarrow>
          Inr \<lparr> cq_mailboxId = mailboxId, cq_readSecretHash = readSecretHash,
                cq_capExp = js_number (js_prop parsed ''cap_exp''), cq_capSig = capSig,
                cq_v2 = (js_prop parsed ''cap_version'' = Some (JNum 2)),
                cq_clientPubkey = js_prop parsed ''client_pubkey'', cq_capNonce = capNonce,
                cq_safeReplicas = safe_replicas (js_prop parsed ''replica_shard_urls'') \<rparr>
      | _ \<Rightarrow> Inl TypeError)"

definition create_request_to :: "jsval \<Rightarrow> string \<Rightarrow> out_request" where
  "create_request_to replicaUrl createBody =
     \<lparr> out_method = ''POST'', out_url = js_string replicaUrl @ ''/create'', out_headers = json_headers,
       out_body = Some createBody \<rparr>"

definition createOnReplica ::
  "crypto \<Rightarrow> env \<Rightarrow> cfg \<Rightarrow> string \<Rightarrow> jsval \<Rightarrow> (bool \<Rightarrow> 'a prog) \<Rightarrow> 'a prog" where
  "createOnReplica cr env cfg createBody replicaUrl k =
     (if is_self env replicaUrl
      then attempt (js_parse createBody) (\<lambda>parsed.
           attempt (local_args parsed) (\<lambda>c.
           localCreate cr env cfg c (\<lambda>res. k (res \<noteq> None))))
      else fetch1 (create_request_to replicaUrl createBody) (\<lambda>resp. k (probe_ok resp)))"

text \<open>\<open>POST /create\<close>: here the rate limit comes before the capability.\<close>

definition c_create_answer :: "cfg \<Rightarrow> create_req \<Rightarrow> bool option \<Rightarrow> response" where
  "c_create_answer cfg c res =
     (case res of
        None \<Rightarrow> c_error InvalidCapability 401 []
      | Some created \<Rightarrow> create_response (cq_mailboxId c) cfg created)"

definition c_handleCreate :: "crypto \<Rightarrow> env \<Rightarrow> cfg \<Rightarrow> request \<Rightarrow> response prog" where
  "c_handleCreate cr env cfg req =
     request_json req (\<lambda>body.
       case create_request body of
         Inl e \<Rightarrow> Return (c_error e 400 [])
       | Inr c \<Rightarrow>
           c_rateLimit (''create-ip:'' @ c_clientIp req) (MAX_CREATES_PER_IP cfg) 60 (\<lambda>ipOk.
           if \<not> ipOk then Return (c_error TooManyCreates 429 retry_after_60)
           else
             attempt (if cq_v2 c then js_lower (cq_clientPubkey c) else Inr []) (\<lambda>pk.
             let c' = (if cq_v2 c then c\<lparr>cq_clientPubkey := Some (JStr pk)\<rparr> else c) in
             localCreate cr env cfg c' (\<lambda>res. Return (c_create_answer cfg c' res)))))"

section \<open>Registering an identity\<close>

definition c_register_finish ::
  "crypto \<Rightarrow> env \<Rightarrow> register_req \<Rightarrow> string \<Rightarrow> string \<Rightarrow> jsval list \<Rightarrow> int \<Rightarrow> bool list \<Rightarrow> response prog" where
  "c_register_finish cr env q mailboxId readSecret replicas capExp created =
     (case created of
        [] \<Rightarrow> Throw TypeError
      | primary # others \<Rightarrow>
          if \<not> primary
          then Return (c_json (JObj [(''error'', JStr ''Failed to create mailbox on primary shard'')]) 502 [])
          else
            let rest =
              c_getRoutingTableVersion env (\<lambda>version.
                let resp = register_response mailboxId readSecret replicas capExp version in
                case rq_requestId q of
                  Some rid \<Rightarrow>
                    if truthy (Some rid)
                    then c_buildSignedResponse cr env rid 200 resp (\<lambda>signedResp. Return (c_json signedResp 200 []))
                    else Return (c_json resp 200 [])
                | None \<Rightarrow> Return (c_json resp 200 []))
            in if \<not> list_all (\<lambda>ok. ok) others
               then Log ''register: some replicas failed /create'' rest
               else rest)"

definition c_register_mint ::
  "crypto \<Rightarrow> env \<Rightarrow> cfg \<Rightarrow> jsval list \<Rightarrow> register_req \<Rightarrow> string \<Rightarrow> response prog" where
  "c_register_mint cr env cfg shardUrls q pubkey =
     (let mailboxId = c_hmacHex cr (lower pubkey) (var_text (SERVER_SECRET env));
          n = int (length shardUrls);
          r = c_replicationFactor env n;
          replicas = c_replicasForEra cr pubkey n shardUrls r in
      c_randomHex 32 (\<lambda>readSecret.
      let readSecretHash = c_sha256Hex cr readSecret in
      Now (\<lambda>now.
      let capExp = now + CAPABILITY_TTL_SECONDS * 1000 in
      c_signing_key cr env (\<lambda>signingKey.
      c_randomHex 16 (\<lambda>capNonce.
      let capSig = c_signHex cr signingKey
            (cap_message_v2 mailboxId (lower pubkey) ''mailbox.create'' (Some capExp) capNonce);
          createBody = json_stringify
            (create_body mailboxId readSecretHash capExp capSig replicas (lower pubkey) capNonce) in
      all_calls (createOnReplica cr env cfg createBody) replicas (\<lambda>created.
      c_register_finish cr env q mailboxId readSecret replicas capExp created))))))"

definition c_handleRegister :: "crypto \<Rightarrow> env \<Rightarrow> cfg \<Rightarrow> jsval list \<Rightarrow> request \<Rightarrow> response prog" where
  "c_handleRegister cr env cfg shardUrls req =
     c_body req (\<lambda>body.
       case register_request body of
         Inl e \<Rightarrow> Return (c_err e 400)
       | Inr q \<Rightarrow>
           Now (\<lambda>now.
           if outside_skew now (js_number (rq_timestamp q)) (Some 30000) then Return (c_err R_OutsideSkew 401)
           else
             attempt (js_lower (rq_pubkey q)) (\<lambda>pubkeyLower.
             if \<not> c_verifyEd25519 cr (js_string (rq_pubkey q))
                   (ownership_message pubkeyLower (js_string (rq_timestamp q))) (rq_signature q)
             then Return (c_err R_SignatureFailed 401)
             else c_register_mint cr env cfg shardUrls q (js_string (rq_pubkey q)))))"

section \<open>Finding a mailbox\<close>

definition existsOnReplica :: "env \<Rightarrow> string \<Rightarrow> jsval \<Rightarrow> (bool \<Rightarrow> 'a prog) \<Rightarrow> 'a prog" where
  "existsOnReplica env mailboxId replicaUrl k =
     (if is_self env replicaUrl
      then kvGet MAILBOX_KV (mailbox_key mailboxId) (\<lambda>raw. k (present raw \<noteq> None))
      else fetch1 (exists_request replicaUrl mailboxId) (\<lambda>resp. k (probe_ok resp)))"

fun c_resolve_eras ::
  "crypto \<Rightarrow> env \<Rightarrow> string \<Rightarrow> string \<Rightarrow> jsval list \<Rightarrow> int list \<Rightarrow> response prog" where
  "c_resolve_eras cr env pubkey mailboxId shardUrls [] =
     (let n = int (length shardUrls); replicas = era_replicas cr env pubkey shardUrls n in
      c_getRoutingTableVersion env (\<lambda>version.
        Return (c_jsonOk (resolve_response mailboxId replicas n version
          (Some ''mailbox not confirmed to exist yet on any known era'')) [])))"
| "c_resolve_eras cr env pubkey mailboxId shardUrls (n # ns) =
     (let replicas = era_replicas cr env pubkey shardUrls n in
      existsOnReplica env mailboxId (elem_at replicas (Some 0)) (\<lambda>exists.
        if exists
        then c_getRoutingTableVersion env (\<lambda>version.
               Return (c_jsonOk (resolve_response mailboxId replicas n version None) []))
        else c_resolve_eras cr env pubkey mailboxId shardUrls ns))"

declare c_resolve_eras.simps [simp del]

lemmas c_resolve_eras_steps [simp] = c_resolve_eras.simps [unfolded combined_copies]

definition c_handleResolve :: "crypto \<Rightarrow> env \<Rightarrow> jsval list \<Rightarrow> request \<Rightarrow> response prog" where
  "c_handleResolve cr env shardUrls req =
     (case str_test (hex_re 64 64) (str_val (map_of (req_query req) ''pubkey'')) of
        None \<Rightarrow> Return (c_err R_PubkeyQuery 400)
      | Some pubkey \<Rightarrow>
          let mailboxId = c_hmacHex cr (lower pubkey) (var_text (SERVER_SECRET env)) in
          c_getPriorShardCounts env (\<lambda>priorCounts.
            c_resolve_eras cr env pubkey mailboxId shardUrls (c_eraCountsDescending shardUrls priorCounts)))"

section \<open>The shard's store with the answer left open\<close>

lemma create_refresh_local:
  "create_refresh cfg c stored = local_refresh cfg c stored (\<lambda>created. Return (create_response (cq_mailboxId c) cfg created))"
  by (simp add: create_refresh_def local_refresh_def)

lemma create_store_local:
  "create_store cfg c = local_store cfg c (\<lambda>created. Return (create_response (cq_mailboxId c) cfg created))"
  unfolding create_store_def local_store_def create_refresh_local ..

text \<open>A program that passes its result on is the same program with the result bound.\<close>

lemma attempt_bind: "attempt r (\<lambda>v. bind (f v) h) = bind (attempt r f) h"
  by (cases r) simp_all

lemma attempt_cong: "r = r' \<Longrightarrow> (\<And>v. r' = Inr v \<Longrightarrow> f v = f' v) \<Longrightarrow> attempt r f = attempt r' f'"
  by (cases r') simp_all

lemma kvGet_bind: "kvGet n k (\<lambda>v. bind (f v) h) = bind (kvGet n k f) h"
  by (auto simp: kvGet_def intro!: ext split: sum.splits)

lemma kvPut_bind: "kvPut n k v t (bind p h) = bind (kvPut n k v t p) h"
  by (auto simp: kvPut_def intro!: ext split: option.splits)

lemma kvDelete_bind: "kvDelete n k (bind p h) = bind (kvDelete n k p) h"
  by (auto simp: kvDelete_def intro!: ext split: option.splits)

lemma bind_cases:
  "bind (if b then p else q) h = (if b then bind p h else bind q h)"
  "bind (case x of None \<Rightarrow> p | Some y \<Rightarrow> f y) h = (case x of None \<Rightarrow> bind p h | Some y \<Rightarrow> bind (f y) h)"
  "bind (case z of Inl e \<Rightarrow> g e | Inr y \<Rightarrow> f' y) h = (case z of Inl e \<Rightarrow> bind (g e) h | Inr y \<Rightarrow> bind (f' y) h)"
  by (simp_all split: option.split sum.split)

lemmas bind_effects = attempt_bind [symmetric] kvGet_bind [symmetric] kvPut_bind [symmetric]
  kvDelete_bind [symmetric] bind_cases

lemma local_refresh_bind: "local_refresh cfg c stored (\<lambda>b. bind (f b) h) = bind (local_refresh cfg c stored f) h"
  unfolding local_refresh_def kvPut_bind attempt_bind ..

lemma local_store_bind: "local_store cfg c (\<lambda>b. bind (f b) h) = bind (local_store cfg c f) h"
proof -
  have "local_store cfg c (\<lambda>b. bind (f b) h) =
     kvGet MAILBOX_KV (mailbox_key (cq_mailboxId c)) (\<lambda>raw. bind
       (case present raw of
         Some text \<Rightarrow>
           (case json_parse text of
              Some stored \<Rightarrow> local_refresh cfg c stored f
            | None \<Rightarrow> Now (\<lambda>now.
                local_refresh cfg c
                  (JObj [(''messages'', JArr []), (''createdAt'', JNum now), (''messagesEnqueuedAt'', JNull)]) f))
       | None \<Rightarrow>
           attempt (if cq_v2 c \<and> truthy (cq_clientPubkey c)
                    then (case js_lower (cq_clientPubkey c) of Inl e \<Rightarrow> Inl e | Inr pk \<Rightarrow> Inr (JStr pk))
                    else Inr JNull) (\<lambda>clientPubkey.
           Now (\<lambda>now.
             kvPut MAILBOX_KV (mailbox_key (cq_mailboxId c))
               (json_stringify (JObj
                  [(''readSecretHash'', JStr (lower (cq_readSecretHash c))),
                   (''clientPubkey'', clientPubkey),
                   (''messages'', JArr []),
                   (''createdAt'', JNum now),
                   (''messagesEnqueuedAt'', JNull),
                   (''replicaShardUrls'', json_strs (cq_safeReplicas c))]))
               (Some (MAILBOX_TTL_SECONDS cfg)) (f True)))) h)"
    unfolding local_store_def
    by (intro arg_cong [where f = "kvGet MAILBOX_KV (mailbox_key (cq_mailboxId c))"] ext)
      (simp add: local_refresh_bind kvPut_bind attempt_bind [symmetric] split: option.split)
  then show ?thesis by (simp add: local_store_def kvGet_bind)
qed

text \<open>So a stored mailbox does not depend on what is answered for it.\<close>

lemma run_local_store:
  "run sv (local_store cfg c k) s =
     (case run sv (local_store cfg c Return) s of (Raised e, s') \<Rightarrow> (Raised e, s') | (Done b, s') \<Rightarrow> run sv (k b) s')"
  using arg_cong [OF local_store_bind [of cfg c Return k], of "\<lambda>p. run sv p s"]
  by (simp add: run_bind split: prod.splits outcome.splits)

end
