(* ===== verification/CombinedMesh.thy ===== *)
theory CombinedMesh
  imports CombinedRegister RouterMesh
begin

text \<open>
  Shard registration and key rotation in \<open>combined/worker.js\<close>.  The steps are those of
  \<open>router/router.js\<close>; refusals go through this worker's \<open>err\<close>, which forbids caching, and
  signatures through its own \<open>verifyEd25519\<close>.  \<open>mesh_as_router\<close> proves that nothing else differs:
  each handler is the Router's with its refusals marked uncacheable.
\<close>

section \<open>GET /pow_challenge\<close>

definition c_handlePowChallenge :: "env \<Rightarrow> request \<Rightarrow> response prog" where
  "c_handlePowChallenge env req =
     (if \<not> has_ROUTER_ADMIN_KV env then Return (c_err R_RegistrationDisabled 501)
      else
        c_adminRateLimit env (''pow-challenge-ip:'' @ c_clientIp req) 30 3600 (\<lambda>okIp.
        if \<not> okIp then Return (c_err R_TooManyChallenges 429)
        else
          c_randomHex 16 (\<lambda>nonce.
          let difficulty = var_number (SHARD_POW_DIFFICULTY_BITS env) 20 in
          Now (\<lambda>now.
          let expiresAt = now + POW_CHALLENGE_TTL_SECONDS * 1000 in
          kvPut ROUTER_ADMIN_KV (nonce_key nonce) (json_stringify (challenge_json difficulty expiresAt))
            (Some (Some (POW_CHALLENGE_TTL_SECONDS + 5)))
            (Return (c_jsonOk (challenge_answer nonce difficulty expiresAt) []))))))"

section \<open>POST /register_shard\<close>

definition c_register_store :: "env \<Rightarrow> shard_req \<Rightarrow> string \<Rightarrow> response prog" where
  "c_register_store env q pubkeyLower =
     c_getRegisteredShards env (\<lambda>existing.
     let maxShards = var_number (MAX_REGISTERED_SHARDS env) 200 in
     attempt (find_url (sr_url q) existing) (\<lambda>already.
       case already of
         Some _ \<Rightarrow>
           map_url (sr_url q) (updated_shard (sr_url q) pubkeyLower) existing (\<lambda>updated.
             commit_shards env updated (register_answer (sr_url q) updated))
       | None \<Rightarrow>
           if num_ge (Some (int (length existing))) maxShards then Return (c_err (R_MeshFull maxShards) 403)
           else Now (\<lambda>now.
             let updated = existing @ [new_shard (sr_url q) pubkeyLower now] in
             commit_shards env updated (register_answer (sr_url q) updated))))"

definition c_register_verify :: "crypto \<Rightarrow> env \<Rightarrow> shard_req \<Rightarrow> response prog" where
  "c_register_verify cr env q =
     Now (\<lambda>now.
     if outside_skew now (js_number (sr_timestamp q)) (Some 60000) then Return (c_err R_OutsideSkew 401)
     else
       attempt (js_lower (sr_pubkey q)) (\<lambda>pubkeyLower.
       if \<not> c_verifyEd25519 cr (js_string (sr_pubkey q))
             (register_message (sr_url q) pubkeyLower (js_string (sr_timestamp q))) (sr_signature q)
       then Return (c_err R_SelfSignatureFailed 401)
       else c_register_store env q pubkeyLower))"

definition c_register_redeem :: "crypto \<Rightarrow> env \<Rightarrow> shard_req \<Rightarrow> response prog" where
  "c_register_redeem cr env q =
     kvGet ROUTER_ADMIN_KV (nonce_key (sr_nonce q)) (\<lambda>challengeRaw.
       case present challengeRaw of
         None \<Rightarrow> Return (c_err R_NonceUnknown 401)
       | Some text \<Rightarrow>
       (case json_parse text of
          None \<Rightarrow> Return (c_err R_ChallengeStorage 500)
        | Some challenge \<Rightarrow>
            Now (\<lambda>now.
            attempt (get_prop (Some challenge) ''expiresAt'') (\<lambda>expiresAt.
            if num_gt (Some now) (js_number expiresAt) then Return (c_err R_ChallengeExpired 401)
            else if pow_too_weak cr q (js_prop challenge ''difficulty'') then Return (c_err R_PowTooWeak 401)
            else kvDelete ROUTER_ADMIN_KV (nonce_key (sr_nonce q)) (c_register_verify cr env q)))))"

definition c_handleRegisterShard :: "crypto \<Rightarrow> env \<Rightarrow> request \<Rightarrow> response prog" where
  "c_handleRegisterShard cr env req =
     (if \<not> has_ROUTER_ADMIN_KV env then Return (c_err R_RegistrationDisabled 501)
      else c_body req (\<lambda>body.
        case shard_request body of
          Inl e \<Rightarrow> Return (c_err e 400)
        | Inr q \<Rightarrow>
            c_adminRateLimit env (''register-shard-ip:'' @ c_clientIp req) 6 3600 (\<lambda>ipOk.
            if \<not> ipOk then Return (c_err R_TooManyRegistrations 429)
            else c_register_redeem cr env q)))"

section \<open>POST /rotate_shard_key\<close>

definition c_rotate_apply :: "crypto \<Rightarrow> env \<Rightarrow> rotate_req \<Rightarrow> response prog" where
  "c_rotate_apply cr env q =
     c_getRegisteredShards env (\<lambda>existing.
     attempt (find_url (ro_url q) existing) (\<lambda>record.
       case record of
         None \<Rightarrow> Return (c_err R_ShardNotFound 404)
       | Some r \<Rightarrow>
           attempt (js_lower (js_prop r ''pubkey'')) (\<lambda>current.
           attempt (js_lower (ro_old q)) (\<lambda>oldLower.
           if current \<noteq> oldLower then Return (c_err R_OldPubkeyMismatch 401)
           else
             attempt (js_lower (ro_new q)) (\<lambda>newLower.
             let msg = (\<lambda>tag. rotation_message tag (ro_url q) oldLower newLower (js_string (ro_timestamp q))) in
             if \<not> c_verifyEd25519 cr (js_string (ro_old q)) (msg ''key_rotation'') (ro_oldSig q)
             then Return (c_err R_OldSigFailed 401)
             else if \<not> c_verifyEd25519 cr (js_string (ro_new q)) (msg ''key_rotation_accept'') (ro_newSig q)
             then Return (c_err R_NewSigFailed 401)
             else
               map_url (ro_url q) (rotated_shard (ro_url q) oldLower newLower) existing (\<lambda>updated.
                 commit_shards env updated (rotate_answer (ro_url q) newLower)))))))"

definition c_handleRotateShardKey :: "crypto \<Rightarrow> env \<Rightarrow> request \<Rightarrow> response prog" where
  "c_handleRotateShardKey cr env req =
     (if \<not> has_ROUTER_ADMIN_KV env then Return (c_err R_RotationDisabled 501)
      else c_body req (\<lambda>body.
        attempt (rotate_request body) (\<lambda>checked.
        case checked of
          Inl e \<Rightarrow> Return (c_err e 400)
        | Inr q \<Rightarrow>
            Now (\<lambda>now.
            if outside_skew now (js_number (ro_timestamp q)) (Some 60000) then Return (c_err R_OutsideSkew 401)
            else c_rotate_apply cr env q))))"

section \<open>The Router's handlers with uncacheable refusals\<close>

definition uncached :: "response \<Rightarrow> response" where
  "uncached r =
     (if resp_status r = 200 then r
      else r\<lparr>resp_headers := spread (CORS_HEADERS @ [(''Cache-Control'', ''no-store'')]) []\<rparr>)"

definition as_combined :: "response prog \<Rightarrow> response prog" where
  "as_combined p = bind p (\<lambda>r. Return (uncached r))"

lemma uncached_simps [simp]:
  "st \<noteq> 200 \<Longrightarrow> uncached (jsonErr m st) = c_err m st"
  "uncached (jsonOk d hs) = jsonOk d hs"
  by (simp_all add: uncached_def jsonErr_def c_err_def json_def jsonOk_def)

lemma map_url_bind: "bind (map_url u upd xs k) h = map_url u upd xs (\<lambda>ys. bind (k ys) h)"
  by (induction xs arbitrary: k) (simp_all add: bind_effects cong: if_cong)

lemma admin_steps_bind [simp]:
  "bind (adminRateLimit env b l w k) h = adminRateLimit env b l w (\<lambda>ok. bind (k ok) h)"
  "bind (getRegisteredShards env k1) h = getRegisteredShards env (\<lambda>xs. bind (k1 xs) h)"
  "bind (getRoutingTableVersion env k2) h = getRoutingTableVersion env (\<lambda>v. bind (k2 v) h)"
  by (auto simp: adminRateLimit_def getRegisteredShards_def getRoutingTableVersion_def Let_def bind_effects
      intro!: arg_cong [where f = "kvGet ROUTER_ADMIN_KV k" for k] ext split: option.splits)

lemma commit_combined:
  "(\<And>v. resp_status (answer v) = 200) \<Longrightarrow> as_combined (commit_shards env xs answer) = commit_shards env xs answer"
  by (simp add: as_combined_def commit_shards_def bind_effects Let_def uncached_def)

lemma body_combined: "as_combined (router_body req k) = c_body req (\<lambda>b. as_combined (k b))"
  by (simp add: as_combined_def router_body_def c_body_def split: option.split)

text \<open>
  The two \<open>verifyEd25519\<close> agree on what the handlers let through, on a platform that verifies no
  empty signature: the Router reads a signature that is not a string as one of no bytes.
\<close>

definition strict_verify :: "crypto \<Rightarrow> bool" where
  "strict_verify cr \<longleftrightarrow> (\<forall>pk m. ed_verify cr pk [] m \<noteq> Some True)"

lemma hexToBytes_even: "even (length s) \<Longrightarrow> hexToBytes s = router_hexToBytes s"
  by (simp add: hexToBytes_def router_hexToBytes_def even_iff_mod_2_eq_zero)

lemma verify_same:
  assumes "strict_verify cr" and "hex_re 64 64 (js_string pk)" and "hex_re 128 128 (js_string sig)"
  shows "c_verifyEd25519 cr (js_string pk) m sig = verifyEd25519 cr (js_string pk) m sig"
proof -
  have pk: "hexToBytes (js_string pk) = router_hexToBytes (js_string pk)"
    using assms(2) by (intro hexToBytes_even) (auto simp: hex_re_def)
  show ?thesis
  proof (cases "\<exists>s. sig = Some (JStr s)")
    case True
    then obtain s where s: "sig = Some (JStr s)" ..
    then have "hexToBytes s = router_hexToBytes s"
      using assms(3) by (intro hexToBytes_even) (auto simp: hex_re_def js_string_def)
    then show ?thesis
      by (cases "router_hexToBytes (js_string pk)")
        (simp_all add: s c_verifyEd25519_is verify_jsval_def verifyEd25519_def verifyEd25519Message_def pk sig_bytes_def)
  next
    case False
    then have n: "c_verifyEd25519 cr (js_string pk) m sig = False" "sig_bytes sig = Inr []"
      by (auto simp: c_verifyEd25519_is verify_jsval_def sig_bytes_def split: option.splits json.splits)
    show ?thesis
    proof (cases "ed_verify cr (map (hex_byte_at (js_string pk)) [0..<length (js_string pk) div 2]) [] (utf8 m)")
      case None
      then show ?thesis by (simp add: n verifyEd25519_def router_hexToBytes_def)
    next
      case (Some b)
      with assms(1) have "\<not> b" by (auto simp: strict_verify_def)
      with Some show ?thesis by (simp add: n verifyEd25519_def router_hexToBytes_def)
    qed
  qed
qed

lemma shard_request_hex:
  "shard_request body = Inr q \<Longrightarrow> hex_re 64 64 (js_string (sr_pubkey q)) \<and> hex_re 128 128 (js_string (sr_signature q))"
  by (auto simp: shard_request_def coerce_test_def split: option.splits if_splits)

lemma rotate_request_hex:
  "rotate_request body = Inr (Inr q) \<Longrightarrow>
     (hex_re 64 64 (js_string (ro_old q)) \<and> hex_re 128 128 (js_string (ro_oldSig q))) \<and>
     (hex_re 64 64 (js_string (ro_new q)) \<and> hex_re 128 128 (js_string (ro_newSig q)))"
  by (auto simp: rotate_request_def coerce_test_def Let_def split: option.splits if_splits sum.splits)

lemma pow_as_router: "c_handlePowChallenge env req = as_combined (handlePowChallenge env req)"
  unfolding c_handlePowChallenge_def handlePowChallenge_def
  by (simp add: as_combined_def randomHex_def Let_def bind_effects
      cong: if_cong option.case_cong sum.case_cong)

lemma store_as_router: "c_register_store env q pk = as_combined (register_store env q pk)"
  unfolding c_register_store_def register_store_def
  by (simp add: as_combined_def Let_def bind_effects map_url_bind commit_combined [unfolded as_combined_def]
      register_answer_def
      cong: if_cong option.case_cong sum.case_cong)

lemma verify_as_router:
  assumes "strict_verify cr" and "hex_re 64 64 (js_string (sr_pubkey q))" and "hex_re 128 128 (js_string (sr_signature q))"
  shows "c_register_verify cr env q = as_combined (register_verify cr env q)"
  unfolding c_register_verify_def register_verify_def
  by (simp add: as_combined_def bind_effects verify_same [OF assms] store_as_router
      cong: if_cong option.case_cong sum.case_cong)

lemma redeem_as_router:
  assumes "strict_verify cr" and "hex_re 64 64 (js_string (sr_pubkey q))" and "hex_re 128 128 (js_string (sr_signature q))"
  shows "c_register_redeem cr env q = as_combined (register_redeem cr env q)"
  unfolding c_register_redeem_def register_redeem_def
  by (simp add: as_combined_def bind_effects verify_as_router [OF assms]
      cong: if_cong option.case_cong sum.case_cong)

lemma register_as_router:
  assumes "strict_verify cr"
  shows "c_handleRegisterShard cr env req = as_combined (handleRegisterShard cr env req)"
proof -
  have r: "c_register_redeem cr env q = bind (register_redeem cr env q) (\<lambda>r. Return (uncached r))"
    if "shard_request body = Inr q" for body q
    using redeem_as_router [OF assms] shard_request_hex [OF that] by (simp add: as_combined_def)
  show ?thesis
    unfolding c_handleRegisterShard_def handleRegisterShard_def
    by (simp add: as_combined_def body_combined [unfolded as_combined_def] bind_effects r
        cong: if_cong option.case_cong sum.case_cong)
qed

lemma rotate_apply_as_router:
  assumes "strict_verify cr"
    and "hex_re 64 64 (js_string (ro_old q)) \<and> hex_re 128 128 (js_string (ro_oldSig q))"
    and "hex_re 64 64 (js_string (ro_new q)) \<and> hex_re 128 128 (js_string (ro_newSig q))"
  shows "c_rotate_apply cr env q = as_combined (rotate_apply cr env q)"
proof -
  have v: "c_verifyEd25519 cr (js_string (ro_old q)) m (ro_oldSig q) = verifyEd25519 cr (js_string (ro_old q)) m (ro_oldSig q)"
    "c_verifyEd25519 cr (js_string (ro_new q)) m (ro_newSig q) = verifyEd25519 cr (js_string (ro_new q)) m (ro_newSig q)" for m
    using verify_same [OF assms(1)] assms(2,3) by auto
  show ?thesis
    unfolding c_rotate_apply_def rotate_apply_def
    by (simp add: as_combined_def Let_def bind_effects map_url_bind v commit_combined [unfolded as_combined_def]
        rotate_answer_def
      cong: if_cong option.case_cong sum.case_cong)
qed

lemma rotate_as_router:
  assumes "strict_verify cr"
  shows "c_handleRotateShardKey cr env req = as_combined (handleRotateShardKey cr env req)"
proof -
  have "attempt (rotate_request body) (\<lambda>checked. case checked of
          Inl e \<Rightarrow> Return (c_err e 400)
        | Inr q \<Rightarrow> Now (\<lambda>now. if outside_skew now (js_number (ro_timestamp q)) (Some 60000)
            then Return (c_err R_OutsideSkew 401) else c_rotate_apply cr env q)) =
      attempt (rotate_request body) (\<lambda>checked. case checked of
          Inl e \<Rightarrow> Return (c_err e 400)
        | Inr q \<Rightarrow> Now (\<lambda>now. if outside_skew now (js_number (ro_timestamp q)) (Some 60000)
            then Return (c_err R_OutsideSkew 401) else as_combined (rotate_apply cr env q)))" for body
    using rotate_apply_as_router [OF assms] rotate_request_hex [of body]
    by (cases "rotate_request body") (auto split: sum.split)
  then show ?thesis
    unfolding c_handleRotateShardKey_def handleRotateShardKey_def
    by (simp add: as_combined_def body_combined [unfolded as_combined_def] bind_effects
        cong: if_cong option.case_cong sum.case_cong)
qed

end
