(* ===== verification/CombinedWorker.thy ===== *)
theory CombinedWorker
  imports CombinedMesh RouterWorker
begin

text \<open>
  The entry points of \<open>combined/worker.js\<close>: the self-registration and key rotation of a node that
  may be its own Router, the dispatch of \<open>fetch\<close> (shard routes always, Router routes when the
  Router secrets are set) and the scheduled task.
\<close>

section \<open>Joining another Router's mesh\<close>

definition c_attempt_registration :: "crypto \<Rightarrow> string \<Rightarrow> string \<Rightarrow> unit prog" where
  "c_attempt_registration cr router selfUrl =
     c_ensureShardIdentity (\<lambda>identity.
     fetch1 (challenge_request router selfUrl) (\<lambda>challengeResp.
       case challengeResp of
         FetchFailed name m \<Rightarrow> Throw (ServiceError m)
       | Fetched st text \<Rightarrow>
           if \<not> resp_ok st then Throw (UserError (''pow_challenge failed with status '' @ str_of_nat st))
           else
             attempt (js_parse text) (\<lambda>answer.
             attempt (get_prop (Some answer) ''nonce'') (\<lambda>nonce.
             attempt (get_prop (Some answer) ''difficulty'') (\<lambda>difficulty.
             attempt (c_solvePow cr (js_string nonce) selfUrl (js_number difficulty)) (\<lambda>solution.
             Now (\<lambda>now.
             c_identity_private cr identity (\<lambda>privKey.
             c_registration_request cr router selfUrl identity privKey nonce solution (str_of_int now) (\<lambda>req.
             fetch1 req (\<lambda>regResp.
               case regResp of
                 FetchFailed name m \<Rightarrow> Throw (ServiceError m)
               | Fetched st' text' \<Rightarrow>
                   if \<not> resp_ok st'
                   then Log (''self-registration with Router failed: '' @ str_of_nat st' @ '' '' @ text') (Return ())
                   else Now (\<lambda>now'.
                     kvPut MAILBOX_KV SELF_REGISTER_KV_KEY (str_of_int now') None (Return ()))))))))))))"

definition c_ensureSelfRegistered :: "crypto \<Rightarrow> env \<Rightarrow> unit prog" where
  "c_ensureSelfRegistered cr env =
     (if \<not> is_set (ROUTER_URL env) \<or> \<not> is_set (SELF_URL env) then Return ()
      else if ROUTER_URL env = SELF_URL env then Return ()
      else
        let go = catch_with (\<lambda>e. Log (''self-registration error: '' @ error_message e) (Return ()))
                   (c_attempt_registration cr (var_text (ROUTER_URL env)) (var_text (SELF_URL env)))
        in kvGet MAILBOX_KV SELF_REGISTER_KV_KEY (\<lambda>lastRaw.
             case present lastRaw of
               None \<Rightarrow> go
             | Some t \<Rightarrow> Now (\<lambda>now. if recently_registered t now then Return () else go)))"

section \<open>POST /admin/rotate_key\<close>

definition c_handleAdminRotateKey :: "crypto \<Rightarrow> env \<Rightarrow> request \<Rightarrow> response prog" where
  "c_handleAdminRotateKey cr env req =
     (if \<not> bearer_ok c_constantTimeEqual env req then Return c_unauthorized
      else if \<not> is_set (SELF_URL env)
      then Return (c_json (JObj [(''error'', JStr ''SELF_URL is not configured on this node'')]) 500 [])
      else
        c_ensureShardIdentity (\<lambda>identity.
        c_identity_private cr identity (\<lambda>oldPrivKey.
        GenerateKey (\<lambda>(newPub, newPriv).
        Now (\<lambda>now.
        let selfUrl = var_text (SELF_URL env); timestamp = str_of_int now;
            newPubHex = c_bytesToHex newPub in
        identity_public identity (\<lambda>oldPub.
        let oldSig = c_signWithShardKey cr oldPrivKey
              (rotation_message ''key_rotation'' selfUrl (js_string oldPub) newPubHex timestamp);
            newSig = c_signWithShardKey cr newPriv
              (rotation_message ''key_rotation_accept'' selfUrl (js_string oldPub) newPubHex timestamp) in
        kvPut MAILBOX_KV SHARD_IDENTITY_KV_KEY (json_stringify (identity_json newPub newPriv)) None
        (kvDelete MAILBOX_KV SELF_REGISTER_KV_KEY
        (let targetRouter = strip_slash (var_text (ROUTER_URL env)) in
         if targetRouter = [] \<or> targetRouter = selfUrl
         then Return (rotation_result oldPub newPubHex False JNull None)
         else
           fetch1 (post_json (targetRouter @ ''/rotate_shard_key'')
                     (rotation_body selfUrl oldPub newPubHex timestamp oldSig newSig)) (\<lambda>regResp.
             case regResp of
               FetchFailed name m \<Rightarrow>
                 Return (rotation_result oldPub newPubHex False JNull (Some (error_to_string name m)))
             | Fetched st text \<Rightarrow>
                 Return (rotation_result oldPub newPubHex (resp_ok st) (parse_or_empty text)
                   (if resp_ok st then None
                    else Some (''Router returned '' @ str_of_nat st))))))))))))"

section \<open>The operator endpoints of the Router half\<close>

definition c_handlePushRoutingTable :: "crypto \<Rightarrow> env \<Rightarrow> jsval list \<Rightarrow> request \<Rightarrow> response prog" where
  "c_handlePushRoutingTable cr env shardUrls req =
     (if \<not> bearer_ok (=) env req then Return c_unauthorized
      else c_pushRoutingTableToShards cr env shardUrls (\<lambda>version results.
        Return (c_jsonOk (push_answer version results) [])))"

definition c_handleAdminConfig :: "env \<Rightarrow> jsval list \<Rightarrow> request \<Rightarrow> response prog" where
  "c_handleAdminConfig env shardUrls req =
     (if \<not> bearer_ok (=) env req then Return c_unauthorized
      else c_getRegisteredShards env (\<lambda>registered.
        c_getPriorShardCounts env (\<lambda>prior.
        c_getRoutingTableVersion env (\<lambda>version.
          Return (c_jsonOk (JObj
            [(''shard_urls'', arr_json shardUrls),
             (''registered_shards'', JArr registered),
             (''prior_shard_counts'', JArr prior),
             (''routing_table_version'', json_of_number version),
             (''replication_factor'', json_of_number (c_replicationFactor env (int (length shardUrls)))),
             (''source'', JStr (if has_ROUTER_ADMIN_KV env then ''ROUTER_ADMIN_KV (falls back to vars if key absent)''
                                else ''wrangler.toml vars only''))]) [])))))"

section \<open>Settings\<close>

text \<open>The object \<open>cfg\<close> of \<open>fetch\<close>.\<close>

definition c_cfg :: "env \<Rightarrow> cfg" where
  "c_cfg env =
     \<lparr> MAX_MESSAGES = setting env ''MAX_MESSAGES'' (MAX_MESSAGES c_DEFAULTS),
       MAX_MSG_BYTES = setting env ''MAX_MSG_BYTES'' (MAX_MSG_BYTES c_DEFAULTS),
       TTL_SECONDS = setting env ''TTL_SECONDS'' (TTL_SECONDS c_DEFAULTS),
       MAILBOX_TTL_SECONDS = setting env ''MAILBOX_TTL_SECONDS'' (MAILBOX_TTL_SECONDS c_DEFAULTS),
       MAX_CLOCK_SKEW = setting env ''MAX_CLOCK_SKEW'' (MAX_CLOCK_SKEW c_DEFAULTS),
       MAX_SENDS_PER_SENDER = setting env ''MAX_SENDS_PER_SENDER'' (MAX_SENDS_PER_SENDER c_DEFAULTS),
       MAX_SENDS_PER_TARGET = setting env ''MAX_SENDS_PER_TARGET'' (MAX_SENDS_PER_TARGET c_DEFAULTS),
       MAX_SENDS_PER_IP = setting env ''MAX_SENDS_PER_IP'' (MAX_SENDS_PER_IP c_DEFAULTS),
       MAX_CREATES_PER_IP = setting env ''MAX_CREATES_PER_IP'' (MAX_CREATES_PER_IP c_DEFAULTS),
       MAX_REPLICATES_PER_ORIGIN = setting env ''MAX_REPLICATES_PER_ORIGIN'' (MAX_REPLICATES_PER_ORIGIN c_DEFAULTS) \<rparr>"

lemma c_cfg_eq [simp, combined_copies]: "c_cfg = shard_cfg"
  by (simp add: fun_eq_iff c_cfg_def shard_cfg_def)

section \<open>Dispatch\<close>

definition c_try_shard_urls :: "env \<Rightarrow> jsval list option prog" where
  "c_try_shard_urls env =
     catch_with (\<lambda>_. Return None) (c_getShardUrls env (\<lambda>urls. Return (if urls = [] then None else Some urls)))"

definition c_router_route ::
  "crypto \<Rightarrow> env \<Rightarrow> cfg \<Rightarrow> health_cache \<Rightarrow> jsval list \<Rightarrow> request \<Rightarrow> (response \<times> health_cache) prog" where
  "c_router_route cr env cfg cache shardUrls req =
     (let at = (\<lambda>path m. req_path req = path \<and> req_method req = m);
          plain = (\<lambda>p. bind p (\<lambda>r. Return (r, cache))) in
      if at ''/register'' ''POST'' then plain (c_handleRegister cr env cfg shardUrls req)
      else if at ''/resolve'' ''GET'' then plain (c_handleResolve cr env shardUrls req)
      else if at ''/status'' ''GET'' then c_handleStatus env cache shardUrls
      else if at ''/pow_challenge'' ''GET'' then plain (c_handlePowChallenge env req)
      else if at ''/register_shard'' ''POST'' then plain (c_handleRegisterShard cr env req)
      else if at ''/rotate_shard_key'' ''POST'' then plain (c_handleRotateShardKey cr env req)
      else if at ''/admin/push_routing_table'' ''POST'' then plain (c_handlePushRoutingTable cr env shardUrls req)
      else if at ''/admin/config'' ''GET'' then plain (c_handleAdminConfig env shardUrls req)
      else Return (not_found_response, cache))"

definition c_route ::
  "crypto \<Rightarrow> env \<Rightarrow> cfg \<Rightarrow> health_cache \<Rightarrow> request \<Rightarrow> (response \<times> health_cache) prog" where
  "c_route cr env cfg cache req =
     (let at = (\<lambda>path m. req_path req = path \<and> req_method req = m);
          plain = (\<lambda>p. bind p (\<lambda>r. Return (r, cache))) in
      if at ''/health'' ''GET'' then plain (c_handleHealth env req)
      else if at ''/server_hello'' ''POST'' then plain (c_handleServerHello cr env req)
      else if at ''/create'' ''POST'' then plain (c_handleCreate cr env cfg req)
      else if at ''/exists'' ''GET'' then plain (c_handleExists req)
      else if at ''/send'' ''POST'' then plain (c_handleSend cr cfg req)
      else if at ''/read'' ''GET'' then plain (c_handleRead cr cfg req)
      else if at ''/internal/routing_table'' ''POST'' then plain (c_handleRoutingTablePush cr env req)
      else if at ''/internal/replicate'' ''POST'' then plain (c_handleReplicate cr cfg req)
      else if at ''/admin/shard_info'' ''GET'' then plain (c_handleAdminShardInfo env req)
      else if at ''/admin/register'' ''POST'' then plain (c_handleAdminRegister cr env req)
      else if at ''/admin/rotate_key'' ''POST'' then plain (c_handleAdminRotateKey cr env req)
      else if at ''/routing_table.json'' ''GET'' then plain (c_handleRoutingTableServe cr env)
      else if router_secrets_set env
      then bind (c_try_shard_urls env) (\<lambda>found.
        case found of
          None \<Rightarrow> Log ''SHARD_URLS is missing or invalid (checked ROUTER_ADMIN_KV then env var)''
                    (Return (c_err R_Misconfigured 500, cache))
        | Some shardUrls \<Rightarrow> c_router_route cr env cfg cache shardUrls req)
      else Return (not_found_response, cache))"

definition c_fetch :: "crypto \<Rightarrow> env \<Rightarrow> health_cache \<Rightarrow> request \<Rightarrow> (response \<times> health_cache) prog" where
  "c_fetch cr env cache req =
     (if req_method req = ''OPTIONS'' then Return (options_response, cache)
      else if \<not> has_MAILBOX_KV env
      then Log ''MAILBOX_KV binding is missing or misconfigured'' (Return (c_error MailboxKvMissing 500 [], cache))
      else if \<not> is_set (ROUTER_SIGNING_PUBLIC env)
      then Log ''ROUTER_SIGNING_PUBLIC is not set'' (Return (c_error Misconfigured 500 [], cache))
      else WaitUntil EnsureSelfRegistered
        (catch_with (\<lambda>e. Log (''Unhandled error: '' @ error_message e)
             (Return (c_json (JObj [(''error'', JStr ''Internal server error'')]) 500 [], cache)))
           (c_route cr env (c_cfg env) cache req)))"

section \<open>Background work\<close>

definition c_scheduled :: "crypto \<Rightarrow> env \<Rightarrow> unit prog" where
  "c_scheduled cr env =
     WaitUntil EnsureSelfRegistered
       (if \<not> router_secrets_set env then Return ()
        else bind (c_try_shard_urls env) (\<lambda>found.
          case found of
            None \<Rightarrow> Log ''SHARD_URLS is missing or invalid - skipping scheduled routing table push'' (Return ())
          | Some shardUrls \<Rightarrow>
              c_pushRoutingTableToShards cr env shardUrls (\<lambda>version results.
                let failed = filter push_failed results in
                if failed \<noteq> []
                then Log (''routing_table push: '' @ str_of_nat (length failed) @ ''/'' @
                          str_of_nat (length results) @ '' shards failed'') (Return ())
                else Return ())))"

definition c_task :: "crypto \<Rightarrow> env \<Rightarrow> task \<Rightarrow> unit prog" where
  "c_task cr env t =
     (case t of
        EnsureSelfRegistered \<Rightarrow> c_ensureSelfRegistered cr env
      | ReplicateToSiblings mailboxId entry urls \<Rightarrow> c_replicateToSiblings cr env mailboxId entry urls)"

section \<open>Every request is answered\<close>

lemma c_fetch_answers: "\<exists>r s'. run sv (c_fetch cr env cache req) s = (Done r, s')"
proof -
  have "\<exists>r s'. run sv (catch_with (\<lambda>e. Log (''Unhandled error: '' @ error_message e)
     (Return (json (JObj [(''error'', JStr ''Internal server error'')]) 500 [], cache))) p) s = (Done r, s')" for p
    by (rule run_catch_answers) simp
  then show ?thesis by (simp add: c_fetch_def)
qed

end
