(* ===== verification/MailboxSession.thy ===== *)
theory MailboxSession
  imports MailboxSend MailboxRead MailboxCreate
begin

text \<open>
  The contract of a mailbox over many requests, against an abstract specification: a mailbox is
  a bounded queue of (sender, text) pairs that accepted sends extend at the end and a read
  returns and empties.  A \<open>session\<close> is any number of accepted sends to one mailbox, between
  which time passes and requests to other mailboxes are served.
\<close>

section \<open>The abstract queue\<close>

type_synonym letter = "string \<times> string"

definition letter_of :: "json \<Rightarrow> letter" where
  "letter_of entry = (js_string (js_prop entry ''senderPubkey''), js_string (js_prop entry ''message''))"

definition queue_of :: "mailbox \<Rightarrow> letter list" where
  "queue_of mb = map letter_of (mb_messages mb)"

definition sent_letter :: "send_req \<Rightarrow> letter" where
  "sent_letter q = (lower (sq_senderPubkey q), sq_message q)"

lemma letter_of_new_entry [simp]: "letter_of (new_entry i t m pk) = (lower pk, m)"
  by (simp add: letter_of_def new_entry_def js_string_def)

lemma queue_of_ops [simp]:
  "queue_of (fresh h now urls) = []" "queue_of (rekey h urls mb) = queue_of mb" "queue_of (drain mb) = []"
  "queue_of (deposit e now mb) = queue_of mb @ [letter_of e]"
  "queue_of (purge ttl now mb) = (if stale ttl now mb then [] else queue_of mb)"
  by (simp_all add: queue_of_def fresh_def rekey_def drain_def deposit_def purge_def)

lemma hash_ops [simp]:
  "mb_hash (deposit e now mb) = mb_hash mb" "mb_created (deposit e now mb) = mb_created mb" "mb_hash (drain mb) = mb_hash mb" "mb_hash (purge ttl now mb) = mb_hash mb"
  by (simp_all add: drain_def deposit_def purge_def)

text \<open>A stored mailbox is one mailbox.\<close>

lemma represents_unique: "represents stored mb \<Longrightarrow> represents stored mb' \<Longrightarrow> mb = mb'"
  by (cases mb; cases mb') (auto simp: represents_def enqueued_json_def split: option.splits)

lemma mailbox_at_unique:
  assumes "mailbox_at kv mid mb" and "mailbox_at kv mid mb'"
  shows "mb = mb'"
proof -
  obtain st st' where "kv (mailbox_key mid) = Some (json_stringify st)" "kv (mailbox_key mid) = Some (json_stringify st')"
      "represents st mb" "represents st' mb'"
    using assms unfolding mailbox_at_def by blast
  moreover from this have "st = st'"
    by (metis wf_represents json_parse_stringify option.inject)
  ultimately show ?thesis using represents_unique by blast
qed

section \<open>Sessions\<close>

text \<open>Between two requests to the mailbox its record stays and the clock does not go back.\<close>

definition meanwhile :: "'s service \<Rightarrow> string \<Rightarrow> 's \<Rightarrow> 's \<Rightarrow> bool" where
  "meanwhile sv mid s s' \<longleftrightarrow>
     sv_view sv s' MAILBOX_KV (mailbox_key mid) = sv_view sv s MAILBOX_KV (mailbox_key mid) \<and>
     sv_clock sv s \<le> sv_clock sv s'"

definition accepted_send :: "'s service \<Rightarrow> crypto \<Rightarrow> cfg \<Rightarrow> request \<Rightarrow> send_req \<Rightarrow> 's \<Rightarrow> bool" where
  "accepted_send sv cr cfg req q s \<longleftrightarrow>
     (\<exists>body. body_of req = Some body \<and> send_request cfg body = Inr q \<and> js_prop body ''request_id'' = None \<and>
        send_verdict cr (sv_view sv s MAILBOX_KV) (sv_clock sv s) cfg req q = None \<and>
        (\<exists>mb. mailbox_at (sv_view sv s MAILBOX_KV) (sq_mailboxId q) mb \<and>
           \<not> stale (TTL_SECONDS cfg) (sv_clock sv s) mb \<and>
           \<not> num_ge (Some (int (length (mb_messages mb)))) (MAX_MESSAGES cfg)))"

inductive session :: "'s service \<Rightarrow> crypto \<Rightarrow> cfg \<Rightarrow> string \<Rightarrow> 's \<Rightarrow> send_req list \<Rightarrow> 's \<Rightarrow> bool"
  for sv cr cfg mid s where
  opened: "session sv cr cfg mid s [] s"
| waited: "session sv cr cfg mid s qs s1 \<Longrightarrow> meanwhile sv mid s1 s2 \<Longrightarrow> session sv cr cfg mid s qs s2"
| sent: "session sv cr cfg mid s qs s1 \<Longrightarrow> accepted_send sv cr cfg req q s1 \<Longrightarrow> sq_mailboxId q = mid \<Longrightarrow>
    session sv cr cfg mid s (qs @ [q]) (snd (run sv (handleSend cr cfg req) s1))"

lemma accepted_send_deposits:
  assumes iso: "isolated sv" and skew: "MAX_CLOCK_SKEW cfg \<noteq> None" and ttl: "ttl_ok (Some (MAILBOX_TTL_SECONDS cfg))"
    and acc: "accepted_send sv cr cfg req q s" and at: "mailbox_at (sv_view sv s MAILBOX_KV) (sq_mailboxId q) mb"
  shows "\<exists>i. mailbox_at (sv_view sv (snd (run sv (handleSend cr cfg req) s)) MAILBOX_KV) (sq_mailboxId q)
    (deposit (new_entry i (sv_clock sv s) (sq_message q) (sq_senderPubkey q)) (sv_clock sv s) mb)"
proof -
  obtain body where body: "body_of req = Some body" "send_request cfg body = Inr q" "js_prop body ''request_id'' = None"
      "send_verdict cr (sv_view sv s MAILBOX_KV) (sv_clock sv s) cfg req q = None"
    and fits: "\<not> stale (TTL_SECONDS cfg) (sv_clock sv s) mb" "\<not> num_ge (Some (int (length (mb_messages mb)))) (MAX_MESSAGES cfg)"
    using acc mailbox_at_unique [OF at] unfolding accepted_send_def by blast
  then have kept: "purge (TTL_SECONDS cfg) (sv_clock sv s) mb = mb" by (simp add: purge_def)
  show ?thesis
    using handleSend_appends [OF iso skew ttl body at] fits(2) by (auto simp: kept Let_def)
qed

lemma session_queue:
  assumes iso: "isolated sv" and skew: "MAX_CLOCK_SKEW cfg \<noteq> None" and ttl: "ttl_ok (Some (MAILBOX_TTL_SECONDS cfg))"
    and run: "session sv cr cfg mid s qs s'" and at: "mailbox_at (sv_view sv s MAILBOX_KV) mid mb"
  shows "\<exists>mb'. mailbox_at (sv_view sv s' MAILBOX_KV) mid mb' \<and> mb_hash mb' = mb_hash mb \<and>
    mb_created mb' = mb_created mb \<and> queue_of mb' = queue_of mb @ map sent_letter qs"
  using run
proof (induction rule: session.induct)
  case opened
  show ?case using at by auto
next
  case (waited qs s1 s2)
  then show ?case by (auto simp: meanwhile_def mailbox_at_def)
next
  case (sent qs s1 req q)
  then obtain mb' where mb': "mailbox_at (sv_view sv s1 MAILBOX_KV) mid mb'" "mb_hash mb' = mb_hash mb"
      "mb_created mb' = mb_created mb" "queue_of mb' = queue_of mb @ map sent_letter qs" by blast
  obtain i where "mailbox_at (sv_view sv (snd (run sv (handleSend cr cfg req) s1)) MAILBOX_KV) mid
      (deposit (new_entry i (sv_clock sv s1) (sq_message q) (sq_senderPubkey q)) (sv_clock sv s1) mb')"
    using accepted_send_deposits [OF iso skew ttl sent.hyps(2) mb'(1) [folded sent.hyps(3)]] sent.hyps(3) by auto
  then show ?case
    using mb'(2-4) by (intro exI conjI) (assumption, simp_all add: sent_letter_def)
qed

text \<open>The letters a read returns.\<close>

definition read_letters :: "response \<Rightarrow> letter list option" where
  "read_letters r =
     (case resp_body r of
        JsonBody j \<Rightarrow> (case js_prop j ''messages'' of Some (JArr ms) \<Rightarrow> Some (map letter_of ms) | _ \<Rightarrow> None)
      | _ \<Rightarrow> None)"

lemma read_letters_view [simp]: "read_letters (json (read_view mb peek) st hs) = Some (queue_of mb)"
  by (simp add: read_letters_def read_view_def queue_of_def json_def)

end
