(* ===== verification/CombinedFlow.thy ===== *)
theory CombinedFlow
  imports CombinedWorker MeshProtocol MailboxSession
begin

text \<open>
  How the two halves of the combined worker work on each other: what its steps do on an isolated
  platform.  A registration whose primary is the node writes the mailbox into the node's own
  namespace; a lookup walks the eras with the node's own store as one of the probes; the routing
  table lists the node under its current identity.
\<close>

section \<open>Local creation\<close>

lemma run_localCreate:
  assumes "isolated sv" and "cq_v2 c \<longrightarrow> cq_clientPubkey c = Some (JStr pk)"
  shows "run sv (localCreate cr env cfg c k) s =
    (if cap_accepted cr env (sv_clock sv s) c
     then run sv (local_store cfg c (\<lambda>created. k (Some created))) (snd (sv_now sv s))
     else run sv (k None) (snd (sv_now sv s)))"
  using assms by (cases "cq_v2 c") (auto simp: localCreate_def run_simps cap_accepted_def)

lemma run_local_store_new:
  assumes iso: "isolated sv" and ttl: "ttl_ok (Some (MAILBOX_TTL_SECONDS cfg))"
    and pk: "cq_v2 c \<longrightarrow> cq_clientPubkey c = Some (JStr pk)"
    and none: "present (sv_view sv s MAILBOX_KV (mailbox_key (cq_mailboxId c))) = None"
  shows "\<exists>s' stored. run sv (local_store cfg c k) s = run sv (k True) s' \<and>
    represents stored (fresh (lower (cq_readSecretHash c)) (sv_clock sv s) (cq_safeReplicas c)) \<and>
    sv_view sv s' = (sv_view sv s)(MAILBOX_KV :=
      (sv_view sv s MAILBOX_KV)(mailbox_key (cq_mailboxId c) \<mapsto> json_stringify stored)) \<and>
    sv_clock sv s' = sv_clock sv s"
proof -
  let ?key = "mailbox_key (cq_mailboxId c)"
  obtain j where j: "(if cq_v2 c \<and> truthy (cq_clientPubkey c)
      then (case js_lower (cq_clientPubkey c) of Inl e \<Rightarrow> Inl e | Inr pk \<Rightarrow> Inr (JStr pk)) else Inr JNull) = Inr j" "wf_json j"
    using pk by (cases "cq_v2 c \<and> truthy (cq_clientPubkey c)") (auto simp: js_lower_def)
  let ?stored = "JObj [(''readSecretHash'', JStr (lower (cq_readSecretHash c))), (''clientPubkey'', j),
      (''messages'', JArr []), (''createdAt'', JNum (sv_clock sv s)), (''messagesEnqueuedAt'', JNull),
      (''replicaShardUrls'', json_strs (cq_safeReplicas c))]"
  let ?s' = "snd (sv_put sv (snd (sv_now sv (snd (sv_get sv s MAILBOX_KV ?key)))) MAILBOX_KV ?key
      (json_stringify ?stored) (Some (MAILBOX_TTL_SECONDS cfg)))"
  have "run sv (local_store cfg c k) s = run sv (k True) ?s'"
    using iso ttl none by (simp add: local_store_def run_simps view_simps j(1))
  moreover have "represents ?stored (fresh (lower (cq_readSecretHash c)) (sv_clock sv s) (cq_safeReplicas c))"
    using j(2) by (simp add: represents_def fresh_def enqueued_json_def json_strs_def obj_canonical_def
        key_precedes_def is_digit_def list_all_iff)
  moreover have "sv_view sv ?s' = (sv_view sv s)(MAILBOX_KV :=
      (sv_view sv s MAILBOX_KV)(?key \<mapsto> json_stringify ?stored))" "sv_clock sv ?s' = sv_clock sv s"
    using iso ttl by (simp_all add: view_simps)
  ultimately show ?thesis by blast
qed

text \<open>The body \<open>handleRegister\<close> writes carries everything \<open>createOnReplica\<close> reads.\<close>

lemma local_args_minted:
  assumes "standard_sizes cr" and "router_key cr env pub priv" and "ROUTER_SIGNING_PUBLIC env' = Some (bytesToHex pub)"
    and "now' \<le> now + CAPABILITY_TTL_SECONDS * 1000"
  shows "\<exists>c. local_args (minted_body cr env priv pk replicas secret nonce now) = Inr c \<and>
    cap_accepted cr env' now' c \<and> cq_v2 c \<and> cq_clientPubkey c = Some (JStr (lower pk)) \<and>
    cq_mailboxId c = minted_id cr env pk \<and> cq_readSecretHash c = sha256Hex cr secret \<and>
    cq_safeReplicas c = safe_replicas (Some (arr_json replicas))"
proof -
  have kp: "key_pair cr pub priv" using assms(2) by (simp add: router_key_def)
  show ?thesis
    using hmacHex_hex(3) [OF assms(1), of "lower pk"] assms(4)
    by (simp add: minted_body_def create_body_def local_args_def str_field_def minted_id_def Let_def cap_accepted_def
        assms(3) verify_with_def verify_own_signature [OF kp] num_gt_def)
qed

definition minted_mailbox :: "crypto \<Rightarrow> jsval list \<Rightarrow> string \<Rightarrow> int \<Rightarrow> mailbox" where
  "minted_mailbox cr replicas secret now =
     \<lparr> mb_hash = sha256Hex cr secret, mb_messages = [], mb_created = now, mb_enqueued = None,
       mb_replicas = json_strs (safe_replicas (Some (arr_json replicas))) \<rparr>"

lemma run_createOnReplica_self:
  assumes iso: "isolated sv" and sz: "standard_sizes cr" and key: "router_key cr env pub priv"
    and wf: "list_all (\<lambda>u. u = None \<or> (\<exists>j. u = Some j \<and> wf_json j)) replicas"
    and fresh: "sv_clock sv s \<le> now + CAPABILITY_TTL_SECONDS * 1000"
    and self: "is_self env u" and ttl: "ttl_ok (Some (MAILBOX_TTL_SECONDS cfg))"
    and none: "present (sv_view sv s MAILBOX_KV (mailbox_key (minted_id cr env pk))) = None"
  shows "\<exists>s'. run sv (createOnReplica cr env cfg
        (json_stringify (minted_body cr env priv pk replicas secret nonce now)) u k) s = run sv (k True) s' \<and>
    mailbox_at (sv_view sv s' MAILBOX_KV) (minted_id cr env pk) (minted_mailbox cr replicas secret (sv_clock sv s)) \<and>
    sv_view sv s' ROUTER_ADMIN_KV = sv_view sv s ROUTER_ADMIN_KV \<and> sv_clock sv s' = sv_clock sv s"
proof -
  let ?body = "minted_body cr env priv pk replicas secret nonce now"
  have trust: "ROUTER_SIGNING_PUBLIC env = Some (bytesToHex pub)" using key by (simp add: router_key_def)
  obtain c where c: "local_args ?body = Inr c" "cap_accepted cr env (sv_clock sv s) c" "cq_v2 c"
      "cq_clientPubkey c = Some (JStr (lower pk))" "cq_mailboxId c = minted_id cr env pk"
      "cq_readSecretHash c = sha256Hex cr secret" "cq_safeReplicas c = safe_replicas (Some (arr_json replicas))"
    using local_args_minted [OF sz key trust fresh] by blast
  let ?s1 = "snd (sv_now sv s)"
  have v1: "sv_view sv ?s1 = sv_view sv s" "sv_clock sv ?s1 = sv_clock sv s" using iso by (simp_all add: view_simps)
  have pk: "cq_v2 c \<longrightarrow> cq_clientPubkey c = Some (JStr (lower pk))" using c(4) by simp
  have none1: "present (sv_view sv ?s1 MAILBOX_KV (mailbox_key (cq_mailboxId c))) = None"
    using none by (simp add: v1 c(5))
  obtain s' stored where s': "run sv (local_store cfg c (\<lambda>created. k (Some created \<noteq> None))) ?s1 = run sv (k (Some True \<noteq> None)) s'"
      "represents stored (fresh (lower (cq_readSecretHash c)) (sv_clock sv ?s1) (cq_safeReplicas c))"
      "sv_view sv s' = (sv_view sv ?s1)(MAILBOX_KV :=
        (sv_view sv ?s1 MAILBOX_KV)(mailbox_key (cq_mailboxId c) \<mapsto> json_stringify stored))"
      "sv_clock sv s' = sv_clock sv ?s1"
    using run_local_store_new [OF iso ttl pk none1, of "\<lambda>created. k (Some created \<noteq> None)"] by blast
  have p: "js_parse (json_stringify ?body) = Inr ?body"
    using wf_minted_body [OF wf] by (simp add: js_parse_def)
  have "run sv (createOnReplica cr env cfg (json_stringify ?body) u k) s = run sv (k True) s'"
    using self s'(1) by (simp add: createOnReplica_def p c(1) run_localCreate [OF iso pk] c(2))
  moreover have "mailbox_at (sv_view sv s' MAILBOX_KV) (minted_id cr env pk) (minted_mailbox cr replicas secret (sv_clock sv s))"
    using s'(2) sha256Hex_hex(3) [OF sz]
    by (auto simp: s'(3) mailbox_at_def c fresh_def minted_mailbox_def v1)
  ultimately show ?thesis using s'(3,4) v1 by auto
qed

lemma run_createOnReplica_others:
  assumes iso: "isolated sv" and remote: "list_all (\<lambda>u. \<not> is_self env u) us"
  shows "\<exists>rs s'. run sv (all_settled (createOnReplica cr env cfg body) us k) s = run sv (k (map Inr rs)) s' \<and>
    sv_view sv s' = sv_view sv s \<and> sv_clock sv s' = sv_clock sv s"
  using remote
proof (induction us arbitrary: s k)
  case Nil
  show ?case by (intro exI [of _ "[]"] exI [of _ s]) simp
next
  case (Cons u us)
  let ?s1 = "snd (sv_fetch sv s [create_request_to u body])" and ?r = "probe_ok (hd (fst (sv_fetch sv s [create_request_to u body])))"
  have "run sv (all_settled (createOnReplica cr env cfg body) (u # us) k) s =
      run sv (all_settled (createOnReplica cr env cfg body) us (\<lambda>rs. k (Inr ?r # rs))) ?s1"
    by (rule run_all_settled) (use Cons.prems iso in \<open>simp add: createOnReplica_def run_simps\<close>)
  moreover obtain rs s' where "run sv (all_settled (createOnReplica cr env cfg body) us (\<lambda>rs. k (Inr ?r # rs))) ?s1 =
      run sv (k (Inr ?r # map Inr rs)) s'"
      "sv_view sv s' = sv_view sv ?s1" "sv_clock sv s' = sv_clock sv ?s1"
    using Cons.IH [of "\<lambda>rs. k (Inr ?r # rs)" ?s1] Cons.prems by auto
  moreover have "sv_view sv ?s1 = sv_view sv s" "sv_clock sv ?s1 = sv_clock sv s" using iso by (simp_all add: view_simps)
  ultimately show ?case by (intro exI [of _ "?r # rs"] exI [of _ s']) simp
qed

section \<open>Programs that depend on the store and the clock only\<close>

primrec plain :: "'a prog \<Rightarrow> bool" where
  "plain (Return a) \<longleftrightarrow> True"
| "plain (Throw e) \<longleftrightarrow> True"
| "plain (KvGet n k f) \<longleftrightarrow> (\<forall>a. plain (f a))"
| "plain (KvPut n k v t f) \<longleftrightarrow> ttl_ok t \<and> (\<forall>a. plain (f a))"
| "plain (KvDelete n k f) \<longleftrightarrow> (\<forall>a. plain (f a))"
| "plain (Now f) \<longleftrightarrow> (\<forall>a. plain (f a))"
| "plain (Random n f) \<longleftrightarrow> False"
| "plain (GenerateKey f) \<longleftrightarrow> False"
| "plain (FetchAll rs f) \<longleftrightarrow> False"
| "plain (WaitUntil t p) \<longleftrightarrow> plain p"
| "plain (Log m p) \<longleftrightarrow> plain p"

lemma plain_run:
  assumes "isolated sv" and "plain p" and "sv_view sv s = sv_view sv s'" and "sv_clock sv s = sv_clock sv s'"
  shows "fst (run sv p s) = fst (run sv p s') \<and>
    sv_view sv (snd (run sv p s)) = sv_view sv (snd (run sv p s'))"
  using assms(2-)
proof (induction p arbitrary: s s')
  case (KvGet n k f)
  have r: "run sv (KvGet n k f) x = run sv (f (Inr (sv_view sv x n k))) (snd (sv_get sv x n k))" for x
    using assms(1) KvGet.prems(1) by (simp add: run.simps split_beta isolated_get)
  have same: "sv_view sv s' = sv_view sv s" "sv_clock sv s' = sv_clock sv s" using KvGet.prems by simp_all
  show ?case
    unfolding r same
    by (rule KvGet.IH [OF rangeI]) (use KvGet.prems(1) assms(1) in \<open>simp_all add: view_simps same\<close>)
next
  case (KvPut n k v t f)
  have r: "run sv (KvPut n k v t f) x = run sv (f (None)) (snd (sv_put sv x n k v t))" for x
    using assms(1) KvPut.prems(1) by (simp add: run.simps split_beta isolated_put)
  have same: "sv_view sv s' = sv_view sv s" "sv_clock sv s' = sv_clock sv s" using KvPut.prems by simp_all
  show ?case
    unfolding r same
    by (rule KvPut.IH [OF rangeI]) (use KvPut.prems(1) assms(1) in \<open>simp_all add: view_simps same\<close>)
next
  case (KvDelete n k f)
  have r: "run sv (KvDelete n k f) x = run sv (f (None)) (snd (sv_delete sv x n k))" for x
    using assms(1) KvDelete.prems(1) by (simp add: run.simps split_beta isolated_delete)
  have same: "sv_view sv s' = sv_view sv s" "sv_clock sv s' = sv_clock sv s" using KvDelete.prems by simp_all
  show ?case
    unfolding r same
    by (rule KvDelete.IH [OF rangeI]) (use KvDelete.prems(1) assms(1) in \<open>simp_all add: view_simps same\<close>)
next
  case (Now f)
  have r: "run sv (Now f) x = run sv (f (sv_clock sv x)) (snd (sv_now sv x))" for x
    using assms(1) Now.prems(1) by (simp add: run.simps split_beta isolated_now)
  have same: "sv_view sv s' = sv_view sv s" "sv_clock sv s' = sv_clock sv s" using Now.prems by simp_all
  show ?case
    unfolding r same
    by (rule Now.IH [OF rangeI]) (use Now.prems(1) assms(1) in \<open>simp_all add: view_simps same\<close>)
next
  case (WaitUntil t p)
  show ?case using WaitUntil.IH [of s s'] WaitUntil.prems by simp
next
  case (Log m p)
  show ?case using Log.IH [of s s'] Log.prems by simp
qed simp_all

lemma plain_steps:
  "(\<And>v. plain (f v)) \<Longrightarrow> plain (kvGet n k f)"
  "ttl_ok t \<Longrightarrow> plain p \<Longrightarrow> plain (kvPut n k v t p)"
  "(\<And>v. plain (h v)) \<Longrightarrow> plain (attempt r h)"
  by (auto simp: kvGet_def kvPut_def attempt_def split: sum.splits option.splits)

lemma plain_local_store: "ttl_ok (Some (MAILBOX_TTL_SECONDS cfg)) \<Longrightarrow> (\<And>b. plain (k b)) \<Longrightarrow> plain (local_store cfg c k)"
  by (auto simp: local_store_def local_refresh_def intro!: plain_steps split: option.splits)

section \<open>A registration whose primary is the node\<close>

abbreviation wf_urls :: "jsval list \<Rightarrow> bool" where
  "wf_urls urls \<equiv> list_all (\<lambda>u. u = None \<or> (\<exists>j. u = Some j \<and> wf_json j)) urls"

lemma wf_minted_replicas: "wf_urls urls \<Longrightarrow> wf_urls (minted_replicas cr env urls pk)"
proof -
  assume w: "wf_urls urls"
  have "elem_at urls i = None \<or> (\<exists>j. elem_at urls i = Some j \<and> wf_json j)" for i
  proof (cases i)
    case (Some k)
    then show ?thesis using w by (auto simp: elem_at_def list_all_length)
  qed (simp add: elem_at_def)
  then show ?thesis
    by (simp add: minted_replicas_def era_replicas_def replicasForEra_def replicaSetForEra_def list_all_iff)
qed

definition c_registers_owner :: "crypto \<Rightarrow> int \<Rightarrow> register_req \<Rightarrow> string \<Rightarrow> bool" where
  "c_registers_owner cr now q pk \<longleftrightarrow>
     rq_pubkey q = Some (JStr pk) \<and>
     \<not> outside_skew now (js_number (rq_timestamp q)) (Some 30000) \<and>
     c_verifyEd25519 cr pk (ownership_message (lower pk) (js_string (rq_timestamp q))) (rq_signature q)"

lemma run_c_register_finish:
  assumes "isolated sv" and "has_ROUTER_ADMIN_KV env" and "rq_requestId q = None"
  shows "\<exists>s'. run sv (c_register_finish cr env q mid secret reps capExp (True # others)) s =
      (Done (json (register_response mid secret reps capExp (version_of env (sv_view sv s ROUTER_ADMIN_KV))) 200 []), s') \<and>
    sv_view sv s' = sv_view sv s \<and> sv_clock sv s' = sv_clock sv s"
proof (intro exI conjI)
  let ?s' = "snd (sv_get sv s ROUTER_ADMIN_KV ''routing_table_version'')"
  show "run sv (c_register_finish cr env q mid secret reps capExp (True # others)) s =
      (Done (json (register_response mid secret reps capExp (version_of env (sv_view sv s ROUTER_ADMIN_KV))) 200 []), ?s')"
    using assms by (simp add: c_register_finish_def Let_def run_simps)
  show "sv_view sv ?s' = sv_view sv s" "sv_clock sv ?s' = sv_clock sv s" using assms(1) by (simp_all add: view_simps)
qed

lemma run_c_handleRegister_self:
  assumes iso: "isolated sv" and kv: "has_ROUTER_ADMIN_KV env" and sz: "standard_sizes cr"
    and key: "router_key cr env pub priv" and body: "body_of req = Some body" and q: "register_request body = Inr q"
    and own: "c_registers_owner cr (sv_clock sv s) q pk" and plain: "rq_requestId q = None"
    and wf: "wf_urls urls" and ttl: "ttl_ok (Some (MAILBOX_TTL_SECONDS cfg))"
    and reps: "minted_replicas cr env urls pk = u # others" and self: "is_self env u"
    and remote: "list_all (\<lambda>v. \<not> is_self env v) others"
    and none: "present (sv_view sv s MAILBOX_KV (mailbox_key (minted_id cr env pk))) = None"
  shows "\<exists>secret s'. run sv (c_handleRegister cr env cfg urls req) s =
      (Done (json (register_response (minted_id cr env pk) secret (u # others)
         (sv_clock sv s + CAPABILITY_TTL_SECONDS * 1000) (version_of env (sv_view sv s ROUTER_ADMIN_KV))) 200 []), s') \<and>
    mailbox_at (sv_view sv s' MAILBOX_KV) (minted_id cr env pk) (minted_mailbox cr (u # others) secret (sv_clock sv s)) \<and>
    sv_view sv s' ROUTER_ADMIN_KV = sv_view sv s ROUTER_ADMIN_KV \<and> sv_clock sv s' = sv_clock sv s"
proof -
  define s0 where "s0 = snd (sv_now sv s)"
  define s1 where "s1 = snd (sv_random sv s0 32)"
  define secret where "secret = bytesToHex (fst (sv_random sv s0 32))"
  define s2 where "s2 = snd (sv_now sv s1)"
  define s3 where "s3 = snd (sv_random sv s2 16)"
  define nonce where "nonce = bytesToHex (fst (sv_random sv s2 16))"
  have v: "sv_view sv s3 = sv_view sv s" "sv_clock sv s3 = sv_clock sv s" "sv_clock sv s1 = sv_clock sv s"
    using iso by (simp_all add: s0_def s1_def s2_def s3_def view_simps)
  let ?now = "sv_clock sv s" and ?mid = "minted_id cr env pk"
  let ?text = "json_stringify (minted_body cr env priv pk (u # others) secret nonce ?now)"
  let ?fin = "c_register_finish cr env q ?mid secret (u # others) (?now + CAPABILITY_TTL_SECONDS * 1000)"
  have bq: "json_parse (req_body req) \<noteq> None" "body = or_val (json_parse (req_body req)) (JObj [])"
    using body by (auto simp: body_of_def)
  have "run sv (c_handleRegister cr env cfg urls req) s = run sv (c_register_mint cr env cfg urls q pk) s0"
    using iso own q bq by (auto simp: c_handleRegister_def c_body_def c_registers_owner_def run_simps js_lower_def
        js_string_def s0_def [symmetric])
  also have "\<dots> = run sv (all_calls (createOnReplica cr env cfg ?text) (u # others) ?fin) s3"
    using iso key reps
    by (simp add: c_register_mint_def Let_def run_simps randomHex_def minted_body_def minted_id_def minted_replicas_def
        era_replicas_def s1_def [symmetric] s2_def [symmetric] s3_def [symmetric] secret_def [symmetric]
        nonce_def [symmetric] v(3))
  finally have r: "run sv (c_handleRegister cr env cfg urls req) s =
      run sv (all_calls (createOnReplica cr env cfg ?text) (u # others) ?fin) s3" .
  have wfr: "wf_urls (u # others)" using wf_minted_replicas [OF wf, of cr env pk] by (simp only: reps)
  have fr: "sv_clock sv s3 \<le> ?now + CAPABILITY_TTL_SECONDS * 1000" by (simp add: v CAPABILITY_TTL_SECONDS_def)
  have none3: "present (sv_view sv s3 MAILBOX_KV (mailbox_key ?mid)) = None" using none by (simp add: v)
  let ?others = "\<lambda>r. all_settled (createOnReplica cr env cfg ?text) others (\<lambda>rs. attempt (fulfilled (Inr r # rs)) ?fin)"
  obtain s4 where s4: "run sv (createOnReplica cr env cfg ?text u (\<lambda>r. Return (Inr r :: js_error + bool))) s3 =
        run sv (Return (Inr True)) s4"
      "mailbox_at (sv_view sv s4 MAILBOX_KV) ?mid (minted_mailbox cr (u # others) secret (sv_clock sv s3))"
      "sv_view sv s4 ROUTER_ADMIN_KV = sv_view sv s3 ROUTER_ADMIN_KV" "sv_clock sv s4 = sv_clock sv s3"
    using run_createOnReplica_self [OF iso sz key wfr fr self ttl none3,
        where k = "\<lambda>r. Return (Inr r :: js_error + bool)" and nonce = nonce and secret = secret]
    by auto
  have r4: "run sv (all_calls (createOnReplica cr env cfg ?text) (u # others) ?fin) s3 = run sv (?others True) s4"
    unfolding all_calls_def by (rule run_all_settled) (rule s4(1))
  obtain rs s5 where s5: "run sv (?others True) s4 = run sv (?fin (True # rs)) s5"
      "sv_view sv s5 = sv_view sv s4" "sv_clock sv s5 = sv_clock sv s4"
    using run_createOnReplica_others [OF iso remote, where k = "\<lambda>rs. attempt (fulfilled (Inr True # rs)) ?fin"
        and cr = cr and cfg = cfg and body = ?text and s = s4] by auto
  obtain s6 where s6: "run sv (?fin (True # rs)) s5 =
        (Done (json (register_response ?mid secret (u # others) (?now + CAPABILITY_TTL_SECONDS * 1000)
           (version_of env (sv_view sv s5 ROUTER_ADMIN_KV))) 200 []), s6)"
      "sv_view sv s6 = sv_view sv s5" "sv_clock sv s6 = sv_clock sv s5"
    using run_c_register_finish [OF iso kv plain] by blast
  show ?thesis
    using r r4 s4(2-) s5 s6 v by (intro exI [of _ secret] exI [of _ s6]) simp
qed

section \<open>A lookup that includes the node\<close>

text \<open>Whether a replica answers that it has the mailbox: the node by its store, another by its probe.\<close>

definition here_or :: "env \<Rightarrow> (string \<Rightarrow> string option) \<Rightarrow> string \<Rightarrow> (jsval \<Rightarrow> bool) \<Rightarrow> jsval \<Rightarrow> bool" where
  "here_or env kv mid holds u = (if is_self env u then present (kv (mailbox_key mid)) \<noteq> None else holds u)"

lemma run_existsOnReplica:
  assumes iso: "isolated sv" and probes: "probes sv mid holds"
  shows "\<exists>s'. run sv (existsOnReplica env mid u k) s =
      run sv (k (here_or env (sv_view sv s MAILBOX_KV) mid holds u)) s' \<and>
    sv_view sv s' = sv_view sv s \<and> sv_clock sv s' = sv_clock sv s"
proof (cases "is_self env u")
  case True
  then have "run sv (existsOnReplica env mid u k) s = run sv (k (here_or env (sv_view sv s MAILBOX_KV) mid holds u))
      (snd (sv_get sv s MAILBOX_KV (mailbox_key mid)))"
    using iso by (simp add: existsOnReplica_def run_simps here_or_def)
  then show ?thesis using iso by (auto simp: view_simps intro!: exI [of _ "snd (sv_get sv s MAILBOX_KV (mailbox_key mid))"])
next
  case False
  then have "run sv (existsOnReplica env mid u k) s = run sv (k (here_or env (sv_view sv s MAILBOX_KV) mid holds u))
      (snd (sv_fetch sv s [exists_request u mid]))"
    using iso probes by (simp add: existsOnReplica_def run_simps here_or_def probes_def)
  then show ?thesis using iso by (auto simp: view_simps intro!: exI [of _ "snd (sv_fetch sv s [exists_request u mid])"])
qed

lemma run_c_resolve_eras:
  assumes iso: "isolated sv" and kv: "has_ROUTER_ADMIN_KV env" and probes: "probes sv mid holds"
    and point: "hashPoint cr (lower pubkey) = Some (int p)"
    and ns: "\<forall>n\<in>set ns. 0 < n \<and> n \<le> int (length urls) \<and> replicationFactor env n \<noteq> None"
  shows "fst (run sv (c_resolve_eras cr env pubkey mid urls ns) s) =
    (let version = version_of env (sv_view sv s ROUTER_ADMIN_KV) in
     case ring.walk env (here_or env (sv_view sv s MAILBOX_KV) mid holds) p ns urls of
       Some n \<Rightarrow> Done (jsonOk (resolve_response mid (era_replicas cr env pubkey urls n) n version None) [])
     | None \<Rightarrow> Done (jsonOk (resolve_response mid (era_replicas cr env pubkey urls (int (length urls)))
                (int (length urls)) version (Some ''mailbox not confirmed to exist yet on any known era'')) []))"
  using ns
proof (induction ns arbitrary: s)
  case Nil
  show ?case using iso kv by (simp add: run_simps Let_def)
next
  case (Cons n ns)
  have n: "0 < n \<and> n \<le> int (length urls) \<and> replicationFactor env n \<noteq> None" using Cons.prems by simp
  let ?reps = "replicaSetForEra (Some (int p)) n urls (replicationFactor env n)"
  have reps: "era_replicas cr env pubkey urls n = ?reps"
    by (simp add: era_replicas_def replicasForEra_def point)
  have "?reps \<noteq> []" by (rule ring.place_nonempty [OF n])
  then have hd: "elem_at ?reps (Some 0) = hd ?reps" by (simp add: elem_at_def hd_conv_nth)
  obtain s1 where s1: "run sv (c_resolve_eras cr env pubkey mid urls (n # ns)) s =
      run sv (if here_or env (sv_view sv s MAILBOX_KV) mid holds (hd ?reps)
        then getRoutingTableVersion env (\<lambda>version. Return (jsonOk (resolve_response mid ?reps n version None) []))
        else c_resolve_eras cr env pubkey mid urls ns) s1"
      "sv_view sv s1 = sv_view sv s"
    using run_existsOnReplica [OF iso probes, where u = "hd ?reps"] by (simp add: reps hd Let_def) blast
  show ?case
  proof (cases "here_or env (sv_view sv s MAILBOX_KV) mid holds (hd ?reps)")
    case True
    then show ?thesis using iso kv s1 by (simp add: reps Let_def run_simps del: c_resolve_eras_steps)
  next
    case False
    with Cons.IH [of s1] Cons.prems s1 show ?thesis by simp
  qed
qed

lemma run_c_handleResolve:
  fixes sv :: "'s service" and s :: 's and urls :: "jsval list"
  assumes iso: "isolated sv" and kv: "has_ROUTER_ADMIN_KV env" and q: "map_of (req_query req) ''pubkey'' = Some pubkey"
    "hex_re 64 64 pubkey"
    and probes: "probes sv (minted_id cr env pubkey) holds" and point: "hashPoint cr (lower pubkey) = Some (int p)"
    and rf: "\<And>n. replicationFactor env n \<noteq> None"
  defines "eras \<equiv> eraCountsDescending urls (prior_of env (sv_view sv s ROUTER_ADMIN_KV))"
    and "mid \<equiv> minted_id cr env pubkey"
  shows "fst (run sv (c_handleResolve cr env urls req) s) =
    (let version = version_of env (sv_view sv s ROUTER_ADMIN_KV) in
     case ring.walk env (here_or env (sv_view sv s MAILBOX_KV) mid holds) p eras urls of
       Some n \<Rightarrow> Done (jsonOk (resolve_response mid (era_replicas cr env pubkey urls n) n version None) [])
     | None \<Rightarrow> Done (jsonOk (resolve_response mid (era_replicas cr env pubkey urls (int (length urls)))
                (int (length urls)) version (Some ''mailbox not confirmed to exist yet on any known era'')) []))"
proof -
  define s1 where "s1 = snd (sv_get sv s ROUTER_ADMIN_KV ''prior_shard_counts'')"
  have v1: "sv_view sv s1 = sv_view sv s" using iso by (simp add: s1_def view_simps)
  have ns: "\<forall>n\<in>set eras. 0 < n \<and> n \<le> int (length urls) \<and> replicationFactor env n \<noteq> None"
    using rf by (auto simp: eras_def eras_set)
  have "pubkey \<noteq> []" using q(2) by (auto simp: hex_re_def)
  then have "run sv (c_handleResolve cr env urls req) s = run sv (c_resolve_eras cr env pubkey mid urls eras) s1"
    using iso kv q by (simp add: c_handleResolve_def run_simps str_val_def Let_def s1_def eras_def mid_def minted_id_def)
  then show ?thesis using run_c_resolve_eras [OF iso kv probes point ns, of s1] v1 unfolding mid_def by simp
qed

text \<open>The walk starts at the current number of shards.\<close>

lemma eras_current_first:
  assumes "urls \<noteq> []"
  shows "\<exists>ns. eraCountsDescending urls prior = int (length urls) # ns"
proof -
  let ?e = "eraCountsDescending urls prior" and ?n = "int (length urls)"
  have "?n \<in> set ?e" using assms by (simp add: eras_set)
  then obtain m ns where e: "?e = m # ns" by (cases ?e) auto
  have "m \<in> set ?e" by (simp add: e)
  then have le: "m \<le> ?n" by (simp only: eras_set) simp
  have "sorted_wrt (>) (m # ns)" using eras_descending [of urls prior] by (simp only: e)
  then have "\<forall>k\<in>set ns. k < m" by simp
  moreover have "?n = m \<or> ?n \<in> set ns" using \<open>?n \<in> set ?e\<close> by (simp add: e)
  ultimately have "?n = m" using le by force
  then show ?thesis using e by simp
qed

end
