(* ===== verification/CombinedNode.thy ===== *)
theory CombinedNode
  imports CombinedFlow
begin

text \<open>
  The node's place in its own mesh: the list of URLs and the routing table it builds on an isolated
  platform, the key it lists itself under, and the rotation of that key.
\<close>

section \<open>The list of shards\<close>

lemma run_c_getShardUrls:
  assumes "isolated sv" and "has_ROUTER_ADMIN_KV env"
    and "registry_ok (registered_of (sv_view sv s ROUTER_ADMIN_KV))"
    and "base_urls env (sv_view sv s ROUTER_ADMIN_KV) base"
  shows "\<exists>s'. run sv (c_getShardUrls env k) s =
      run sv (k (add_self env (mesh_urls base (registered_of (sv_view sv s ROUTER_ADMIN_KV))))) s' \<and>
    sv_view sv s' = sv_view sv s \<and> sv_clock sv s' = sv_clock sv s"
  unfolding c_getShardUrls_add_self by (rule run_getShardUrls [OF assms])

section \<open>The routing table\<close>

definition node_table ::
  "crypto \<Rightarrow> env \<Rightarrow> byte list \<Rightarrow> string \<Rightarrow> (string \<Rightarrow> string option) \<Rightarrow> json list \<Rightarrow> (string \<Rightarrow> jsval) \<Rightarrow> int \<Rightarrow> json" where
  "node_table cr env priv selfHex kv base pubkeys now =
     signed_table cr priv (c_table_fields env (add_self env (mesh_urls base (registered_of kv)))
       (prior_of env kv) (version_of env kv) pubkeys (Some (JStr selfHex)) now)"

lemma run_c_buildSignedRoutingTable:
  assumes iso: "isolated sv" and kv: "has_ROUTER_ADMIN_KV env" and key: "router_key cr env pub priv"
    and ok: "registry_ok (registered_of (sv_view sv s ROUTER_ADMIN_KV))"
    and base: "base_urls env (sv_view sv s ROUTER_ADMIN_KV) base"
    and keys: "pubkey_map (registered_of (sv_view sv s ROUTER_ADMIN_KV)) (\<lambda>_. None) = Inr m"
    and self: "SELF_URL env = Some u" "u \<noteq> []"
    and st: "identity_stored (sv_view sv s MAILBOX_KV) spub spriv"
  shows "\<exists>s'. run sv (c_buildSignedRoutingTable cr env k) s =
      run sv (k (node_table cr env priv (bytesToHex spub) (sv_view sv s ROUTER_ADMIN_KV) base m (sv_clock sv s))) s' \<and>
    sv_view sv s' = sv_view sv s \<and> sv_clock sv s' = sv_clock sv s"
proof -
  let ?kv = "sv_view sv s ROUTER_ADMIN_KV"
  let ?urls = "add_self env (mesh_urls base (registered_of ?kv))"
  let ?cont = "\<lambda>shardUrls. getPriorShardCounts env (\<lambda>priorCounts. getRoutingTableVersion env (\<lambda>version.
     getShardPubkeys env (\<lambda>pubkeys. Now (\<lambda>now. ensureShardIdentity (\<lambda>identity.
     self_key env shardUrls identity (\<lambda>selfPub. signing_key cr env (\<lambda>key.
       k (signed_table cr key (c_table_fields env shardUrls priorCounts version pubkeys selfPub now)))))))))"
  obtain s1 where s1: "run sv (c_buildSignedRoutingTable cr env k) s = run sv (?cont ?urls) s1"
      "sv_view sv s1 = sv_view sv s" "sv_clock sv s1 = sv_clock sv s"
    using run_c_getShardUrls [OF iso kv ok base, of ?cont] by (auto simp: c_buildSignedRoutingTable_def)
  define s2 where "s2 = snd (sv_get sv s1 ROUTER_ADMIN_KV ''prior_shard_counts'')"
  define s3 where "s3 = snd (sv_get sv s2 ROUTER_ADMIN_KV ''routing_table_version'')"
  define s4 where "s4 = snd (sv_get sv s3 ROUTER_ADMIN_KV ''registered_shards'')"
  define s5 where "s5 = snd (sv_now sv s4)"
  define s6 where "s6 = snd (sv_get sv s5 MAILBOX_KV SHARD_IDENTITY_KV_KEY)"
  have v: "sv_view sv s2 = sv_view sv s" "sv_view sv s3 = sv_view sv s" "sv_view sv s4 = sv_view sv s"
      "sv_view sv s5 = sv_view sv s" "sv_view sv s6 = sv_view sv s" "sv_clock sv s4 = sv_clock sv s"
      "sv_clock sv s6 = sv_clock sv s"
    using iso s1 by (simp_all add: s2_def s3_def s4_def s5_def s6_def view_simps)
  have mem: "list_ex (is_self env) ?urls"
    using add_self_contains [OF self] self(1) by (auto simp: list_ex_iff)
  have st5: "identity_stored (sv_view sv s5 MAILBOX_KV) spub spriv" using st by (simp add: v)
  have "run sv (c_buildSignedRoutingTable cr env k) s =
      run sv (k (node_table cr env priv (bytesToHex spub) ?kv base m (sv_clock sv s))) s6"
    using iso kv keys v mem
    by (simp add: s1 run_simps getShardPubkeys_def node_table_def s2_def [symmetric] s3_def [symmetric]
        s4_def [symmetric] s5_def [symmetric] run_ensureShardIdentity_stored [OF iso st5] s6_def [symmetric]
        signing_key_configured [OF key])
  with v show ?thesis by blast
qed

text \<open>The node is a recognised origin in its own table.\<close>

lemma node_recognised:
  assumes m: "\<And>v. m v = None \<or> (\<exists>p. m v = Some (JStr p))" and self: "SELF_URL env = Some u"
    and mem: "Some (JStr u) \<in> set urls" and ne: "pubHex \<noteq> []"
  shows "known_shard (signed_table cr key (c_table_fields env urls prior v m (Some (JStr pubHex)) now)) (lower pubHex) = Inr True"
proof -
  let ?f = "\<lambda>url. mk_obj [(''url'', url), (''pubkey'', listed_key env m (Some (JStr pubHex)) url)]"
  let ?entries = "map ?f urls"
  have "known_shard (signed_table cr key (c_table_fields env urls prior v m (Some (JStr pubHex)) now)) (lower pubHex) =
      find_shard (lower pubHex) ?entries"
    by (simp add: known_shard_def signed_table_def c_table_fields_def mk_obj_def c_table_shards_def)
  also have "\<dots> = Inr (\<exists>s\<in>set ?entries. \<exists>p. js_prop s ''pubkey'' = Some (JStr p) \<and> p \<noteq> [] \<and> lower p = lower pubHex)"
  proof (rule find_shard_entries, rule ballI)
    fix e assume "e \<in> set ?entries"
    then obtain url where "e = ?f url" by auto
    then show "\<exists>kvs. e = JObj kvs \<and> (map_of kvs ''pubkey'' = Some JNull \<or> (\<exists>p. map_of kvs ''pubkey'' = Some (JStr p)))"
      using m [of "js_string url"]
      by (cases url) (auto simp: mk_obj_def or_val_def listed_key_def split: if_splits)
  qed
  also have "\<dots> = Inr True"
  proof -
    let ?e = "JObj [(''url'', JStr u), (''pubkey'', JStr pubHex)]"
    have "?f (Some (JStr u)) \<in> set ?entries" unfolding set_map by (rule imageI) (rule mem)
    moreover have "?f (Some (JStr u)) = ?e" using self by (simp add: mk_obj_def listed_key_def)
    ultimately have "?e \<in> set ?entries" by simp
    moreover have "js_prop ?e ''pubkey'' = Some (JStr pubHex)" by simp
    ultimately show ?thesis using ne by blast
  qed
  finally show ?thesis .
qed

text \<open>A sibling that trusts the node's Router key caches the table.\<close>

lemma node_table_cached:
  assumes iso: "isolated sv" and key: "router_key cr env pub priv" and sz: "standard_sizes cr"
    and trust: "ROUTER_SIGNING_PUBLIC env' = Some (bytesToHex pub)"
    and body: "body_of req = Some (signed_table cr priv (c_table_fields env urls prior v m self now))"
    and urls: "urls \<noteq> []" and fresh: "sv_clock sv s \<le> now + ROUTING_TABLE_TTL_SECONDS * 1000"
  shows "sv_view sv (snd (run sv (handleRoutingTablePush cr env' req) s)) MAILBOX_KV =
      (sv_view sv s MAILBOX_KV)(ROUTING_TABLE_KV_KEY \<mapsto>
        json_stringify (signed_table cr priv (c_table_fields env urls prior v m self now)))"
proof -
  let ?t = "signed_table cr priv (c_table_fields env urls prior v m self now)"
  let ?un = "mk_obj (c_table_fields env urls prior v m self now)"
  obtain sig where sig: "js_prop ?t ''signature'' = Some (JStr sig)" "sig = signWithShardKey cr priv (json_stringify ?un)"
      "verifyEd25519Message cr (bytesToHex pub) (json_stringify ?un) sig"
    using c_table_signature [OF key] by blast
  have signed: "table_signed cr env' ?t"
    using sig(1,3) by (simp add: table_signed_def verify_with_def trust c_unsigned_table)
  have hex: "hex_re 128 128 (js_string (js_prop ?t ''signature''))"
    using sig(1,2) hex_signature [OF sz] by (simp add: js_string_def)
  have props: "js_prop ?un ''shard_urls'' = Some (arr_json urls)"
      "js_prop ?un ''expires_at'' = Some (JNum (now + ROUTING_TABLE_TTL_SECONDS * 1000))"
      "js_prop ?un ''version'' = Some (json_of_number v)"
    by (simp_all add: c_table_fields_def mk_obj_def)
  note push = run_handleRoutingTablePush [OF iso body signed hex, unfolded c_unsigned_table, unfolded props arr_json_def,
      OF refl _ _ fresh]
  show ?thesis using push urls by simp
qed

end
