(* ===== verification/CombinedInvariant.thy ===== *)
theory CombinedInvariant
  imports CombinedNode ShardInvariant RouterInvariant
begin

text \<open>
  What the two KV namespaces of the combined worker can hold, however its requests and tasks
  interleave: the shard's predicate on one, the Router's on the other.  A shared handler touches
  one namespace only, so what \<open>ShardInvariant\<close> and \<open>RouterInvariant\<close> prove of it carries over; the
  handlers of this worker are checked here.
\<close>

section \<open>Programs of one namespace\<close>

definition within :: "ns \<Rightarrow> event \<Rightarrow> bool" where
  "within n e = (case e of EvGet m k \<Rightarrow> m = n | EvPut m k v t \<Rightarrow> m = n | EvDelete m k \<Rightarrow> m = n | _ \<Rightarrow> True)"

lemma within_simps [simp]:
  "within n (EvGet m k) \<longleftrightarrow> m = n" "within n (EvPut m k v t) \<longleftrightarrow> m = n" "within n (EvDelete m k) \<longleftrightarrow> m = n"
  "within n (EvFetch rs)" "within n (EvWaitUntil x)" "within n (EvLog l)"
  by (simp_all add: within_def)

lemma stable_within:
  assumes "stable I p" and "emits (within n) p" and "\<And>k v. J n k v \<longleftrightarrow> I n k v"
  shows "stable J p"
  using assms(1,2) by (induction p) (auto simp: assms(3))

named_theorems within_intros \<open>programs that touch one namespace\<close>

lemma within_basic [within_intros]:
  "(\<And>v. emits (within n) (f v)) \<Longrightarrow> emits (within n) (kvGet n k f)"
  "emits (within n) p \<Longrightarrow> emits (within n) (kvPut n k v t p)"
  "emits (within n) p \<Longrightarrow> emits (within n) (kvDelete n k p)"
  "(\<And>a. emits (within n) (g a)) \<Longrightarrow> emits (within n) (fetch1 r g)"
  "(\<And>v. emits (within n) (h v)) \<Longrightarrow> emits (within n) (attempt r' h)"
  "emits (within n) p \<Longrightarrow> (\<And>e. emits (within n) (c e)) \<Longrightarrow> emits (within n) (catch_with c p)"
  "(\<And>b. emits (within n) (d b)) \<Longrightarrow> emits (within n) (randomHex m d)"
  by (auto simp: emit_simps randomHex_def intro: emits_catch_with)

section \<open>The shard's handlers\<close>

abbreviation mailbox_only :: "'a prog \<Rightarrow> bool" where
  "mailbox_only \<equiv> emits (within MAILBOX_KV)"

lemma mailbox_only_steps [within_intros]:
  "(\<And>b. mailbox_only (k b)) \<Longrightarrow> mailbox_only (rateLimit bucket limit w k)"
  "(\<And>b. mailbox_only (k b)) \<Longrightarrow> mailbox_only (verifyCapability cr m h e sig pub k)"
  "(\<And>b. mailbox_only (k b)) \<Longrightarrow> mailbox_only (verifyCapabilityV2 cr m pk sc e n sig pub k)"
  "(\<And>a. mailbox_only (k1 a)) \<Longrightarrow> mailbox_only (verifySenderAuth cr auth skew msg k1)"
  "(\<And>j. mailbox_only (k2 j)) \<Longrightarrow> mailbox_only (ensureShardIdentity k2)"
  "(\<And>b. mailbox_only (k3 b)) \<Longrightarrow> mailbox_only (identity_private cr identity k3)"
  "(\<And>v. mailbox_only (k4 v)) \<Longrightarrow> mailbox_only (identity_public identity k4)"
  "(\<And>r. mailbox_only (k5 r)) \<Longrightarrow> mailbox_only (registration_request cr router url identity key nonce sol ts k5)"
  "(\<And>j. mailbox_only (k2 j)) \<Longrightarrow> mailbox_only (buildShardSignedResponse cr rid st body k2)"
  "(\<And>j. mailbox_only (k6 j)) \<Longrightarrow> mailbox_only (request_json req k6)"
  "(\<And>j. mailbox_only (k2 j)) \<Longrightarrow> mailbox_only (getCachedRoutingTable k2)"
  "(\<And>j. mailbox_only (k2 j)) \<Longrightarrow> mailbox_only (purge_stale cfg stored k2)"
  "(\<And>j. mailbox_only (k2 j)) \<Longrightarrow> mailbox_only (stamp_enqueued stored k2)"
  by (auto simp: rateLimit_def verifyCapability_def verifyCapabilityV2_def verifySenderAuth_def ensureShardIdentity_def
      identity_private_def identity_public_def registration_request_def buildShardSignedResponse_def request_json_def
      getCachedRoutingTable_def purge_stale_def isBacklogStale_def stamp_enqueued_def Let_def
      intro!: within_intros split: option.splits)

lemma mailbox_only_handlers:
  "mailbox_only (handleHealth env req)"
  "mailbox_only (handleExists req)"
  "mailbox_only (handleSend cr cfg req)"
  "mailbox_only (handleRead cr cfg req)"
  "mailbox_only (handleRoutingTablePush cr env req)"
  "mailbox_only (handleReplicate cr cfg req)"
  "mailbox_only handleRoutingTableServe"
  "mailbox_only (handleAdminShardInfo env req)"
  "mailbox_only (handleAdminRegister cr env req)"
  subgoal by (auto simp: handleHealth_def intro!: within_intros split: sum.splits)
  subgoal by (auto simp: handleExists_def intro!: within_intros split: option.splits)
  subgoal by (auto simp: handleSend_def send_deposit_def send_append_def send_respond_def Let_def
      intro!: within_intros split: option.splits sum.splits)
  subgoal by (auto simp: handleRead_def read_take_def Let_def intro!: within_intros split: option.splits)
  subgoal by (auto simp: handleRoutingTablePush_def Let_def intro!: within_intros split: option.splits json.splits list.splits)
  subgoal by (auto simp: handleReplicate_def replicate_apply_def replicate_store_def Let_def
      intro!: within_intros split: option.splits sum.splits)
  subgoal by (auto simp: handleRoutingTableServe_def intro!: within_intros)
  subgoal by (auto simp: handleAdminShardInfo_def intro!: within_intros)
  subgoal by (auto simp: handleAdminRegister_def intro!: within_intros split: option.splits fetch_result.splits)
  done

lemma mailbox_only_log_failures: "mailbox_only (log_failures us rs (Return ()))"
  by (induction us rs "Return () :: unit prog" rule: log_failures.induct) auto

lemma mailbox_only_replicate: "mailbox_only (replicateToSiblings cr env m e us)"
  by (auto simp: replicateToSiblings_def Let_def intro!: within_intros mailbox_only_log_failures)

lemma mailbox_only_own:
  "(\<And>b. mailbox_only (k b)) \<Longrightarrow> mailbox_only (local_store cfg c k)"
  "mailbox_only (c_handleCreate cr env cfg req)"
  "mailbox_only (c_handleAdminRotateKey cr env req)"
  "mailbox_only (c_ensureSelfRegistered cr env)"
  by (auto simp: local_store_def local_refresh_def c_handleCreate_def localCreate_def c_handleAdminRotateKey_def
      c_ensureSelfRegistered_def c_attempt_registration_def Let_def
      intro!: within_intros split: option.splits sum.splits fetch_result.splits)

section \<open>The Router's handlers\<close>

abbreviation admin_only :: "'a prog \<Rightarrow> bool" where
  "admin_only \<equiv> emits (within ROUTER_ADMIN_KV)"

lemma admin_only_steps [within_intros]:
  "(\<And>b. admin_only (k b)) \<Longrightarrow> admin_only (adminRateLimit env b l w k)"
  "(\<And>xs. admin_only (k1 xs)) \<Longrightarrow> admin_only (getRegisteredShards env k1)"
  "(\<And>xs. admin_only (k1 xs)) \<Longrightarrow> admin_only (getPriorShardCounts env k1)"
  "(\<And>v. admin_only (k2 v)) \<Longrightarrow> admin_only (getRoutingTableVersion env k2)"
  "(\<And>u. admin_only (k3 u)) \<Longrightarrow> admin_only (c_getShardUrls env k3)"
  "(\<And>m. admin_only (k4 m)) \<Longrightarrow> admin_only (getShardPubkeys env k4)"
  "(\<And>j. admin_only (k5 j)) \<Longrightarrow> admin_only (c_body req k5)"
  "(\<And>y. admin_only (k6 y)) \<Longrightarrow> admin_only (signing_key cr env k6)"
  "admin_only (commit_shards env ys answer)"
  by (auto simp: adminRateLimit_def getRegisteredShards_def getPriorShardCounts_def getRoutingTableVersion_def
      c_getShardUrls_add_self getShardUrls_def getShardPubkeys_def c_body_def signing_key_def commit_shards_def Let_def
      intro!: within_intros split: option.splits json.splits list.splits)

lemma admin_only_map_url [within_intros]:
  "(\<And>ys. admin_only (k ys)) \<Longrightarrow> admin_only (map_url url upd xs k)"
  by (induction xs arbitrary: k) (auto intro!: within_intros)

lemma admin_only_handlers:
  "admin_only (c_handlePowChallenge env req)"
  "admin_only (c_handleRegisterShard cr env req)"
  "admin_only (c_handleRotateShardKey cr env req)"
  "admin_only (handleStatus env cache urls)"
  "admin_only (c_handleAdminConfig env urls req)"
  "admin_only (c_try_shard_urls env)"
  subgoal by (auto simp: c_handlePowChallenge_def Let_def intro!: within_intros)
  subgoal by (auto simp: c_handleRegisterShard_def c_register_redeem_def c_register_verify_def c_register_store_def Let_def
      intro!: within_intros split: option.splits sum.splits)
  subgoal by (auto simp: c_handleRotateShardKey_def c_rotate_apply_def Let_def
      intro!: within_intros split: option.splits sum.splits)
  subgoal by (auto simp: handleStatus_def getHealthyShards_def Let_def split: option.splits)
  subgoal by (auto simp: c_handleAdminConfig_def intro!: within_intros)
  subgoal by (auto simp: c_try_shard_urls_def intro!: within_intros)
  done

section \<open>The predicate\<close>

text \<open>
  The table a node keeps is one it received, verified with the published key, or one it signed
  itself with the key it holds: whether that is the key of the published one is configuration.
\<close>

definition own_signed :: "crypto \<Rightarrow> env \<Rightarrow> json \<Rightarrow> bool" where
  "own_signed cr env t \<longleftrightarrow>
     is_set (ROUTER_SIGNING_KEY env) \<and>
     (\<exists>priv. importShardPrivateKey cr (js_string (str_val (ROUTER_SIGNING_KEY env))) = Inr priv \<and>
        js_prop t ''signature'' =
          Some (JStr (signWithShardKey cr priv (json_stringify (rest_without ''signature'' t)))))"

definition combined_table :: "crypto \<Rightarrow> env \<Rightarrow> string \<Rightarrow> bool" where
  "combined_table cr env v \<longleftrightarrow>
     (\<exists>t. v = json_stringify t \<and> wf_json t \<and> (table_signed cr env t \<or> own_signed cr env t))"

definition combined_value :: "crypto \<Rightarrow> env \<Rightarrow> kv_pred" where
  "combined_value cr env n k v =
     (case n of MAILBOX_KV \<Rightarrow> shard_value_with (combined_table cr env) n k v
      | ROUTER_ADMIN_KV \<Rightarrow> router_value env n k v)"

lemma combined_value_simps [simp]:
  "combined_value cr env MAILBOX_KV k v \<longleftrightarrow> shard_value_with (combined_table cr env) MAILBOX_KV k v"
  "combined_value cr env ROUTER_ADMIN_KV k v \<longleftrightarrow> router_value env ROUTER_ADMIN_KV k v"
  by (simp_all add: combined_value_def)

lemma combined_table_received: "table_value cr env v \<Longrightarrow> combined_table cr env v"
  by (auto simp: table_value_def combined_table_def)

text \<open>With the key pair of the published key, the two are one.\<close>

lemma combined_table_configured:
  assumes "router_key cr env pub priv" and "combined_table cr env v"
  shows "table_value cr env v"
proof -
  have "key_pair cr pub priv" using assms(1) by (simp add: router_key_def)
  then have "table_signed cr env t" if "own_signed cr env t" for t
    using that assms(1) verify_own_signature
    by (auto simp: own_signed_def table_signed_def router_key_def verify_with_def str_val_def js_string_def
        import_stored_key key_pair_def)
  then show ?thesis using assms(2) by (auto simp: combined_table_def table_value_def)
qed

abbreviation cgood :: "crypto \<Rightarrow> env \<Rightarrow> 'a prog \<Rightarrow> bool" where
  "cgood cr env \<equiv> stable (combined_value cr env)"

lemma cgood_mailbox: "good (combined_table cr env) p \<Longrightarrow> mailbox_only p \<Longrightarrow> cgood cr env p"
  using stable_within [of "shard_value_with (combined_table cr env)" p MAILBOX_KV "combined_value cr env"] by simp

lemma cgood_admin: "rgood env p \<Longrightarrow> admin_only p \<Longrightarrow> cgood cr env p"
  using stable_within [of "router_value env" p ROUTER_ADMIN_KV "combined_value cr env"] by simp

lemma good_table_push: "good (combined_table cr env) (handleRoutingTablePush cr env req)"
  by (rule good_handleRoutingTablePush) (rule combined_table_received)

lemma cgood_shard_handlers:
  "cgood cr env (handleHealth env req)"
  "cgood cr env (handleExists req)"
  "cgood cr env (handleSend cr cfg req)"
  "cgood cr env (handleRead cr cfg req)"
  "cgood cr env (handleRoutingTablePush cr env req)"
  "cgood cr env (handleReplicate cr cfg req)"
  "cgood cr env handleRoutingTableServe"
  "cgood cr env (handleAdminShardInfo env req)"
  "cgood cr env (handleAdminRegister cr env req)"
  "cgood cr env (replicateToSiblings cr env m e us)"
  by (intro cgood_mailbox mailbox_only_handlers mailbox_only_replicate good_handleHealth good_handleExists good_handleSend good_handleRead
      good_table_push good_handleReplicate good_handleRoutingTableServe good_handleAdminShardInfo
      good_handleAdminRegister good_replicateToSiblings)+

section \<open>The handlers of this worker\<close>

text \<open>The Router's half: the same code with other refusals.\<close>

lemma rgood_c_body [stable_intros]:
  "(\<And>b. rgood env (k b)) \<Longrightarrow> rgood env (c_body req k)"
  by (auto simp: c_body_def split: option.splits)

lemma rgood_c_register_store: "rgood env (c_register_store env q pk)"
  unfolding store_as_router as_combined_def by (intro stable_bind rgood_register_store) simp

lemma rgood_c_rotate_apply: "rgood env (c_rotate_apply cr env q)"
  unfolding c_rotate_apply_def Let_def combined_copies
  by (rule rgood_getRegisteredShards) (auto intro!: stable_intros rgood_rotation_commit split: option.splits)

lemma cgood_router_handlers:
  "cgood cr env (c_handlePowChallenge env req)"
  "cgood cr env (c_handleRegisterShard cr env req)"
  "cgood cr env (c_handleRotateShardKey cr env req)"
  "cgood cr env (handleStatus env cache urls)"
  "cgood cr env (c_handleAdminConfig env urls req)"
proof -
  have "rgood env (c_handlePowChallenge env req)"
    unfolding pow_as_router as_combined_def by (intro stable_bind rgood_handlePowChallenge) simp
  then show "cgood cr env (c_handlePowChallenge env req)" by (rule cgood_admin) (rule admin_only_handlers)
  have "rgood env (c_handleRegisterShard cr env req)"
    by (auto simp: c_handleRegisterShard_def c_register_redeem_def c_register_verify_def
        intro!: stable_intros rgood_c_register_store split: sum.splits option.splits)
  then show "cgood cr env (c_handleRegisterShard cr env req)" by (rule cgood_admin) (rule admin_only_handlers)
  have "rgood env (c_handleRotateShardKey cr env req)"
    by (auto simp: c_handleRotateShardKey_def intro!: stable_intros rgood_c_rotate_apply split: sum.splits)
  then show "cgood cr env (c_handleRotateShardKey cr env req)" by (rule cgood_admin) (rule admin_only_handlers)
  show "cgood cr env (handleStatus env cache urls)" by (rule cgood_admin) (rule rgood_routes admin_only_handlers)+
  have "rgood env (c_handleAdminConfig env urls req)"
    by (auto simp: c_handleAdminConfig_def intro!: stable_intros)
  then show "cgood cr env (c_handleAdminConfig env urls req)" by (rule cgood_admin) (rule admin_only_handlers)
qed

text \<open>The shard's half.\<close>

lemma good_local_store: "good T (local_store cfg c Return)"
proof -
  have "create_store cfg c = bind (local_store cfg c Return) (\<lambda>b. Return (create_response (cq_mailboxId c) cfg b))"
    unfolding create_store_local
    using local_store_bind [of cfg c Return "\<lambda>b. Return (create_response (cq_mailboxId c) cfg b)"] by simp
  then show ?thesis using good_create_store [of T cfg c] by (simp add: stable_bind_Return)
qed

lemma cgood_local_store [stable_intros]:
  assumes "\<And>b. cgood cr env (k b)"
  shows "cgood cr env (local_store cfg c k)"
proof -
  have "cgood cr env (local_store cfg c Return)"
    by (rule cgood_mailbox [OF good_local_store]) (rule mailbox_only_own, simp)
  then show ?thesis
    using local_store_bind [of cfg c Return k] assms by (simp add: stable_bind)
qed

lemma good_c_handleAdminRotateKey: "good T (c_handleAdminRotateKey cr env req)"
  by (auto simp: c_handleAdminRotateKey_def Let_def intro!: stable_intros split: fetch_result.splits)

lemma good_c_ensureSelfRegistered: "good T (c_ensureSelfRegistered cr env)"
  by (auto simp: c_ensureSelfRegistered_def c_attempt_registration_def Let_def
      intro!: stable_intros split: option.splits fetch_result.splits)

lemma good_c_handleCreate: "good T (c_handleCreate cr env cfg req)"
proof -
  have store: "good T (local_store cfg c k)" if "\<And>b. good T (k b)" for c k
    using good_local_store local_store_bind [of cfg c Return k] that by (simp add: stable_bind)
  show ?thesis
    by (auto simp: c_handleCreate_def localCreate_def Let_def intro!: stable_intros store split: sum.splits)
qed

lemma cgood_own:
  "cgood cr env (c_handleCreate cr env cfg req)"
  "cgood cr env (c_handleAdminRotateKey cr env req)"
  "cgood cr env (c_ensureSelfRegistered cr env)"
  by (intro cgood_mailbox mailbox_only_own good_c_handleCreate good_c_handleAdminRotateKey good_c_ensureSelfRegistered)+

section \<open>The steps that use both namespaces\<close>

lemma cgood_all_calls:
  assumes "\<And>u k. (\<And>r. cgood cr env (k r)) \<Longrightarrow> cgood cr env (call u k)" and "\<And>rs. cgood cr env (k rs)"
  shows "cgood cr env (all_calls call us k)"
proof -
  have settled: "cgood cr env (all_settled call us k')" if "\<And>rs. cgood cr env (k' rs)" for k'
    using that assms(1)
    by (induction us arbitrary: k') (auto simp: settled_def intro!: stable_bind stable_catch_with)
  show ?thesis unfolding all_calls_def by (rule settled) (auto intro!: stable_intros assms(2))
qed

lemma cgood_steps [stable_intros]:
  "(\<And>b. cgood cr env (k b)) \<Longrightarrow> cgood cr env (verifyCapability cr' m h e sig pub k)"
  "(\<And>b. cgood cr env (k b)) \<Longrightarrow> cgood cr env (verifyCapabilityV2 cr' m pk sc e n sig pub k)"
  "(\<And>j. cgood cr env (k1 j)) \<Longrightarrow> cgood cr env (c_body req k1)"
  "(\<And>v. cgood cr env (k2 v)) \<Longrightarrow> cgood cr env (getRoutingTableVersion env' k2)"
  "(\<And>y. cgood cr env (k3 y)) \<Longrightarrow> cgood cr env (signing_key cr' env' k3)"
  "(\<And>j. cgood cr env (k1 j)) \<Longrightarrow> cgood cr env (buildSignedResponse cr' env' rid st body k1)"
  "(\<And>b. cgood cr env (k b)) \<Longrightarrow> cgood cr env (existsOnReplica env' mid u k)"
  "(\<And>b. cgood cr env (k b)) \<Longrightarrow> cgood cr env (createOnReplica cr' env' cfg text u k)"
  "(\<And>v. cgood cr env (k4 v)) \<Longrightarrow> cgood cr env (identity_public identity k4)"
  "(\<And>y. cgood cr env (k3 y)) \<Longrightarrow> cgood cr env (identity_private cr' identity k3)"
  by (auto simp: verifyCapability_def verifyCapabilityV2_def c_body_def getRoutingTableVersion_def signing_key_def
      buildSignedResponse_def existsOnReplica_def createOnReplica_def localCreate_def identity_public_def
      identity_private_def Let_def intro!: stable_intros split: option.splits)

lemma cgood_ensureShardIdentity [stable_intros]:
  "(\<And>pub priv. cgood cr env (k (identity_json pub priv))) \<Longrightarrow> cgood cr env (ensureShardIdentity k)"
  by (rule stable_ensureShardIdentity) simp_all

lemma cgood_getRegisteredShards:
  "(\<And>xs. registry_ok xs \<Longrightarrow> cgood cr env (k xs)) \<Longrightarrow> cgood cr env (getRegisteredShards env' k)"
  by (rule stable_getRegisteredShards [where env = env]) simp_all

lemma wf_js_spread: "wf_json v \<Longrightarrow> js_spread v = Inr us \<Longrightarrow> wf_urls us"
  by (cases v rule: js_spread.cases) (auto simp: list_all_iff)

lemma wf_merge: "wf_urls us \<Longrightarrow> wf_urls vs \<Longrightarrow> wf_urls (merge_urls us vs)"
proof (induction vs rule: rev_induct)
  case (snoc v vs)
  then show ?case by (auto simp: merge_urls_def)
qed (simp add: merge_urls_def)

lemma wf_env_shard_urls: "wf_json (env_shard_urls env)"
  by (auto simp: env_shard_urls_def dest: json_parse_wf split: option.splits)

lemma cgood_getShardUrls:
  assumes "\<And>us. wf_urls us \<Longrightarrow> cgood cr env (k us)"
  shows "cgood cr env (getShardUrls env' k)"
proof -
  have go: "cgood cr env (getRegisteredShards env' (\<lambda>shards.
           attempt (map_prop ''url'' shards) (\<lambda>registered.
           attempt (js_spread base) (\<lambda>merged. k (merge_urls merged registered)))))" if "wf_json base" for base
  proof (rule cgood_getRegisteredShards)
    fix xs assume "registry_ok xs"
    then have all: "list_all record_ok xs" by (simp add: registry_ok_def)
    have "wf_urls (map (\<lambda>r. Some (JStr (record_url r))) xs)" by (simp add: list_all_iff)
    then show "cgood cr env (attempt (map_prop ''url'' xs) (\<lambda>registered.
           attempt (js_spread base) (\<lambda>merged. k (merge_urls merged registered))))"
      by (simp add: map_prop_url [OF all])
        (auto intro!: stable_intros assms wf_merge dest: wf_js_spread [OF that])
  qed
  have arr: "cgood cr env (getRegisteredShards env' (\<lambda>shards.
           attempt (map_prop ''url'' shards) (\<lambda>registered. k (merge_urls (Some x # map Some xs) registered))))"
    if "json_parse raw = Some (JArr (x # xs))" for raw x xs
    using go [of "JArr (x # xs)"] json_parse_wf [OF that] by simp
  show ?thesis
    using go [OF wf_env_shard_urls, of env']
    by (auto simp: getShardUrls_def Let_def js_parse_def intro!: stable_intros arr split: option.splits json.splits list.splits)
qed

lemma cgood_c_getShardUrls:
  assumes "\<And>us. wf_urls us \<Longrightarrow> cgood cr env (k us)"
  shows "cgood cr env (c_getShardUrls env' k)"
  unfolding c_getShardUrls_add_self
  by (rule cgood_getShardUrls, rule assms) (auto simp: add_self_def is_set_def str_val_def)

lemma wf_json_array:
  assumes "json_array_of t = Some xs"
  shows "list_all wf_json xs"
proof -
  have "json_parse t = Some (JArr xs)"
    using assms by (auto simp: json_array_of_def split: option.splits json.splits)
  then have "wf_json (JArr xs)" by (rule json_parse_wf)
  then show ?thesis by (simp add: list_all_iff)
qed

lemma wf_var_prior: "list_all wf_json (var_prior_counts env)"
  by (auto simp: var_prior_counts_def split: option.splits dest: wf_json_array)

lemma cgood_getPriorShardCounts:
  assumes "\<And>xs. list_all wf_json xs \<Longrightarrow> cgood cr env (k xs)"
  shows "cgood cr env (getPriorShardCounts env' k)"
  using wf_var_prior [of env']
  by (auto simp: getPriorShardCounts_def intro!: stable_intros assms split: option.splits dest: wf_json_array)

lemma cgood_getShardPubkeys:
  assumes "\<And>m. \<forall>u. m u = None \<or> (\<exists>p. m u = Some (JStr p)) \<Longrightarrow> cgood cr env (k m)"
  shows "cgood cr env (getShardPubkeys env' k)"
  unfolding getShardPubkeys_def
proof (rule cgood_getRegisteredShards)
  fix xs assume "registry_ok xs"
  then have "list_all record_ok xs" by (simp add: registry_ok_def)
  from pubkey_map_registry [OF this, of "\<lambda>_. None"]
  obtain m where "pubkey_map xs (\<lambda>_. None) = Inr m" "\<forall>u. m u = None \<or> (\<exists>p. m u = Some (JStr p))" by auto
  then show "cgood cr env (attempt (pubkey_map xs (\<lambda>_. None)) k)" using assms by simp
qed

section \<open>The routing table the node signs\<close>

lemma wf_c_table:
  assumes "wf_urls urls" and "list_all wf_json prior" and m: "\<And>u. m u = None \<or> (\<exists>p. m u = Some (JStr p))"
    and "self = None \<or> (\<exists>p. self = Some (JStr p))"
  shows "wf_json (signed_table cr key (c_table_fields env urls prior v m self now))"
proof -
  have entry: "wf_json (mk_obj [(''url'', url), (''pubkey'', listed_key env m self url)])"
    if "url = None \<or> (\<exists>j. url = Some j \<and> wf_json j)" for url
  proof -
    have "wf_json (or_val (m (js_string url)) JNull)"
      using m [of "js_string url"] by (auto simp: or_val_def)
    then show ?thesis
      using that assms(4) by (auto simp: listed_key_def mk_obj_def obj_canonical_def key_precedes_def is_digit_def)
  qed
  have "wf_json (c_table_shards env urls m self)"
    using assms(1) entry by (auto simp: c_table_shards_def list_all_iff)
  then show ?thesis
    using assms(2) wf_arr_json [OF assms(1)]
    by (auto simp: signed_table_def c_table_fields_def mk_obj_def str_val_def obj_canonical_def key_precedes_def
        is_digit_def list_all_iff split: option.splits)
qed

lemma c_table_own_signed:
  assumes "is_set (ROUTER_SIGNING_KEY env)"
    and "importShardPrivateKey cr (js_string (str_val (ROUTER_SIGNING_KEY env))) = Inr priv"
  shows "own_signed cr env (signed_table cr priv (c_table_fields env urls prior v m self now))"
proof -
  let ?un = "mk_obj (c_table_fields env urls prior v m self now)"
  have "js_prop (signed_table cr priv (c_table_fields env urls prior v m self now)) ''signature'' =
      Some (JStr (signWithShardKey cr priv (json_stringify ?un)))"
    by (auto simp: signed_table_def c_table_fields_def mk_obj_def str_val_def split: option.splits)
  then show ?thesis using assms by (simp add: own_signed_def c_unsigned_table)
qed

lemma cgood_buildSignedRoutingTable:
  assumes key: "is_set (ROUTER_SIGNING_KEY env)"
    and k: "\<And>t. combined_table cr env (json_stringify t) \<Longrightarrow> cgood cr env (k t)"
  shows "cgood cr env (c_buildSignedRoutingTable cr env k)"
proof -
  have table: "combined_table cr env (json_stringify (signed_table cr priv (c_table_fields env urls prior v m self now)))"
    if "importShardPrivateKey cr (js_string (str_val (ROUTER_SIGNING_KEY env))) = Inr priv"
      and w: "wf_urls urls" "list_all wf_json prior" "\<forall>u. m u = None \<or> (\<exists>p. m u = Some (JStr p))"
      "self = None \<or> (\<exists>p. self = Some (JStr p))" for priv urls prior v m self now
    using wf_c_table [OF w(1,2) _ w(4)] w(3) c_table_own_signed [OF key that(1)] by (auto simp: combined_table_def)
  show ?thesis
    unfolding c_buildSignedRoutingTable_def combined_copies signing_key_def
    by (rule cgood_c_getShardUrls, rule cgood_getPriorShardCounts, rule cgood_steps(4), rule cgood_getShardPubkeys)
      (auto intro!: stable_intros k table)
qed

lemma cgood_tables:
  assumes "is_set (ROUTER_SIGNING_KEY env)"
  shows "cgood cr env (c_handleRoutingTable cr env)"
    and "(\<And>v rs. cgood cr env (k v rs)) \<Longrightarrow> cgood cr env (c_pushRoutingTableToShards cr env urls k)"
  unfolding c_handleRoutingTable_def c_pushRoutingTableToShards_def
  by (auto simp: push_to_def intro!: cgood_buildSignedRoutingTable [OF assms] cgood_all_calls stable_intros)

section \<open>Every route and task\<close>

lemma cgood_handleRegister: "cgood cr env (c_handleRegister cr env cfg urls req)"
  by (auto simp: c_handleRegister_def c_register_mint_def c_register_finish_def randomHex_def Let_def
      intro!: stable_intros cgood_all_calls split: sum.splits list.splits option.splits)

lemma cgood_handleResolve: "cgood cr env (c_handleResolve cr env urls req)"
proof -
  have "cgood cr env (c_resolve_eras cr env pk m urls ns)" for pk m ns
    by (induction ns) (auto simp: Let_def intro!: stable_intros)
  then show ?thesis
    by (auto simp: c_handleResolve_def Let_def intro!: cgood_getPriorShardCounts split: option.splits)
qed

lemma cgood_server_hello: "cgood cr env (c_handleServerHello cr env req)"
  by (auto simp: c_handleServerHello_def request_json_def Let_def intro!: stable_intros split: sum.splits option.splits)

lemma cgood_try_urls: "cgood cr env (c_try_shard_urls env)"
  by (auto simp: c_try_shard_urls_def intro!: stable_intros cgood_c_getShardUrls)

lemma cgood_push: "is_set (ROUTER_SIGNING_KEY env) \<Longrightarrow> cgood cr env (c_handlePushRoutingTable cr env urls req)"
  by (auto simp: c_handlePushRoutingTable_def intro!: cgood_tables)

lemma cgood_serve: "cgood cr env (c_handleRoutingTableServe cr env)"
proof (cases "is_set (ROUTER_SIGNING_KEY env)")
  case True
  then show ?thesis using cgood_tables(1) by (auto simp: c_handleRoutingTableServe_def)
next
  case False
  then show ?thesis by (simp add: c_handleRoutingTableServe_unsigned cgood_shard_handlers(7))
qed

lemma cgood_router_route:
  "is_set (ROUTER_SIGNING_KEY env) \<Longrightarrow> cgood cr env (c_router_route cr env cfg cache urls req)"
  unfolding c_router_route_def Let_def
  by (simp add: stable_bind cgood_router_handlers cgood_handleRegister cgood_handleResolve cgood_push)

lemma cgood_route: "cgood cr env (c_route cr env cfg cache req)"
proof -
  have router: "cgood cr env (c_router_route cr env cfg cache urls req)" if "router_secrets_set env" for urls
    using that cgood_router_route by (auto simp: router_secrets_set_def)
  have rest: "cgood cr env (bind (c_try_shard_urls env) (\<lambda>found. case found of
          None \<Rightarrow> Log ''SHARD_URLS is missing or invalid (checked ROUTER_ADMIN_KV then env var)''
                    (Return (c_err R_Misconfigured 500, cache))
        | Some shardUrls \<Rightarrow> c_router_route cr env cfg cache shardUrls req))" if "router_secrets_set env"
    by (rule stable_bind [OF cgood_try_urls]) (simp add: router [OF that] split: option.split)
  show ?thesis
    unfolding c_route_def Let_def
    by (simp add: stable_bind_Return cgood_shard_handlers cgood_server_hello cgood_own cgood_serve rest)
qed

lemma cgood_fetch: "cgood cr env (c_fetch cr env cache req)"
  by (auto simp: c_fetch_def intro!: stable_intros cgood_route)

lemma cgood_scheduled: "cgood cr env (c_scheduled cr env)"
proof -
  have "cgood cr env (c_pushRoutingTableToShards cr env urls k)"
    if "router_secrets_set env" "\<And>v rs. cgood cr env (k v rs)" for urls and k :: "jsval \<Rightarrow> json list \<Rightarrow> unit prog"
    using that by (auto simp: router_secrets_set_def intro: cgood_tables(2))
  then show ?thesis
    by (auto simp: c_scheduled_def Let_def intro!: stable_bind cgood_try_urls split: option.splits)
qed

lemma cgood_task: "cgood cr env (c_task cr env t)"
  by (cases t) (simp_all add: c_task_def cgood_own cgood_shard_handlers)

section \<open>Every interleaving\<close>

text \<open>A request whose response is dropped, a background task, the scheduled run; whatever the node's settings are.\<close>

definition combined_programs :: "crypto \<Rightarrow> env \<Rightarrow> unit prog set" where
  "combined_programs cr env =
     {bind (c_fetch cr env cache req) (\<lambda>_. Return ()) | cache req. True} \<union> range (c_task cr env) \<union> {c_scheduled cr env}"

interpretation combined_kv: kv_worker "combined_programs cr env" "combined_value cr env" for cr env
proof
  fix p assume "p \<in> combined_programs cr env"
  then show "cgood cr env p"
    by (auto simp: combined_programs_def cgood_task cgood_scheduled intro!: stable_bind cgood_fetch)
qed

end
