(* ===== verification/CombinedProperties.thy ===== *)
theory CombinedProperties
  imports CombinedInvariant ShardProperties RouterProperties
begin

text \<open>
  The claims about the combined worker: its Router half is the Router, its shard half is the shard,
  and what follows from the node being one of the shards it routes to.
\<close>

section \<open>The same code, with other refusals\<close>

text \<open>C30 On a platform that verifies no empty signature, \<open>/pow_challenge\<close>, \<open>/register_shard\<close> and
  \<open>/rotate_shard_key\<close> of the combined worker are the Router's programs, effect for effect, with every
  answer that is not a success marked uncacheable; so what is proved of the Router's registry holds of
  this worker's.\<close>

theorem mesh_as_router:
  assumes "strict_verify cr"
  shows "c_handlePowChallenge env req = bind (handlePowChallenge env req) (\<lambda>r. Return (uncached r)) \<and>
    c_handleRegisterShard cr env req = bind (handleRegisterShard cr env req) (\<lambda>r. Return (uncached r)) \<and>
    c_handleRotateShardKey cr env req = bind (handleRotateShardKey cr env req) (\<lambda>r. Return (uncached r))"
  using pow_as_router register_as_router [OF assms] rotate_as_router [OF assms] by (simp add: as_combined_def)

lemma demo_strict: "strict_verify demo"
  by (simp add: strict_verify_def demo_def)

theorem mesh_as_router_witness:
  "c_handleRegisterShard demo demo_env (post ''/register_shard'' demo_join) =
     bind (handleRegisterShard demo demo_env (post ''/register_shard'' demo_join)) (\<lambda>r. Return (uncached r))"
  using mesh_as_router [OF demo_strict] by blast

section \<open>The shard half\<close>

text \<open>The routes on which the node does what a shard does; it serves a table of its own when it signs.\<close>

definition shared_routes :: "(string \<times> string) list" where
  "shared_routes =
     [(''/health'', ''GET''), (''/exists'', ''GET''), (''/send'', ''POST''), (''/read'', ''GET''),
      (''/internal/routing_table'', ''POST''), (''/internal/replicate'', ''POST''),
      (''/admin/shard_info'', ''GET''), (''/admin/register'', ''POST'')]"

definition shared_route :: "env \<Rightarrow> request \<Rightarrow> bool" where
  "shared_route env req \<longleftrightarrow>
     (req_path req, req_method req) \<in> set shared_routes \<or>
     req_path req = ''/routing_table.json'' \<and> req_method req = ''GET'' \<and> \<not> is_set (ROUTER_SIGNING_KEY env)"

lemma route_shared:
  "shared_route env req \<Longrightarrow> c_route cr env cfg cache req = bind (shard_route cr env cfg req) (\<lambda>r. Return (r, cache))"
  by (auto simp: shared_route_def shared_routes_def c_route_def shard_route_def c_handleRoutingTableServe_unsigned)

text \<open>C29 On the routes of the shard half every request to the combined worker makes the calls of the
  shard's worker in the same order with the same effect, on any platform and from any state, and gets
  the same answer, except that an error nothing handles is answered without its message.\<close>

theorem combined_serves_as_shard:
  assumes "shared_route env req" and "has_MAILBOX_KV env \<or> is_set (ROUTER_SIGNING_PUBLIC env)"
  shows "\<exists>r r' s'. run sv (shard_fetch cr env req) s = (Done r, s') \<and>
    run sv (c_fetch cr env cache req) s = (Done (r', cache), s') \<and>
    trace sv (c_fetch cr env cache req) s = trace sv (shard_fetch cr env req) s \<and>
    (r' = r \<or> (\<exists>m. r = err (InternalError m) 500 []) \<and>
      r' = json (JObj [(''error'', JStr ''Internal server error'')]) 500 [])"
proof (cases "req_method req = ''OPTIONS'' \<or> \<not> has_MAILBOX_KV env \<or> \<not> is_set (ROUTER_SIGNING_PUBLIC env)")
  case True
  then show ?thesis using assms(2) by (auto simp: shard_fetch_def c_fetch_def)
next
  case False
  let ?p = "shard_route cr env (shard_cfg env) req"
  obtain out s' where p: "run sv ?p s = (out, s')" by fastforce
  show ?thesis
    using False p by (cases out) (auto simp: shard_fetch_def c_fetch_def route_shared [OF assms(1)] run_catch_with
        run_bind trace_try trace_then trace.simps run.simps)
qed

theorem combined_serves_as_shard_witness:
  "let req = get ''/read'' [(''mailbox_id'', mbox), (''read_secret'', ''s'')]; w = world_at (holding mbox ''h'' [JStr ''m''] (Some 2)) Map.empty 5 in
   \<exists>r r' s'. run silent (shard_fetch demo demo_env req) w = (Done r, s') \<and>
     run silent (c_fetch demo demo_env initial_health req) w = (Done (r', initial_health), s') \<and>
     trace silent (c_fetch demo demo_env initial_health req) w = trace silent (shard_fetch demo demo_env req) w"
proof -
  let ?req = "get ''/read'' [(''mailbox_id'', mbox), (''read_secret'', ''s'')]"
  have "shared_route demo_env ?req" by (simp add: shared_route_def shared_routes_def get_def)
  moreover have "has_MAILBOX_KV demo_env \<or> is_set (ROUTER_SIGNING_PUBLIC demo_env)" by (simp add: demo_env_def)
  ultimately have "\<exists>r r' s'. run silent (shard_fetch demo demo_env ?req) w = (Done r, s') \<and>
      run silent (c_fetch demo demo_env initial_health ?req) w = (Done (r', initial_health), s') \<and>
      trace silent (c_fetch demo demo_env initial_health ?req) w = trace silent (shard_fetch demo demo_env ?req) w" for w
    using combined_serves_as_shard [where sv = silent and cr = demo and cache = initial_health and s = w] by fastforce
  then show ?thesis by (simp only: Let_def)
qed

section \<open>Creating a mailbox\<close>

lemma local_refresh_normalised:
  "cq_v2 c \<Longrightarrow> cq_clientPubkey c = Some (JStr pk) \<Longrightarrow> pk \<noteq> [] \<Longrightarrow>
     local_refresh cfg (c\<lparr>cq_clientPubkey := Some (JStr (lower pk))\<rparr>) stored k = local_refresh cfg c stored k"
  by (simp add: local_refresh_def js_lower_def cong: if_cong)

lemma local_store_normalised:
  assumes "cq_v2 c" and "cq_clientPubkey c = Some (JStr pk)" and "pk \<noteq> []"
  shows "local_store cfg (c\<lparr>cq_clientPubkey := Some (JStr (lower pk))\<rparr>) k = local_store cfg c k"
    and "cap_accepted cr env now (c\<lparr>cq_clientPubkey := Some (JStr (lower pk))\<rparr>) = cap_accepted cr env now c"
  using assms
  by (simp_all add: local_store_def local_refresh_normalised js_lower_def cap_accepted_def cong: option.case_cong)

lemma run_c_handleCreate:
  assumes iso: "isolated sv" and body: "body_of req = Some body" and c: "create_request body = Inr c"
    and pk: "cq_v2 c \<longrightarrow> cq_clientPubkey c = Some (JStr pk)"
    and adm: "\<not> create_limited (sv_view sv s MAILBOX_KV) (sv_clock sv s) cfg req"
  defines "s1 \<equiv> rl_next sv s MAILBOX_KV (''create-ip:'' @ clientIp req) (MAX_CREATES_PER_IP cfg) 60"
  shows "run sv (c_handleCreate cr env cfg req) s =
    (if cap_accepted cr env (sv_clock sv s) c
     then run sv (local_store cfg c (\<lambda>b. Return (create_response (cq_mailboxId c) cfg b))) (snd (sv_now sv s1))
     else (Done (err InvalidCapability 401 []), snd (sv_now sv s1)))"
proof -
  have clock: "sv_clock sv s1 = sv_clock sv s" using iso by (simp add: s1_def view_simps)
  show ?thesis
  proof (cases "cq_v2 c")
    case True
    then have p: "cq_clientPubkey c = Some (JStr pk)" "pk \<noteq> []"
      using pk create_request_v2 [OF c True] by auto
    let ?c' = "c\<lparr>cq_clientPubkey := Some (JStr (lower pk))\<rparr>"
    have c': "cq_v2 ?c' \<longrightarrow> cq_clientPubkey ?c' = Some (JStr (lower pk))" by simp
    note norm = local_store_normalised [OF True p]
    show ?thesis
      using iso adm True p(1)
      by (simp add: c_handleCreate_def body c run_simps view_simps create_limited_def s1_def js_lower_def Let_def
          run_localCreate [OF iso c'] norm clock [unfolded s1_def] c_create_answer_def)
  next
    case False
    then have c': "cq_v2 c \<longrightarrow> cq_clientPubkey c = Some (JStr [])" by simp
    show ?thesis
      using iso adm False
      by (simp add: c_handleCreate_def body c run_simps view_simps create_limited_def s1_def Let_def
          run_localCreate [OF iso c'] clock [unfolded s1_def] c_create_answer_def)
  qed
qed

text \<open>C31 The two workers agree on a create request whose capability is valid and whose address is within its
  limit: same answer, same stored state.  They differ when the capability is not valid: both answer 401, but
  the shard writes nothing, and the combined worker has counted the request against the address.\<close>

theorem combined_create_agrees:
  assumes iso: "isolated sv" and body: "body_of req = Some body" and c: "create_request body = Inr c"
    and pk: "cq_v2 c \<longrightarrow> cq_clientPubkey c = Some (JStr pk)"
    and adm: "\<not> create_limited (sv_view sv s MAILBOX_KV) (sv_clock sv s) cfg req"
    and ttl: "ttl_ok (Some (MAILBOX_TTL_SECONDS cfg))"
  shows "fst (run sv (c_handleCreate cr env cfg req) s) = fst (run sv (handleCreate cr env cfg req) s) \<and>
    (if cap_accepted cr env (sv_clock sv s) c
     then sv_view sv (snd (run sv (c_handleCreate cr env cfg req) s)) = sv_view sv (snd (run sv (handleCreate cr env cfg req) s))
     else sv_view sv (snd (run sv (handleCreate cr env cfg req) s)) = sv_view sv s \<and>
       sv_view sv (snd (run sv (c_handleCreate cr env cfg req) s)) MAILBOX_KV =
         (let b = ''create-ip:'' @ clientIp req; w = window_key b 60 (sv_clock sv s); kv = sv_view sv s MAILBOX_KV
          in kv(w \<mapsto> str_of_number (map_option (\<lambda>i. i + 1) (counter_value (kv w))))))"
proof (cases "cap_accepted cr env (sv_clock sv s) c")
  case True
  let ?s1 = "rl_next sv s MAILBOX_KV (''create-ip:'' @ clientIp req) (MAX_CREATES_PER_IP cfg) 60"
  let ?s2 = "rl_next sv (snd (sv_now sv s)) MAILBOX_KV (''create-ip:'' @ clientIp req) (MAX_CREATES_PER_IP cfg) 60"
  have "run sv (handleCreate cr env cfg req) s = run sv (create_store cfg c) ?s2"
    using True adm iso
    by (simp add: run_handleCreate [OF iso body c pk] create_authorized_def run_simps view_simps create_limited_def)
  moreover have "run sv (c_handleCreate cr env cfg req) s = run sv (create_store cfg c) (snd (sv_now sv ?s1))"
    using True by (simp add: run_c_handleCreate [OF iso body c pk adm] create_store_local)
  moreover have "sv_view sv (snd (sv_now sv ?s1)) = sv_view sv ?s2" "sv_clock sv (snd (sv_now sv ?s1)) = sv_clock sv ?s2"
    using iso by (simp_all add: view_simps rl_key_def rl_count_def)
  moreover have "plain (create_store cfg c)"
    unfolding create_store_local by (rule plain_local_store [OF ttl]) simp
  ultimately show ?thesis
    using plain_run [OF iso, of "create_store cfg c" "snd (sv_now sv ?s1)" ?s2] True by simp
next
  case False
  then show ?thesis
    using iso adm handleCreate_refused [OF iso body c pk False]
    by (simp add: run_c_handleCreate [OF iso body c pk adm] view_simps create_limited_def rl_key_def rl_count_def Let_def)
qed

theorem combined_create_agrees_witness:
  "let p = c_handleCreate demo demo_env DEFAULTS (post ''/create'' (demo_create (bytesToHex key_b) 100));
       q = handleCreate demo demo_env DEFAULTS (post ''/create'' (demo_create (bytesToHex key_b) 100)) in
   fst (run silent p (world_at Map.empty Map.empty 5)) = fst (run silent q (world_at Map.empty Map.empty 5)) \<and>
   sv_view silent (snd (run silent p (world_at Map.empty Map.empty 5))) = sv_view silent (snd (run silent q (world_at Map.empty Map.empty 5)))"
  using combined_create_agrees [where sv = silent and cr = demo and env = demo_env and cfg = DEFAULTS
      and req = "post ''/create'' (demo_create (bytesToHex key_b) 100)" and c = "demo_create_req (bytesToHex key_b) 100"
      and s = "world_at Map.empty Map.empty 5" and pk = "bytesToHex key_b", OF silent_isolated demo_create_body]
  by (simp add: create_limited_def Let_def)

section \<open>A node that routes to itself\<close>

text \<open>C25 Registration and lookup meet in the node's own store: when the node is the primary of a new
  identity, \<open>/register\<close> stores an empty mailbox that exactly the returned read secret opens, in the node's own
  namespace, and \<open>/resolve\<close> right after it answers with the node, in the current era.\<close>

theorem combined_registration_resolves:
  assumes iso: "isolated sv" and kv: "has_ROUTER_ADMIN_KV env" and sz: "standard_sizes cr"
    and key: "router_key cr env pub priv" and body: "body_of req = Some body" and q: "register_request body = Inr q"
    and own: "c_registers_owner cr (sv_clock sv s) q pk" and once: "rq_requestId q = None"
    and wf: "list_all (\<lambda>u. u = None \<or> (\<exists>j. u = Some j \<and> wf_json j)) urls" and some: "urls \<noteq> []"
    and ttl: "ttl_ok (Some (MAILBOX_TTL_SECONDS cfg))" and self: "SELF_URL env = Some u"
    and reps: "minted_replicas cr env urls pk = Some (JStr u) # others" and remote: "Some (JStr u) \<notin> set others"
    and none: "present (sv_view sv s MAILBOX_KV (mailbox_key (minted_id cr env pk))) = None"
    and look: "map_of (req_query req') ''pubkey'' = Some pk" "hex_re 64 64 pk"
  shows "let s' = snd (run sv (c_handleRegister cr env cfg urls req) s);
      version = version_of env (sv_view sv s ROUTER_ADMIN_KV) in
    \<exists>secret mb. fst (run sv (c_handleRegister cr env cfg urls req) s) =
        Done (json (register_response (minted_id cr env pk) secret (Some (JStr u) # others)
          (sv_clock sv s + CAPABILITY_TTL_SECONDS * 1000) version) 200 []) \<and>
      mailbox_at (sv_view sv s' MAILBOX_KV) (minted_id cr env pk) mb \<and> queue_of mb = [] \<and>
      (\<forall>other. read_secret_ok cr other (Some (JStr (mb_hash mb))) \<longleftrightarrow> sha256Hex cr other = sha256Hex cr secret) \<and>
      fst (run sv (c_handleResolve cr env urls req') s') =
        Done (jsonOk (resolve_response (minted_id cr env pk) (Some (JStr u) # others) (int (length urls)) version None) [])"
proof -
  let ?mid = "minted_id cr env pk"
  have rem: "list_all (\<lambda>v. \<not> is_self env v) others" using remote self by (auto simp: list_all_iff)
  have is_self: "is_self env (Some (JStr u))" using self by simp
  obtain secret s' where r: "run sv (c_handleRegister cr env cfg urls req) s =
      (Done (json (register_response ?mid secret (Some (JStr u) # others)
         (sv_clock sv s + CAPABILITY_TTL_SECONDS * 1000) (version_of env (sv_view sv s ROUTER_ADMIN_KV))) 200 []), s')"
      "mailbox_at (sv_view sv s' MAILBOX_KV) ?mid (minted_mailbox cr (Some (JStr u) # others) secret (sv_clock sv s))"
      "sv_view sv s' ROUTER_ADMIN_KV = sv_view sv s ROUTER_ADMIN_KV"
    using run_c_handleRegister_self [OF iso kv sz key body q own once wf ttl reps is_self rem none] by blast
  let ?mb = "minted_mailbox cr (Some (JStr u) # others) secret (sv_clock sv s)"
  have open_: "read_secret_ok cr other (Some (JStr (mb_hash ?mb))) \<longleftrightarrow> sha256Hex cr other = sha256Hex cr secret" for other
    by (simp add: minted_mailbox_def secret_opens [OF sz])
  obtain ns where eras: "eraCountsDescending urls (prior_of env (sv_view sv s' ROUTER_ADMIN_KV)) = int (length urls) # ns"
    using eras_current_first [OF some] by blast
  have era: "era_replicas cr env pk urls (int (length urls)) = Some (JStr u) # others"
    using reps by (simp add: minted_replicas_def)
  have there: "present (sv_view sv s' MAILBOX_KV (mailbox_key ?mid)) \<noteq> None"
    using r(2) by (auto simp: mailbox_at_def)
  have "pk \<noteq> []" using look(2) by (auto simp: hex_re_def)
  then have "fst (run sv (c_handleResolve cr env urls req') s') =
      Done (jsonOk (resolve_response ?mid (Some (JStr u) # others) (int (length urls)) (version_of env (sv_view sv s' ROUTER_ADMIN_KV)) None) [])"
    using iso kv look there is_self
    by (simp add: c_handleResolve_def run_simps view_simps str_val_def Let_def eras era minted_id_def [symmetric]
        existsOnReplica_def elem_at_def)
  then show ?thesis
    using r open_ unfolding Let_def
    by (intro exI [of _ secret] exI [of _ ?mb]) (simp add: queue_of_def minted_mailbox_def)
qed

definition just_node :: "jsval list" where
  "just_node = [Some (JStr ''https://shard'')]"

lemma demo_point:
  "hashPoint demo (bytesToHex key_b) = Some (int (be_value (take 4 (sha256 demo (utf8 (bytesToHex key_b))))))"
  using demo_sizes by (intro hashPoint_bytes) (simp add: standard_sizes_def)

lemma demo_single: "minted_replicas demo demo_env just_node (bytesToHex key_b) = [Some (JStr ''https://shard'')]"
  by (simp add: minted_replicas_def era_replicas_def replicasForEra_def demo_point just_node_def replicaSet_ring
      replicationFactor_def)

lemma demo_node_owner: "c_registers_owner demo 5 demo_owner_req (bytesToHex key_b)"
proof -
  have "number_of_string ''5'' = Some 5" by code_simp
  then show ?thesis
    using verify_own_signature [OF demo_pair, of key_b]
    by (simp add: c_registers_owner_def demo_owner_req_def outside_skew_iff js_string_def c_verifyEd25519_is verify_jsval_def)
qed

theorem combined_registration_resolves_witness:
  "let req = post ''/register'' demo_owner; w = world_at Map.empty Map.empty 5;
       s' = snd (run silent (c_handleRegister demo demo_env DEFAULTS just_node req) w); mid = minted_id demo demo_env (bytesToHex key_b) in
   \<exists>mb. mailbox_at (sv_view silent s' MAILBOX_KV) mid mb \<and> queue_of mb = [] \<and>
     fst (run silent (c_handleResolve demo demo_env just_node (get ''/resolve'' [(''pubkey'', bytesToHex key_b)])) s') =
       Done (jsonOk (resolve_response mid [Some (JStr ''https://shard'')] 1 (Some 1) None) [])"
proof -
  have v: "version_of demo_env Map.empty = Some 1" by (simp add: version_of_def var_version_def)
  show ?thesis
    using combined_registration_resolves [OF silent_isolated _ demo_sizes demo_router_key _ demo_owner_request,
        where req = "post ''/register'' demo_owner" and s = "world_at Map.empty Map.empty 5" and pk = "bytesToHex key_b"
        and urls = just_node and cfg = DEFAULTS and u = "''https://shard''" and others = "[]"
        and req' = "get ''/resolve'' [(''pubkey'', bytesToHex key_b)]"] demo_node_owner demo_single
    by (auto simp: demo_owner_def v Let_def just_node_def demo_owner_req_def)
qed

text \<open>C32 The node's URL is appended last on every read of the list, so a shard that joins takes its index: with
  \<open>n\<close> shards before, the node included, a mailbox the node holds as its primary in era \<open>n\<close> has the new shard as
  its primary in that era afterwards.  Unless the new count happens to place it on the node again, \<open>/resolve\<close> no
  longer finds it, although it is still in the store and the operator recorded the former count.\<close>

theorem combined_growth_moves_self:
  assumes iso: "isolated sv" and kv: "has_ROUTER_ADMIN_KV env" and self: "SELF_URL env = Some u" "u \<noteq> []"
    and ms: "Some (JStr u) \<notin> set ms" and x: "x \<noteq> u" and n: "n = int (length ms) + 1"
    and q: "map_of (req_query req) ''pubkey'' = Some pubkey" "hex_re 64 64 pubkey"
    and point: "hashPoint cr (lower pubkey) = Some (int p)" and rf: "\<And>k. replicationFactor env k \<noteq> None"
    and mine: "int p mod n = n - 1" and moved: "int p mod (n + 1) \<noteq> n"
    and prior: "prior_of env (sv_view sv s ROUTER_ADMIN_KV) = [JNum n]"
    and held: "mailbox_at (sv_view sv s MAILBOX_KV) (minted_id cr env pubkey) mb"
    and others: "probes sv (minted_id cr env pubkey) (\<lambda>_. False)"
  shows "hd (era_replicas cr env pubkey (add_self env ms) n) = Some (JStr u) \<and>
    hd (era_replicas cr env pubkey (add_self env (ms @ [Some (JStr x)])) n) = Some (JStr x) \<and>
    fst (run sv (c_handleResolve cr env (add_self env (ms @ [Some (JStr x)])) req) s) =
      Done (jsonOk (resolve_response (minted_id cr env pubkey)
        (era_replicas cr env pubkey (add_self env (ms @ [Some (JStr x)])) (n + 1)) (n + 1)
        (version_of env (sv_view sv s ROUTER_ADMIN_KV)) (Some ''mailbox not confirmed to exist yet on any known era'')) [])"
proof -
  let ?self = "Some (JStr u)" and ?x = "Some (JStr x)"
  let ?old = "ms @ [?self]" and ?new = "ms @ [?x, ?self]" and ?mid = "minted_id cr env pubkey"
  have old: "add_self env ms = ?old" by (rule add_self_last [OF self ms])
  have new: "add_self env (ms @ [?x]) = ?new"
    using add_self_last [OF self, of "ms @ [?x]"] ms x by simp
  have hd_era: "hd (era_replicas cr env pubkey urls k) = urls ! nat (int p mod k)" if "0 < k" "k \<le> int (length urls)" for urls k
  proof -
    obtain r where r: "replicationFactor env k = Some r" using rf [of k] by auto
    have "1 \<le> r" using replicationFactor_bounds [of k env r] r that(1) by linarith
    then have "[0..<nat r] = 0 # [1..<nat r]" by (simp add: upt_rec)
    then show ?thesis
      using replicaSet_ring [OF that, of p r] by (simp add: era_replicas_def replicasForEra_def point r)
  qed
  have len: "length ?old = nat n" "length ?new = nat (n + 1)" "0 < n" using n by auto
  have a: "hd (era_replicas cr env pubkey ?old n) = ?self"
    using hd_era [of n ?old] mine n by (simp add: nth_append)
  have b: "hd (era_replicas cr env pubkey ?new n) = ?x"
    using hd_era [of n ?new] mine n by (simp add: nth_append)
  have c: "hd (era_replicas cr env pubkey ?new (n + 1)) \<noteq> ?self"
  proof -
    let ?i = "int p mod (n + 1)"
    have i: "0 \<le> ?i" "?i < n + 1" using len(3) pos_mod_bound [of "n + 1" "int p"] by simp_all
    then have "?i < n" using moved by linarith
    then have lt: "nat ?i < length (ms @ [?x])" using n i(1) by simp
    have "hd (era_replicas cr env pubkey ?new (n + 1)) = ?new ! nat ?i"
      using hd_era [of "n + 1" ?new] len(3) n by simp
    also have "\<dots> = (ms @ [?x]) ! nat ?i" using lt by (simp add: nth_append)
    also have "\<dots> \<in> set (ms @ [?x])" using lt by (rule nth_mem)
    finally show ?thesis using ms x by auto
  qed
  have eras: "set (eraCountsDescending ?new [JNum n]) = {n + 1, n}"
    using n by (auto simp: eras_set)
  have place: "replicaSetForEra (Some (int p)) k ?new (replicationFactor env k) = era_replicas cr env pubkey ?new k" for k
    by (simp add: era_replicas_def replicasForEra_def point)
  have "ring.walk env (here_or env (sv_view sv s MAILBOX_KV) ?mid (\<lambda>_. False)) p (eraCountsDescending ?new [JNum n]) ?new = None"
    unfolding ring.walk_None eras place using b c self(1) x by (auto simp: here_or_def)
  then have "fst (run sv (c_handleResolve cr env ?new req) s) =
      Done (jsonOk (resolve_response ?mid (era_replicas cr env pubkey ?new (n + 1)) (n + 1)
        (version_of env (sv_view sv s ROUTER_ADMIN_KV)) (Some ''mailbox not confirmed to exist yet on any known era'')) [])"
    using run_c_handleResolve [OF iso kv q others point rf, of ?new s] n by (simp add: prior Let_def)
  then show ?thesis using a b by (simp add: old new)
qed

lemma demo_even: "int (be_value (take 4 (sha256 demo (utf8 (bytesToHex key_b))))) mod 2 = 0"
proof -
  have b: "key_b = 2 # 2 # replicate 30 2" by (simp add: key_b_def eval_nat_numeral)
  have c: "hex_pair 2 = ''02''" "utf8_char (CHR ''0'') = [48]" "utf8_char (CHR ''2'') = [50]" by code_simp+
  have "utf8 (bytesToHex key_b) = [48, 50, 48, 50] @ utf8 (bytesToHex (replicate 30 2))"
    unfolding b by (simp add: c)
  then have "take 4 (sha256 demo (utf8 (bytesToHex key_b))) = [48, 50, 48, 50]" by (simp add: demo_def)
  then show ?thesis by simp
qed

theorem combined_growth_moves_self_witness:
  "let kv = [''prior_shard_counts'' \<mapsto> ''[1]'']; mid = minted_id demo demo_env (bytesToHex key_b);
       urls = add_self demo_env [Some (JStr ''https://b'')] in
   hd (era_replicas demo demo_env (bytesToHex key_b) (add_self demo_env []) 1) = Some (JStr ''https://shard'') \<and>
   fst (run (ideal (map (\<lambda>_. Fetched 404 []))) (c_handleResolve demo demo_env urls (get ''/resolve'' [(''pubkey'', bytesToHex key_b)]))
      (world_at (holding mid ''h'' [JStr ''m''] (Some 2)) kv 5)) =
     Done (jsonOk (resolve_response mid (era_replicas demo demo_env (bytesToHex key_b) urls 2) 2 (Some 1)
       (Some ''mailbox not confirmed to exist yet on any known era'')) [])"
proof -
  let ?sv = "ideal (map (\<lambda>_. Fetched 404 []))" and ?kv = "[''prior_shard_counts'' \<mapsto> ''[1]'']"
  let ?mid = "minted_id demo demo_env (bytesToHex key_b)"
  let ?w = "world_at (holding ?mid ''h'' [JStr ''m''] (Some 2)) ?kv 5"
  have view: "sv_view ?sv ?w ROUTER_ADMIN_KV = ?kv" "sv_view ?sv ?w MAILBOX_KV = holding ?mid ''h'' [JStr ''m''] (Some 2)"
    by (simp_all add: ideal_def world_at_def)
  have "json_array_of ''[1]'' = Some [JNum 1]" by code_simp
  then have state: "prior_of demo_env ?kv = [JNum 1]" "version_of demo_env ?kv = Some 1"
    by (simp_all add: prior_of_def version_of_def var_version_def)
  have none: "probes ?sv ?mid (\<lambda>_. False)" by (simp add: probes_def ideal_def probe_ok_def resp_ok_def)
  have rf: "replicationFactor demo_env k \<noteq> None" for k by (simp add: replicationFactor_def)
  show ?thesis
    using combined_growth_moves_self [where sv = ?sv and env = demo_env and u = "''https://shard''" and ms = "[]" and x = "''https://b''"
        and n = 1 and req = "get ''/resolve'' [(''pubkey'', bytesToHex key_b)]" and pubkey = "bytesToHex key_b" and cr = demo and s = ?w
        and mb = "mailbox_rec ''h'' [JStr ''m''] (Some 2)" and p = "be_value (take 4 (sha256 demo (utf8 (bytesToHex key_b))))",
        OF ideal_isolated _ _ _ _ _ _ _ _ _ rf _ _ _ _ none] demo_point demo_even
    by (simp add: view state Let_def)
qed

section \<open>The table the node serves, pushes to itself and is recognised by\<close>

lemma wf_base_urls: "base_urls env kv base \<Longrightarrow> list_all wf_json base"
  using wf_env_shard_urls [of env]
  by (auto simp: base_urls_def list_all_iff dest: json_parse_wf split: option.splits)

lemma wf_prior_of: "list_all wf_json (prior_of env kv)"
  using wf_var_prior [of env]
  by (auto simp: prior_of_def split: option.splits dest: wf_json_array)

lemma c_table_served:
  assumes iso: "isolated sv" and kv: "has_ROUTER_ADMIN_KV env" and key: "router_key cr env pub priv"
    and ok: "registry_ok (registered_of (sv_view sv s ROUTER_ADMIN_KV))"
    and base: "base_urls env (sv_view sv s ROUTER_ADMIN_KV) base"
    and self: "SELF_URL env = Some u" "u \<noteq> []"
    and st: "identity_stored (sv_view sv s MAILBOX_KV) spub spriv" and ne: "spub \<noteq> []"
  obtains urls prior v m s' where "wf_urls urls" "list_all wf_json prior" "\<And>x. m x = None \<or> (\<exists>p. m x = Some (JStr p))"
    and "Some (JStr u) \<in> set urls"
    and "run sv (c_handleRoutingTable cr env) s =
      (Done (jsonOk (signed_table cr priv (c_table_fields env urls prior v m (Some (JStr (bytesToHex spub))) (sv_clock sv s)))
         table_cache_headers), s')"
    and "sv_view sv s' = (sv_view sv s)(MAILBOX_KV := (sv_view sv s MAILBOX_KV)(ROUTING_TABLE_KV_KEY \<mapsto> json_stringify
      (signed_table cr priv (c_table_fields env urls prior v m (Some (JStr (bytesToHex spub))) (sv_clock sv s)))))"
proof -
  let ?kv = "sv_view sv s ROUTER_ADMIN_KV"
  have all: "list_all record_ok (registered_of ?kv)" using ok by (simp add: registry_ok_def)
  obtain m where m: "pubkey_map (registered_of ?kv) (\<lambda>_. None) = Inr m" "\<And>x. m x = None \<or> (\<exists>p. m x = Some (JStr p))"
    using pubkey_map_registry [OF all, of "\<lambda>_. None"] by blast
  let ?urls = "add_self env (mesh_urls base (registered_of ?kv))"
  let ?t = "signed_table cr priv (c_table_fields env ?urls (prior_of env ?kv) (version_of env ?kv) m
    (Some (JStr (bytesToHex spub))) (sv_clock sv s))"
  let ?k = "\<lambda>table. kvPut MAILBOX_KV ROUTING_TABLE_KV_KEY (json_stringify table) None (Return (jsonOk table table_cache_headers))"
  obtain s1 where s1: "run sv (c_handleRoutingTable cr env) s = run sv (?k ?t) s1" "sv_view sv s1 = sv_view sv s"
    using run_c_buildSignedRoutingTable [OF iso kv key ok base m(1) self st, of ?k]
    unfolding c_handleRoutingTable_def combined_copies node_table_def by blast
  have wf: "wf_urls ?urls"
    using wf_mesh_urls [OF wf_base_urls [OF base] all] by (auto simp: add_self_def is_set_def str_val_def)
  show thesis
  proof (rule that [OF wf wf_prior_of m(2) add_self_contains [OF self]])
    show "run sv (c_handleRoutingTable cr env) s = (Done (jsonOk ?t table_cache_headers),
        snd (sv_put sv s1 MAILBOX_KV ROUTING_TABLE_KV_KEY (json_stringify ?t) None))"
      using iso by (simp add: s1(1) run_simps)
    show "sv_view sv (snd (sv_put sv s1 MAILBOX_KV ROUTING_TABLE_KV_KEY (json_stringify ?t) None)) = (sv_view sv s)
        (MAILBOX_KV := (sv_view sv s MAILBOX_KV)(ROUTING_TABLE_KV_KEY \<mapsto> json_stringify ?t))"
      by (simp add: view_put [OF iso] s1(2))
  qed
qed

text \<open>C27 \<open>GET /routing_table.json\<close> on a node that can sign answers with a table signed by the node's Router
  key that lists the node under its own shard key, and stores the text of that table, and nothing else, where
  the node's shard half looks for it; a sibling that trusts the Router key caches the same text when it is
  pushed, and recognises the node as the origin of a replica.\<close>

theorem combined_table_lists_itself:
  assumes iso: "isolated sv" and kv: "has_ROUTER_ADMIN_KV env" and key: "router_key cr env pub priv"
    and ok: "registry_ok (registered_of (sv_view sv s ROUTER_ADMIN_KV))"
    and base: "base_urls env (sv_view sv s ROUTER_ADMIN_KV) base"
    and self: "SELF_URL env = Some u" "u \<noteq> []"
    and st: "identity_stored (sv_view sv s MAILBOX_KV) spub spriv" and ne: "spub \<noteq> []" and sz: "standard_sizes cr"
    and sib: "isolated sb" "ROUTER_SIGNING_PUBLIC env' = Some (bytesToHex pub)"
      "sv_clock sb t \<le> sv_clock sv s + ROUTING_TABLE_TTL_SECONDS * 1000"
  shows "\<exists>table. fst (run sv (c_handleRoutingTable cr env) s) = Done (jsonOk table table_cache_headers) \<and>
    sv_view sv (snd (run sv (c_handleRoutingTable cr env) s)) = (sv_view sv s)
      (MAILBOX_KV := (sv_view sv s MAILBOX_KV)(ROUTING_TABLE_KV_KEY \<mapsto> json_stringify table)) \<and>
    table_signed cr env table \<and> known_shard table (bytesToHex spub) = Inr True \<and>
    (\<forall>req. req_body req = json_stringify table \<longrightarrow>
       cached_table (sv_view sb (snd (run sb (handleRoutingTablePush cr env' req) t)) MAILBOX_KV) = table)"
proof -
  obtain urls prior v m s' where t: "wf_urls urls" "list_all wf_json prior" "\<And>x. m x = None \<or> (\<exists>p. m x = Some (JStr p))"
      "Some (JStr u) \<in> set urls"
      "run sv (c_handleRoutingTable cr env) s =
        (Done (jsonOk (signed_table cr priv (c_table_fields env urls prior v m (Some (JStr (bytesToHex spub))) (sv_clock sv s)))
           table_cache_headers), s')"
      "sv_view sv s' = (sv_view sv s)(MAILBOX_KV := (sv_view sv s MAILBOX_KV)(ROUTING_TABLE_KV_KEY \<mapsto> json_stringify
        (signed_table cr priv (c_table_fields env urls prior v m (Some (JStr (bytesToHex spub))) (sv_clock sv s)))))"
    by (rule c_table_served [OF iso kv key ok base self st ne]) (rule that)
  let ?t = "signed_table cr priv (c_table_fields env urls prior v m (Some (JStr (bytesToHex spub))) (sv_clock sv s))"
  have trust: "ROUTER_SIGNING_PUBLIC env = Some (bytesToHex pub)" using key by (simp add: router_key_def)
  have "bytesToHex spub \<noteq> []" using ne by simp
  from node_recognised [OF t(3) self(1) t(4) this]
  have known: "known_shard ?t (bytesToHex spub) = Inr True" by simp
  have signed: "table_signed cr env ?t"
    using c_table_signature [OF key, of urls prior v m] by (auto simp: table_signed_def verify_with_def trust c_unsigned_table)
  have wf: "wf_json ?t" by (rule wf_c_table [OF t(1,2,3)]) (simp_all add: trust)
  have "cached_table (sv_view sb (snd (run sb (handleRoutingTablePush cr env' req) t)) MAILBOX_KV) = ?t"
    if "req_body req = json_stringify ?t" for req
  proof -
    obtain kvs where "?t = JObj kvs" by (simp add: signed_table_def mk_obj_def)
    with that wf have body: "body_of req = Some ?t" by (metis body_of_text)
    have "urls \<noteq> []" using t(4) by auto
    from node_table_cached [OF sib(1) key sz sib(2) body this sib(3)] show ?thesis using wf by simp
  qed
  with t(5,6) signed known show ?thesis by auto
qed

lemma demo_node:
  "registry_ok (registered_of (mesh_kv [old_shard] (Some 0)))"
  "SHARD_URLS env = None \<Longrightarrow> base_urls env (mesh_kv [old_shard] (Some 0)) []"
proof -
  have none: "json_parse ''[]'' = Some (JArr [])" by code_simp
  show "registry_ok (registered_of (mesh_kv [old_shard] (Some 0)))" by simp
  show "SHARD_URLS env = None \<Longrightarrow> base_urls env (mesh_kv [old_shard] (Some 0)) []"
    by (simp add: base_urls_def mesh_kv_def nonce_key_def env_shard_urls_def none)
qed

theorem combined_table_lists_itself_witness:
  "\<exists>table. fst (run silent (c_handleRoutingTable demo demo_env) (world_at (with_identity key_b) (mesh_kv [old_shard] (Some 0)) 5)) =
       Done (jsonOk table table_cache_headers) \<and> known_shard table (bytesToHex key_b) = Inr True"
  using combined_table_lists_itself [where sv = silent and env = demo_env and cr = demo and s = "world_at (with_identity key_b) (mesh_kv [old_shard] (Some 0)) 5"
      and base = "[]" and u = "''https://shard''" and spub = key_b and spriv = key_b and sb = silent and t = "world_at Map.empty Map.empty 5"
      and env' = demo_env, OF silent_isolated _ demo_router_key _ _ _ _ _ _ demo_sizes silent_isolated] demo_node
  by (auto simp: ROUTING_TABLE_TTL_SECONDS_def)

text \<open>C28 A node that is its own Router changes its key without a round trip: \<open>/admin/rotate_key\<close> stores a new
  identity, notifies nobody, and the next table the node signs recognises the new key.\<close>

theorem combined_rotation_relists:
  assumes iso: "isolated sv" and kv: "has_ROUTER_ADMIN_KV env" and key: "router_key cr env pub priv"
    and ok: "registry_ok (registered_of (sv_view sv s ROUTER_ADMIN_KV))"
    and base: "base_urls env (sv_view sv s ROUTER_ADMIN_KV) base"
    and self: "SELF_URL env = Some u" "u \<noteq> []" and own: "strip_slash (var_text (ROUTER_URL env)) \<in> {[], u}"
    and st: "identity_stored (sv_view sv s MAILBOX_KV) spub spriv" and imp: "ed_import cr spriv"
    and auth: "bearer_ok constantTimeEqual env req"
    and gen: "\<And>t. fst (sv_generate_key sv t) = (npub, npriv)" "npub \<noteq> []"
  defines "p \<equiv> c_handleAdminRotateKey cr env req"
  shows "fst (run sv p s) = Done (rotation_result (Some (JStr (bytesToHex spub))) (bytesToHex npub) False JNull None) \<and>
    identity_stored (sv_view sv (snd (run sv p s)) MAILBOX_KV) npub npriv \<and>
    EvFetch rs \<notin> set (trace sv p s) \<and>
    (\<exists>table. fst (run sv (c_handleRoutingTable cr env) (snd (run sv p s))) = Done (jsonOk table table_cache_headers) \<and>
       known_shard table (bytesToHex npub) = Inr True)"
proof -
  have own': "strip_slash (var_text (ROUTER_URL env)) = [] \<or> strip_slash (var_text (ROUTER_URL env)) = u"
    using own by simp
  note h = iso st imp auth self own' gen(1)
  have answer: "fst (run sv p s) = Done (rotation_result (Some (JStr (bytesToHex spub))) (bytesToHex npub) False JNull None)"
    using h by (simp add: p_def c_handleAdminRotateKey_def run_simps view_simps Let_def importable split_beta var_text_def)
  have state: "sv_view sv (snd (run sv p s)) = (sv_view sv s)(MAILBOX_KV := (sv_view sv s MAILBOX_KV)
        (SHARD_IDENTITY_KV_KEY \<mapsto> json_stringify (identity_json npub npriv), SELF_REGISTER_KV_KEY := None))"
    using h by (simp add: p_def c_handleAdminRotateKey_def run_simps view_simps Let_def importable split_beta var_text_def)
  have quiet: "EvFetch rs \<notin> set (trace sv p s)"
    using h by (simp add: p_def c_handleAdminRotateKey_def trace_simps view_simps Let_def importable split_beta var_text_def)
  have st': "identity_stored (sv_view sv (snd (run sv p s)) MAILBOX_KV) npub npriv"
    by (simp add: state identity_stored_def SHARD_IDENTITY_KV_KEY_def SELF_REGISTER_KV_KEY_def)
  have ok': "registry_ok (registered_of (sv_view sv (snd (run sv p s)) ROUTER_ADMIN_KV))"
      "base_urls env (sv_view sv (snd (run sv p s)) ROUTER_ADMIN_KV) base"
    using ok base by (simp_all add: state)
  obtain urls prior v m s' where t: "wf_urls urls" "list_all wf_json prior" "\<And>x. m x = None \<or> (\<exists>p. m x = Some (JStr p))"
      "Some (JStr u) \<in> set urls"
      "run sv (c_handleRoutingTable cr env) (snd (run sv p s)) =
        (Done (jsonOk (signed_table cr priv (c_table_fields env urls prior v m (Some (JStr (bytesToHex npub)))
           (sv_clock sv (snd (run sv p s))))) table_cache_headers), s')"
    by (rule c_table_served [OF iso kv key ok' self st' gen(2)]) (rule that)
  have "bytesToHex npub \<noteq> []" using gen(2) by simp
  from node_recognised [OF t(3) self(1) t(4) this] t(5) answer st' quiet show ?thesis by auto
qed

theorem combined_rotation_relists_witness:
  "let env = demo_env\<lparr>ROUTER_URL := None\<rparr>; p = c_handleAdminRotateKey demo env (get ''/admin/rotate_key'' []);
       w = world_at (with_identity key_b) (mesh_kv [old_shard] (Some 0)) 5 in
   \<exists>table. fst (run (minting key_a) (c_handleRoutingTable demo env) (snd (run (minting key_a) p w))) =
       Done (jsonOk table table_cache_headers) \<and> known_shard table (bytesToHex key_a) = Inr True"
proof -
  let ?env = "demo_env\<lparr>ROUTER_URL := None\<rparr>" and ?w = "world_at (with_identity key_b) (mesh_kv [old_shard] (Some 0)) 5"
  have key: "router_key demo ?env key_a key_a" by (simp add: router_key_def)
  have base: "base_urls ?env (mesh_kv [old_shard] (Some 0)) []" by (simp add: demo_node(2))
  have view: "sv_view (minting key_a) ?w ROUTER_ADMIN_KV = mesh_kv [old_shard] (Some 0)"
    by (simp add: minting_def)
  show ?thesis
    using combined_rotation_relists [where sv = "minting key_a" and env = ?env and cr = demo and s = ?w and base = "[]"
        and u = "''https://shard''" and spub = key_b and spriv = key_b and npub = key_a and npriv = key_a
        and req = "get ''/admin/rotate_key'' []", OF minting_isolated _ key] demo_node(1) base
    by (simp add: view bearer_ok_def var_text_def strip_slash_def Let_def)
qed

section \<open>Every request, every interleaving\<close>

text \<open>C26 However the requests and the background tasks of the combined worker interleave at their KV operations,
  with reads that may return any value written before and operations that may fail, and whatever the node's
  settings are: each namespace holds only what its half of the worker may hold.  The Router's holds the registry,
  the challenges and the counters; the shard's holds the mailboxes, the identity, the counters, and a routing table
  that verifies under the published Router key or that the node signed with the key it holds itself.  Where that key
  is the private key of the published one, every table verifies under the published key.\<close>

theorem combined_store_well_formed:
  assumes "reachable (combined_programs cr env) H ps" and "(n, k, v) \<in> H"
  shows "combined_value cr env n k v \<and>
    (router_key cr env pub priv \<longrightarrow> n = MAILBOX_KV \<longrightarrow> shard_value cr env n k v)"
proof -
  have v: "combined_value cr env n k v" using assms by (rule combined_kv.reachable_value)
  then have "shard_value cr env n k v" if "router_key cr env pub priv" "n = MAILBOX_KV"
    using combined_table_configured [OF that(1), of v] by (simp add: that(2) shard_value_parts shard_value_with_def)
  then show ?thesis using v by blast
qed

theorem combined_store_well_formed_witness:
  "(let env = demo_env\<lparr>SHARD_URLS := Some (json_stringify (JArr [JStr ''https://a''])), ROUTER_SIGNING_PUBLIC := Some ''00''\<rparr>;
        nonce = bytesToHex (replicate 16 7) in
    \<exists>H ps. reachable (combined_programs demo env) H ps \<and>
      (ROUTER_ADMIN_KV, nonce_key nonce, json_stringify (challenge_json (Some 20) 120000)) \<in> H \<and>
      combined_value demo env ROUTER_ADMIN_KV (nonce_key nonce) (json_stringify (challenge_json (Some 20) 120000))) \<and>
   (\<exists>H ps. reachable (combined_programs demo demo_env) H ps \<and>
      (MAILBOX_KV, SHARD_IDENTITY_KV_KEY, json_stringify (identity_json key_a key_a)) \<in> H \<and>
      shard_value demo demo_env MAILBOX_KV SHARD_IDENTITY_KV_KEY (json_stringify (identity_json key_a key_a)))"
proof
  let ?env = "demo_env\<lparr>SHARD_URLS := Some (json_stringify (JArr [JStr ''https://a''])), ROUTER_SIGNING_PUBLIC := Some ''00''\<rparr>"
  let ?w = "world_at Map.empty Map.empty 0" and ?p = "bind (c_fetch demo ?env initial_health (get ''/pow_challenge'' [])) (\<lambda>_. Return ())"
  let ?n = "bytesToHex (replicate 16 7)" and ?v = "json_stringify (challenge_json (Some 20) 120000)"
  have p: "?p \<in> combined_programs demo ?env" by (auto simp: combined_programs_def)
  have "serves (combined_programs demo ?env) (world_at Map.empty Map.empty 0)"
    by (rule serves.starts_empty) (simp add: world_at_def fun_eq_iff split: ns.split)
  from serves.serves_one [OF this p, of "\<lambda>_. []" 0]
  have served: "serves (combined_programs demo ?env) (snd (run silent ?p ?w))"
    by (simp only: silent_def world_at_def world.simps)
  have secret: "btoa key_a \<noteq> []" by (simp add: btoa_Nil)
  have "w_store (snd (run silent ?p ?w)) ROUTER_ADMIN_KV (nonce_key ?n) = Some ?v"
    using secret by (simp add: c_fetch_def c_route_def c_router_route_def run_bind run_catch_with c_try_shard_urls_def
        c_getShardUrls_add_self add_self_def router_secrets_set_def get_def demo_env_def
        getShardUrls_def kvGet_def kvPut_def run.simps silent_steps env_shard_urls_def getRegisteredShards_def merge_urls_def
        c_handlePowChallenge_def adminRateLimit_def randomHex_def var_number_def POW_CHALLENGE_TTL_SECONDS_def
        world_at_def Let_def del: catch_with_smart)
  then show "let env = ?env; nonce = ?n in
    \<exists>H ps. reachable (combined_programs demo env) H ps \<and> (ROUTER_ADMIN_KV, nonce_key nonce, ?v) \<in> H \<and>
      combined_value demo env ROUTER_ADMIN_KV (nonce_key nonce) ?v"
    using serves_reachable [OF served] combined_store_well_formed unfolding Let_def stored_in_def by blast
next
  let ?P = "combined_programs demo demo_env" and ?v = "json_stringify (identity_json key_a key_a)"
  let ?t = "ReplicateToSiblings mbox (JStr ''e'') [JStr ''https://other'']"
  have task: "c_task demo demo_env ?t \<in> ?P" by (auto simp: combined_programs_def)
  have sib: "siblings demo_env [JStr ''https://other''] \<noteq> []" by (simp add: siblings_def str_val_def)
  obtain f g h where p: "c_task demo demo_env ?t = KvGet MAILBOX_KV SHARD_IDENTITY_KV_KEY f"
      and f: "f (Inr None) = GenerateKey g" and g: "g (key_a, key_a) = KvPut MAILBOX_KV SHARD_IDENTITY_KV_KEY ?v None h"
    using sib by (simp add: c_task_def replicateToSiblings_def ensureShardIdentity_def kvPut_def Let_def)
  have r0: "reachable ?P {} [KvGet MAILBOX_KV SHARD_IDENTITY_KV_KEY f]"
    using reachable.starts [OF reachable.initially task] by (simp add: p)
  have r1: "reachable ?P {} ([KvGet MAILBOX_KV SHARD_IDENTITY_KV_KEY f][0 := f (Inr None)])"
    by (rule reachable.steps [OF r0]) (auto intro: effect_step.get_nothing)
  have "reachable ?P {} ([GenerateKey g][0 := g (key_a, key_a)])"
    by (rule reachable.steps) (use r1 f in \<open>auto intro: effect_step.generate_key\<close>)
  then have r2: "reachable ?P {} [KvPut MAILBOX_KV SHARD_IDENTITY_KV_KEY ?v None h]" by (simp add: g)
  have r3: "reachable ?P (insert (MAILBOX_KV, SHARD_IDENTITY_KV_KEY, ?v) {}) ([KvPut MAILBOX_KV SHARD_IDENTITY_KV_KEY ?v None h][0 := h None])"
    by (rule reachable.steps [OF r2]) (auto intro: effect_step.put_done)
  have "router_key demo demo_env key_a key_a" by (simp add: router_key_def)
  then show "\<exists>H ps. reachable ?P H ps \<and> (MAILBOX_KV, SHARD_IDENTITY_KV_KEY, ?v) \<in> H \<and>
      shard_value demo demo_env MAILBOX_KV SHARD_IDENTITY_KV_KEY ?v"
    using combined_store_well_formed [OF r3, of MAILBOX_KV SHARD_IDENTITY_KV_KEY ?v] r3 by blast
qed

end
