(* ===== verification/Ntx.thy ===== *)
theory Ntx
  imports JsonText Codec "HOL-Library.Char_ord" "HOL-Library.List_Lexorder"
begin

text \<open>
  \<open>transports/tools/ntx.mjs\<close>: the manifest rules, the CRC, the reproducible zip and the writing of a
  package.  Node's \<open>deflateRawSync\<close> and SHA-256 are parameters.  A value out of range for
  \<open>writeUInt16LE\<close> or \<open>writeUInt32LE\<close> throws; \<open>None\<close> is that exception.
\<close>

section \<open>Manifests\<close>

definition KNOWN_CAPABILITIES :: "string list" where
  "KNOWN_CAPABILITIES = [''message'', ''binary-transfer'', ''presence'', ''local-network'', ''p2p'']"

definition KNOWN_PERMISSIONS :: "string list" where
  "KNOWN_PERMISSIONS = [''network'', ''storage'']"

definition is_lower_alnum :: "char \<Rightarrow> bool" where
  "is_lower_alnum c \<longleftrightarrow> (97 \<le> (of_char c :: nat) \<and> (of_char c :: nat) \<le> 122) \<or> is_digit c"

definition is_alnum :: "char \<Rightarrow> bool" where
  "is_alnum c \<longleftrightarrow> is_lower_alnum c \<or> (65 \<le> (of_char c :: nat) \<and> (of_char c :: nat) \<le> 90)"

definition ID_RE :: "string \<Rightarrow> bool" where
  "ID_RE s \<longleftrightarrow> s \<noteq> [] \<and> is_lower_alnum (hd s) \<and> length (tl s) \<le> 63 \<and>
     list_all (\<lambda>c. is_lower_alnum c \<or> c = CHR ''-'') (tl s)"

definition entry_re :: "string \<Rightarrow> bool" where
  "entry_re s \<longleftrightarrow> s \<noteq> [] \<and> list_all (\<lambda>c. is_alnum c \<or> c \<in> set ''._-'') s"

definition ends_with :: "string \<Rightarrow> string \<Rightarrow> bool" where
  "ends_with suffix s \<longleftrightarrow> length suffix \<le> length s \<and> drop (length s - length suffix) s = suffix"

text \<open>\<open>JSON.stringify\<close> of a value that may be \<open>undefined\<close>, inside a template literal.\<close>

definition json_text :: "jsval \<Rightarrow> string" where
  "json_text v = (case v of None \<Rightarrow> ''undefined'' | Some j \<Rightarrow> json_stringify j)"

definition bad :: "string \<Rightarrow> js_error + 'a" where
  "bad msg = Inl (UserError (''manifest: '' @ msg))"

text \<open>The first element that is not one of the known names; only a string can be one.\<close>

fun first_unknown :: "string list \<Rightarrow> json list \<Rightarrow> json option" where
  "first_unknown known [] = None"
| "first_unknown known (c # cs) =
     (if (case c of JStr s \<Rightarrow> s \<in> set known | _ \<Rightarrow> False) then first_unknown known cs else Some c)"

text \<open>\<open>for (const p of m.permissions || [])\<close>: the elements, or \<open>None\<close> for a value that is not iterable.\<close>

fun iterated :: "json \<Rightarrow> json list option" where
  "iterated (JArr xs) = Some xs"
| "iterated (JStr s) = Some (map (\<lambda>c. JStr [c]) s)"
| "iterated _ = None"

definition validateManifest :: "jsval \<Rightarrow> bool \<Rightarrow> js_error + json" where
  "validateManifest m wasm =
     (case m of
        None \<Rightarrow> bad ''not an object''
      | Some j \<Rightarrow>
          let prop = js_prop j in
          if \<not> typeof_object m \<or> j = JNull then bad ''not an object''
          else if \<not> coerce_test ID_RE (prop ''id'') then bad (''bad id '' @ json_text (prop ''id''))
          else if \<not> truthy (prop ''name'') then bad ''empty name''
          else if \<not> truthy (prop ''version'') then bad ''empty version''
          else if prop ''api_version'' \<noteq> Some (JStr ''1'') then
            bad (''unsupported api_version '' @ json_text (prop ''api_version''))
          else if \<not> coerce_test entry_re (prop ''entry'') \<or> prop ''entry'' = Some (JStr ''.'') \<or>
              prop ''entry'' = Some (JStr ''..'') then bad (''bad entry '' @ json_text (prop ''entry''))
          else (case prop ''capabilities'' of
                  Some (JArr cs) \<Rightarrow>
                    if cs = [] then bad ''no capabilities''
                    else (case first_unknown KNOWN_CAPABILITIES cs of
                            Some c \<Rightarrow> bad (''unknown capability '' @ json_stringify c)
                          | None \<Rightarrow>
                              (case iterated (or_val (prop ''permissions'') (JArr [])) of
                                 None \<Rightarrow> Inl TypeError
                               | Some ps \<Rightarrow>
                                   (case first_unknown KNOWN_PERMISSIONS ps of
                                      Some p \<Rightarrow> bad (''unknown permission '' @ json_stringify p)
                                    | None \<Rightarrow>
                                        if \<not> wasm then Inr j
                                        else (case prop ''entry'' of
                                                Some (JStr e) \<Rightarrow>
                                                  if ends_with ''.wasm'' (lower e) then Inr j
                                                  else bad (''browser packages need a .wasm entry, got '' @ json_text (Some (JStr e)))
                                              | _ \<Rightarrow> Inl TypeError))))
                | _ \<Rightarrow> bad ''no capabilities''))"

lemma first_unknown_None: "first_unknown known cs = None \<longleftrightarrow> (\<exists>ss. cs = map JStr ss \<and> set ss \<subseteq> set known)"
proof (induction cs)
  case (Cons c cs)
  have inj: "map JStr ss = map JStr ts \<longleftrightarrow> ss = ts" for ss ts by (auto simp: inj_map_eq_map inj_def)
  show ?case
    by (cases c) (auto simp: Cons.IH Cons_eq_map_conv inj)
qed simp

section \<open>CRC-32\<close>

definition crc_shift :: "32 word \<Rightarrow> 32 word" where
  "crc_shift c = (if bit c 0 then xor 0xedb88320 (drop_bit 1 c) else drop_bit 1 c)"

definition crcTable :: "32 word list" where
  "crcTable = map (\<lambda>n. (crc_shift ^^ 8) (of_nat n)) [0..<256]"

definition crc_byte :: "32 word \<Rightarrow> byte \<Rightarrow> 32 word" where
  "crc_byte c x = xor (crcTable ! unat (and (xor c (ucast x)) 255)) (drop_bit 8 c)"

definition crc32 :: "byte list \<Rightarrow> 32 word" where
  "crc32 b = xor (foldl crc_byte 0xffffffff b) 0xffffffff"

text \<open>The reference: the bits of the message, least significant bit of each byte first, one at a time.\<close>

definition bits_of :: "byte \<Rightarrow> bool list" where
  "bits_of x = map (bit x) [0..<8]"

definition crc_bit :: "32 word \<Rightarrow> bool \<Rightarrow> 32 word" where
  "crc_bit c b = (if bit c 0 \<noteq> b then xor 0xedb88320 (drop_bit 1 c) else drop_bit 1 c)"

definition crc32_bitwise :: "byte list \<Rightarrow> 32 word" where
  "crc32_bitwise b = xor (foldl crc_bit 0xffffffff (concat (map bits_of b))) 0xffffffff"

lemma crc_shift_xor: "crc_shift (xor a b) = xor (crc_shift a) (crc_shift b)"
  by (rule bit_word_eqI) (auto simp: crc_shift_def bit_simps)

lemma crc_shifts_xor: "(crc_shift ^^ n) (xor a b) = xor ((crc_shift ^^ n) a) ((crc_shift ^^ n) b)"
  by (induction n) (simp_all add: crc_shift_xor)

lemma crc_shifts_high:
  assumes "\<And>i. i < n \<Longrightarrow> \<not> bit c i"
  shows "(crc_shift ^^ n) c = drop_bit n c"
  using assms
proof (induction n)
  case (Suc n)
  have "\<not> bit c n" using Suc.prems by simp
  then have "\<not> bit (drop_bit n c) 0" by (simp add: bit_drop_bit_eq)
  then show ?case using Suc by (simp add: crc_shift_def)
qed simp

lemma crc_table_step:
  "crcTable ! unat (and c 255) = (crc_shift ^^ 8) (and c 255)"
proof -
  have "and c 255 \<le> (255 :: 32 word)" by (rule word_and_le1)
  then have "unat (and c 255) < 256" by (simp add: word_le_nat_alt)
  then show ?thesis by (simp add: crcTable_def)
qed

lemma crc_byte_eq: "crc_byte c x = (crc_shift ^^ 8) (xor c (ucast x))"
proof -
  let ?d = "xor c (ucast x)"
  have m: "bit (255 :: 32 word) i \<longleftrightarrow> i < 8" for i
  proof -
    have "(255 :: 32 word) = mask 8" by (simp add: mask_eq_exp_minus_1)
    then show ?thesis by (simp only: bit_mask_iff) auto
  qed
  have split: "?d = xor (and ?d 255) (and ?d (not 255))"
    by (rule bit_word_eqI) (auto simp: bit_simps)
  have "(crc_shift ^^ 8) (and ?d (not 255)) = drop_bit 8 (and ?d (not 255))"
    by (rule crc_shifts_high) (simp only: bit_and_iff bit_not_iff m, simp)
  also have "\<dots> = drop_bit 8 c"
    by (rule bit_word_eqI)
      (simp only: bit_drop_bit_eq o_def bit_and_iff bit_xor_iff bit_not_iff m bit_ucast_iff,
        auto dest: bit_imp_le_length)
  finally have "(crc_shift ^^ 8) ?d = xor ((crc_shift ^^ 8) (and ?d 255)) (drop_bit 8 c)"
    by (subst split) (simp only: crc_shifts_xor)
  then show ?thesis by (simp add: crc_byte_def crc_table_step)
qed

lemma crc_bit_shift: "bit y 0 = b \<Longrightarrow> xor (crc_bit c b) (drop_bit 1 y) = crc_shift (xor c y)"
  by (rule bit_word_eqI) (auto simp: crc_bit_def crc_shift_def bit_simps)

lemma crc_bits_prefix:
  "n \<le> 8 \<Longrightarrow> xor (foldl crc_bit c (map (bit x) [0..<n])) (drop_bit n (ucast x)) = (crc_shift ^^ n) (xor c (ucast x))"
proof (induction n)
  case (Suc n)
  let ?s = "foldl crc_bit c (map (bit x) [0..<n])"
  have "bit (drop_bit n (ucast x :: 32 word)) 0 = bit x n"
    using Suc.prems by (simp add: bit_drop_bit_eq bit_ucast_iff)
  from crc_bit_shift [OF this, of ?s]
  have "xor (crc_bit ?s (bit x n)) (drop_bit (Suc n) (ucast x)) = crc_shift (xor ?s (drop_bit n (ucast x)))"
    by (simp add: drop_bit_Suc [symmetric] ac_simps)
  then show ?case using Suc by simp
qed simp

lemma crc_bits_of: "foldl crc_bit c (bits_of x) = crc_byte c x"
proof -
  have "drop_bit 8 (ucast x :: 32 word) = 0"
    by (rule bit_word_eqI) (auto simp: bit_simps dest: bit_imp_le_length)
  with crc_bits_prefix [of 8 c x] show ?thesis by (simp add: bits_of_def crc_byte_eq)
qed

lemma crc_bits_fold: "foldl crc_bit c (concat (map bits_of b)) = foldl crc_byte c b"
  by (induction b arbitrary: c) (simp_all add: crc_bits_of)

section \<open>Text of bytes\<close>

text \<open>
  UTF-8 decoding for the characters of the model; a byte outside them, which JavaScript
  replaces by U+FFFD, becomes the control character 26.
\<close>

fun utf8_text :: "byte list \<Rightarrow> string" where
  "utf8_text [] = []"
| "utf8_text (b # bs) =
     (if unat b < 128 then char_of (unat b) # utf8_text bs
      else (case bs of
              c # cs \<Rightarrow>
                if unat b \<in> {194, 195} \<and> unat c div 64 = 2
                then char_of ((unat b - 192) * 64 + (unat c - 128)) # utf8_text cs
                else CHR 0x1A # utf8_text bs
            | [] \<Rightarrow> [CHR 0x1A]))"

lemma utf8_text_char: "utf8_text (utf8_char c @ bs) = c # utf8_text bs"
proof -
  obtain n where n: "n = (of_char c :: nat)" by simp
  have lt: "n < 256" unfolding n by (rule nat_of_char_less_256)
  have c: "c = char_of n" by (simp add: n)
  have d: "n div 64 < 4" using lt by simp
  have u: "unat (of_nat (192 + n div 64) :: byte) = 192 + n div 64" "unat (of_nat (128 + n mod 64) :: byte) = 128 + n mod 64"
    using d using lt by (simp_all only: unat_of_nat) simp_all
  show ?thesis
  proof (cases "n < 128")
    case True
    then have "unat (of_nat n :: byte) = n" using lt by (simp add: unat_of_nat)
    with True show ?thesis by (simp add: utf8_char_def n [symmetric] c [symmetric])
  next
    case False
    then have q: "n div 64 = 2 \<or> n div 64 = 3" using d by auto
    obtain a b where ab: "a = (of_nat (192 + n div 64) :: byte)" "b = (of_nat (128 + n mod 64) :: byte)" by simp
    have "utf8_char c = [a, b]" using False by (simp add: utf8_char_def Let_def n ab)
    moreover have "unat a \<in> {194, 195}" "\<not> unat a < 128" "unat b div 64 = 2" using q by (auto simp: ab u simp del: of_nat_add)
    moreover have "(unat a - 192) * 64 + (unat b - 128) = n" by (simp add: ab u del: of_nat_add)
    ultimately show ?thesis by (simp add: n)
  qed
qed

lemma utf8_text_utf8 [simp]: "utf8_text (utf8 s) = s"
  using utf8_text_char by (induction s) (simp_all add: utf8_def)

section \<open>Packages\<close>

definition le_bytes :: "nat \<Rightarrow> nat \<Rightarrow> byte list" where
  "le_bytes k v = map (\<lambda>i. of_nat (v div 256 ^ i)) [0..<k]"

definition w16 :: "nat \<Rightarrow> byte list option" where
  "w16 v = (if v < 2 ^ 16 then Some (le_bytes 2 v) else None)"

definition w32 :: "nat \<Rightarrow> byte list option" where
  "w32 v = (if v < 2 ^ 32 then Some (le_bytes 4 v) else None)"

definition le_fields :: "byte list option list \<Rightarrow> byte list option" where
  "le_fields fs = map_option concat (those fs)"

definition DOS_TIME :: nat where "DOS_TIME = 0"
definition DOS_DATE :: nat where "DOS_DATE = 33"

definition zip_body :: "(byte list \<Rightarrow> byte list) \<Rightarrow> byte list \<Rightarrow> nat \<times> byte list" where
  "zip_body deflate data = (let d = deflate data in if length d < length data then (8, d) else (0, data))"

text \<open>The bytes \<open>Buffer.alloc\<close> leaves zero are the trailing and embedded zero fields.\<close>

definition local_header :: "nat \<Rightarrow> 32 word \<Rightarrow> nat \<Rightarrow> nat \<Rightarrow> nat \<Rightarrow> byte list option" where
  "local_header meth crc bl dl nl =
     le_fields [w32 0x04034b50, w16 20, w16 0x0800, w16 meth, w16 DOS_TIME, w16 DOS_DATE, w32 (unat crc), w32 bl, w32 dl,
       w16 nl, Some [0, 0]]"

definition central_header :: "nat \<Rightarrow> 32 word \<Rightarrow> nat \<Rightarrow> nat \<Rightarrow> nat \<Rightarrow> nat \<Rightarrow> byte list option" where
  "central_header meth crc bl dl nl off =
     le_fields [w32 0x02014b50, w16 0x031e, w16 20, w16 0x0800, w16 meth, w16 DOS_TIME, w16 DOS_DATE, w32 (unat crc), w32 bl,
       w32 dl, w16 nl, Some [0, 0, 0, 0, 0, 0, 0, 0], w32 0x81a40000, w32 off]"

text \<open>The loop over the sorted files: the local parts, the central directory and the offset after them.\<close>

fun zip_members ::
  "(byte list \<Rightarrow> byte list) \<Rightarrow> nat \<Rightarrow> (string \<times> byte list) list \<Rightarrow> (byte list \<times> byte list \<times> nat) option" where
  "zip_members deflate off [] = Some ([], [], off)"
| "zip_members deflate off ((name, data) # files) =
     (let n = utf8 name; crc = crc32 data; (meth, content) = zip_body deflate data in
      case (local_header meth crc (length content) (length data) (length n),
            central_header meth crc (length content) (length data) (length n) off) of
        (Some lh, Some ch) \<Rightarrow>
          (case zip_members deflate (off + 30 + length n + length content) files of
             Some (ps, cs, e) \<Rightarrow> Some (lh @ n @ content @ ps, ch @ n @ cs, e)
           | None \<Rightarrow> None)
      | _ \<Rightarrow> None)"

definition end_record :: "nat \<Rightarrow> nat \<Rightarrow> nat \<Rightarrow> byte list option" where
  "end_record count cdl off =
     le_fields [w32 0x06054b50, Some [0, 0, 0, 0], w16 count, w16 count, w32 cdl, w32 off, Some [0, 0]]"

text \<open>
  \<open>sort\<close> with the comparator of the source orders files of different names by name; the order of two
  files of one name is left open by the language, and the statements about \<open>ntx_zip\<close> exclude them.
\<close>

definition ntx_zip :: "(byte list \<Rightarrow> byte list) \<Rightarrow> (string \<times> byte list) list \<Rightarrow> byte list option" where
  "ntx_zip deflate files =
     (case zip_members deflate 0 (sort_key fst files) of
        None \<Rightarrow> None
      | Some (parts, cd, off) \<Rightarrow>
          (case end_record (length files) (length cd) off of
             None \<Rightarrow> None
           | Some e \<Rightarrow> Some (parts @ cd @ e)))"

text \<open>\<open>JSON.stringify(v, null, 2)\<close>.\<close>

fun json_pretty :: "nat \<Rightarrow> json \<Rightarrow> string" where
  "json_pretty ind (JArr xs) =
     (if xs = [] then ''[]''
      else CHR ''['' # join '','' (map (\<lambda>x. CHR 0x0A # replicate (ind + 2) CHR '' '' @ json_pretty (ind + 2) x) xs) @
        CHR 0x0A # replicate ind CHR '' '' @ '']'')"
| "json_pretty ind (JObj kvs) =
     (if kvs = [] then ''{}''
      else CHR ''{'' # join '',''
          (map (\<lambda>(k, v). CHR 0x0A # replicate (ind + 2) CHR '' '' @ quote k @ '': '' @ json_pretty (ind + 2) v) kvs) @
        CHR 0x0A # replicate ind CHR '' '' @ ''}'')"
| "json_pretty ind v = json_stringify v"

text \<open>What the package tools use of Node: the deflate of \<open>zlib\<close> at level 9, and SHA-256.\<close>

record node_api =
  deflateRawSync :: "byte list \<Rightarrow> byte list"
  sha256_bytes :: "byte list \<Rightarrow> byte list"

text \<open>\<open>RangeError\<close> and the other errors of the engine are one class here.\<close>

definition is_wasm_magic :: "byte list \<Rightarrow> bool" where
  "is_wasm_magic bs \<longleftrightarrow> 8 \<le> length bs \<and> take 4 bs = [0x00, 0x61, 0x73, 0x6d]"

text \<open>The output directory maps file names to contents; the result names the file in it, its hash and the manifest.\<close>

definition writeNtx ::
  "node_api \<Rightarrow> (string \<rightharpoonup> byte list) \<Rightarrow> json \<Rightarrow> byte list \<Rightarrow> bool \<Rightarrow> string \<Rightarrow>
   js_error + ((string \<times> string \<times> json) \<times> (string \<rightharpoonup> byte list))" where
  "writeNtx node dist manifest entryBytes wasm suffix =
     (case validateManifest (Some manifest) wasm of
        Inl e \<Rightarrow> Inl e
      | Inr m \<Rightarrow>
          if wasm \<and> \<not> is_wasm_magic entryBytes then Inl (UserError ''entry is not a WebAssembly module'')
          else
            (let mf = utf8 (json_pretty 0 manifest @ [CHR 0x0A]) in
             case ntx_zip (deflateRawSync node)
                 [(''manifest.json'', mf), (js_string (js_prop manifest ''entry''), entryBytes)] of
               None \<Rightarrow> Inl (ServiceError ''RangeError'')
             | Some pkg \<Rightarrow>
                 (let file = js_string (js_prop manifest ''id'') @ suffix @ ''.ntx'' in
                  Inr ((file, bytesToHex (sha256_bytes node pkg), manifest), dist(file \<mapsto> pkg)))))"

end
