(* ===== verification/NtxProperties.thy ===== *)
theory NtxProperties
  imports Ntx "HOL-Library.Multiset"
begin

text \<open>
  What the package tools promise: the table-driven CRC is the bitwise one, and \<open>unzip\<close>, the reader of
  \<open>transports/test/wasm-package.test.mjs\<close>, reads back what \<open>ntx_zip\<close> wrote.
\<close>

section \<open>The reader of the tests\<close>

text \<open>\<open>readUInt16LE\<close> and \<open>readUInt32LE\<close> throw outside the buffer: \<open>None\<close>.\<close>

definition r16 :: "byte list \<Rightarrow> nat \<Rightarrow> nat option" where
  "r16 b i = (if i + 2 \<le> length b then Some (unat (b ! i) + 256 * unat (b ! (i + 1))) else None)"

definition r32 :: "byte list \<Rightarrow> nat \<Rightarrow> nat option" where
  "r32 b i =
     (if i + 4 \<le> length b
      then Some (unat (b ! i) + 256 * unat (b ! (i + 1)) + 65536 * unat (b ! (i + 2)) + 16777216 * unat (b ! (i + 3)))
      else None)"

fun find_end :: "byte list \<Rightarrow> nat \<Rightarrow> nat option" where
  "find_end b e =
     (case r32 b e of
        None \<Rightarrow> None
      | Some v \<Rightarrow> if v = 0x06054b50 then Some e else if e = 0 then None else find_end b (e - 1))"

declare find_end.simps [simp del]

definition slice :: "nat \<Rightarrow> nat \<Rightarrow> byte list \<Rightarrow> byte list" where
  "slice i n b = take n (drop i b)"

fun unzip_entries ::
  "(byte list \<Rightarrow> byte list option) \<Rightarrow> byte list \<Rightarrow> nat \<Rightarrow> nat \<Rightarrow> (string \<rightharpoonup> byte list) \<Rightarrow> (string \<rightharpoonup> byte list) option" where
  "unzip_entries inflate b 0 p files = Some files"
| "unzip_entries inflate b (Suc k) p files =
     (if r32 b p \<noteq> Some 0x02014b50 then None
      else (case (r16 b (p + 10), r32 b (p + 20), r16 b (p + 28), r16 b (p + 30), r16 b (p + 32), r32 b (p + 42)) of
              (Some meth, Some csize, Some nl, Some xl, Some cl, Some lo) \<Rightarrow>
                (let name = utf8_text (slice (p + 46) nl b) in
                 case (r16 b (lo + 26), r16 b (lo + 28)) of
                   (Some lnl, Some lxl) \<Rightarrow>
                     (let raw = slice (lo + 30 + lnl + lxl) csize b in
                      case (if meth = 8 then inflate raw else Some raw) of
                        None \<Rightarrow> None
                      | Some d \<Rightarrow> unzip_entries inflate b k (p + 46 + nl + xl + cl) (files(name \<mapsto> d)))
                 | _ \<Rightarrow> None)
            | _ \<Rightarrow> None))"

definition unzip :: "(byte list \<Rightarrow> byte list option) \<Rightarrow> byte list \<Rightarrow> (string \<rightharpoonup> byte list) option" where
  "unzip inflate b =
     (if length b < 22 then None
      else (case find_end b (length b - 22) of
              None \<Rightarrow> None
            | Some e \<Rightarrow>
                (case (r16 b (e + 10), r32 b (e + 16)) of
                   (Some n, Some p) \<Rightarrow> unzip_entries inflate b n p Map.empty
                 | _ \<Rightarrow> None)))"

section \<open>Fields read back\<close>

lemma length_le_bytes [simp]: "length (le_bytes k v) = k"
  by (simp add: le_bytes_def)

lemma r16_append [simp]: "r16 (a @ b) (length a + i) = r16 b i"
  by (simp add: r16_def nth_append add.assoc)

lemma r32_append [simp]: "r32 (a @ b) (length a + i) = r32 b i"
  by (simp add: r32_def nth_append add.assoc)

lemma le_bytes_2: "le_bytes 2 v = [of_nat v, of_nat (v div 256)]"
  by (simp add: le_bytes_def upt_rec)

lemma le_bytes_4: "le_bytes 4 v = [of_nat v, of_nat (v div 256), of_nat (v div 65536), of_nat (v div 16777216)]"
proof -
  have "[0..<4] = [0, 1, 2, 3 :: nat]" by (simp add: upt_rec)
  then show ?thesis by (simp add: le_bytes_def)
qed

lemma unat_byte: "unat (of_nat v :: byte) = v mod 256"
  by (simp add: unat_of_nat)

lemma byte16: "(v :: nat) < 65536 \<Longrightarrow> v mod 256 + 256 * (v div 256 mod 256) = v"
  by (simp add: div_less_iff_less_mult)

lemma byte32:
  assumes "(v :: nat) < 4294967296"
  shows "v mod 256 + 256 * (v div 256 mod 256) + 65536 * (v div 65536 mod 256) + 16777216 * (v div 16777216) = v"
    "v div 16777216 mod 256 = v div 16777216"
proof -
  have e: "v div 65536 = v div 256 div 256" "v div 16777216 = v div 256 div 256 div 256"
    by (simp_all add: div_mult2_eq [symmetric])
  have d: "w mod 256 + 256 * (w div 256) = w" for w :: nat by simp
  show "v mod 256 + 256 * (v div 256 mod 256) + 65536 * (v div 65536 mod 256) + 16777216 * (v div 16777216) = v"
    unfolding e using d [of v] d [of "v div 256"] d [of "v div 256 div 256"] by linarith
  show "v div 16777216 mod 256 = v div 16777216" using assms by (simp add: div_less_iff_less_mult)
qed

lemma fields_Nil [simp]: "le_fields [] = Some []"
  by (simp add: le_fields_def)

lemma fields_Cons [simp]:
  "le_fields (x # xs) = (case x of None \<Rightarrow> None | Some b \<Rightarrow> (case le_fields xs of None \<Rightarrow> None | Some bs \<Rightarrow> Some (b @ bs)))"
  by (auto simp: le_fields_def split: option.splits)

lemma local_header_fields:
  assumes "local_header meth crc bl dl nl = Some lh"
  shows "length lh = 30" "r16 (lh @ x) 26 = Some nl" "r16 (lh @ x) 28 = Some 0"
  using assms
  by (auto simp: local_header_def w16_def w32_def le_bytes_2 le_bytes_4 r16_def unat_byte byte16 split: if_splits)

lemma central_header_fields:
  assumes "central_header meth crc bl dl nl off = Some ch"
  shows "length ch = 46" "r32 (ch @ x) 0 = Some 0x02014b50" "r16 (ch @ x) 10 = Some meth" "r32 (ch @ x) 20 = Some bl"
    "r16 (ch @ x) 28 = Some nl" "r16 (ch @ x) 30 = Some 0" "r16 (ch @ x) 32 = Some 0" "r32 (ch @ x) 42 = Some off"
  using assms
  by (auto simp: central_header_def w16_def w32_def le_bytes_2 le_bytes_4 r16_def r32_def unat_byte byte16 byte32
      split: if_splits)

section \<open>Packages read back\<close>

lemma r16_at: "z = a @ b \<Longrightarrow> r16 z (length a + i) = r16 b i" "z = a @ b \<Longrightarrow> r16 z (length a) = r16 b 0"
  using r16_append [of a b 0] by simp_all

lemma r32_at: "z = a @ b \<Longrightarrow> r32 z (length a + i) = r32 b i" "z = a @ b \<Longrightarrow> r32 z (length a) = r32 b 0"
  using r32_append [of a b 0] by simp_all

lemma slice_at: "z = a @ b @ c \<Longrightarrow> i = length a \<Longrightarrow> n = length b \<Longrightarrow> slice i n z = b"
  by (simp add: slice_def)

lemma zip_membersE:
  assumes "zip_members deflate off ((name, data) # files) = Some (ps, cs, e)"
  obtains meth content lh ch ps' cs' where
    "zip_body deflate data = (meth, content)"
    "local_header meth (crc32 data) (length content) (length data) (length (utf8 name)) = Some lh"
    "central_header meth (crc32 data) (length content) (length data) (length (utf8 name)) off = Some ch"
    "zip_members deflate (off + 30 + length (utf8 name) + length content) files = Some (ps', cs', e)"
    "ps = lh @ utf8 name @ content @ ps'" "cs = ch @ utf8 name @ cs'"
  using assms by (auto simp: Let_def split: prod.splits option.splits)

lemma zip_members_end: "zip_members deflate off files = Some (ps, cs, e) \<Longrightarrow> e = off + length ps"
proof (induction files arbitrary: off ps cs)
  case (Cons f files)
  obtain name data where f: "f = (name, data)" by (cases f)
  obtain meth content lh ch ps' cs' where
    m: "local_header meth (crc32 data) (length content) (length data) (length (utf8 name)) = Some lh"
      "zip_members deflate (off + 30 + length (utf8 name) + length content) files = Some (ps', cs', e)"
      "ps = lh @ utf8 name @ content @ ps'"
    using Cons.prems unfolding f by (rule zip_membersE) (rule that)
  show ?case using Cons.IH [OF m(2)] local_header_fields(1) [OF m(1)] m(3) by simp
qed simp

lemma unzip_entries_zip_members:
  assumes "\<And>d. inflate (deflate d) = Some d"
    and "zip_members deflate (length a) files = Some (ps, cs, e)"
    and "z = a @ ps @ b" and "z = c @ cs @ d"
  shows "unzip_entries inflate z (length files) (length c) m = Some (foldl (\<lambda>m (n, x). m(n \<mapsto> x)) m files)"
  using assms(2-4)
proof (induction files arbitrary: a c ps cs m)
  case (Cons f files)
  obtain name data where f: "f = (name, data)" by (cases f)
  obtain meth content lh ch ps' cs' where
    m: "zip_body deflate data = (meth, content)"
      "local_header meth (crc32 data) (length content) (length data) (length (utf8 name)) = Some lh"
      "central_header meth (crc32 data) (length content) (length data) (length (utf8 name)) (length a) = Some ch"
      "zip_members deflate (length a + 30 + length (utf8 name) + length content) files = Some (ps', cs', e)"
      "ps = lh @ utf8 name @ content @ ps'" "cs = ch @ utf8 name @ cs'"
    using Cons.prems(1) unfolding f by (rule zip_membersE) (rule that)
  note lh = local_header_fields [OF m(2)] and ch = central_header_fields [OF m(3)]
  have za: "z = a @ lh @ utf8 name @ content @ ps' @ b" and zc: "z = c @ ch @ utf8 name @ cs' @ d"
    using Cons.prems(2,3) m(5,6) by simp_all
  have central: "r32 z (length c) = Some 0x02014b50" "r16 z (length c + 10) = Some meth"
    "r32 z (length c + 20) = Some (length content)" "r16 z (length c + 28) = Some (length (utf8 name))"
    "r16 z (length c + 30) = Some 0" "r16 z (length c + 32) = Some 0" "r32 z (length c + 42) = Some (length a)"
    by (simp_all only: r16_at [OF zc] r32_at [OF zc] ch)
  have local: "r16 z (length a + 26) = Some (length (utf8 name))" "r16 z (length a + 28) = Some 0"
    by (simp_all only: r16_at [OF za] lh)
  have name: "slice (length c + 46) (length (utf8 name)) z = utf8 name"
    by (rule slice_at [of _ "c @ ch" _ "cs' @ d"]) (simp_all add: zc ch)
  have raw: "slice (length a + 30 + length (utf8 name)) (length content) z = content"
    by (rule slice_at [of _ "a @ lh @ utf8 name" _ "ps' @ b"]) (simp_all add: za lh)
  have data: "(if meth = 8 then inflate content else Some content) = Some data"
    using m(1) assms(1) by (auto simp: zip_body_def Let_def split: if_splits)
  have la: "length (a @ lh @ utf8 name @ content) = length a + 30 + length (utf8 name) + length content"
    and lc: "length (c @ ch @ utf8 name) = length c + 46 + length (utf8 name) + 0 + 0"
    by (simp_all add: lh ch)
  have "unzip_entries inflate z (length files) (length (c @ ch @ utf8 name)) (m(name \<mapsto> data)) =
      Some (foldl (\<lambda>m (n, x). m(n \<mapsto> x)) (m(name \<mapsto> data)) files)"
  proof (rule Cons.IH)
    show "zip_members deflate (length (a @ lh @ utf8 name @ content)) files = Some (ps', cs', e)" by (simp only: la m(4))
    show "z = (a @ lh @ utf8 name @ content) @ ps' @ b" by (simp add: za)
    show "z = (c @ ch @ utf8 name) @ cs' @ d" by (simp add: zc)
  qed
  then show ?case by (simp add: f central local name raw data la lc Let_def del: length_append fun_upd_apply)
qed simp

text \<open>A package is written when the names, the number of files and the total size fit the fields.\<close>

definition zip_size :: "(string \<times> byte list) list \<Rightarrow> nat" where
  "zip_size files = (\<Sum>(n, d)\<leftarrow>files. 76 + 2 * length (utf8 n) + length d)"

lemma zip_members_written:
  assumes "off + zip_size files < 2 ^ 32" and "\<forall>(n, d)\<in>set files. length (utf8 n) < 2 ^ 16"
  shows "\<exists>ps cs e. zip_members deflate off files = Some (ps, cs, e) \<and>
    e + length cs \<le> off + zip_size files"
  using assms
proof (induction files arbitrary: off)
  case (Cons f files)
  obtain name data where f: "f = (name, data)" by (cases f)
  obtain meth content where zb: "zip_body deflate data = (meth, content)" by fastforce
  have mc: "meth < 2 ^ 16" "length content \<le> length data" using zb by (auto simp: zip_body_def Let_def split: if_splits)
  have sz: "off + (76 + 2 * length (utf8 name) + length data) + zip_size files < 2 ^ 32" "length (utf8 name) < 2 ^ 16"
    using Cons.prems by (simp_all add: f zip_size_def)
  have crc: "unat (crc32 data) < 2 ^ 32" using unsigned_less [of "crc32 data"] by simp
  obtain lh where lh: "local_header meth (crc32 data) (length content) (length data) (length (utf8 name)) = Some lh"
    using mc sz crc by (simp add: local_header_def w16_def w32_def DOS_TIME_def DOS_DATE_def)
  obtain ch where ch: "central_header meth (crc32 data) (length content) (length data) (length (utf8 name)) off = Some ch"
    using mc sz crc by (simp add: central_header_def w16_def w32_def DOS_TIME_def DOS_DATE_def)
  let ?off = "off + 30 + length (utf8 name) + length content"
  have "?off + zip_size files < 2 ^ 32" using sz mc(2) by linarith
  moreover have "\<forall>(n, d)\<in>set files. length (utf8 n) < 2 ^ 16" using Cons.prems(2) by simp
  ultimately obtain ps cs e where "zip_members deflate ?off files = Some (ps, cs, e)" "e + length cs \<le> ?off + zip_size files"
    using Cons.IH by blast
  moreover from this(1) have "zip_members deflate off (f # files) =
      Some (lh @ utf8 name @ content @ ps, ch @ utf8 name @ cs, e)" by (simp add: f zb lh ch Let_def)
  moreover have "zip_size (f # files) = 76 + 2 * length (utf8 name) + length data + zip_size files"
    by (simp add: f zip_size_def)
  ultimately show ?case using mc(2) central_header_fields(1) [OF ch] by auto
qed (simp add: zip_size_def)

lemma zip_size_sorted [simp]: "zip_size (sort_key k files) = zip_size files"
proof -
  have "zip_size files = sum_mset (image_mset (\<lambda>(n, d). 76 + 2 * length (utf8 n) + length d) (mset files))" for files
    by (simp add: zip_size_def sum_mset_sum_list [symmetric] del: sum_mset_sum_list flip: mset_map)
  then show ?thesis by simp
qed

lemma ntx_zip_written:
  assumes "zip_size files + 22 < 2 ^ 32" and "\<forall>(n, d)\<in>set files. length (utf8 n) < 2 ^ 16" and "length files < 2 ^ 16"
  shows "\<exists>z. ntx_zip deflate files = Some z"
proof -
  obtain ps cs e where z: "zip_members deflate 0 (sort_key fst files) = Some (ps, cs, e)" "e + length cs \<le> zip_size files"
    using zip_members_written [of 0 "sort_key fst files" deflate] assms by auto
  then show ?thesis using assms by (simp add: ntx_zip_def end_record_def w16_def w32_def)
qed

lemma find_end_written:
  assumes "end_record cnt cdl off = Some e"
  shows "length e = 22" "find_end (z @ e) (length z) = Some (length z)" "r16 (z @ e) (length z + 10) = Some cnt"
    "r32 (z @ e) (length z + 16) = Some off"
proof -
  have e: "length e = 22" "r32 e 0 = Some 0x06054b50" "r16 e 10 = Some cnt" "r32 e 16 = Some off"
    using assms by (auto simp: end_record_def w16_def w32_def le_bytes_2 le_bytes_4 r16_def r32_def unat_byte byte16 byte32
        split: if_splits)
  show "length e = 22" by (rule e(1))
  show "find_end (z @ e) (length z) = Some (length z)"
    by (subst find_end.simps) (simp add: r32_at(2) [OF refl] e(2))
  show "r16 (z @ e) (length z + 10) = Some cnt" "r32 (z @ e) (length z + 16) = Some off" by (simp_all add: e)
qed

lemma unzip_ntx_zip:
  assumes "\<And>d. inflate (deflate d) = Some d" and "distinct (map fst files)" and "ntx_zip deflate files = Some z"
  shows "unzip inflate z = Some (map_of files)"
proof -
  obtain ps cs off e where z: "zip_members deflate 0 (sort_key fst files) = Some (ps, cs, off)"
      "end_record (length files) (length cs) off = Some e" "z = ps @ cs @ e"
    using assms(3) by (auto simp: ntx_zip_def split: option.splits)
  note fe = find_end_written(1) [OF z(2)] find_end_written(2-4) [OF z(2), of "ps @ cs"]
  have off: "off = length ps" using zip_members_end [OF z(1)] by simp
  have e: "unzip_entries inflate z (length (sort_key fst files)) (length ps) Map.empty =
      Some (foldl (\<lambda>m (n, x). m(n \<mapsto> x)) Map.empty (sort_key fst files))"
  proof (rule unzip_entries_zip_members [where inflate = inflate and deflate = deflate])
    show "zip_members deflate (length []) (sort_key fst files) = Some (ps, cs, off)" using z(1) by simp
    show "z = [] @ ps @ cs @ e" "z = ps @ cs @ e" using z(3) by simp_all
  qed (rule assms(1))
  have m: "foldl (\<lambda>m (n, x). m(n \<mapsto> x)) m0 fs = m0 ++ map_of (rev fs)" for m0 :: "string \<rightharpoonup> byte list" and fs
    by (induction fs arbitrary: m0) (auto simp: map_add_def fun_eq_iff split: option.splits)
  have "map_of (rev (sort_key fst files)) = map_of files"
    using assms(2) by (subst map_of_inject_set) (auto simp: rev_map [symmetric] distinct_map)
  then show ?thesis using fe e by (simp add: unzip_def z(3) off m) 
qed

section \<open>Properties\<close>

lemma ntx_zip_permuted:
  assumes "distinct (map fst files)" and "mset files' = mset files"
  shows "ntx_zip deflate files' = ntx_zip deflate files"
proof -
  have "length files' = length files" using assms(2) by (metis size_mset)
  moreover have "sort_key fst files' = sort_key fst files"
    using assms by (intro sort_key_eq_sort_key) (auto simp: distinct_map dest: mset_eq_setD)
  ultimately show ?thesis by (simp only: ntx_zip_def)
qed

text \<open>C37 Round trip: for files of different names whose names, number and total size fit the fields of the format,
  \<open>ntx_zip\<close> writes a package, \<open>unzip\<close>, the reader of the tests, reads exactly those files back, and the
  package is the same whatever the order the files come in.  The compression is a parameter of which only
  \<open>inflate (deflate d) = d\<close> is used.\<close>

theorem package_reads_back:
  assumes "\<And>d. inflate (deflate d) = Some d"
    and "distinct (map fst files)" and "length files < 2 ^ 16"
    and "\<forall>(n, d)\<in>set files. length (utf8 n) < 2 ^ 16" and "zip_size files + 22 < 2 ^ 32"
  shows "\<exists>z. ntx_zip deflate files = Some z \<and> unzip inflate z = Some (map_of files) \<and>
    (\<forall>files'. mset files' = mset files \<longrightarrow> ntx_zip deflate files' = Some z)"
  using ntx_zip_written [OF assms(5,4,3), of deflate] unzip_ntx_zip [of inflate deflate, OF assms(1,2)]
    ntx_zip_permuted [OF assms(2), of _ deflate]
  by metis

text \<open>A compression that shortens one text and lengthens all others.\<close>

definition toy_deflate :: "byte list \<Rightarrow> byte list" where
  "toy_deflate x = (if x = [1, 1, 1] then [9] else 0 # x)"

definition toy_inflate :: "byte list \<Rightarrow> byte list option" where
  "toy_inflate y = (if y = [9] then Some [1, 1, 1] else Some (tl y))"

theorem package_reads_back_witness:
  "\<exists>z. ntx_zip toy_deflate [(''b'', [1, 1, 1]), (''a'', [2])] = Some z \<and>
    unzip toy_inflate z = Some [''b'' \<mapsto> [1, 1, 1], ''a'' \<mapsto> [2]] \<and>
    ntx_zip toy_deflate [(''a'', [2]), (''b'', [1, 1, 1])] = Some z"
proof -
  let ?files = "[(''b'', [1, 1, 1]), (''a'', [2])] :: (string \<times> byte list) list"
  have law: "toy_inflate (toy_deflate d) = Some d" for d by (simp add: toy_inflate_def toy_deflate_def)
  have fits: "distinct (map fst ?files)" "length ?files < 2 ^ 16" "\<forall>(n, d)\<in>set ?files. length (utf8 n) < 2 ^ 16"
    "zip_size ?files + 22 < 2 ^ 32"
    by (simp_all add: utf8_char_def zip_size_def)
  have "map_of ?files = [''b'' \<mapsto> [1, 1, 1], ''a'' \<mapsto> [2]]" by (simp add: fun_eq_iff)
  moreover have "mset [(''a'', [2]), (''b'', [1, 1, 1])] = mset ?files" by simp
  ultimately show ?thesis using package_reads_back [where inflate = toy_inflate and deflate = toy_deflate and files = ?files, OF law fits] by metis
qed

text \<open>C38 Equivalence: the checksum computed with the 256 entries of \<open>crcTable\<close> is the one of the bitwise
  definition, which feeds the bits of the message one at a time to the shift register of CRC-32.\<close>

theorem crc32_is_bitwise: "crc32 b = crc32_bitwise b"
  by (simp add: crc32_def crc32_bitwise_def crc_bits_fold)

end
