(* ===== verification/WasmAsm.thy ===== *)
theory WasmAsm
  imports JsValue
begin

text \<open>
  \<open>transports/tools/wasmasm.mjs\<close>: the assembler helpers and the queue module they assemble.  Arrays of
  numbers in the source are lists of bytes here; every number the source puts in one is below 256.
\<close>

section \<open>LEB128 and the encodings built on it\<close>

text \<open>The source calls \<open>uleb\<close> on lengths, indices and offsets only, which are natural numbers.\<close>

fun uleb :: "nat \<Rightarrow> byte list" where
  "uleb n =
     (let b = n mod 128; n' = n div 128 in
      if n' \<noteq> 0 then of_nat (b + 128) # uleb n' else [of_nat b])"

declare uleb.simps [simp del]

function sleb :: "int \<Rightarrow> byte list" where
  "sleb n =
     (let b = n mod 128; n' = n div 128; sign = (64 \<le> b) in
      if (n' = 0 \<and> \<not> sign) \<or> (n' = -1 \<and> sign) then [of_int b] else of_int (b + 128) # sleb n')"
  by pat_completeness auto
termination
proof (relation "measure (\<lambda>n. nat \<bar>n\<bar>)")
  fix n b n' :: int and sign
  assume h: "b = n mod 128" "n' = n div 128" "sign = (64 \<le> b)" "\<not> (n' = 0 \<and> \<not> sign \<or> n' = -1 \<and> sign)"
  have "n \<noteq> 0" "n \<noteq> -1" using h by auto
  then have "\<bar>n'\<bar> < \<bar>n\<bar>" using h(2) by (cases "0 < n") linarith+
  then show "(n', n) \<in> measure (\<lambda>n. nat \<bar>n\<bar>)" by simp
qed simp

declare sleb.simps [simp del]

definition asm_str :: "string \<Rightarrow> byte list" where
  "asm_str s = uleb (length s) @ utf8 s"

definition asm_vec :: "byte list list \<Rightarrow> byte list" where
  "asm_vec items = uleb (length items) @ concat items"

definition asm_sec :: "byte \<Rightarrow> byte list \<Rightarrow> byte list" where
  "asm_sec i content = i # uleb (length content) @ content"

definition I32 :: byte where "I32 = 0x7f"
definition I64 :: byte where "I64 = 0x7e"

section \<open>Instructions\<close>

definition op_i32c :: "int \<Rightarrow> byte list" where "op_i32c v = 0x41 # sleb v"
definition op_i64c :: "int \<Rightarrow> byte list" where "op_i64c v = 0x42 # sleb v"
definition op_get :: "nat \<Rightarrow> byte list" where "op_get i = 0x20 # uleb i"
definition op_set :: "nat \<Rightarrow> byte list" where "op_set i = 0x21 # uleb i"
definition op_gget :: "nat \<Rightarrow> byte list" where "op_gget i = 0x23 # uleb i"
definition op_gset :: "nat \<Rightarrow> byte list" where "op_gset i = 0x24 # uleb i"
definition op_add :: "byte list" where "op_add = [0x6a]"
definition op_and :: "byte list" where "op_and = [0x71]"
definition op_shru :: "byte list" where "op_shru = [0x76]"
definition op_gtu :: "byte list" where "op_gtu = [0x4b]"
definition op_store8 :: "nat \<Rightarrow> byte list" where "op_store8 off = 0x3a # 0x00 # uleb off"
definition op_ifv :: "byte list" where "op_ifv = [0x04, 0x40]"
definition op_end :: "byte list" where "op_end = [0x0b]"
definition op_ret :: "byte list" where "op_ret = [0x0f]"
definition op_ext :: "byte list" where "op_ext = [0xad]"
definition op_shl64 :: "byte list" where "op_shl64 = [0x86]"
definition op_or64 :: "byte list" where "op_or64 = [0x84]"
definition op_memcopy :: "byte list" where "op_memcopy = [0xfc, 0x0a, 0x00, 0x00]"

lemmas op_defs = op_i32c_def op_i64c_def op_get_def op_set_def op_gget_def op_gset_def op_add_def op_and_def op_shru_def
  op_gtu_def op_store8_def op_ifv_def op_end_def op_ret_def op_ext_def op_shl64_def op_or64_def op_memcopy_def

definition asm_body :: "byte \<Rightarrow> byte list list \<Rightarrow> byte list" where
  "asm_body nlocals ops =
     (let b = (if nlocals \<noteq> 0 then asm_vec [[nlocals, I32]] else [0]) @ concat ops @ [0x0b]
      in uleb (length b) @ b)"

section \<open>The queue module\<close>

definition asm_Q :: int where "asm_Q = 0x4000"
definition asm_OUT :: int where "asm_OUT = 0x8000"

definition init_body :: "byte list" where
  "init_body = asm_body 0 [op_i32c 0]"

definition caps_body :: "string \<Rightarrow> byte list" where
  "caps_body caps = asm_body 0 [op_i64c (0x100 * 2 ^ 32 + int (length (utf8 caps)))]"

definition start_body :: "byte list" where
  "start_body = asm_body 0 [op_i32c 1, op_gset 0, op_i32c 0]"

definition stop_body :: "byte list" where
  "stop_body = asm_body 0 [op_i32c 0, op_gset 0, op_i32c 0]"

definition status_body :: "byte list" where
  "status_body = asm_body 0 [op_gget 0]"

definition alloc_body :: "byte list" where
  "alloc_body = asm_body 1
     [op_gget 2, op_set 1,
      op_get 1, op_get 0, op_add, op_i32c 0x3f00, op_gtu, op_ifv, op_i32c 0x1000, op_set 1, op_end,
      op_get 1, op_get 0, op_add, op_i32c 7, op_add, op_i32c (-8), op_and, op_gset 2,
      op_get 1]"

definition send_body :: "byte list" where
  "send_body = asm_body 1
     [op_gget 0, [0x45], op_ifv, op_i32c 1, op_ret, op_end,
      op_gget 1, op_get 1, op_add, op_i32c 4, op_add, op_i32c 0x4000, op_gtu, op_ifv, op_i32c 3, op_ret, op_end,
      op_i32c asm_Q, op_gget 1, op_add, op_set 4,
      op_get 4, op_get 1, op_i32c 24, op_shru, op_store8 0,
      op_get 4, op_get 1, op_i32c 16, op_shru, op_store8 1,
      op_get 4, op_get 1, op_i32c 8, op_shru, op_store8 2,
      op_get 4, op_get 1, op_store8 3,
      op_get 4, op_i32c 4, op_add, op_get 0, op_get 1, op_memcopy,
      op_gget 1, op_get 1, op_add, op_i32c 4, op_add, op_gset 1,
      op_i32c 0]"

definition attach_body :: "byte list" where
  "attach_body = asm_body 0 [op_i32c 0]"

definition poll_body :: "byte list" where
  "poll_body = asm_body 0
     [op_i32c asm_OUT, op_i32c asm_Q, op_gget 1, op_memcopy,
      op_i32c asm_OUT, op_ext, op_i64c 32, op_shl64, op_gget 1, op_ext, op_or64,
      op_i32c 0, op_gset 1]"

text \<open>\<open>fns\<close> after \<open>buildQueueModule\<close> has set the second entry: type index, export name, body.\<close>

definition asm_fns :: "string \<Rightarrow> (nat \<times> string \<times> byte list) list" where
  "asm_fns caps =
     [(1, ''ntx_init'', init_body),
      (2, ''ntx_caps'', caps_body caps),
      (0, ''ntx_start'', start_body),
      (0, ''ntx_stop'', stop_body),
      (0, ''ntx_status'', status_body),
      (5, ''ntx_alloc'', alloc_body),
      (3, ''ntx_send'', send_body),
      (4, ''ntx_attach'', attach_body),
      (5, ''ntx_detach'', attach_body),
      (6, ''ntx_poll'', poll_body)]"

definition asm_types :: "byte list list" where
  "asm_types =
     [0x60 # asm_vec [] @ asm_vec [[I32]],
      0x60 # asm_vec [[I32], [I32]] @ asm_vec [[I32]],
      0x60 # asm_vec [] @ asm_vec [[I64]],
      0x60 # asm_vec [[I32], [I32], [I32], [I32]] @ asm_vec [[I32]],
      0x60 # asm_vec (replicate 6 [I32]) @ asm_vec [[I32]],
      0x60 # asm_vec [[I32]] @ asm_vec [[I32]],
      0x60 # asm_vec [[I32], [I32], [I32]] @ asm_vec [[I64]]]"

definition module_exports :: "string \<Rightarrow> byte list list" where
  "module_exports caps =
     map (\<lambda>((t, name, b), i). asm_str name @ 0x00 # uleb i) (zip (asm_fns caps) [0..<length (asm_fns caps)]) @
     [asm_str ''memory'' @ [0x02, 0x00]]"

definition module_globals :: "byte list list" where
  "module_globals =
     [[I32, 0x01] @ op_i32c 0 @ [0x0b], [I32, 0x01] @ op_i32c 0 @ [0x0b], [I32, 0x01] @ op_i32c 0x1000 @ [0x0b]]"

text \<open>\<open>None\<close> is the exception for a capability text of more than 32 bytes.\<close>

definition buildQueueModule :: "string \<Rightarrow> byte list option" where
  "buildQueueModule capsCsv =
     (if 32 < length (utf8 capsCsv) then None
      else Some
        ([0x00, 0x61, 0x73, 0x6d, 0x01, 0x00, 0x00, 0x00] @
         asm_sec 1 (asm_vec asm_types) @
         asm_sec 3 (asm_vec (map (\<lambda>(t, name, b). uleb t) (asm_fns capsCsv))) @
         asm_sec 5 (asm_vec [[0x00, 0x02]]) @
         asm_sec 6 (asm_vec module_globals) @
         asm_sec 7 (asm_vec (module_exports capsCsv)) @
         asm_sec 10 (asm_vec (map (\<lambda>(t, name, b). b) (asm_fns capsCsv))) @
         asm_sec 11 (asm_vec [0x00 # op_i32c 0x100 @ 0x0b # asm_vec (map (\<lambda>c. [c]) (utf8 capsCsv))])))"

end
