(* ===== verification/WasmFormat.thy ===== *)
theory WasmFormat
  imports WasmAsm
begin

text \<open>
  The binary format of WebAssembly, as far as \<open>wasmasm.mjs\<close> uses it: the abstract modules, their
  encoding in the terms of the assembler, and a decoder that follows the format's own grammar.
  \<open>decode_encode\<close> is the round trip.
\<close>

section \<open>Modules\<close>

datatype valtype = T32 | T64

datatype instr =
    I32Const int
  | I64Const int
  | LocalGet nat
  | LocalSet nat
  | GlobalGet nat
  | GlobalSet nat
  | I32Eqz
  | I32GtU
  | I32Add
  | I32And
  | I32ShrU
  | I32Store8 nat
  | I64ExtendI32U
  | I64Shl
  | I64Or
  | MemoryCopy
  | FuncReturn
  | IfThen "instr list"

record func_code =
  fc_locals :: "(nat \<times> valtype) list"
  fc_body :: "instr list"

record wmodule =
  m_types :: "(valtype list \<times> valtype list) list"
  m_funcs :: "nat list"
  m_memory :: "nat list"
  m_globals :: "(valtype \<times> instr list) list"
  m_exports :: "(byte list \<times> byte \<times> nat) list"
  m_codes :: "func_code list"
  m_data :: "(instr list \<times> byte list) list"

section \<open>Encoding\<close>

definition enc_valtype :: "valtype \<Rightarrow> byte list" where
  "enc_valtype t = (case t of T32 \<Rightarrow> [I32] | T64 \<Rightarrow> [I64])"

definition enc_functype :: "valtype list \<times> valtype list \<Rightarrow> byte list" where
  "enc_functype ft = 0x60 # asm_vec (map enc_valtype (fst ft)) @ asm_vec (map enc_valtype (snd ft))"

fun enc_instr :: "instr \<Rightarrow> byte list" where
  "enc_instr (I32Const v) = op_i32c v"
| "enc_instr (I64Const v) = op_i64c v"
| "enc_instr (LocalGet i) = op_get i"
| "enc_instr (LocalSet i) = op_set i"
| "enc_instr (GlobalGet i) = op_gget i"
| "enc_instr (GlobalSet i) = op_gset i"
| "enc_instr I32Eqz = [0x45]"
| "enc_instr I32GtU = op_gtu"
| "enc_instr I32Add = op_add"
| "enc_instr I32And = op_and"
| "enc_instr I32ShrU = op_shru"
| "enc_instr (I32Store8 off) = op_store8 off"
| "enc_instr I64ExtendI32U = op_ext"
| "enc_instr I64Shl = op_shl64"
| "enc_instr I64Or = op_or64"
| "enc_instr MemoryCopy = op_memcopy"
| "enc_instr FuncReturn = op_ret"
| "enc_instr (IfThen is) = op_ifv @ concat (map enc_instr is) @ op_end"

definition enc_expr :: "instr list \<Rightarrow> byte list" where
  "enc_expr is = concat (map enc_instr is) @ op_end"

definition enc_local :: "nat \<times> valtype \<Rightarrow> byte list" where
  "enc_local l = uleb (fst l) @ enc_valtype (snd l)"

definition enc_code :: "func_code \<Rightarrow> byte list" where
  "enc_code c =
     (let b = asm_vec (map enc_local (fc_locals c)) @ enc_expr (fc_body c) in uleb (length b) @ b)"

text \<open>Every global of the module is mutable.\<close>

definition enc_global :: "valtype \<times> instr list \<Rightarrow> byte list" where
  "enc_global g = enc_valtype (fst g) @ 0x01 # enc_expr (snd g)"

definition enc_bytes :: "byte list \<Rightarrow> byte list" where
  "enc_bytes bs = asm_vec (map (\<lambda>b. [b]) bs)"

definition enc_export :: "byte list \<times> byte \<times> nat \<Rightarrow> byte list" where
  "enc_export e = enc_bytes (fst e) @ fst (snd e) # uleb (snd (snd e))"

definition enc_memory :: "nat \<Rightarrow> byte list" where
  "enc_memory n = 0x00 # uleb n"

definition enc_data :: "instr list \<times> byte list \<Rightarrow> byte list" where
  "enc_data d = 0x00 # enc_expr (fst d) @ enc_bytes (snd d)"

definition magic :: "byte list" where
  "magic = [0x00, 0x61, 0x73, 0x6d, 0x01, 0x00, 0x00, 0x00]"

definition encode_module :: "wmodule \<Rightarrow> byte list" where
  "encode_module m =
     magic @
     asm_sec 1 (asm_vec (map enc_functype (m_types m))) @
     asm_sec 3 (asm_vec (map uleb (m_funcs m))) @
     asm_sec 5 (asm_vec (map enc_memory (m_memory m))) @
     asm_sec 6 (asm_vec (map enc_global (m_globals m))) @
     asm_sec 7 (asm_vec (map enc_export (m_exports m))) @
     asm_sec 10 (asm_vec (map enc_code (m_codes m))) @
     asm_sec 11 (asm_vec (map enc_data (m_data m)))"

section \<open>Decoding\<close>

type_synonym 'a decoder = "byte list \<Rightarrow> ('a \<times> byte list) option"

definition and_then :: "('a \<times> byte list) option \<Rightarrow> ('a \<Rightarrow> byte list \<Rightarrow> 'b option) \<Rightarrow> 'b option" where
  "and_then r f = (case r of None \<Rightarrow> None | Some (x, bs) \<Rightarrow> f x bs)"

lemma and_then_simps [simp]: "and_then None f = None" "and_then (Some (x, bs)) f = f x bs"
  by (simp_all add: and_then_def)

fun d_uleb :: "nat decoder" where
  "d_uleb [] = None"
| "d_uleb (b # bs) =
     (if b < 128 then Some (unat b, bs)
      else and_then (d_uleb bs) (\<lambda>n r. Some (unat b - 128 + 128 * n, r)))"

definition d_u32 :: "nat decoder" where
  "d_u32 bs = and_then (d_uleb bs) (\<lambda>n r. if n < 2 ^ 32 then Some (n, r) else None)"

fun d_sleb :: "int decoder" where
  "d_sleb [] = None"
| "d_sleb (b # bs) =
     (if b < 64 then Some (uint b, bs)
      else if b < 128 then Some (uint b - 128, bs)
      else and_then (d_sleb bs) (\<lambda>n r. Some (uint b - 128 + 128 * n, r)))"

definition d_int :: "nat \<Rightarrow> int decoder" where
  "d_int w bs = and_then (d_sleb bs) (\<lambda>n r. if - (2 ^ (w - 1)) \<le> n \<and> n < 2 ^ (w - 1) then Some (n, r) else None)"

fun d_tag :: "byte \<Rightarrow> unit decoder" where
  "d_tag t [] = None"
| "d_tag t (b # bs) = (if b = t then Some ((), bs) else None)"

fun d_byte :: "byte decoder" where
  "d_byte [] = None"
| "d_byte (b # bs) = Some (b, bs)"

primrec d_times :: "nat \<Rightarrow> 'a decoder \<Rightarrow> 'a list decoder" where
  "d_times 0 d bs = Some ([], bs)"
| "d_times (Suc n) d bs = and_then (d bs) (\<lambda>x r. and_then (d_times n d r) (\<lambda>xs r'. Some (x # xs, r')))"

definition d_vec :: "'a decoder \<Rightarrow> 'a list decoder" where
  "d_vec d bs = and_then (d_u32 bs) (\<lambda>n r. d_times n d r)"

text \<open>A sized part: its decoder has to use up exactly the bytes announced.\<close>

definition d_sized :: "'a decoder \<Rightarrow> 'a decoder" where
  "d_sized d bs = and_then (d_u32 bs) (\<lambda>n r.
     if n \<le> length r
     then (case d (take n r) of Some (x, []) \<Rightarrow> Some (x, drop n r) | _ \<Rightarrow> None)
     else None)"

fun d_valtype :: "valtype decoder" where
  "d_valtype [] = None"
| "d_valtype (b # bs) = (if b = I32 then Some (T32, bs) else if b = I64 then Some (T64, bs) else None)"

definition d_functype :: "(valtype list \<times> valtype list) decoder" where
  "d_functype bs = and_then (d_tag 0x60 bs) (\<lambda>_ r. and_then (d_vec d_valtype r) (\<lambda>ps r.
     and_then (d_vec d_valtype r) (\<lambda>rs r. Some ((ps, rs), r))))"

text \<open>The instructions without a nested expression, by their opcode.\<close>

definition d_plain :: "byte \<Rightarrow> instr decoder" where
  "d_plain b bs =
     (if b = 0x41 then and_then (d_int 32 bs) (\<lambda>v r. Some (I32Const v, r))
      else if b = 0x42 then and_then (d_int 64 bs) (\<lambda>v r. Some (I64Const v, r))
      else if b = 0x20 then and_then (d_u32 bs) (\<lambda>i r. Some (LocalGet i, r))
      else if b = 0x21 then and_then (d_u32 bs) (\<lambda>i r. Some (LocalSet i, r))
      else if b = 0x23 then and_then (d_u32 bs) (\<lambda>i r. Some (GlobalGet i, r))
      else if b = 0x24 then and_then (d_u32 bs) (\<lambda>i r. Some (GlobalSet i, r))
      else if b = 0x45 then Some (I32Eqz, bs)
      else if b = 0x4b then Some (I32GtU, bs)
      else if b = 0x6a then Some (I32Add, bs)
      else if b = 0x71 then Some (I32And, bs)
      else if b = 0x76 then Some (I32ShrU, bs)
      else if b = 0x3a then and_then (d_tag 0x00 bs) (\<lambda>_ r. and_then (d_u32 r) (\<lambda>off r. Some (I32Store8 off, r)))
      else if b = 0xad then Some (I64ExtendI32U, bs)
      else if b = 0x86 then Some (I64Shl, bs)
      else if b = 0x84 then Some (I64Or, bs)
      else if b = 0xfc then and_then (d_tag 0x0a bs) (\<lambda>_ r. and_then (d_tag 0x00 r) (\<lambda>_ r.
        and_then (d_tag 0x00 r) (\<lambda>_ r. Some (MemoryCopy, r))))
      else if b = 0x0f then Some (FuncReturn, bs)
      else None)"

text \<open>An expression up to its \<open>end\<close>; \<open>0x04 0x40\<close> opens a nested one.  Every level uses up a byte, so the
  number of bytes is fuel enough.\<close>

fun d_instrs :: "nat \<Rightarrow> instr list decoder" where
  "d_instrs 0 bs = None"
| "d_instrs (Suc k) [] = None"
| "d_instrs (Suc k) (b # bs) =
     (if b = 0x0b then Some ([], bs)
      else if b = 0x04 then
        and_then (d_tag 0x40 bs) (\<lambda>_ r. and_then (d_instrs k r) (\<lambda>is r.
        and_then (d_instrs k r) (\<lambda>js r. Some (IfThen is # js, r))))
      else and_then (d_plain b bs) (\<lambda>i r. and_then (d_instrs k r) (\<lambda>js r. Some (i # js, r))))"

definition d_expr :: "instr list decoder" where
  "d_expr bs = d_instrs (length bs) bs"

definition d_local :: "(nat \<times> valtype) decoder" where
  "d_local bs = and_then (d_u32 bs) (\<lambda>n r. and_then (d_valtype r) (\<lambda>t r. Some ((n, t), r)))"

definition d_code :: "func_code decoder" where
  "d_code = d_sized (\<lambda>bs. and_then (d_vec d_local bs) (\<lambda>ls r. and_then (d_expr r) (\<lambda>is r.
     Some (\<lparr>fc_locals = ls, fc_body = is\<rparr>, r))))"

definition d_global :: "(valtype \<times> instr list) decoder" where
  "d_global bs = and_then (d_valtype bs) (\<lambda>t r. and_then (d_tag 0x01 r) (\<lambda>_ r. and_then (d_expr r) (\<lambda>is r.
     Some ((t, is), r))))"

definition d_export :: "(byte list \<times> byte \<times> nat) decoder" where
  "d_export bs = and_then (d_vec d_byte bs) (\<lambda>name r. and_then (d_byte r) (\<lambda>kind r. and_then (d_u32 r) (\<lambda>i r.
     Some ((name, kind, i), r))))"

definition d_memory :: "nat decoder" where
  "d_memory bs = and_then (d_tag 0x00 bs) (\<lambda>_ r. d_u32 r)"

definition d_data :: "(instr list \<times> byte list) decoder" where
  "d_data bs = and_then (d_tag 0x00 bs) (\<lambda>_ r. and_then (d_expr r) (\<lambda>is r. and_then (d_vec d_byte r) (\<lambda>cs r.
     Some ((is, cs), r))))"

definition d_section :: "byte \<Rightarrow> 'a decoder \<Rightarrow> 'a list decoder" where
  "d_section i d bs = and_then (d_tag i bs) (\<lambda>_ r. d_sized (d_vec d) r)"

definition decode_module :: "byte list \<Rightarrow> wmodule option" where
  "decode_module bs =
     (if take 8 bs \<noteq> magic then None
      else and_then (d_section 1 d_functype (drop 8 bs)) (\<lambda>ts r.
        and_then (d_section 3 d_u32 r) (\<lambda>fs r.
        and_then (d_section 5 d_memory r) (\<lambda>ms r.
        and_then (d_section 6 d_global r) (\<lambda>gs r.
        and_then (d_section 7 d_export r) (\<lambda>es r.
        and_then (d_section 10 d_code r) (\<lambda>cs r.
        and_then (d_section 11 d_data r) (\<lambda>ds r.
          if r = [] then Some \<lparr>m_types = ts, m_funcs = fs, m_memory = ms, m_globals = gs, m_exports = es,
                               m_codes = cs, m_data = ds\<rparr>
          else None))))))))"

section \<open>What the encoding can express\<close>

fun wf_instr :: "instr \<Rightarrow> bool" where
  "wf_instr (I32Const v) \<longleftrightarrow> - (2 ^ 31) \<le> v \<and> v < 2 ^ 31"
| "wf_instr (I64Const v) \<longleftrightarrow> - (2 ^ 63) \<le> v \<and> v < 2 ^ 63"
| "wf_instr (LocalGet i) \<longleftrightarrow> i < 2 ^ 32"
| "wf_instr (LocalSet i) \<longleftrightarrow> i < 2 ^ 32"
| "wf_instr (GlobalGet i) \<longleftrightarrow> i < 2 ^ 32"
| "wf_instr (GlobalSet i) \<longleftrightarrow> i < 2 ^ 32"
| "wf_instr (I32Store8 off) \<longleftrightarrow> off < 2 ^ 32"
| "wf_instr (IfThen is) \<longleftrightarrow> list_all wf_instr is"
| "wf_instr _ \<longleftrightarrow> True"

definition wf_vec :: "('a \<Rightarrow> byte list) \<Rightarrow> ('a \<Rightarrow> bool) \<Rightarrow> 'a list \<Rightarrow> bool" where
  "wf_vec enc ok xs \<longleftrightarrow> list_all ok xs \<and> length xs < 2 ^ 32 \<and> length (asm_vec (map enc xs)) < 2 ^ 32"

definition wf_functype :: "valtype list \<times> valtype list \<Rightarrow> bool" where
  "wf_functype ft \<longleftrightarrow> length (fst ft) < 2 ^ 32 \<and> length (snd ft) < 2 ^ 32"

definition wf_func_code :: "func_code \<Rightarrow> bool" where
  "wf_func_code c \<longleftrightarrow> list_all (\<lambda>l. fst l < 2 ^ 32) (fc_locals c) \<and> length (fc_locals c) < 2 ^ 32 \<and>
     list_all wf_instr (fc_body c) \<and> length (asm_vec (map enc_local (fc_locals c)) @ enc_expr (fc_body c)) < 2 ^ 32"

definition wf_global :: "valtype \<times> instr list \<Rightarrow> bool" where
  "wf_global g \<longleftrightarrow> list_all wf_instr (snd g)"

definition wf_export :: "byte list \<times> byte \<times> nat \<Rightarrow> bool" where
  "wf_export e \<longleftrightarrow> length (fst e) < 2 ^ 32 \<and> snd (snd e) < 2 ^ 32"

definition wf_data :: "instr list \<times> byte list \<Rightarrow> bool" where
  "wf_data d \<longleftrightarrow> list_all wf_instr (fst d) \<and> length (snd d) < 2 ^ 32"

definition wf_module :: "wmodule \<Rightarrow> bool" where
  "wf_module m \<longleftrightarrow>
     wf_vec enc_functype wf_functype (m_types m) \<and>
     wf_vec uleb (\<lambda>n. n < 2 ^ 32) (m_funcs m) \<and>
     wf_vec enc_memory (\<lambda>n. n < 2 ^ 32) (m_memory m) \<and>
     wf_vec enc_global wf_global (m_globals m) \<and>
     wf_vec enc_export wf_export (m_exports m) \<and>
     wf_vec enc_code wf_func_code (m_codes m) \<and>
     wf_vec enc_data wf_data (m_data m)"

section \<open>LEB128 reads back\<close>

lemma byte_of_small: "b < 256 \<Longrightarrow> unat (of_nat b :: byte) = b"
  by (simp add: unsigned_of_nat take_bit_nat_eq_self)

lemma d_uleb_uleb: "d_uleb (uleb n @ r) = Some (n, r)"
proof (induction n rule: uleb.induct)
  case (1 n)
  let ?b = "n mod 128"
  have b: "?b < 128" by simp
  show ?case
  proof (cases "n div 128 = 0")
    case True
    have "(of_nat ?b :: byte) < 128" using b by (simp add: word_less_nat_alt byte_of_small)
    moreover have "?b = n" using True by (simp add: div_eq_0_iff)
    ultimately show ?thesis using True b by (simp add: uleb.simps [of n] Let_def byte_of_small)
  next
    case False
    have u: "unat (of_nat (?b + 128) :: byte) = ?b + 128" by (rule byte_of_small) (use b in linarith)
    then have "\<not> (of_nat (?b + 128) :: byte) < 128" by (simp add: word_less_nat_alt)
    moreover have "d_uleb (uleb (n div 128) @ r) = Some (n div 128, r)" using 1 False by auto
    ultimately show ?thesis using False u by (simp add: uleb.simps [of n] Let_def del: of_nat_add)
  qed
qed

lemma byte_of_small_int: "0 \<le> b \<Longrightarrow> b < 256 \<Longrightarrow> uint (of_int b :: byte) = b"
  by (simp add: uint_word_of_int_eq take_bit_eq_mod)

lemma d_sleb_sleb: "d_sleb (sleb n @ r) = Some (n, r)"
proof (induction n rule: sleb.induct)
  case (1 n)
  let ?b = "n mod 128"
  have b: "0 \<le> ?b" "?b < 128" by simp_all
  have split: "n = ?b + 128 * (n div 128)" by simp
  show ?case
  proof (cases "(n div 128 = 0 \<and> \<not> 64 \<le> ?b) \<or> (n div 128 = -1 \<and> 64 \<le> ?b)")
    case True
    have u: "uint (of_int ?b :: byte) = ?b" using b by (simp add: byte_of_small_int)
    have "n = (if 64 \<le> ?b then ?b - 128 else ?b)" using True by presburger
    moreover have "(of_int ?b :: byte) < 64 \<longleftrightarrow> ?b < 64" "(of_int ?b :: byte) < 128" using u b by (simp_all add: word_less_def)
    ultimately show ?thesis using True u by (auto simp: sleb.simps [of n] Let_def)
  next
    case False
    have u: "uint (of_int (?b + 128) :: byte) = ?b + 128" by (rule byte_of_small_int) (use b in linarith)+
    then have "\<not> (of_int (?b + 128) :: byte) < 64" "\<not> (of_int (?b + 128) :: byte) < 128" using b by (simp_all add: word_less_def)
    moreover have "d_sleb (sleb (n div 128) @ r) = Some (n div 128, r)" using 1 False by blast
    moreover have "sleb n = of_int (?b + 128) # sleb (n div 128)"
      using False by (simp only: sleb.simps [of n] Let_def if_False)
    ultimately show ?thesis using u by (simp del: of_int_add)
  qed
qed

section \<open>Encoders that a decoder reads back\<close>

locale prefix_codec =
  fixes enc :: "'a \<Rightarrow> byte list"
    and dec :: "'a decoder"
    and ok :: "'a \<Rightarrow> bool"
  assumes dec_enc: "ok x \<Longrightarrow> dec (enc x @ r) = Some (x, r)"
begin

lemma prefix_free: "ok x \<Longrightarrow> ok y \<Longrightarrow> enc x @ r = enc y @ r' \<Longrightarrow> x = y \<and> r = r'"
  by (metis dec_enc option.inject prod.inject)

lemma times: "list_all ok xs \<Longrightarrow> d_times (length xs) dec (concat (map enc xs) @ r) = Some (xs, r)"
  by (induction xs) (simp_all add: dec_enc)

lemma vec: "list_all ok xs \<Longrightarrow> length xs < 2 ^ 32 \<Longrightarrow> d_vec dec (asm_vec (map enc xs) @ r) = Some (xs, r)"
  by (simp add: d_vec_def asm_vec_def d_u32_def d_uleb_uleb times)

lemma sized: "ok x \<Longrightarrow> length (enc x) < 2 ^ 32 \<Longrightarrow> d_sized dec (uleb (length (enc x)) @ enc x @ r) = Some (x, r)"
  using dec_enc [of x "[]"] by (simp add: d_sized_def d_u32_def d_uleb_uleb)

lemma section_vec: "wf_vec enc ok xs \<Longrightarrow> d_section i dec (asm_sec i (asm_vec (map enc xs)) @ r) = Some (xs, r)"
  using vec [of xs "[]"]
  by (simp add: d_section_def asm_sec_def wf_vec_def d_sized_def d_u32_def d_uleb_uleb)

end

interpretation c_u32: prefix_codec uleb d_u32 "\<lambda>n. n < 2 ^ 32"
  by unfold_locales (simp add: d_u32_def d_uleb_uleb)

interpretation c_valtype: prefix_codec enc_valtype d_valtype "\<lambda>_. True"
  by unfold_locales (simp add: enc_valtype_def I32_def I64_def split: valtype.split)

interpretation c_byte: prefix_codec "\<lambda>b. [b]" d_byte "\<lambda>_. True"
  by unfold_locales simp

interpretation c_functype: prefix_codec enc_functype d_functype wf_functype
  by unfold_locales (auto simp: enc_functype_def d_functype_def wf_functype_def c_valtype.vec list_all_iff)

lemma d_bytes: "length bs < 2 ^ 32 \<Longrightarrow> d_vec d_byte (enc_bytes bs @ r) = Some (bs, r)"
  using c_byte.vec [of bs r] by (simp add: enc_bytes_def list_all_iff)

interpretation c_export: prefix_codec enc_export d_export wf_export
  by unfold_locales (auto simp: enc_export_def d_export_def wf_export_def d_bytes c_u32.dec_enc)

interpretation c_memory: prefix_codec enc_memory d_memory "\<lambda>n. n < 2 ^ 32"
  by unfold_locales (simp add: enc_memory_def d_memory_def c_u32.dec_enc)

interpretation c_local: prefix_codec enc_local d_local "\<lambda>l. fst l < 2 ^ 32"
  by unfold_locales (auto simp: enc_local_def d_local_def c_u32.dec_enc c_valtype.dec_enc)

section \<open>Instructions read back\<close>

lemma d_plain_enc:
  assumes "wf_instr i" and "\<And>is. i \<noteq> IfThen is"
  shows "\<exists>b t. enc_instr i = b # t \<and> b \<noteq> 0x0b \<and> b \<noteq> 0x04 \<and> d_plain b (t @ r) = Some (i, r)"
  using assms
  by (cases i) (auto simp: op_defs d_plain_def d_int_def d_sleb_sleb c_u32.dec_enc)

lemma d_instrs_enc:
  assumes "list_all wf_instr is" and "length (enc_expr is) \<le> k"
  shows "d_instrs k (enc_expr is @ r) = Some (is, r)"
  using assms
proof (induction k arbitrary: "is" r)
  case 0
  then show ?case by (simp add: enc_expr_def op_end_def)
next
  case (Suc k)
  show ?case
  proof (cases "is")
    case Nil
    then show ?thesis by (simp add: enc_expr_def op_end_def)
  next
    case (Cons i js)
    have js: "enc_expr is = enc_instr i @ enc_expr js" by (simp add: Cons enc_expr_def)
    show ?thesis
    proof (cases "\<exists>bd. i = IfThen bd")
      case True
      then obtain bd where bd: "i = IfThen bd" by blast
      have e: "enc_instr i = 0x04 # 0x40 # enc_expr bd" by (simp add: bd enc_expr_def op_ifv_def)
      have "length (enc_expr bd) \<le> k" "length (enc_expr js) \<le> k" using Suc.prems(2) by (simp_all add: js e)
      moreover have "list_all wf_instr bd" "list_all wf_instr js" using Suc.prems(1) by (simp_all add: Cons bd)
      ultimately have "d_instrs k (enc_expr bd @ enc_expr js @ r) = Some (bd, enc_expr js @ r)"
        "d_instrs k (enc_expr js @ r) = Some (js, r)"
        using Suc.IH by blast+
      then show ?thesis by (simp add: js e) (simp add: Cons bd)
    next
      case False
      then obtain b t where b: "enc_instr i = b # t" "b \<noteq> 0x0b" "b \<noteq> 0x04"
          "d_plain b (t @ enc_expr js @ r) = Some (i, enc_expr js @ r)"
        using d_plain_enc [of i "enc_expr js @ r"] Suc.prems(1) Cons by auto
      have "length (enc_expr js) \<le> k" "list_all wf_instr js" using Suc.prems by (simp_all add: js b(1)) (simp add: Cons)
      then have "d_instrs k (enc_expr js @ r) = Some (js, r)" by (intro Suc.IH)
      then show ?thesis using b by (simp add: js) (simp add: Cons)
    qed
  qed
qed

interpretation c_expr: prefix_codec enc_expr d_expr "list_all wf_instr"
  by unfold_locales (simp add: d_expr_def d_instrs_enc)

interpretation c_global: prefix_codec enc_global d_global wf_global
  by unfold_locales (auto simp: enc_global_def d_global_def wf_global_def c_valtype.dec_enc c_expr.dec_enc)

interpretation c_data: prefix_codec enc_data d_data wf_data
  by unfold_locales (auto simp: enc_data_def d_data_def wf_data_def c_expr.dec_enc d_bytes)

lemma d_code_enc: "wf_func_code c \<Longrightarrow> d_code (enc_code c @ r) = Some (c, r)"
  by (auto simp: wf_func_code_def d_code_def enc_code_def Let_def d_sized_def d_u32_def d_uleb_uleb c_local.vec
      c_expr.dec_enc [where r = "[]", simplified])

interpretation c_code: prefix_codec enc_code d_code wf_func_code
  by unfold_locales (rule d_code_enc)

section \<open>The module reads back\<close>

lemma decode_encode:
  assumes "wf_module m"
  shows "decode_module (encode_module m) = Some m"
proof -
  have t: "take 8 (magic @ r) = magic" "drop 8 (magic @ r) = r" for r by (simp_all add: magic_def)
  show ?thesis
    using assms unfolding decode_module_def encode_module_def t
    by (simp add: wf_module_def c_functype.section_vec c_u32.section_vec
        c_memory.section_vec c_global.section_vec c_export.section_vec c_code.section_vec
        c_data.section_vec [where r = "[]", simplified])
qed

end
