(* ===== verification/WasmExec.thy ===== *)
theory WasmExec
  imports WasmFormat
begin

text \<open>
  The execution and the validation of WebAssembly, for the instructions of \<open>WasmFormat\<close>, after the
  standard: a stack of 32- and 64-bit words, locals, globals, a memory of bytes, and traps for accesses
  outside it.  \<open>Stuck\<close> is what no validated module reaches; \<open>check_sound\<close> proves that.
\<close>

section \<open>Execution\<close>

datatype val = V32 "32 word" | V64 "64 word"

record frame =
  f_stack :: "val list"
  f_locals :: "val list"
  f_globals :: "val list"
  f_memory :: "byte list"

datatype wasm_outcome = Continues frame | Returned frame | Trapped | Stuck

definition push :: "val \<Rightarrow> frame \<Rightarrow> wasm_outcome" where
  "push v f = Continues (f\<lparr>f_stack := v # f_stack f\<rparr>)"

definition write_at :: "nat \<Rightarrow> byte list \<Rightarrow> byte list \<Rightarrow> byte list" where
  "write_at d bs mem = take d mem @ bs @ drop (d + length bs) mem"

definition unary :: "(val \<Rightarrow> val option) \<Rightarrow> frame \<Rightarrow> wasm_outcome" where
  "unary g f =
     (case f_stack f of
        a # s \<Rightarrow> (case g a of Some v \<Rightarrow> Continues (f\<lparr>f_stack := v # s\<rparr>) | None \<Rightarrow> Stuck)
      | [] \<Rightarrow> Stuck)"

definition binary :: "(val \<Rightarrow> val \<Rightarrow> val option) \<Rightarrow> frame \<Rightarrow> wasm_outcome" where
  "binary g f =
     (case f_stack f of
        b # a # s \<Rightarrow> (case g a b of Some v \<Rightarrow> Continues (f\<lparr>f_stack := v # s\<rparr>) | None \<Rightarrow> Stuck)
      | _ \<Rightarrow> Stuck)"

fun on32 :: "(32 word \<Rightarrow> 32 word \<Rightarrow> 32 word) \<Rightarrow> val \<Rightarrow> val \<Rightarrow> val option" where
  "on32 g (V32 a) (V32 b) = Some (V32 (g a b))"
| "on32 g _ _ = None"

fun on64 :: "(64 word \<Rightarrow> 64 word \<Rightarrow> 64 word) \<Rightarrow> val \<Rightarrow> val \<Rightarrow> val option" where
  "on64 g (V64 a) (V64 b) = Some (V64 (g a b))"
| "on64 g _ _ = None"

fun eqz32 :: "val \<Rightarrow> val option" where
  "eqz32 (V32 a) = Some (V32 (if a = 0 then 1 else 0))"
| "eqz32 _ = None"

fun extend32 :: "val \<Rightarrow> val option" where
  "extend32 (V32 a) = Some (V64 (ucast a))"
| "extend32 _ = None"

fun store8 :: "nat \<Rightarrow> frame \<Rightarrow> val list \<Rightarrow> wasm_outcome" where
  "store8 off f (V32 v # V32 a # s) =
     (if unat a + off < length (f_memory f)
      then Continues (f\<lparr>f_stack := s, f_memory := (f_memory f)[unat a + off := ucast v]\<rparr>) else Trapped)"
| "store8 off f _ = Stuck"

fun memcopy :: "frame \<Rightarrow> val list \<Rightarrow> wasm_outcome" where
  "memcopy f (V32 n # V32 src # V32 dst # s) =
     (if unat src + unat n \<le> length (f_memory f) \<and> unat dst + unat n \<le> length (f_memory f)
      then Continues (f\<lparr>f_stack := s,
             f_memory := write_at (unat dst) (take (unat n) (drop (unat src) (f_memory f))) (f_memory f)\<rparr>)
      else Trapped)"
| "memcopy f _ = Stuck"

fun exec_plain :: "instr \<Rightarrow> frame \<Rightarrow> wasm_outcome" where
  "exec_plain (I32Const v) f = push (V32 (of_int v)) f"
| "exec_plain (I64Const v) f = push (V64 (of_int v)) f"
| "exec_plain (LocalGet i) f = (if i < length (f_locals f) then push (f_locals f ! i) f else Stuck)"
| "exec_plain (LocalSet i) f =
     (case f_stack f of
        v # s \<Rightarrow> if i < length (f_locals f)
                 then Continues (f\<lparr>f_stack := s, f_locals := (f_locals f)[i := v]\<rparr>) else Stuck
      | [] \<Rightarrow> Stuck)"
| "exec_plain (GlobalGet i) f = (if i < length (f_globals f) then push (f_globals f ! i) f else Stuck)"
| "exec_plain (GlobalSet i) f =
     (case f_stack f of
        v # s \<Rightarrow> if i < length (f_globals f)
                 then Continues (f\<lparr>f_stack := s, f_globals := (f_globals f)[i := v]\<rparr>) else Stuck
      | [] \<Rightarrow> Stuck)"
| "exec_plain I32Eqz f = unary eqz32 f"
| "exec_plain I32GtU f = binary (on32 (\<lambda>a b. if b < a then 1 else 0)) f"
| "exec_plain I32Add f = binary (on32 (+)) f"
| "exec_plain I32And f = binary (on32 and) f"
| "exec_plain I32ShrU f = binary (on32 (\<lambda>a b. drop_bit (unat b mod 32) a)) f"
| "exec_plain (I32Store8 off) f = store8 off f (f_stack f)"
| "exec_plain I64ExtendI32U f = unary extend32 f"
| "exec_plain I64Shl f = binary (on64 (\<lambda>a b. push_bit (unat b mod 64) a)) f"
| "exec_plain I64Or f = binary (on64 or) f"
| "exec_plain MemoryCopy f = memcopy f (f_stack f)"
| "exec_plain FuncReturn f = Returned f"
| "exec_plain (IfThen is) f = Stuck"

fun exec :: "instr list \<Rightarrow> frame \<Rightarrow> wasm_outcome" where
  "exec [] f = Continues f"
| "exec (i # is) f =
     (case i of
        IfThen bd \<Rightarrow>
          (case f_stack f of
             V32 c # s \<Rightarrow>
               if c = 0 then exec is (f\<lparr>f_stack := s\<rparr>)
               else (case exec bd (f\<lparr>f_stack := s\<rparr>) of Continues f' \<Rightarrow> exec is f' | r \<Rightarrow> r)
           | _ \<Rightarrow> Stuck)
      | _ \<Rightarrow> (case exec_plain i f of Continues f' \<Rightarrow> exec is f' | r \<Rightarrow> r))"

lemma exec_append: "exec (is @ js) f = (case exec is f of Continues f' \<Rightarrow> exec js f' | r \<Rightarrow> r)"
proof (induction "is" arbitrary: f)
  case (Cons i "is")
  then show ?case by (cases i) (auto split: wasm_outcome.splits list.splits val.splits)
qed simp

section \<open>Instances and calls\<close>

record wasm_instance =
  i_globals :: "val list"
  i_memory :: "byte list"

datatype call_result = Answer "val list" wasm_instance | CallTrapped | CallStuck

fun zero_val :: "valtype \<Rightarrow> val" where
  "zero_val T32 = V32 0"
| "zero_val T64 = V64 0"

definition local_types :: "func_code \<Rightarrow> valtype list" where
  "local_types c = concat (map (\<lambda>(n, t). replicate n t) (fc_locals c))"

definition func_type :: "wmodule \<Rightarrow> nat \<Rightarrow> valtype list \<times> valtype list" where
  "func_type m i = m_types m ! (m_funcs m ! i)"

definition call_func :: "wmodule \<Rightarrow> nat \<Rightarrow> val list \<Rightarrow> wasm_instance \<Rightarrow> call_result" where
  "call_func m i args inst =
     (let c = m_codes m ! i;
          f = \<lparr>f_stack = [], f_locals = args @ map zero_val (local_types c), f_globals = i_globals inst,
               f_memory = i_memory inst\<rparr> in
      case exec (fc_body c) f of
        Continues f' \<Rightarrow> Answer (f_stack f') \<lparr>i_globals = f_globals f', i_memory = f_memory f'\<rparr>
      | Returned f' \<Rightarrow> Answer (take (length (snd (func_type m i))) (f_stack f'))
                         \<lparr>i_globals = f_globals f', i_memory = f_memory f'\<rparr>
      | Trapped \<Rightarrow> CallTrapped
      | Stuck \<Rightarrow> CallStuck)"

text \<open>A constant expression, evaluated with nothing on the stack.\<close>

definition const_val :: "instr list \<Rightarrow> val option" where
  "const_val is =
     (case exec is \<lparr>f_stack = [], f_locals = [], f_globals = [], f_memory = []\<rparr> of
        Continues f \<Rightarrow> (case f_stack f of [v] \<Rightarrow> Some v | _ \<Rightarrow> None)
      | _ \<Rightarrow> None)"

fun init_globals :: "(valtype \<times> instr list) list \<Rightarrow> val list option" where
  "init_globals [] = Some []"
| "init_globals ((t, is) # gs) =
     (case (const_val is, init_globals gs) of (Some v, Some vs) \<Rightarrow> Some (v # vs) | _ \<Rightarrow> None)"

fun init_data :: "(instr list \<times> byte list) list \<Rightarrow> byte list \<Rightarrow> byte list option" where
  "init_data [] mem = Some mem"
| "init_data ((is, bs) # ds) mem =
     (case const_val is of
        Some (V32 a) \<Rightarrow> if unat a + length bs \<le> length mem then init_data ds (write_at (unat a) bs mem) else None
      | _ \<Rightarrow> None)"

definition instantiate :: "wmodule \<Rightarrow> wasm_instance option" where
  "instantiate m =
     (case (m_memory m, init_globals (m_globals m)) of
        ([pages], Some gs) \<Rightarrow>
          (case init_data (m_data m) (replicate (65536 * pages) 0) of
             Some mem \<Rightarrow> Some \<lparr>i_globals = gs, i_memory = mem\<rparr>
           | None \<Rightarrow> None)
      | _ \<Rightarrow> None)"

section \<open>Validation\<close>

fun type_of :: "val \<Rightarrow> valtype" where
  "type_of (V32 w) = T32"
| "type_of (V64 w) = T64"

record wasm_context =
  t_locals :: "valtype list"
  t_globals :: "valtype list"
  t_return :: "valtype list"

fun check_plain :: "wasm_context \<Rightarrow> instr \<Rightarrow> valtype list \<Rightarrow> valtype list option" where
  "check_plain c (I32Const v) ts = Some (T32 # ts)"
| "check_plain c (I64Const v) ts = Some (T64 # ts)"
| "check_plain c (LocalGet i) ts = (if i < length (t_locals c) then Some (t_locals c ! i # ts) else None)"
| "check_plain c (LocalSet i) (t # ts) = (if i < length (t_locals c) \<and> t = t_locals c ! i then Some ts else None)"
| "check_plain c (GlobalGet i) ts = (if i < length (t_globals c) then Some (t_globals c ! i # ts) else None)"
| "check_plain c (GlobalSet i) (t # ts) = (if i < length (t_globals c) \<and> t = t_globals c ! i then Some ts else None)"
| "check_plain c I32Eqz (T32 # ts) = Some (T32 # ts)"
| "check_plain c I32GtU (T32 # T32 # ts) = Some (T32 # ts)"
| "check_plain c I32Add (T32 # T32 # ts) = Some (T32 # ts)"
| "check_plain c I32And (T32 # T32 # ts) = Some (T32 # ts)"
| "check_plain c I32ShrU (T32 # T32 # ts) = Some (T32 # ts)"
| "check_plain c (I32Store8 off) (T32 # T32 # ts) = Some ts"
| "check_plain c I64ExtendI32U (T32 # ts) = Some (T64 # ts)"
| "check_plain c I64Shl (T64 # T64 # ts) = Some (T64 # ts)"
| "check_plain c I64Or (T64 # T64 # ts) = Some (T64 # ts)"
| "check_plain c MemoryCopy (T32 # T32 # T32 # ts) = Some ts"
| "check_plain c i ts = None"

text \<open>
  A sequence either ends with a typed stack or has left by \<open>return\<close>; nothing may follow a \<open>return\<close> here,
  which is stricter than the standard.
\<close>

datatype end_type = Ends "valtype list" | Leaves

fun check :: "wasm_context \<Rightarrow> instr list \<Rightarrow> valtype list \<Rightarrow> end_type option" where
  "check c [] ts = Some (Ends ts)"
| "check c (i # is) ts =
     (case i of
        IfThen bd \<Rightarrow>
          (case ts of
             T32 # ts' \<Rightarrow>
               (case check c bd [] of
                  Some (Ends []) \<Rightarrow> check c is ts'
                | Some Leaves \<Rightarrow> check c is ts'
                | _ \<Rightarrow> None)
           | _ \<Rightarrow> None)
      | FuncReturn \<Rightarrow> if is = [] \<and> take (length (t_return c)) ts = t_return c then Some Leaves else None
      | _ \<Rightarrow> (case check_plain c i ts of Some ts' \<Rightarrow> check c is ts' | None \<Rightarrow> None))"

definition check_func :: "wmodule \<Rightarrow> nat \<Rightarrow> bool" where
  "check_func m i =
     (let c = m_codes m ! i; (ps, rs) = func_type m i in
      check \<lparr>t_locals = ps @ local_types c, t_globals = map fst (m_globals m), t_return = rs\<rparr> (fc_body c) [] =
        Some (Ends rs))"

section \<open>Validated code does not get stuck\<close>

definition frame_ok :: "wasm_context \<Rightarrow> nat \<Rightarrow> frame \<Rightarrow> bool" where
  "frame_ok c n f \<longleftrightarrow> map type_of (f_locals f) = t_locals c \<and> map type_of (f_globals f) = t_globals c \<and>
     length (f_memory f) = n"

definition stack_ok :: "val list \<Rightarrow> valtype list \<Rightarrow> frame \<Rightarrow> bool" where
  "stack_ok rest ts f \<longleftrightarrow> (\<exists>vs. f_stack f = vs @ rest \<and> map type_of vs = ts)"

fun result_ok :: "wasm_context \<Rightarrow> nat \<Rightarrow> val list \<Rightarrow> end_type \<Rightarrow> wasm_outcome \<Rightarrow> bool" where
  "result_ok c n rest r (Continues f) \<longleftrightarrow> frame_ok c n f \<and> (\<exists>ts. r = Ends ts \<and> stack_ok rest ts f)"
| "result_ok c n rest r (Returned f) \<longleftrightarrow> frame_ok c n f \<and> map type_of (take (length (t_return c)) (f_stack f)) = t_return c"
| "result_ok c n rest r Trapped \<longleftrightarrow> True"
| "result_ok c n rest r Stuck \<longleftrightarrow> False"

lemma type_of_iff [simp]: "type_of v = T32 \<longleftrightarrow> (\<exists>w. v = V32 w)" "type_of v = T64 \<longleftrightarrow> (\<exists>w. v = V64 w)"
  "T32 = type_of v \<longleftrightarrow> (\<exists>w. v = V32 w)" "T64 = type_of v \<longleftrightarrow> (\<exists>w. v = V64 w)"
  by (cases v; simp)+

lemma length_write_at [simp]: "d + length bs \<le> length mem \<Longrightarrow> length (write_at d bs mem) = length mem"
  by (simp add: write_at_def)

lemma stack_ok_Cons:
  "stack_ok rest (t # ts) f \<longleftrightarrow> (\<exists>v s. f_stack f = v # s \<and> type_of v = t \<and> stack_ok rest ts (f\<lparr>f_stack := s\<rparr>))"
  by (auto simp: stack_ok_def map_eq_Cons_conv)

lemma check_plain_sound:
  assumes "check_plain c i ts = Some ts'" and "stack_ok rest ts f" and "frame_ok c n f"
  shows "exec_plain i f = Trapped \<or> (\<exists>f'. exec_plain i f = Continues f' \<and> frame_ok c n f' \<and> stack_ok rest ts' f')"
proof -
  obtain vs where vs: "f_stack f = vs @ rest" "ts = map type_of vs" using assms(2) by (auto simp: stack_ok_def)
  have len: "length (f_locals f) = length (t_locals c)" "length (f_globals f) = length (t_globals c)"
    "\<And>i. i < length (t_locals c) \<Longrightarrow> type_of (f_locals f ! i) = t_locals c ! i"
    "\<And>i. i < length (t_globals c) \<Longrightarrow> type_of (f_globals f ! i) = t_globals c ! i"
    using assms(3) by (auto simp: frame_ok_def) (metis length_map, metis length_map, metis length_map nth_map, metis length_map nth_map)
  have upd: "map type_of (xs[i := v]) = ys" if "map type_of xs = ys" "type_of v = ys ! i" for xs ys i v
    using that by (metis list_update_id map_update)
  show ?thesis
    using assms(1,3) vs
    by (cases "(c, i, ts)" rule: check_plain.cases)
      (auto simp: push_def unary_def binary_def frame_ok_def stack_ok_def len map_eq_Cons_conv Cons_eq_map_conv upd
        split: if_splits)
qed

lemma check_sound:
  assumes "check c is ts = Some r" and "stack_ok rest ts f" and "frame_ok c n f"
  shows "result_ok c n rest r (exec is f)"
  using assms
proof (induction c "is" ts arbitrary: r f rest rule: check.induct)
  case (1 c ts)
  then show ?case by auto
next
  case (2 c i "is" ts)
  show ?case
  proof (cases "\<exists>bd. i = IfThen bd")
    case True
    then obtain bd where i: "i = IfThen bd" by blast
    obtain ts' where ts: "ts = T32 # ts'" using "2.prems"(1) by (auto simp: i split: list.splits valtype.splits)
    obtain e where e: "check c bd [] = Some e" "e = Ends [] \<or> e = Leaves" "check c is ts' = Some r"
      using "2.prems"(1) by (auto simp: i ts split: option.splits end_type.splits list.splits)
    obtain w s where s: "f_stack f = V32 w # s" "stack_ok rest ts' (f\<lparr>f_stack := s\<rparr>)"
      using "2.prems"(2) by (auto simp: ts stack_ok_Cons)
    have fr: "frame_ok c n (f\<lparr>f_stack := s\<rparr>)" using "2.prems"(3) by (simp add: frame_ok_def)
    have rest: "result_ok c n rest r (exec is f')" if "stack_ok rest ts' f'" "frame_ok c n f'" for f'
      using "2.IH" e i ts that by fastforce
    have "stack_ok s [] (f\<lparr>f_stack := s\<rparr>)" by (simp add: stack_ok_def)
    then have bd: "result_ok c n s e (exec bd (f\<lparr>f_stack := s\<rparr>))" using "2.IH" e(1) i ts fr by fastforce
    show ?thesis
    proof (cases "exec bd (f\<lparr>f_stack := s\<rparr>)")
      case (Continues f')
      then have "f_stack f' = s" "frame_ok c n f'" using bd e(2) by (auto simp: stack_ok_def)
      moreover from this have "stack_ok rest ts' f'" using s(2) by (simp add: stack_ok_def)
      ultimately show ?thesis using rest s fr Continues by (simp add: i)
    qed (use bd rest s fr in \<open>auto simp: i\<close>)
  next
    case False
    note no_if = this
    show ?thesis
    proof (cases "i = FuncReturn")
      case True
      obtain vs where vs: "f_stack f = vs @ rest" "ts = map type_of vs" using "2.prems"(2) by (auto simp: stack_ok_def)
      have r: "r = Leaves" "is = []" "take (length (t_return c)) ts = t_return c"
        using "2.prems"(1) True by (auto split: if_splits)
      then have "length (t_return c) \<le> length vs" using vs(2) by (metis length_map length_take min.absorb_iff2 min.commute)
      then show ?thesis using "2.prems"(3) r vs True by (simp add: take_map [symmetric])
    next
      case False
      have chk: "check c (i # is) ts = (case check_plain c i ts of Some ts' \<Rightarrow> check c is ts' | None \<Rightarrow> None)"
        using no_if False by (cases i) auto
      have exe: "exec (i # is) f = (case exec_plain i f of Continues f' \<Rightarrow> exec is f' | r \<Rightarrow> r)"
        using no_if by (cases i) auto
      obtain ts' where ts': "check_plain c i ts = Some ts'" "check c is ts' = Some r"
        using "2.prems"(1) by (auto simp only: chk split: option.splits)
      from check_plain_sound [OF ts'(1) "2.prems"(2,3)] show ?thesis
      proof
        assume "exec_plain i f = Trapped"
        then show ?thesis by (simp only: exe) simp
      next
        assume "\<exists>f'. exec_plain i f = Continues f' \<and> frame_ok c n f' \<and> stack_ok rest ts' f'"
        then obtain f' where f': "exec_plain i f = Continues f'" "frame_ok c n f'" "stack_ok rest ts' f'" by blast
        have "result_ok c n rest r (exec is f')"
          using "2.IH" ts' f'(2,3) no_if False by (cases i) auto
        then show ?thesis by (simp only: exe f'(1) wasm_outcome.case)
      qed
    qed
  qed
qed

text \<open>A call of a checked function with arguments of its type answers with results of its type, or traps.\<close>

definition instance_ok :: "wmodule \<Rightarrow> wasm_instance \<Rightarrow> bool" where
  "instance_ok m inst \<longleftrightarrow> map type_of (i_globals inst) = map fst (m_globals m)"

lemma type_of_zero [simp]: "type_of (zero_val t) = t"
  by (cases t) simp_all

lemma call_sound:
  assumes "check_func m i" and "instance_ok m inst" and "map type_of args = fst (func_type m i)"
  shows "call_func m i args inst = CallTrapped \<or>
    (\<exists>vs inst'. call_func m i args inst = Answer vs inst' \<and> map type_of vs = snd (func_type m i) \<and>
       instance_ok m inst' \<and> length (i_memory inst') = length (i_memory inst))"
proof -
  obtain ps rs where t: "func_type m i = (ps, rs)" by (cases "func_type m i")
  let ?k = "m_codes m ! i"
  let ?c = "\<lparr>t_locals = ps @ local_types ?k, t_globals = map fst (m_globals m), t_return = rs\<rparr>"
  let ?f = "\<lparr>f_stack = [], f_locals = args @ map zero_val (local_types ?k), f_globals = i_globals inst,
      f_memory = i_memory inst\<rparr>"
  have c: "check ?c (fc_body ?k) [] = Some (Ends rs)" using assms(1) by (simp add: check_func_def t Let_def)
  have fr: "frame_ok ?c (length (i_memory inst)) ?f"
    using assms(2,3) by (simp add: frame_ok_def instance_ok_def t o_def)
  have "result_ok ?c (length (i_memory inst)) [] (Ends rs) (exec (fc_body ?k) ?f)"
    by (rule check_sound [OF c _ fr]) (simp add: stack_ok_def)
  then show ?thesis
    by (cases "exec (fc_body ?k) ?f") (auto simp: call_func_def t frame_ok_def instance_ok_def stack_ok_def)
qed

end
