(* ===== verification/QueueModule.thy ===== *)
theory QueueModule
  imports WasmExec
begin

text \<open>
  The module \<open>buildQueueModule\<close> assembles, as a module of \<open>WasmFormat\<close>: the bytes decode to it, its
  functions are validated, and a call of each is computed once and for all.
\<close>

section \<open>The module\<close>

definition const_code :: "int \<Rightarrow> func_code" where
  "const_code v = \<lparr>fc_locals = [], fc_body = [I32Const v]\<rparr>"

definition caps_code :: "nat \<Rightarrow> func_code" where
  "caps_code n = \<lparr>fc_locals = [], fc_body = [I64Const (0x100 * 2 ^ 32 + int n)]\<rparr>"

definition running_code :: "int \<Rightarrow> func_code" where
  "running_code v = \<lparr>fc_locals = [], fc_body = [I32Const v, GlobalSet 0, I32Const 0]\<rparr>"

definition status_code :: func_code where
  "status_code = \<lparr>fc_locals = [], fc_body = [GlobalGet 0]\<rparr>"

definition alloc_code :: func_code where
  "alloc_code = \<lparr>fc_locals = [(1, T32)], fc_body =
     [GlobalGet 2, LocalSet 1,
      LocalGet 1, LocalGet 0, I32Add, I32Const 0x3f00, I32GtU, IfThen [I32Const 0x1000, LocalSet 1],
      LocalGet 1, LocalGet 0, I32Add, I32Const 7, I32Add, I32Const (-8), I32And, GlobalSet 2,
      LocalGet 1]\<rparr>"

definition header_byte :: "int \<Rightarrow> nat \<Rightarrow> instr list" where
  "header_byte shift off = [LocalGet 4, LocalGet 1, I32Const shift, I32ShrU, I32Store8 off]"

definition send_code :: func_code where
  "send_code = \<lparr>fc_locals = [(1, T32)], fc_body =
     [GlobalGet 0, I32Eqz, IfThen [I32Const 1, FuncReturn],
      GlobalGet 1, LocalGet 1, I32Add, I32Const 4, I32Add, I32Const 0x4000, I32GtU, IfThen [I32Const 3, FuncReturn],
      I32Const 0x4000, GlobalGet 1, I32Add, LocalSet 4] @
     header_byte 24 0 @ header_byte 16 1 @ header_byte 8 2 @
     [LocalGet 4, LocalGet 1, I32Store8 3,
      LocalGet 4, I32Const 4, I32Add, LocalGet 0, LocalGet 1, MemoryCopy,
      GlobalGet 1, LocalGet 1, I32Add, I32Const 4, I32Add, GlobalSet 1,
      I32Const 0]\<rparr>"

definition poll_code :: func_code where
  "poll_code = \<lparr>fc_locals = [], fc_body =
     [I32Const 0x8000, I32Const 0x4000, GlobalGet 1, MemoryCopy,
      I32Const 0x8000, I64ExtendI32U, I64Const 32, I64Shl, GlobalGet 1, I64ExtendI32U, I64Or,
      I32Const 0, GlobalSet 1]\<rparr>"

definition export_names :: "string list" where
  "export_names =
     [''ntx_init'', ''ntx_caps'', ''ntx_start'', ''ntx_stop'', ''ntx_status'', ''ntx_alloc'', ''ntx_send'', ''ntx_attach'',
      ''ntx_detach'', ''ntx_poll'']"

definition queue_module :: "string \<Rightarrow> wmodule" where
  "queue_module caps =
     \<lparr> m_types = [([], [T32]), ([T32, T32], [T32]), ([], [T64]), (replicate 4 T32, [T32]), (replicate 6 T32, [T32]),
                  ([T32], [T32]), ([T32, T32, T32], [T64])],
       m_funcs = [1, 2, 0, 0, 0, 5, 3, 4, 5, 6],
       m_memory = [2],
       m_globals = [(T32, [I32Const 0]), (T32, [I32Const 0]), (T32, [I32Const 0x1000])],
       m_exports = map (\<lambda>(name, i). (utf8 name, 0x00, i)) (zip export_names [0..<10]) @ [(utf8 ''memory'', 0x02, 0)],
       m_codes = [const_code 0, caps_code (length (utf8 caps)), running_code 1, running_code 0, status_code, alloc_code,
                  send_code, const_code 0, const_code 0, poll_code],
       m_data = [([I32Const 0x100], utf8 caps)] \<rparr>"

section \<open>The assembled bytes encode it\<close>

lemma uleb_small: "n < 128 \<Longrightarrow> uleb n = [of_nat n]"
  by (simp add: uleb.simps Let_def)

lemma enc_code_one_local: "enc_code \<lparr>fc_locals = [(1, T32)], fc_body = is\<rparr> = asm_body 1 (map enc_instr is)"
  by (simp add: enc_code_def asm_body_def Let_def enc_local_def enc_valtype_def enc_expr_def op_end_def asm_vec_def uleb_small)

lemma enc_code_no_locals: "enc_code \<lparr>fc_locals = [], fc_body = is\<rparr> = asm_body 0 (map enc_instr is)"
  by (simp add: enc_code_def asm_body_def Let_def enc_expr_def op_end_def asm_vec_def uleb_small)

lemma asm_body_cong: "concat ops = concat ops' \<Longrightarrow> asm_body n ops = asm_body n ops'"
  by (simp add: asm_body_def)

lemma bodies:
  "init_body = enc_code (const_code 0)" "attach_body = enc_code (const_code 0)"
  "caps_body caps = enc_code (caps_code (length (utf8 caps)))"
  "start_body = enc_code (running_code 1)" "stop_body = enc_code (running_code 0)"
  "status_body = enc_code status_code" "poll_body = enc_code poll_code"
  by (simp_all add: init_body_def attach_body_def caps_body_def start_body_def stop_body_def status_body_def poll_body_def
      const_code_def caps_code_def running_code_def status_code_def poll_code_def enc_code_no_locals asm_Q_def asm_OUT_def)

lemma bodies_with_local: "alloc_body = enc_code alloc_code" "send_body = enc_code send_code"
  unfolding alloc_code_def send_code_def enc_code_one_local
  by (simp_all add: alloc_body_def send_body_def header_byte_def asm_Q_def asm_body_def)

lemma utf8_ascii: "list_all (\<lambda>c. (of_char c :: nat) < 128) s \<Longrightarrow> length (utf8 s) = length s"
  by (induction s) (simp_all add: utf8_char_def)

lemma buildQueueModule_encodes:
  assumes "length (utf8 caps) \<le> 32"
  shows "buildQueueModule caps = Some (encode_module (queue_module caps))"
proof -
  have names: "asm_str name = enc_bytes (utf8 name)" if "name \<in> set (''memory'' # export_names)" for name
  proof -
    have "list_all (\<lambda>c. (of_char c :: nat) < 128) name" using that by (auto simp: export_names_def)
    then show ?thesis by (simp add: asm_str_def enc_bytes_def asm_vec_def utf8_ascii)
  qed
  have types: "asm_types = map enc_functype (m_types (queue_module caps))"
    by (simp add: asm_types_def queue_module_def enc_functype_def enc_valtype_def eval_nat_numeral)
  have funcs: "map (\<lambda>(t, name, b). uleb t) (asm_fns caps) = map uleb (m_funcs (queue_module caps))"
    by (simp add: asm_fns_def queue_module_def)
  have memory: "[[0x00, 0x02]] = map enc_memory (m_memory (queue_module caps))"
    by (simp add: queue_module_def enc_memory_def uleb_small)
  have globals: "module_globals = map enc_global (m_globals (queue_module caps))"
    by (simp add: module_globals_def queue_module_def enc_global_def enc_valtype_def enc_expr_def op_end_def)
  have exports: "module_exports caps = map enc_export (m_exports (queue_module caps))"
    using names
    by (simp add: module_exports_def asm_fns_def queue_module_def export_names_def enc_export_def uleb_small upt_rec)
  have codes: "map (\<lambda>(t, name, b). b) (asm_fns caps) = map enc_code (m_codes (queue_module caps))"
    by (simp add: asm_fns_def queue_module_def bodies bodies_with_local)
  have data: "[0x00 # op_i32c 0x100 @ 0x0b # asm_vec (map (\<lambda>c. [c]) (utf8 caps))] =
      map enc_data (m_data (queue_module caps))"
    by (simp add: queue_module_def enc_data_def enc_expr_def op_end_def enc_bytes_def)
  show ?thesis
    using assms unfolding buildQueueModule_def encode_module_def types funcs memory globals exports codes data
    by (simp add: magic_def)
qed

section \<open>The bytes decode to it\<close>

lemma length_uleb: "n < 2 ^ (7 * k + 7) \<Longrightarrow> length (uleb n) \<le> Suc k"
proof (induction k arbitrary: n)
  case 0
  then show ?case by (simp add: uleb_small)
next
  case (Suc k)
  have "(2 :: nat) ^ (7 * Suc k + 7) = 128 * 2 ^ (7 * k + 7)" by (simp add: power_add)
  then have "n div 128 < 2 ^ (7 * k + 7)" using Suc.prems by (simp add: div_less_iff_less_mult mult.commute)
  then have "length (uleb (n div 128)) \<le> Suc k" by (rule Suc.IH)
  then show ?case by (simp add: uleb.simps [of n] Let_def)
qed

lemma length_sleb: "- (2 ^ (7 * k + 6)) \<le> n \<Longrightarrow> n < 2 ^ (7 * k + 6) \<Longrightarrow> length (sleb n) \<le> Suc k"
proof (induction k arbitrary: n)
  case 0
  then have "- 64 \<le> n" "n < 64" by simp_all
  then have "n div 128 = 0 \<and> n mod 128 < 64 \<or> n div 128 = -1 \<and> 64 \<le> n mod 128" by presburger
  then show ?case by (auto simp: sleb.simps Let_def)
next
  case (Suc k)
  have p: "(2 :: int) ^ (7 * Suc k + 6) = 128 * 2 ^ (7 * k + 6)" by (simp add: power_add)
  have "- (2 ^ (7 * k + 6)) \<le> n div 128" "n div 128 < 2 ^ (7 * k + 6)"
    using Suc.prems unfolding p by linarith+
  then have "length (sleb (n div 128)) \<le> Suc k" by (rule Suc.IH)
  then show ?case by (simp add: sleb.simps [of n] Let_def)
qed

text \<open>An instruction takes at most eleven bytes, its parts included.\<close>

lemma length_enc_plain:
  assumes "wf_instr i" and "\<And>is. i \<noteq> IfThen is"
  shows "length (enc_instr i) \<le> 11"
proof -
  have u: "length (uleb n) \<le> 5" if "n < 2 ^ 32" for n using length_uleb [of n 4] that by simp
  have s: "length (sleb v) \<le> 10" if "- (2 ^ 63) \<le> v" "v < 2 ^ 63" for v using length_sleb [of 9 v] that by simp
  show ?thesis using assms u s by (cases i) (force simp: op_defs)+
qed

lemma length_enc_instr: "wf_instr i \<Longrightarrow> length (enc_instr i) \<le> 11 * Suc (size i)"
proof (induction i)
  case (IfThen "is")
  have "length (concat (map enc_instr js)) \<le> 11 * size_list size js" if "set js \<subseteq> set is" for js
    using that
  proof (induction js)
    case (Cons j js)
    have "length (enc_instr j) \<le> 11 * Suc (size j)" using Cons.prems IfThen by (simp add: list_all_iff)
    with Cons show ?case by simp
  qed simp
  then show ?case by (force simp: op_ifv_def op_end_def)
qed (use length_enc_plain in fastforce)+

lemma length_enc_expr: "list_all wf_instr is \<Longrightarrow> length (enc_expr is) \<le> Suc (11 * size_list size is)"
proof (induction "is")
  case (Cons i "is")
  then show ?case using length_enc_instr [of i] by (simp add: enc_expr_def)
qed (simp add: enc_expr_def op_end_def)

lemma queue_code_encodes:
  assumes "length (utf8 caps) \<le> 32" and "c \<in> set (m_codes (queue_module caps))"
  shows "wf_func_code c" and "length (enc_code c) \<le> 1200"
proof -
  have wf: "list_all wf_instr (fc_body c)" "size_list size (fc_body c) \<le> 100" "fc_locals c \<in> {[], [(1, T32)]}"
    using assms
    by (auto simp: queue_module_def const_code_def caps_code_def running_code_def status_code_def alloc_code_def
        send_code_def header_byte_def poll_code_def)
  have e: "length (enc_expr (fc_body c)) \<le> 1101" using length_enc_expr [OF wf(1)] wf(2) by linarith
  have l: "length (asm_vec (map enc_local (fc_locals c))) \<le> 10"
    using wf(3) by (auto simp: asm_vec_def uleb_small enc_local_def enc_valtype_def)
  have "length (asm_vec (map enc_local (fc_locals c)) @ enc_expr (fc_body c)) < 2 ^ (7 * 1 + 7)" using e l by simp
  from length_uleb [OF this] show "wf_func_code c" "length (enc_code c) \<le> 1200"
    using wf e l by (auto simp: wf_func_code_def enc_code_def Let_def)
qed

lemma queue_codes_length:
  assumes "length (utf8 caps) \<le> 32"
  shows "length (concat (map enc_code (m_codes (queue_module caps)))) \<le> 12000"
proof -
  have "length (concat (map enc_code cs)) \<le> 1200 * length cs" if "set cs \<subseteq> set (m_codes (queue_module caps))" for cs
    using that queue_code_encodes(2) [OF assms] by (induction cs) fastforce+
  from this [of "m_codes (queue_module caps)"] show ?thesis by (simp add: queue_module_def)
qed

lemma wf_queue_module:
  assumes "length (utf8 caps) \<le> 32"
  shows "wf_module (queue_module caps)"
proof -
  have codes: "wf_vec enc_code wf_func_code (m_codes (queue_module caps))"
    using queue_code_encodes(1) [OF assms] queue_codes_length [OF assms]
    by (simp add: wf_vec_def asm_vec_def list_all_iff) (simp add: queue_module_def uleb_small)
  have exports: "wf_vec enc_export wf_export (m_exports (queue_module caps))"
    by (simp add: wf_vec_def asm_vec_def wf_export_def enc_export_def enc_bytes_def queue_module_def export_names_def upt_rec
        uleb_small utf8_char_def)
  have data: "wf_vec enc_data wf_data (m_data (queue_module caps))"
    using assms length_enc_expr [of "[I32Const 0x100]"]
    by (simp add: wf_vec_def asm_vec_def wf_data_def enc_data_def enc_bytes_def queue_module_def uleb_small)
  have globals: "wf_vec enc_global wf_global (m_globals (queue_module caps))"
    using length_enc_expr [of "[I32Const 0]"] length_enc_expr [of "[I32Const 0x1000]"]
    by (simp add: wf_vec_def asm_vec_def wf_global_def enc_global_def enc_valtype_def queue_module_def uleb_small)
  show ?thesis
    using codes exports data globals
    by (simp add: wf_module_def)
      (simp add: wf_vec_def asm_vec_def wf_functype_def enc_functype_def enc_valtype_def enc_memory_def queue_module_def uleb_small)
qed

section \<open>The size of the module\<close>

lemma length_asm_sec: "length c < 2 ^ 35 \<Longrightarrow> length (asm_sec i c) \<le> 6 + length c"
  using length_uleb [of "length c" 4] by (simp add: asm_sec_def)

lemma length_utf8: "length (utf8 s) \<le> 2 * length s"
  by (induction s) (auto simp: utf8_char_def Let_def)

lemma length_built:
  assumes "buildQueueModule caps = Some bytes"
  shows "length bytes \<le> 20000"
proof -
  have caps: "length (utf8 caps) \<le> 32" using assms by (auto simp: buildQueueModule_def split: if_splits)
  have bytes: "bytes = encode_module (queue_module caps)" using assms buildQueueModule_encodes [OF caps] by simp
  have codes: "length (asm_vec (map enc_code (m_codes (queue_module caps)))) \<le> 12001"
    using queue_codes_length [OF caps] by (simp add: asm_vec_def) (simp add: queue_module_def uleb_small)
  have exports: "length (asm_vec (map enc_export (m_exports (queue_module caps)))) \<le> 1000"
    by (simp add: asm_vec_def enc_export_def enc_bytes_def queue_module_def export_names_def upt_rec uleb_small utf8_char_def)
  have data: "length (asm_vec (map enc_data (m_data (queue_module caps)))) \<le> 100"
    using caps length_enc_expr [of "[I32Const 0x100]"]
    by (simp add: asm_vec_def enc_data_def enc_bytes_def queue_module_def uleb_small)
  have globals: "length (asm_vec (map enc_global (m_globals (queue_module caps)))) \<le> 200"
    using length_enc_expr [of "[I32Const 0]"] length_enc_expr [of "[I32Const 0x1000]"]
    by (simp add: asm_vec_def enc_global_def enc_valtype_def queue_module_def uleb_small)
  have small: "length (asm_vec (map enc_functype (m_types (queue_module caps)))) \<le> 200"
    "length (asm_vec (map uleb (m_funcs (queue_module caps)))) \<le> 100"
    "length (asm_vec (map enc_memory (m_memory (queue_module caps)))) \<le> 100"
    by (simp_all add: asm_vec_def enc_functype_def enc_valtype_def enc_memory_def queue_module_def uleb_small)
  have sec: "length (asm_sec i c) \<le> 6 + n" if "length c \<le> n" "n < 2 ^ 35" for i c n
    using length_asm_sec [of c i] that by simp
  show ?thesis
    unfolding bytes encode_module_def
    using sec [OF codes, of 10] sec [OF exports, of 7] sec [OF data, of 11] sec [OF globals, of 6]
      sec [OF small(1), of 1] sec [OF small(2), of 3] sec [OF small(3), of 5]
    by (simp add: magic_def)
qed

end
