(* ===== verification/QueueRuns.thy ===== *)
theory QueueRuns
  imports QueueModule
begin

text \<open>
  A call of each function of the queue module, computed: the globals \<open>G0\<close> (running), \<open>G1\<close> (bytes queued)
  and \<open>G2\<close> (next free byte of the heap), and the memory, before and after.
\<close>

section \<open>Every function is validated\<close>

lemma queue_functions_checked:
  assumes "i < 10"
  shows "check_func (queue_module caps) i"
proof -
  have "i \<in> {0, 1, 2, 3, 4, 5, 6, 7, 8, 9}" using assms by auto
  then show ?thesis
    by (elim insertE emptyE)
      (simp_all add: check_func_def func_type_def queue_module_def const_code_def caps_code_def running_code_def
        status_code_def alloc_code_def send_code_def poll_code_def header_byte_def local_types_def eval_nat_numeral)
qed

section \<open>States\<close>

definition queue_state :: "32 word \<Rightarrow> 32 word \<Rightarrow> 32 word \<Rightarrow> byte list \<Rightarrow> wasm_instance" where
  "queue_state run qlen bump mem = \<lparr>i_globals = [V32 run, V32 qlen, V32 bump], i_memory = mem\<rparr>"

lemmas exec_simps = call_func_def queue_state_def local_types_def push_def binary_def unary_def

lemma codes [simp]:
  "m_codes (queue_module caps) ! 0 = const_code 0" "m_codes (queue_module caps) ! Suc 0 = caps_code (length (utf8 caps))"
  "m_codes (queue_module caps) ! 2 = running_code 1" "m_codes (queue_module caps) ! 3 = running_code 0"
  "m_codes (queue_module caps) ! 4 = status_code" "m_codes (queue_module caps) ! 5 = alloc_code"
  "m_codes (queue_module caps) ! 6 = send_code" "m_codes (queue_module caps) ! 7 = const_code 0"
  "m_codes (queue_module caps) ! 8 = const_code 0" "m_codes (queue_module caps) ! 9 = poll_code"
  by (simp_all add: queue_module_def)

lemma send_type [simp]: "func_type (queue_module caps) 6 = (replicate 4 T32, [T32])"
  by (simp add: func_type_def queue_module_def)

lemma call_simple:
  "call_func (queue_module caps) 0 args (queue_state r q b mem) = Answer [V32 0] (queue_state r q b mem)"
  "call_func (queue_module caps) 1 args (queue_state r q b mem) =
     Answer [V64 (0x100 * 2 ^ 32 + of_nat (length (utf8 caps)))] (queue_state r q b mem)"
  "call_func (queue_module caps) 2 args (queue_state r q b mem) = Answer [V32 0] (queue_state 1 q b mem)"
  "call_func (queue_module caps) 3 args (queue_state r q b mem) = Answer [V32 0] (queue_state 0 q b mem)"
  "call_func (queue_module caps) 4 args (queue_state r q b mem) = Answer [V32 r] (queue_state r q b mem)"
  "call_func (queue_module caps) 7 args (queue_state r q b mem) = Answer [V32 0] (queue_state r q b mem)"
  "call_func (queue_module caps) 8 args (queue_state r q b mem) = Answer [V32 0] (queue_state r q b mem)"
  by (simp_all add: exec_simps const_code_def caps_code_def running_code_def status_code_def)

definition alloc_at :: "32 word \<Rightarrow> 32 word \<Rightarrow> 32 word" where
  "alloc_at bump n = (if 0x3f00 < bump + n then 0x1000 else bump)"

definition alloc_next :: "32 word \<Rightarrow> 32 word \<Rightarrow> 32 word" where
  "alloc_next bump n = and (alloc_at bump n + n + 7) (- 8)"

lemma call_alloc:
  "call_func (queue_module caps) 5 [V32 n] (queue_state r q b mem) =
     Answer [V32 (alloc_at b n)] (queue_state r q (alloc_next b n) mem)"
  by (simp add: exec_simps alloc_code_def alloc_at_def alloc_next_def)

definition be32 :: "32 word \<Rightarrow> byte list" where
  "be32 w = [ucast (drop_bit 24 w), ucast (drop_bit 16 w), ucast (drop_bit 8 w), ucast w]"

lemma length_be32 [simp]: "length (be32 w) = 4"
  by (simp add: be32_def)

lemma write_four:
  assumes "i + 4 \<le> length mem"
  shows "mem[i := a, Suc i := b, i + 2 := c, i + 3 := d] = write_at i [a, b, c, d] mem"
proof -
  obtain xs ys where mem: "mem = xs @ ys" "length xs = i" using assms by (metis append_take_drop_id length_take min.absorb2 le_add1 le_trans)
  then obtain p q r s zs where ys: "ys = p # q # r # s # zs"
    using assms by (auto simp: Suc_le_length_iff eval_nat_numeral)
  show ?thesis using mem(2) by (simp add: mem(1) ys write_at_def list_update_append eval_nat_numeral)
qed

lemma call_send_refused:
  "call_func (queue_module caps) 6 [V32 fp, V32 fl, V32 rp, V32 rl] (queue_state 0 q b mem) =
     Answer [V32 1] (queue_state 0 q b mem)"
  "r \<noteq> 0 \<Longrightarrow> 0x4000 < q + fl + 4 \<Longrightarrow>
   call_func (queue_module caps) 6 [V32 fp, V32 fl, V32 rp, V32 rl] (queue_state r q b mem) =
     Answer [V32 3] (queue_state r q b mem)"
  by (simp_all add: exec_simps send_code_def header_byte_def)

lemma call_send:
  assumes "r \<noteq> 0" and "\<not> 0x4000 < q + fl + 4" and "q \<le> 0x4000" and "0x20000 \<le> length mem"
  shows "call_func (queue_module caps) 6 [V32 fp, V32 fl, V32 rp, V32 rl] (queue_state r q b mem) =
     (let d = 0x4000 + unat q; mem' = write_at d (be32 fl) mem in
      if unat fp + unat fl \<le> length mem \<and> d + 4 + unat fl \<le> length mem
      then Answer [V32 0] (queue_state r (q + fl + 4) b (write_at (d + 4) (take (unat fl) (drop (unat fp) mem')) mem'))
      else CallTrapped)"
proof -
  have q: "unat q \<le> 0x4000" using assms(3) by (simp add: word_le_nat_alt)
  have d: "unat (0x4000 + q) = 0x4000 + unat q" "unat (0x4004 + q) = 0x4004 + unat q"
    using q by (simp_all add: unat_word_ariths)
  have mem: "unat q + 16388 \<le> length mem" using q assms(4) by linarith
  show ?thesis
    using assms(1,2) mem
    by (simp add: exec_simps send_code_def header_byte_def d Let_def be32_def flip: write_four)
qed

lemma call_poll:
  assumes "q \<le> 0x4000" and "0x20000 \<le> length mem"
  shows "call_func (queue_module caps) 9 args (queue_state r q b mem) =
     Answer [V64 (or (push_bit 32 0x8000) (ucast q))]
       (queue_state r 0 b (write_at 0x8000 (take (unat q) (drop 0x4000 mem)) mem))"
proof -
  have q: "unat q \<le> 0x4000" using assms(1) by (simp add: word_le_nat_alt)
  show ?thesis using q assms(2) by (simp add: exec_simps poll_code_def)
qed

end
