(* ===== verification/VerifyWasm.thy ===== *)
theory VerifyWasm
  imports Ntx WasmExec
begin

text \<open>
  \<open>transports/tools/verify-wasm.mjs\<close>: the conformance check of a module.  The WebAssembly engine of the
  JavaScript host is a record of its entry points; \<open>reference_engine\<close> is the one over \<open>WasmExec\<close>, for
  the modules of \<open>WasmFormat\<close>.  \<open>None\<close> is an exception, which \<open>verifyWasm\<close> does not catch.
\<close>

section \<open>The host's engine\<close>

text \<open>A result as JavaScript sees it: an \<open>i32\<close> is a signed number, an \<open>i64\<close> a BigInt.\<close>

datatype js_wasm = WNum int | WBig "64 word" | WUndefined

record 's wasm_engine =
  validates :: "byte list \<Rightarrow> bool"
  imports_of :: "byte list \<Rightarrow> (string \<times> string \<times> string) list"
  exports_of :: "byte list \<Rightarrow> string list"
  new_instance :: "byte list \<Rightarrow> 's option"
  invoke :: "string \<Rightarrow> int list \<Rightarrow> 's \<Rightarrow> (js_wasm \<times> 's) option"
  memory_of :: "'s \<Rightarrow> byte list"
  set_memory :: "byte list \<Rightarrow> 's \<Rightarrow> 's"
  grow_memory :: "nat \<Rightarrow> 's \<Rightarrow> 's option"

section \<open>The state of a check\<close>

record 's vw_state =
  v_inst :: 's
  v_scratch :: nat
  v_fails :: "string list"

type_synonym ('s, 'r) vw = "'s vw_state \<Rightarrow> 'r option"

definition MAX_FRAME :: nat where "MAX_FRAME = 40 * 1024"
definition SCR :: nat where "SCR = 1048576"

definition vw_expect :: "bool \<Rightarrow> string \<Rightarrow> ('s, 'r) vw \<Rightarrow> ('s, 'r) vw" where
  "vw_expect c m k v = k (if c then v else v\<lparr>v_fails := v_fails v @ [m]\<rparr>)"

definition vw_reset :: "('s, 'r) vw \<Rightarrow> ('s, 'r) vw" where
  "vw_reset k v = k (v\<lparr>v_scratch := 0\<rparr>)"

definition vw_call :: "'s wasm_engine \<Rightarrow> string \<Rightarrow> int list \<Rightarrow> (js_wasm \<Rightarrow> ('s, 'r) vw) \<Rightarrow> ('s, 'r) vw" where
  "vw_call eng name args k v =
     (case invoke eng name args (v_inst v) of
        None \<Rightarrow> None
      | Some (r, s) \<Rightarrow> k r (v\<lparr>v_inst := s\<rparr>))"

text \<open>\<open>x >>> 0\<close>; a BigInt throws.\<close>

fun to_uint32 :: "js_wasm \<Rightarrow> nat option" where
  "to_uint32 (WNum n) = Some (nat (n mod 2 ^ 32))"
| "to_uint32 WUndefined = Some 0"
| "to_uint32 (WBig w) = None"

text \<open>\<open>new Uint8Array(mem.buffer).set(d, p)\<close> throws when the bytes do not fit.\<close>

definition vw_set :: "'s wasm_engine \<Rightarrow> byte list \<Rightarrow> nat \<Rightarrow> (nat \<Rightarrow> ('s, 'r) vw) \<Rightarrow> ('s, 'r) vw" where
  "vw_set eng d p k v =
     (let mem = memory_of eng (v_inst v) in
      if p + length d \<le> length mem then k p (v\<lparr>v_inst := set_memory eng (write_at p d mem) (v_inst v)\<rparr>) else None)"

definition vw_put :: "'s wasm_engine \<Rightarrow> bool \<Rightarrow> byte list \<Rightarrow> (nat \<Rightarrow> ('s, 'r) vw) \<Rightarrow> ('s, 'r) vw" where
  "vw_put eng alloc d k =
     (if alloc then
        vw_call eng ''ntx_alloc'' [int (length d)] (\<lambda>r v.
          case to_uint32 r of None \<Rightarrow> None | Some p \<Rightarrow> vw_set eng d p k v)
      else (\<lambda>v.
        let at = SCR + v_scratch v;
            grown = (if length (memory_of eng (v_inst v)) < at + length d then grow_memory eng 16 (v_inst v)
                     else Some (v_inst v)) in
        case grown of
          None \<Rightarrow> None
        | Some s \<Rightarrow>
            vw_set eng d at (\<lambda>p v. k p (v\<lparr>v_scratch := v_scratch v + (length d + 7) div 8 * 8\<rparr>)) (v\<lparr>v_inst := s\<rparr>)))"

text \<open>A packed pointer and length, and the bytes it names; \<open>BigInt.asUintN\<close> throws on anything else.\<close>

definition vw_blob :: "'s wasm_engine \<Rightarrow> js_wasm \<Rightarrow> (byte list \<Rightarrow> ('s, 'r) vw) \<Rightarrow> ('s, 'r) vw" where
  "vw_blob eng packed k v =
     (case packed of
        WBig u \<Rightarrow> k (take (unat (take_bit 32 u)) (drop (unat (drop_bit 32 u)) (memory_of eng (v_inst v)))) v
      | _ \<Rightarrow> None)"

text \<open>The frames of a poll, and the message of the check that stopped the loop, if one did.\<close>

definition be_length :: "byte list \<Rightarrow> nat" where
  "be_length b = unat (b ! 0) * 2 ^ 24 + unat (b ! 1) * 2 ^ 16 + unat (b ! 2) * 2 ^ 8 + unat (b ! 3)"

fun vw_frames :: "byte list \<Rightarrow> byte list list \<times> string list" where
  "vw_frames b =
     (if b = [] then ([], [])
      else if length b < 4 then ([], [''poll blob truncated''])
      else
        (let n = be_length b; rest = drop 4 b in
         if 0 < n \<and> n \<le> MAX_FRAME \<and> n \<le> length rest
         then (case vw_frames (drop n rest) of (fs, e) \<Rightarrow> (take n rest # fs, e))
         else ([], [''poll frame out of bounds''])))"

declare vw_frames.simps [simp del]

definition vw_poll :: "'s wasm_engine \<Rightarrow> int list \<Rightarrow> (byte list list \<Rightarrow> ('s, 'r) vw) \<Rightarrow> ('s, 'r) vw" where
  "vw_poll eng args k =
     vw_call eng ''ntx_poll'' args (\<lambda>r. vw_blob eng r (\<lambda>b v.
       case vw_frames b of (fs, e) \<Rightarrow> k fs (v\<lparr>v_fails := v_fails v @ e\<rparr>)))"

text \<open>Both sends of the check: the frame and the recipient are put, then \<open>ntx_send\<close> is called.\<close>

definition vw_send ::
  "'s wasm_engine \<Rightarrow> bool \<Rightarrow> byte list \<Rightarrow> byte list \<Rightarrow> (js_wasm \<Rightarrow> ('s, 'r) vw) \<Rightarrow> ('s, 'r) vw" where
  "vw_send eng alloc frame pub k =
     vw_reset (vw_put eng alloc frame (\<lambda>fp. vw_put eng alloc pub (\<lambda>rp.
       vw_call eng ''ntx_send'' [int fp, int (length frame), int rp, int (length pub)] k)))"

section \<open>The capabilities of a module\<close>

fun split_commas :: "string \<Rightarrow> string list" where
  "split_commas [] = [[]]"
| "split_commas (c # cs) =
     (if c = CHR '','' then [] # split_commas cs
      else (case split_commas cs of s # ss \<Rightarrow> (c # s) # ss | [] \<Rightarrow> [[c]]))"

definition caps_of :: "string \<Rightarrow> string list" where
  "caps_of text = filter (\<lambda>s. s \<noteq> []) (map trim (split_commas text))"

text \<open>\<open>TextDecoder\<close> drops a byte order mark.\<close>

definition decode_text :: "byte list \<Rightarrow> string" where
  "decode_text bs = utf8_text (if take 3 bs = [0xef, 0xbb, 0xbf] then drop 3 bs else bs)"

fun vw_caps :: "string list option \<Rightarrow> string list \<Rightarrow> ('s, 'r) vw \<Rightarrow> ('s, 'r) vw" where
  "vw_caps manifestCaps [] k = k"
| "vw_caps manifestCaps (c # cs) k =
     vw_expect (c \<in> set KNOWN_CAPABILITIES) (''unknown capability '' @ c)
       (vw_expect (case manifestCaps of None \<Rightarrow> True | Some mc \<Rightarrow> c \<in> set mc)
         (''module claims '' @ [CHR 0x22] @ c @ [CHR 0x22] @ '' which the manifest does not declare (the host refuses this)'')
         (vw_caps manifestCaps cs k))"

section \<open>The check\<close>

definition conformance_frame :: "byte list" where
  "conformance_frame = 3 # utf8 ''conformance''"

definition vw_pub :: "byte list" where "vw_pub = replicate 32 7"
definition vw_mb :: "byte list" where "vw_mb = replicate 16 1"
definition vw_sec :: "byte list" where "vw_sec = replicate 32 2"

fun result_text :: "js_wasm \<Rightarrow> string" where
  "result_text (WNum n) = str_of_int n"
| "result_text (WBig w) = str_of_int (sint w)"
| "result_text WUndefined = ''undefined''"

definition vw_is :: "'s wasm_engine \<Rightarrow> string \<Rightarrow> int list \<Rightarrow> int \<Rightarrow> string \<Rightarrow> ('s, 'r) vw \<Rightarrow> ('s, 'r) vw" where
  "vw_is eng name args want m k = vw_call eng name args (\<lambda>r. vw_expect (r = WNum want) m k)"

text \<open>The calls after the start: attach, send, poll, detach, stop.\<close>

definition vw_exchange :: "'s wasm_engine \<Rightarrow> bool \<Rightarrow> bool \<Rightarrow> ('s, 'r) vw \<Rightarrow> ('s, 'r) vw" where
  "vw_exchange eng alloc loopback k =
     vw_reset (vw_put eng alloc vw_mb (\<lambda>m. vw_put eng alloc vw_sec (\<lambda>s.
     vw_is eng ''ntx_attach'' [int m, int s, 0, 0, 0, 0] 0 ''attach must return 0''
     (vw_send eng alloc conformance_frame vw_pub (\<lambda>rc.
     vw_expect (rc = WNum 0 \<or> rc = WNum 3) (''send returned '' @ result_text rc @ '' (want 0 or 3)'')
     (vw_reset (vw_put eng alloc vw_mb (\<lambda>m. vw_poll eng [10, int m, 1] (\<lambda>got.
     (let after = vw_reset (vw_put eng alloc vw_mb (\<lambda>m.
            vw_is eng ''ntx_detach'' [int m] 0 ''detach must return 0''
            (vw_is eng ''ntx_stop'' [] 0 ''ntx_stop must return 0''
            (vw_is eng ''ntx_status'' [] 0 ''status must be 0 after stop'' k)))) in
      if loopback then
        vw_expect (got = [conformance_frame])
          (''loopback poll returned '' @ str_of_nat (length got) @ '' frame(s), want the one sent'')
        (vw_poll eng [10, int m, 1] (\<lambda>again. vw_expect (again = []) ''poll must drain'' after))
      else after))))))))))"

definition conformance :: "'s wasm_engine \<Rightarrow> bool \<Rightarrow> string list option \<Rightarrow> bool \<Rightarrow> ('s, string list) vw" where
  "conformance eng alloc manifestCaps loopback =
     vw_reset (vw_put eng alloc [] (\<lambda>p.
     vw_is eng ''ntx_init'' [int p, 0] 0 ''ntx_init must return 0''
     (vw_call eng ''ntx_caps'' [] (\<lambda>r. vw_blob eng r (\<lambda>b.
     let caps = caps_of (decode_text b) in
     vw_expect (caps \<noteq> []) ''ntx_caps is empty''
     (vw_caps manifestCaps caps
     (vw_is eng ''ntx_status'' [] 0 ''status must be 0 before start''
     (vw_send eng alloc conformance_frame vw_pub (\<lambda>rc.
     vw_expect (rc = WNum 1) ''send before start must return 1''
     (vw_is eng ''ntx_start'' [] 0 ''ntx_start must return 0''
     (vw_is eng ''ntx_status'' [] 1 ''status must be 1 after start''
     (vw_exchange eng alloc loopback (\<lambda>v. Some (v_fails v))))))))))))))"

definition required_exports :: "string list" where
  "required_exports =
     [''memory'', ''ntx_init'', ''ntx_caps'', ''ntx_start'', ''ntx_stop'', ''ntx_send'', ''ntx_attach'', ''ntx_detach'',
      ''ntx_poll'', ''ntx_status'']"

definition import_fails :: "(string \<times> string \<times> string) list \<Rightarrow> string list" where
  "import_fails imps =
     map (\<lambda>(m, n, k). ''forbidden import '' @ m @ ''.'' @ n)
       (filter (\<lambda>(m, n, k). \<not> (m = ''ntx'' \<and> n = ''log'' \<and> k = ''function'')) imps)"

definition verifyWasm :: "'s wasm_engine \<Rightarrow> byte list \<Rightarrow> string list option \<Rightarrow> bool \<Rightarrow> string list option" where
  "verifyWasm eng bytes manifestCaps loopback =
     (if \<not> validates eng bytes then Some [''module does not validate'']
      else
        (let names = exports_of eng bytes;
             fails = import_fails (imports_of eng bytes) @
               map (\<lambda>n. ''missing export '' @ n) (filter (\<lambda>n. n \<notin> set names) required_exports) in
         if fails \<noteq> [] then Some fails
         else (case new_instance eng bytes of
                 None \<Rightarrow> None
               | Some s \<Rightarrow>
                   conformance eng (''ntx_alloc'' \<in> set names) manifestCaps loopback
                     \<lparr>v_inst = s, v_scratch = 0, v_fails = []\<rparr>)))"

section \<open>The command line\<close>

definition starts_with :: "string \<Rightarrow> string \<Rightarrow> bool" where
  "starts_with p s \<longleftrightarrow> take (length p) s = p"

fun index_of :: "string \<Rightarrow> string list \<Rightarrow> nat option" where
  "index_of a [] = None"
| "index_of a (x # xs) = (if x = a then Some 0 else map_option Suc (index_of a xs))"

text \<open>The script itself: the exit code, 1 also for an exception; the files are a map from names to contents.\<close>

definition verify_main :: "'s wasm_engine \<Rightarrow> (string \<rightharpoonup> byte list) \<Rightarrow> string list \<Rightarrow> int" where
  "verify_main eng files args =
     (let check_file = (\<lambda>bytes caps.
            case verifyWasm eng bytes caps (''--loopback'' \<in> set args) of Some [] \<Rightarrow> 0 | _ \<Rightarrow> 1) in
      case find (\<lambda>x. \<not> starts_with ''--'' x) args of
        None \<Rightarrow> 1
      | Some f \<Rightarrow>
          (case files f of
             None \<Rightarrow> 1
           | Some bytes \<Rightarrow>
               (case index_of ''--caps'' args of
                  None \<Rightarrow> check_file bytes None
                | Some i \<Rightarrow> if Suc i < length args then check_file bytes (Some (split_commas (args ! Suc i))) else 1)))"

section \<open>The reference engine\<close>

text \<open>
  Validation is decoding and the check of every function; the exports name functions and the one memory; an
  argument is converted to a 32-bit integer, a missing one is 0, a number for an \<open>i64\<close> throws.
\<close>

fun convert_args :: "valtype list \<Rightarrow> int list \<Rightarrow> val list option" where
  "convert_args [] args = Some []"
| "convert_args (T32 # ts) args =
     map_option ((#) (V32 (case args of a # _ \<Rightarrow> of_int a | [] \<Rightarrow> 0))) (convert_args ts (tl args))"
| "convert_args (T64 # ts) args = None"

fun result_value :: "val list \<Rightarrow> js_wasm" where
  "result_value (V32 w # _) = WNum (sint w)"
| "result_value (V64 w # _) = WBig w"
| "result_value [] = WUndefined"

definition function_export :: "wmodule \<Rightarrow> string \<Rightarrow> nat option" where
  "function_export m name = map_of (map (\<lambda>(n, k, i). (utf8_text n, i)) (filter (\<lambda>(n, k, i). k = 0) (m_exports m))) name"

definition reference_invoke ::
  "string \<Rightarrow> int list \<Rightarrow> wmodule \<times> wasm_instance \<Rightarrow> (js_wasm \<times> wmodule \<times> wasm_instance) option" where
  "reference_invoke name args = (\<lambda>(m, inst).
     case function_export m name of
       None \<Rightarrow> None
     | Some i \<Rightarrow>
         (case convert_args (fst (func_type m i)) args of
            None \<Rightarrow> None
          | Some vs \<Rightarrow>
              (case call_func m i vs inst of
                 Answer rs inst' \<Rightarrow> Some (result_value rs, m, inst')
               | _ \<Rightarrow> None)))"

definition module_valid :: "wmodule \<Rightarrow> bool" where
  "module_valid m \<longleftrightarrow>
     length (m_funcs m) = length (m_codes m) \<and> length (m_memory m) = 1 \<and>
     list_all (\<lambda>t. t < length (m_types m)) (m_funcs m) \<and>
     list_all (check_func m) [0..<length (m_funcs m)] \<and>
     list_all (\<lambda>(t, is). check \<lparr>t_locals = [], t_globals = [], t_return = []\<rparr> is [] = Some (Ends [t])) (m_globals m) \<and>
     list_all (\<lambda>(is, bs). check \<lparr>t_locals = [], t_globals = [], t_return = []\<rparr> is [] = Some (Ends [T32])) (m_data m) \<and>
     distinct (map fst (m_exports m)) \<and>
     list_all (\<lambda>(n, k, i). (k = 0 \<and> i < length (m_funcs m)) \<or> (k = 2 \<and> i = 0)) (m_exports m)"

definition reference_engine :: "(wmodule \<times> wasm_instance) wasm_engine" where
  "reference_engine =
     \<lparr> validates = (\<lambda>bytes. case decode_module bytes of None \<Rightarrow> False | Some m \<Rightarrow> module_valid m),
       imports_of = (\<lambda>bytes. []),
       exports_of = (\<lambda>bytes. case decode_module bytes of None \<Rightarrow> [] | Some m \<Rightarrow> map (\<lambda>(n, k, i). utf8_text n) (m_exports m)),
       new_instance = (\<lambda>bytes.
         case decode_module bytes of None \<Rightarrow> None | Some m \<Rightarrow> map_option (\<lambda>inst. (m, inst)) (instantiate m)),
       invoke = reference_invoke,
       memory_of = (\<lambda>(m, inst). i_memory inst),
       set_memory = (\<lambda>mem (m, inst). (m, inst\<lparr>i_memory := mem\<rparr>)),
       grow_memory = (\<lambda>n (m, inst). Some (m, inst\<lparr>i_memory := i_memory inst @ replicate (65536 * n) 0\<rparr>)) \<rparr>"

end
