(* ===== verification/QueueHost.thy ===== *)
theory QueueHost
  imports QueueRuns VerifyWasm
begin

text \<open>
  The queue module under the reference engine: what a host sees of it.
\<close>

section \<open>Loading\<close>

lemma queue_module_decodes:
  assumes "buildQueueModule caps = Some bytes"
  shows "decode_module bytes = Some (queue_module caps)" and "length (utf8 caps) \<le> 32"
proof -
  show l: "length (utf8 caps) \<le> 32" using assms by (auto simp: buildQueueModule_def split: if_splits)
  show "decode_module bytes = Some (queue_module caps)"
    using assms buildQueueModule_encodes [OF l] decode_encode [OF wf_queue_module [OF l]] by simp
qed

lemma queue_m_exports:
  "m_exports (queue_module caps) =
     map (\<lambda>(name, i). (utf8 name, 0, i)) (zip export_names [0..<10]) @ [(utf8 ''memory'', 2, 0)]"
  by (simp add: queue_module_def)

lemma length_export_names [simp]: "length export_names = 10"
  by (simp add: export_names_def)

lemma queue_exports: "map (\<lambda>(n, k, i). utf8_text n) (m_exports (queue_module caps)) = export_names @ [''memory'']"
proof -
  have "map (\<lambda>(n, k, i). utf8_text n) (map (\<lambda>(name, i). (utf8 name, 0 :: byte, i)) ps) = map fst ps"
    for ps :: "(string \<times> nat) list"
    by (induction ps) auto
  then show ?thesis by (simp only: queue_m_exports map_append) (simp del: utf8_simps map_map)
qed

lemma queue_function_export: "function_export (queue_module caps) name = map_of (zip export_names [0..<10]) name"
proof -
  have "map (\<lambda>(n, k, i). (utf8_text n, i)) (filter (\<lambda>(n, k, i). k = 0) (map (\<lambda>(name, i). (utf8 name, 0 :: byte, i)) ps)) = ps"
    for ps :: "(string \<times> nat) list"
    by (induction ps) auto
  then show ?thesis unfolding function_export_def queue_m_exports filter_append map_append by (simp del: map_map filter_map)
qed

lemma queue_functions [simp]:
  "function_export (queue_module caps) ''ntx_init'' = Some 0"
  "function_export (queue_module caps) ''ntx_caps'' = Some 1"
  "function_export (queue_module caps) ''ntx_start'' = Some 2"
  "function_export (queue_module caps) ''ntx_stop'' = Some 3"
  "function_export (queue_module caps) ''ntx_status'' = Some 4"
  "function_export (queue_module caps) ''ntx_alloc'' = Some 5"
  "function_export (queue_module caps) ''ntx_send'' = Some 6"
  "function_export (queue_module caps) ''ntx_attach'' = Some 7"
  "function_export (queue_module caps) ''ntx_detach'' = Some 8"
  "function_export (queue_module caps) ''ntx_poll'' = Some 9"
  by (simp_all add: queue_function_export export_names_def upt_rec)

lemma queue_types [simp]:
  "func_type (queue_module caps) 0 = ([T32, T32], [T32])" "func_type (queue_module caps) (Suc 0) = ([], [T64])"
  "func_type (queue_module caps) 2 = ([], [T32])" "func_type (queue_module caps) 3 = ([], [T32])"
  "func_type (queue_module caps) 4 = ([], [T32])" "func_type (queue_module caps) 5 = ([T32], [T32])"
  "func_type (queue_module caps) 7 = (replicate 6 T32, [T32])" "func_type (queue_module caps) 8 = ([T32], [T32])"
  "func_type (queue_module caps) 9 = ([T32, T32, T32], [T64])"
  by (simp_all add: func_type_def queue_module_def)

lemma queue_module_valid: "module_valid (queue_module caps)"
proof -
  have "list_all (check_func (queue_module caps)) [0..<10]"
    using queue_functions_checked by (simp add: list_all_iff)
  moreover have "length (m_funcs (queue_module caps)) = 10" by (simp add: queue_module_def)
  moreover have "distinct (map fst (m_exports (queue_module caps)))"
  proof -
    have "distinct (map (\<lambda>(n, k, i). utf8_text n) (m_exports (queue_module caps)))"
      by (simp only: queue_exports) (simp add: export_names_def)
    then have "distinct (map utf8_text (map fst (m_exports (queue_module caps))))"
      by (simp add: o_def split_def)
    then show ?thesis by (simp only: distinct_map)
  qed
  moreover have "list_all (\<lambda>(n, k, i). (k = 0 \<and> i < 10) \<or> (k = 2 \<and> i = 0)) (m_exports (queue_module caps))"
    by (auto simp: queue_m_exports list_all_iff dest: set_zip_rightD)
  ultimately show ?thesis
    by (simp add: module_valid_def) (simp add: queue_module_def)
qed

definition queue_memory :: "string \<Rightarrow> byte list" where
  "queue_memory caps = write_at 0x100 (utf8 caps) (replicate 0x20000 0)"

lemma queue_instance:
  assumes "length (utf8 caps) \<le> 32"
  shows "instantiate (queue_module caps) = Some (queue_state 0 0 0x1000 (queue_memory caps))"
proof -
  have "m_memory (queue_module caps) = [2]"
    "m_globals (queue_module caps) = [(T32, [I32Const 0]), (T32, [I32Const 0]), (T32, [I32Const 0x1000])]"
    "m_data (queue_module caps) = [([I32Const 0x100], utf8 caps)]"
    by (simp_all add: queue_module_def)
  then show ?thesis
    using assms by (simp add: instantiate_def const_val_def push_def queue_state_def queue_memory_def)
qed

section \<open>Memory\<close>

lemma read_written: "d + length bs \<le> length mem \<Longrightarrow> take (length bs) (drop d (write_at d bs mem)) = bs"
  by (simp add: write_at_def)

lemma read_below: "a + n \<le> d \<Longrightarrow> d + length bs \<le> length mem \<Longrightarrow>
    take n (drop a (write_at d bs mem)) = take n (drop a mem)"
  by (rule nth_equalityI) (auto simp: write_at_def nth_append)

lemma read_above: "d + length bs \<le> a \<Longrightarrow> d + length bs \<le> length mem \<Longrightarrow>
    take n (drop a (write_at d bs mem)) = take n (drop a mem)"
  by (simp add: write_at_def add.commute)

section \<open>Putting bytes\<close>

lemma uint32_of_sint: "nat (sint (w :: 32 word) mod 4294967296) = unat w"
proof -
  have "sint w mod 2 ^ 32 = uint w"
    using uint_sint [of w] by (simp add: take_bit_eq_mod)
  then show ?thesis by (simp add: nat_uint_eq)
qed

lemma invoke_alloc:
  "reference_invoke ''ntx_alloc'' [int n] (queue_module caps, queue_state r q b mem) =
     Some (WNum (sint (alloc_at b (of_nat n))), queue_module caps, queue_state r q (alloc_next b (of_nat n)) mem)"
  by (simp add: reference_invoke_def call_alloc)

lemma put_queue:
  assumes "v_inst v = (queue_module caps, queue_state r q b mem)"
    and "unat (alloc_at b (of_nat (length d))) + length d \<le> length mem"
  shows "vw_put reference_engine True d k v =
     k (unat (alloc_at b (of_nat (length d))))
       (v\<lparr>v_inst := (queue_module caps,
          queue_state r q (alloc_next b (of_nat (length d))) (write_at (unat (alloc_at b (of_nat (length d)))) d mem))\<rparr>)"
  using assms
  by (simp add: vw_put_def vw_call_def reference_engine_def invoke_alloc uint32_of_sint vw_set_def)
    (simp add: queue_state_def)

lemma align8: "unat (and (x :: 32 word) (- 8)) = unat x div 8 * 8"
proof -
  have m: "(- 8 :: 32 word) = not (mask 3)" by (simp add: mask_eq_exp_minus_1)
  have "and x (- 8) = push_bit 3 (drop_bit 3 x)"
    unfolding m by (rule bit_word_eqI) (auto simp: bit_simps)
  moreover have "unat x < 2 ^ LENGTH(32)" by (rule unsigned_less)
  then have "unat x div 8 * 8 < 2 ^ 32" by simp
  ultimately show ?thesis by (simp only: unsigned_push_bit_eq unsigned_drop_bit_eq) (simp add: drop_bit_eq_div push_bit_eq_mult take_bit_nat_eq_self)
qed

text \<open>The heap of the module lies between \<open>0x1000\<close> and \<open>0x3f00\<close>, below the queue, for requests of at most \<open>0x2f00\<close> bytes.\<close>

lemma alloc_bounds:
  assumes "0x1000 \<le> unat b" and "unat b \<le> 0x3f00" and "n \<le> 0x2f00"
  shows "unat (alloc_at b (of_nat n)) = (if 0x3f00 < unat b + n then 0x1000 else unat b)"
    and "unat (alloc_next b (of_nat n)) = (unat (alloc_at b (of_nat n)) + n + 7) div 8 * 8"
proof -
  have n: "unat (of_nat n :: 32 word) = n" using assms(3) by (simp add: unat_of_nat)
  have bn: "unat (b + of_nat n) = unat b + n" using assms by (simp add: unat_word_ariths n)
  show p: "unat (alloc_at b (of_nat n)) = (if 0x3f00 < unat b + n then 0x1000 else unat b)"
    by (simp add: alloc_at_def word_less_nat_alt bn)
  have "unat (alloc_at b (of_nat n)) \<le> 0x3f00" using assms by (simp add: p)
  then have "unat (alloc_at b (of_nat n) + of_nat n + 7) = unat (alloc_at b (of_nat n)) + n + 7"
    using assms(3) by (simp add: unat_word_ariths n)
  then show "unat (alloc_next b (of_nat n)) = (unat (alloc_at b (of_nat n)) + n + 7) div 8 * 8"
    by (simp add: alloc_next_def align8)
qed

lemma alloc_in_heap:
  assumes "0x1000 \<le> unat b" and "unat b \<le> 0x3f00" and "n \<le> 0x2f00"
  shows "0x1000 \<le> unat (alloc_at b (of_nat n))" "unat (alloc_at b (of_nat n)) + n \<le> unat (alloc_next b (of_nat n))"
    "unat (alloc_next b (of_nat n)) \<le> 0x3f00" "unat (alloc_next b (of_nat n)) \<le> unat (alloc_at b (of_nat n)) + n + 7"
proof -
  have p: "0x1000 \<le> unat (alloc_at b (of_nat n))" "unat (alloc_at b (of_nat n)) + n \<le> 0x3f00"
    using assms by (simp_all add: alloc_bounds(1))
  then show "0x1000 \<le> unat (alloc_at b (of_nat n))" by simp
  show "unat (alloc_at b (of_nat n)) + n \<le> unat (alloc_next b (of_nat n))"
    "unat (alloc_next b (of_nat n)) \<le> 0x3f00" "unat (alloc_next b (of_nat n)) \<le> unat (alloc_at b (of_nat n)) + n + 7"
    unfolding alloc_bounds(2) [OF assms] using p(2) by presburger+
qed

end
