(* ===== verification/FifoTransport.thy ===== *)
theory FifoTransport
  imports VerifyWasm
begin

text \<open>
  What a host relies on of a loopback transport: \<open>fifo_transport\<close>, the laws of start, stop, send and poll
  over an abstract queue, and the sessions they give.
\<close>

section \<open>Sessions and the queue they are compared with\<close>

datatype ('m, 'b) fifo_op = FStart | FStop | FSend 'm | FPoll 'b

datatype 'f fifo_answer = FCode js_wasm | FFrames "'f list"

record ('m, 'b, 'f, 's) transport_api =
  api_start :: "'s \<Rightarrow> (js_wasm \<times> 's) option"
  api_stop :: "'s \<Rightarrow> (js_wasm \<times> 's) option"
  api_send :: "'m \<Rightarrow> 's \<Rightarrow> (js_wasm \<times> 's) option"
  api_poll :: "'b \<Rightarrow> 's \<Rightarrow> ('f list \<times> 's) option"

fun op_step :: "('m, 'b, 'f, 's) transport_api \<Rightarrow> ('m, 'b) fifo_op \<Rightarrow> 's \<Rightarrow> ('f fifo_answer \<times> 's) option" where
  "op_step api FStart s = map_option (apfst FCode) (api_start api s)"
| "op_step api FStop s = map_option (apfst FCode) (api_stop api s)"
| "op_step api (FSend m) s = map_option (apfst FCode) (api_send api m s)"
| "op_step api (FPoll b) s = map_option (apfst FFrames) (api_poll api b s)"

fun host_session :: "('m, 'b, 'f, 's) transport_api \<Rightarrow> ('m, 'b) fifo_op list \<Rightarrow> 's \<Rightarrow> ('f fifo_answer list \<times> 's) option" where
  "host_session api [] s = Some ([], s)"
| "host_session api (x # xs) s =
     (case op_step api x s of
        None \<Rightarrow> None
      | Some (a, s') \<Rightarrow> map_option (apfst ((#) a)) (host_session api xs s'))"

text \<open>The specification: a running flag and the frames accepted since the last poll.\<close>

fun fifo_step :: "('m \<Rightarrow> 'f) \<Rightarrow> ('f list \<Rightarrow> 'm \<Rightarrow> bool) \<Rightarrow> ('m, 'b) fifo_op \<Rightarrow> bool \<times> 'f list \<Rightarrow>
    'f fifo_answer \<times> bool \<times> 'f list" where
  "fifo_step payload room FStart (run, fs) = (FCode (WNum 0), True, fs)"
| "fifo_step payload room FStop (run, fs) = (FCode (WNum 0), False, fs)"
| "fifo_step payload room (FSend m) (run, fs) =
     (if \<not> run then (FCode (WNum 1), run, fs)
      else if room fs m then (FCode (WNum 0), run, fs @ [payload m])
      else (FCode (WNum 3), run, fs))"
| "fifo_step payload room (FPoll b) (run, fs) = (FFrames fs, run, [])"

fun fifo_session :: "('m \<Rightarrow> 'f) \<Rightarrow> ('f list \<Rightarrow> 'm \<Rightarrow> bool) \<Rightarrow> ('m, 'b) fifo_op list \<Rightarrow> bool \<times> 'f list \<Rightarrow> 'f fifo_answer list" where
  "fifo_session payload room [] q = []"
| "fifo_session payload room (x # xs) q =
     (case fifo_step payload room x q of (a, q') \<Rightarrow> a # fifo_session payload room xs q')"

text \<open>The queue a session leaves.\<close>

fun fifo_after :: "('m \<Rightarrow> 'f) \<Rightarrow> ('f list \<Rightarrow> 'm \<Rightarrow> bool) \<Rightarrow> ('m, 'b) fifo_op list \<Rightarrow> bool \<times> 'f list \<Rightarrow> bool \<times> 'f list" where
  "fifo_after payload room [] q = q"
| "fifo_after payload room (x # xs) q = fifo_after payload room xs (snd (fifo_step payload room x q))"

lemma host_session_append:
  "host_session api (xs @ ys) s =
     (case host_session api xs s of
        None \<Rightarrow> None
      | Some (as, s') \<Rightarrow> map_option (apfst ((@) as)) (host_session api ys s'))"
proof (induction xs arbitrary: s)
  case (Cons x xs)
  show ?case
    by (auto simp: Cons.IH option.map_comp o_def apfst_def map_prod_def split_beta split: option.splits)
qed (simp add: apfst_def map_prod_def option.map_id0 split_def option.map_ident)

fun op_fits :: "('m \<Rightarrow> bool) \<Rightarrow> ('b \<Rightarrow> bool) \<Rightarrow> ('m, 'b) fifo_op \<Rightarrow> bool" where
  "op_fits fits boxes (FSend m) = fits m"
| "op_fits fits boxes (FPoll b) = boxes b"
| "op_fits fits boxes _ = True"

section \<open>The interface\<close>

locale fifo_transport =
  fixes api :: "('m, 'b, 'f, 's) transport_api"
    and rep :: "bool \<Rightarrow> 'f list \<Rightarrow> 's \<Rightarrow> bool"
    and payload :: "'m \<Rightarrow> 'f" and room :: "'f list \<Rightarrow> 'm \<Rightarrow> bool"
    and fits :: "'m \<Rightarrow> bool" and boxes :: "'b \<Rightarrow> bool"
  assumes start: "rep run fs s \<Longrightarrow> \<exists>s'. api_start api s = Some (WNum 0, s') \<and> rep True fs s'"
    and stop: "rep run fs s \<Longrightarrow> \<exists>s'. api_stop api s = Some (WNum 0, s') \<and> rep False fs s'"
    and stopped: "rep False fs s \<Longrightarrow> fits m \<Longrightarrow> \<exists>s'. api_send api m s = Some (WNum 1, s') \<and> rep False fs s'"
    and accepted: "rep True fs s \<Longrightarrow> fits m \<Longrightarrow> room fs m \<Longrightarrow>
      \<exists>s'. api_send api m s = Some (WNum 0, s') \<and> rep True (fs @ [payload m]) s'"
    and refused: "rep True fs s \<Longrightarrow> fits m \<Longrightarrow> \<not> room fs m \<Longrightarrow>
      \<exists>s'. api_send api m s = Some (WNum 3, s') \<and> rep True fs s'"
    and polled: "rep run fs s \<Longrightarrow> boxes b \<Longrightarrow> \<exists>s'. api_poll api b s = Some (fs, s') \<and> rep run [] s'"
begin

lemma step:
  assumes "rep run fs s" and "op_fits fits boxes x"
  shows "\<exists>s' a run' fs'. op_step api x s = Some (a, s') \<and> fifo_step payload room x (run, fs) = (a, run', fs') \<and> rep run' fs' s'"
proof (cases x)
  case FStart
  then show ?thesis using start [OF assms(1)] by auto
next
  case FStop
  then show ?thesis using stop [OF assms(1)] by auto
next
  case (FSend m)
  then show ?thesis
    using assms stopped [of fs s m] accepted [of fs s m] refused [of fs s m] by (cases run; cases "room fs m") auto
next
  case (FPoll b)
  then show ?thesis using polled [OF assms(1), of b] assms(2) by auto
qed

text \<open>A session answers what the queue answers, and leaves a state that represents the queue it leaves.\<close>

lemma session_leaves:
  assumes "rep run fs s" and "list_all (op_fits fits boxes) xs" and "fifo_after payload room xs (run, fs) = (run', fs')"
  shows "\<exists>s'. host_session api xs s = Some (fifo_session payload room xs (run, fs), s') \<and> rep run' fs' s'"
  using assms
proof (induction xs arbitrary: run fs s)
  case (Cons x xs)
  obtain s1 a run1 fs1 where st: "op_step api x s = Some (a, s1)"
      "fifo_step payload room x (run, fs) = (a, run1, fs1)" "rep run1 fs1 s1"
    using step [OF Cons.prems(1), of x] Cons.prems(2) by auto
  then show ?case using Cons.IH [OF st(3)] Cons.prems(2,3) by fastforce
qed auto

lemma session_answers:
  assumes "rep run fs s" and "list_all (op_fits fits boxes) xs"
  shows "\<exists>s' run' fs'. host_session api xs s = Some (fifo_session payload room xs (run, fs), s') \<and> rep run' fs' s'"
  using session_leaves [OF assms] by (cases "fifo_after payload room xs (run, fs)") blast

end

end
