(* ===== verification/QueueFifo.thy ===== *)
theory QueueFifo
  imports QueueHost FifoTransport NtxProperties
begin

text \<open>
  The queue module implements \<open>fifo_transport\<close> for messages its heap can hold, and what happens to the
  queue when a host puts a larger one.
\<close>

section \<open>The host's operations\<close>

definition host_api ::
  "'s wasm_engine \<Rightarrow> (byte list \<times> byte list, byte list, byte list, 's vw_state) transport_api" where
  "host_api eng =
     \<lparr> api_start = vw_call eng ''ntx_start'' [] (\<lambda>r v. Some (r, v)),
       api_stop = vw_call eng ''ntx_stop'' [] (\<lambda>r v. Some (r, v)),
       api_send = (\<lambda>(frame, pub). vw_send eng True frame pub (\<lambda>r v. Some (r, v))),
       api_poll = (\<lambda>mb. vw_reset (vw_put eng True mb (\<lambda>m. vw_poll eng [10, int m, 1] (\<lambda>fs v. Some (fs, v))))) \<rparr>"

section \<open>The queue in memory\<close>

definition queue_bytes :: "byte list list \<Rightarrow> byte list" where
  "queue_bytes fs = concat (map (\<lambda>f. be32 (of_nat (length f)) @ f) fs)"

definition queue_inst ::
  "string \<Rightarrow> 32 word \<Rightarrow> 32 word \<Rightarrow> 32 word \<Rightarrow> byte list \<Rightarrow> (wmodule \<times> wasm_instance) vw_state \<Rightarrow> bool" where
  "queue_inst caps r q b mem v \<longleftrightarrow> v_inst v = (queue_module caps, queue_state r q b mem)"

definition queue_holds :: "byte list list \<Rightarrow> 32 word \<Rightarrow> 32 word \<Rightarrow> byte list \<Rightarrow> bool" where
  "queue_holds fs q b mem \<longleftrightarrow>
     unat q = length (queue_bytes fs) \<and> length (queue_bytes fs) \<le> 0x4000 \<and> 0x1000 \<le> unat b \<and> unat b \<le> 0x3f00 \<and>
     0x20000 \<le> length mem \<and> take (length (queue_bytes fs)) (drop 0x4000 mem) = queue_bytes fs \<and> [] \<notin> set fs"

definition queue_rep :: "string \<Rightarrow> bool \<Rightarrow> byte list list \<Rightarrow> (wmodule \<times> wasm_instance) vw_state \<Rightarrow> bool" where
  "queue_rep caps run fs v \<longleftrightarrow>
     (\<exists>q b mem. queue_inst caps (if run then 1 else 0) q b mem v \<and> queue_holds fs q b mem) \<and> v_fails v = []"

definition queue_room :: "byte list list \<Rightarrow> byte list \<times> byte list \<Rightarrow> bool" where
  "queue_room fs m \<longleftrightarrow> length (queue_bytes fs) + length (fst m) + 4 \<le> 0x4000"

text \<open>
  A frame that is not empty, as the hosts' frame readers require of what a poll returns, and that fits the
  heap together with the recipient, whatever place the allocator starts from.
\<close>

definition heap_fits :: "byte list \<times> byte list \<Rightarrow> bool" where
  "heap_fits m \<longleftrightarrow> fst m \<noteq> [] \<and> length (fst m) + 2 * length (snd m) + 7 \<le> 0x2f00"

definition box_fits :: "byte list \<Rightarrow> bool" where
  "box_fits mb \<longleftrightarrow> length mb \<le> 0x2f00"

lemma queue_bytes_simps [simp]:
  "queue_bytes [] = []" "queue_bytes (f # fs) = be32 (of_nat (length f)) @ f @ queue_bytes fs"
  "queue_bytes (fs @ gs) = queue_bytes fs @ queue_bytes gs"
  by (simp_all add: queue_bytes_def)

lemma be32_length: "n < 2 ^ 32 \<Longrightarrow> be_length (be32 (of_nat n) @ bs) = n"
proof -
  assume n: "n < 2 ^ 32"
  have b: "unat (ucast (drop_bit k (of_nat n :: 32 word)) :: byte) = n div 2 ^ k mod 256" for k
  proof -
    have u: "unat (of_nat n :: 32 word) = n" using n by (simp add: unat_of_nat)
    show ?thesis
      by (simp only: unsigned_ucast_eq unsigned_drop_bit_eq u) (use n in \<open>simp add: drop_bit_eq_div take_bit_eq_mod\<close>)
  qed
  have "unat (ucast (of_nat n :: 32 word) :: byte) = n mod 256" using b [of 0] by simp
  then show ?thesis using n byte32 [of n] by (simp add: be_length_def be32_def b)
qed

lemma be32_not_Nil: "be32 w \<noteq> []"
  by (simp add: be32_def)

lemma frames_of_queue: "length (queue_bytes fs) \<le> 0x4000 \<Longrightarrow> [] \<notin> set fs \<Longrightarrow> vw_frames (queue_bytes fs) = (fs, [])"
proof (induction fs)
  case Nil
  then show ?case by (simp add: vw_frames.simps)
next
  case (Cons f fs)
  have len: "be_length (be32 (of_nat (length f)) @ f @ queue_bytes fs) = length f"
    using Cons.prems(1) by (intro be32_length) simp
  have "vw_frames (queue_bytes fs) = (fs, [])" using Cons by simp
  then show ?case
    using Cons.prems by (subst vw_frames.simps) (auto simp: len MAX_FRAME_def Let_def be32_not_Nil)
qed

section \<open>Memory\<close>

lemma write_at_append: "d + length xs + length ys \<le> length mem \<Longrightarrow>
    write_at (d + length xs) ys (write_at d xs mem) = write_at d (xs @ ys) mem"
  by (simp add: write_at_def ac_simps)

lemma read_through: "s + n + length bs \<le> length mem \<Longrightarrow>
    take (n + length bs) (drop s (write_at (s + n) bs mem)) = take n (drop s mem) @ bs"
  by (rule nth_equalityI) (auto simp: write_at_def nth_append)

text \<open>Two puts, as before a send: neither overwrites the other, and the queue stays.\<close>

lemma two_puts:
  assumes "0x1000 \<le> unat b" "unat b \<le> 0x3f00" "0x20000 \<le> length mem" "length f + 2 * length p + 7 \<le> 0x2f00"
  defines "a \<equiv> unat (alloc_at b (of_nat (length f)))" and "b1 \<equiv> alloc_next b (of_nat (length f))"
  defines "c \<equiv> unat (alloc_at b1 (of_nat (length p)))" and "b2 \<equiv> alloc_next b1 (of_nat (length p))"
  defines "mem' \<equiv> write_at c p (write_at a f mem)"
  shows "a + length f \<le> 0x3f00" "c + length p \<le> 0x3f00" "0x1000 \<le> unat b2" "unat b2 \<le> 0x3f00"
    "length mem' = length mem" "take (length f) (drop a mem') = f" "take n (drop 0x4000 mem') = take n (drop 0x4000 mem)"
proof -
  have n: "length f \<le> 0x2f00" "length p \<le> 0x2f00" using assms(4) by simp_all
  note h1 = alloc_in_heap [OF assms(1,2) n(1), folded a_def b1_def]
  have r1: "0x1000 \<le> unat b1" using h1(1,2) by simp
  note h2 = alloc_in_heap [OF r1 h1(3) n(2), folded c_def b2_def]
  show af: "a + length f \<le> 0x3f00" and cp: "c + length p \<le> 0x3f00" using h1(2,3) h2(2,3) by simp_all
  show "0x1000 \<le> unat b2" "unat b2 \<le> 0x3f00" using h2 by simp_all
  have l: "length (write_at a f mem) = length mem" using af assms(3) by simp
  show "length mem' = length mem" using l cp assms(3) by (simp add: mem'_def)
  have "a + length f \<le> c \<or> c + length p \<le> a"
    using alloc_bounds(1) [OF r1 h1(3) n(2), folded c_def] h1(2,4) assms(4) by (simp split: if_splits)
  then show "take (length f) (drop a mem') = f"
    using l af cp assms(3) read_written [of a f mem] by (auto simp: mem'_def read_below read_above)
  show "take n (drop 0x4000 mem') = take n (drop 0x4000 mem)"
    using l af cp assms(3) by (simp add: mem'_def read_above)
qed

section \<open>Calls\<close>

lemma replicate_Suc_eval: "replicate 6 x = [x, x, x, x, x, x]" "replicate 4 x = [x, x, x, x]"
  by (simp_all add: eval_nat_numeral)

lemma invoke_simple:
  "reference_invoke ''ntx_init'' [x, y] (queue_module caps, queue_state r q b mem) =
     Some (WNum 0, queue_module caps, queue_state r q b mem)"
  "reference_invoke ''ntx_caps'' [] (queue_module caps, queue_state r q b mem) =
     Some (WBig (0x100 * 2 ^ 32 + of_nat (length (utf8 caps))), queue_module caps, queue_state r q b mem)"
  "reference_invoke ''ntx_start'' [] (queue_module caps, queue_state r q b mem) =
     Some (WNum 0, queue_module caps, queue_state 1 q b mem)"
  "reference_invoke ''ntx_stop'' [] (queue_module caps, queue_state r q b mem) =
     Some (WNum 0, queue_module caps, queue_state 0 q b mem)"
  "reference_invoke ''ntx_status'' [] (queue_module caps, queue_state r q b mem) =
     Some (WNum (sint r), queue_module caps, queue_state r q b mem)"
  "reference_invoke ''ntx_attach'' [x, y, z, u, v, w] (queue_module caps, queue_state r q b mem) =
     Some (WNum 0, queue_module caps, queue_state r q b mem)"
  "reference_invoke ''ntx_detach'' [x] (queue_module caps, queue_state r q b mem) =
     Some (WNum 0, queue_module caps, queue_state r q b mem)"
  by (simp_all add: reference_invoke_def call_simple call_simple(2) [unfolded One_nat_def] replicate_Suc_eval)

lemma call_reference:
  assumes "queue_inst caps r q b mem v"
    and "reference_invoke name args (queue_module caps, queue_state r q b mem) = Some (x, s)"
  shows "vw_call reference_engine name args k v = k x (v\<lparr>v_inst := s\<rparr>)"
  using assms by (simp add: vw_call_def reference_engine_def queue_inst_def)

lemma queue_inst_upd [simp]: "queue_inst caps r q b mem (v\<lparr>v_inst := (queue_module caps, queue_state r q b mem)\<rparr>)"
  by (simp add: queue_inst_def)

lemma queue_inst_scratch [simp]: "queue_inst caps r q b mem (v\<lparr>v_scratch := n\<rparr>) = queue_inst caps r q b mem v"
  by (simp add: queue_inst_def)

lemma put_reference:
  assumes "queue_inst caps r q b mem v"
    and "unat (alloc_at b (of_nat (length d))) + length d \<le> length mem"
  shows "vw_put reference_engine True d k v =
     k (unat (alloc_at b (of_nat (length d))))
       (v\<lparr>v_inst := (queue_module caps,
          queue_state r q (alloc_next b (of_nat (length d))) (write_at (unat (alloc_at b (of_nat (length d)))) d mem))\<rparr>)"
  using assms by (intro put_queue) (simp_all add: queue_inst_def)

text \<open>The state a send calls \<open>ntx_send\<close> in, for a message that fits.\<close>

lemma send_reference:
  assumes "queue_inst caps r q b mem v" and "queue_holds fs q b mem" and "heap_fits (f, p)"
  obtains a c b' mem' v' where
    "queue_inst caps r q b' mem' v'" "queue_holds fs q b' mem'" "v_fails v' = v_fails v"
    "a + length f \<le> 0x3f00" "take (length f) (drop a mem') = f"
    "vw_send reference_engine True f p k v =
       vw_call reference_engine ''ntx_send'' [int a, int (length f), int c, int (length p)] k v'"
proof -
  let ?a = "alloc_at b (of_nat (length f))" and ?b1 = "alloc_next b (of_nat (length f))"
  let ?c = "alloc_at ?b1 (of_nat (length p))" and ?b2 = "alloc_next ?b1 (of_nat (length p))"
  let ?m1 = "write_at (unat ?a) f mem"
  let ?m2 = "write_at (unat ?c) p ?m1"
  have h: "0x1000 \<le> unat b" "unat b \<le> 0x3f00" "0x20000 \<le> length mem" "length f + 2 * length p + 7 \<le> 0x2f00"
    using assms(2,3) by (simp_all add: queue_holds_def heap_fits_def)
  note t = two_puts [OF h]
  have m1: "length ?m1 = length mem" using t(1) h(3) by simp
  let ?v0 = "v\<lparr>v_scratch := 0\<rparr>"
  let ?v1 = "?v0\<lparr>v_inst := (queue_module caps, queue_state r q ?b1 ?m1)\<rparr>"
  let ?v2 = "?v1\<lparr>v_inst := (queue_module caps, queue_state r q ?b2 ?m2)\<rparr>"
  have "vw_send reference_engine True f p k v =
      vw_call reference_engine ''ntx_send'' [int (unat ?a), int (length f), int (unat ?c), int (length p)] k ?v2"
    unfolding vw_send_def vw_reset_def
    using t(1,2) h(3) m1 assms(1)
    by (subst put_reference [of caps r q b mem ?v0], simp, simp) (subst put_reference [of caps r q ?b1 ?m1 ?v1], simp_all)
  moreover have "queue_inst caps r q ?b2 ?m2 ?v2" by simp
  moreover have "queue_holds fs q ?b2 ?m2" using assms(2) t(3-5,7) by (simp add: queue_holds_def)
  ultimately show ?thesis using t(1,6) by (intro that [of ?b2 ?m2 ?v2 "unat ?a" "unat ?c"]) simp_all
qed

lemma invoke_send:
  "reference_invoke ''ntx_send'' [int a, int n, int c, int k] (queue_module caps, queue_state r q b mem) =
     (case call_func (queue_module caps) 6 [V32 (of_nat a), V32 (of_nat n), V32 (of_nat c), V32 (of_nat k)]
        (queue_state r q b mem) of
        Answer rs inst \<Rightarrow> Some (result_value rs, queue_module caps, inst)
      | _ \<Rightarrow> None)"
  by (simp add: reference_invoke_def replicate_Suc_eval)

lemma full_iff:
  assumes "unat (q :: 32 word) \<le> 0x4000" and "n < 2 ^ 31"
  shows "0x4000 < q + of_nat n + 4 \<longleftrightarrow> 0x4000 < unat q + n + 4" and "unat (q + of_nat n + 4) = unat q + n + 4"
proof -
  have n: "unat (of_nat n :: 32 word) = n" using assms(2) by (simp add: unat_of_nat)
  show u: "unat (q + of_nat n + 4) = unat q + n + 4" using assms by (simp add: unat_word_ariths n)
  show "0x4000 < q + of_nat n + 4 \<longleftrightarrow> 0x4000 < unat q + n + 4" by (simp add: word_less_nat_alt u)
qed

lemma invoke_send_accepted:
  assumes "queue_holds fs q b mem" and "a + length f \<le> 0x4000" and "take (length f) (drop a mem) = f" and "f \<noteq> []"
    and "length (queue_bytes fs) + length f + 4 \<le> 0x4000"
  shows "\<exists>q' mem'. reference_invoke ''ntx_send'' [int a, int (length f), int c, int k] (queue_module caps, queue_state 1 q b mem) =
      Some (WNum 0, queue_module caps, queue_state 1 q' b mem') \<and> queue_holds (fs @ [f]) q' b mem'"
proof -
  have q: "unat q = length (queue_bytes fs)" "unat q \<le> 0x4000" "q \<le> 0x4000" and l: "0x20000 \<le> length mem"
    using assms(1) by (simp_all add: queue_holds_def word_le_nat_alt)
  have n: "unat (of_nat (length f) :: 32 word) = length f" "unat (of_nat a :: 32 word) = a"
    using assms(2) by (simp_all add: unat_of_nat)
  have room: "\<not> 0x4000 < q + of_nat (length f) + 4" and q': "unat (q + of_nat (length f) + 4) = unat q + length f + 4"
    using full_iff [OF q(2), of "length f"] assms(2,5) q(1) by simp_all
  let ?d = "0x4000 + unat q" and ?h = "be32 (of_nat (length f))"
  let ?m1 = "write_at ?d ?h mem"
  let ?m2 = "write_at (?d + 4) f ?m1"
  have m1: "length ?m1 = length mem" using q l by simp
  have same: "take (length f) (drop a ?m1) = f" using assms(2,3) q(2) l by (simp add: read_below)
  have fit: "a + length f \<le> length mem" "?d + 4 + length f \<le> length mem" using assms(2,5) q(1) l by simp_all
  have "call_func (queue_module caps) 6 [V32 (of_nat a), V32 (of_nat (length f)), V32 (of_nat c), V32 (of_nat k)]
      (queue_state 1 q b mem) = Answer [V32 0] (queue_state 1 (q + of_nat (length f) + 4) b ?m2)"
    using call_send [of 1 q "of_nat (length f)" mem caps "of_nat a" "of_nat c" "of_nat k" b] room q(3) l fit
    by (simp add: n same Let_def)
  moreover have m2: "?m2 = write_at ?d (?h @ f) mem"
    using write_at_append [of ?d ?h f mem] fit by simp
  have "take (length (queue_bytes (fs @ [f]))) (drop 0x4000 ?m2) = queue_bytes (fs @ [f])"
    using read_through [of "0x4000" "unat q" "?h @ f" mem] fit assms(1) unfolding m2 by (simp add: queue_holds_def q(1))
  then have "queue_holds (fs @ [f]) (q + of_nat (length f) + 4) b ?m2"
    using assms fit q' m1 by (simp add: queue_holds_def)
  ultimately show ?thesis
    by (intro exI [of _ "q + of_nat (length f) + 4"] exI [of _ ?m2]) (simp add: invoke_send del: One_nat_def)
qed

lemma invoke_send_refused:
  assumes "unat q \<le> 0x4000"
  shows "reference_invoke ''ntx_send'' [int a, int n, int c, int k] (queue_module caps, queue_state 0 q b mem) =
      Some (WNum 1, queue_module caps, queue_state 0 q b mem)"
    and "n < 2 ^ 31 \<Longrightarrow> 0x4000 < unat q + n + 4 \<Longrightarrow>
      reference_invoke ''ntx_send'' [int a, int n, int c, int k] (queue_module caps, queue_state 1 q b mem) =
      Some (WNum 3, queue_module caps, queue_state 1 q b mem)"
  using assms by (simp_all add: invoke_send call_send_refused full_iff)

lemma invoke_poll:
  assumes "unat q \<le> 0x4000" and "0x20000 \<le> length mem"
  shows "reference_invoke ''ntx_poll'' [x, y, z] (queue_module caps, queue_state r q b mem) =
     Some (WBig (or (push_bit 32 0x8000) (ucast q)), queue_module caps,
       queue_state r 0 b (write_at 0x8000 (take (unat q) (drop 0x4000 mem)) mem))"
  using call_poll [of q mem caps] assms by (simp add: reference_invoke_def word_le_nat_alt)

lemma packed_pointer:
  "unat (drop_bit 32 (or (push_bit 32 0x8000) (ucast (q :: 32 word))) :: 64 word) = 0x8000"
  "unat (take_bit 32 (or (push_bit 32 0x8000) (ucast (q :: 32 word))) :: 64 word) = unat q"
proof -
  have "drop_bit 32 (or (push_bit 32 0x8000) (ucast q) :: 64 word) = 0x8000"
    by (rule bit_word_eqI) (auto simp: bit_simps dest: bit_imp_le_length)
  then show "unat (drop_bit 32 (or (push_bit 32 0x8000) (ucast q)) :: 64 word) = 0x8000" by simp
  have "take_bit 32 (or (push_bit 32 0x8000) (ucast q) :: 64 word) = ucast q"
    by (rule bit_word_eqI) (auto simp: bit_simps dest: bit_imp_le_length)
  then show "unat (take_bit 32 (or (push_bit 32 0x8000) (ucast q)) :: 64 word) = unat q"
    using unsigned_less [of q, where 'a = nat] by (simp add: unsigned_ucast_eq take_bit_nat_eq_self)
qed

section \<open>The module implements the interface\<close>

lemma queue_repE:
  assumes "queue_rep caps run fs v"
  obtains q b mem where "queue_inst caps (if run then 1 else 0) q b mem v" "queue_holds fs q b mem" "v_fails v = []"
    "unat q \<le> 0x4000" "unat q = length (queue_bytes fs)"
  using assms by (auto simp: queue_rep_def queue_holds_def)

lemma queue_repI:
  "queue_inst caps (if run then 1 else 0) q b mem v \<Longrightarrow> queue_holds fs q b mem \<Longrightarrow> v_fails v = [] \<Longrightarrow>
   queue_rep caps run fs v"
  unfolding queue_rep_def by blast

lemma send_rep:
  assumes "queue_rep caps run fs v" and "heap_fits (f, p)"
  shows "\<exists>v'. vw_send reference_engine True f p k v =
      k (WNum (if \<not> run then 1 else if queue_room fs (f, p) then 0 else 3)) v' \<and>
      queue_rep caps run (if run \<and> queue_room fs (f, p) then fs @ [f] else fs) v'"
proof -
  obtain q b mem where v: "queue_inst caps (if run then 1 else 0) q b mem v" "queue_holds fs q b mem" "v_fails v = []"
    using assms(1) by (rule queue_repE)
  obtain a c b' mem' v' where s: "queue_inst caps (if run then 1 else 0) q b' mem' v'" "queue_holds fs q b' mem'"
    "v_fails v' = v_fails v" "a + length f \<le> 0x3f00" "take (length f) (drop a mem') = f"
    "vw_send reference_engine True f p k v =
       vw_call reference_engine ''ntx_send'' [int a, int (length f), int c, int (length p)] k v'"
    by (rule send_reference [OF v(1,2) assms(2) , of k]) (rule that)
  have q: "unat q \<le> 0x4000" "unat q = length (queue_bytes fs)" using s(2) by (simp_all add: queue_holds_def)
  have f: "f \<noteq> []" "length f < 2 ^ 31" using assms(2) by (simp_all add: heap_fits_def)
  have call: "vw_send reference_engine True f p k v = k x (v'\<lparr>v_inst := w\<rparr>)"
    if "reference_invoke ''ntx_send'' [int a, int (length f), int c, int (length p)]
        (queue_module caps, queue_state (if run then 1 else 0) q b' mem') = Some (x, w)" for x w
    using s(6) call_reference [OF s(1) that] by simp
  show ?thesis
  proof (cases "run \<and> queue_room fs (f, p)")
    case True
    then obtain q' mem'' where
      "reference_invoke ''ntx_send'' [int a, int (length f), int c, int (length p)]
          (queue_module caps, queue_state 1 q b' mem') = Some (WNum 0, queue_module caps, queue_state 1 q' b' mem'')"
      "queue_holds (fs @ [f]) q' b' mem''"
      using invoke_send_accepted [OF s(2) _ s(5) f(1), of c "length p" caps] s(4) by (auto simp: queue_room_def add.assoc)
    note sent = this
    let ?v = "v'\<lparr>v_inst := (queue_module caps, queue_state 1 q' b' mem'')\<rparr>"
    have "vw_send reference_engine True f p k v = k (WNum 0) ?v" using sent(1) True by (intro call) simp
    moreover have "queue_rep caps run (fs @ [f]) ?v"
      by (rule queue_repI [OF _ sent(2)]) (use True s(3) v(3) in simp_all)
    ultimately show ?thesis using True by auto
  next
    case False
    then have "reference_invoke ''ntx_send'' [int a, int (length f), int c, int (length p)]
          (queue_module caps, queue_state (if run then 1 else 0) q b' mem') =
        Some (WNum (if run then 3 else 1), queue_module caps, queue_state (if run then 1 else 0) q b' mem')"
      using invoke_send_refused [OF q(1)] f(2) q(2) by (auto simp: queue_room_def)
    from call [OF this] have "vw_send reference_engine True f p k v = k (WNum (if run then 3 else 1))
        (v'\<lparr>v_inst := (queue_module caps, queue_state (if run then 1 else 0) q b' mem')\<rparr>)" .
    moreover have "queue_rep caps run fs (v'\<lparr>v_inst := (queue_module caps, queue_state (if run then 1 else 0) q b' mem')\<rparr>)"
      by (rule queue_repI [OF _ s(2)]) (use s(3) v(3) in simp_all)
    ultimately show ?thesis using False by auto
  qed
qed

lemma queue_send:
  assumes "queue_rep caps run fs v" and "heap_fits m"
  shows "\<exists>v'. api_send (host_api reference_engine) m v =
      Some (WNum (if \<not> run then 1 else if queue_room fs m then 0 else 3), v') \<and>
      queue_rep caps run (if run \<and> queue_room fs m then fs @ [fst m] else fs) v'"
proof -
  obtain f p where m: "m = (f, p)" by (cases m)
  show ?thesis
    using send_rep [OF assms(1) assms(2) [unfolded m], of "\<lambda>r v. Some (r, v)"]
    by (simp only: host_api_def m transport_api.simps prod.case fst_conv)
qed

lemma poll_reference:
  assumes "queue_inst caps r q b mem v" and "unat q \<le> 0x4000" and "0x20000 \<le> length mem"
  shows "vw_poll reference_engine [x, y, z] k v =
     (case vw_frames (take (unat q) (drop 0x4000 mem)) of
        (fs, e) \<Rightarrow> k fs (v\<lparr>v_inst := (queue_module caps,
           queue_state r 0 b (write_at 0x8000 (take (unat q) (drop 0x4000 mem)) mem)), v_fails := v_fails v @ e\<rparr>))"
proof -
  have l: "length (take (unat q) (drop 0x4000 mem)) = unat q" using assms(2,3) by simp
  have "take (unat q) (drop 0x8000 (write_at 0x8000 (take (unat q) (drop 0x4000 mem)) mem)) = take (unat q) (drop 0x4000 mem)"
    using read_written [of "0x8000" "take (unat q) (drop 0x4000 mem)" mem] assms(2,3) unfolding l by simp
  then show ?thesis
    unfolding vw_poll_def call_reference [OF assms(1) invoke_poll [OF assms(2,3)]]
    by (simp only: vw_blob_def js_wasm.case packed_pointer) (simp add: reference_engine_def queue_state_def)
qed

lemma queue_poll:
  assumes "queue_rep caps run fs v" and "box_fits mb"
  shows "\<exists>v'. api_poll (host_api reference_engine) mb v = Some (fs, v') \<and> queue_rep caps run [] v'"
proof -
  obtain q b mem where v: "queue_inst caps (if run then 1 else 0) q b mem v" "queue_holds fs q b mem" "v_fails v = []"
    "unat q \<le> 0x4000" "unat q = length (queue_bytes fs)"
    using assms(1) by (rule queue_repE)
  have h: "0x1000 \<le> unat b" "unat b \<le> 0x3f00" "0x20000 \<le> length mem" "length mb \<le> 0x2f00"
    using v(2) assms(2) by (simp_all add: queue_holds_def box_fits_def)
  note a = alloc_in_heap [OF h(1,2,4)]
  let ?a = "unat (alloc_at b (of_nat (length mb)))" and ?b = "alloc_next b (of_nat (length mb))"
  let ?m = "write_at ?a mb mem"
  have m: "length ?m = length mem" using a h(3) by simp
  have q: "take (unat q) (drop 0x4000 ?m) = queue_bytes fs"
    using a h(3) v(2,5) by (simp add: read_above queue_holds_def)
  have f: "vw_frames (queue_bytes fs) = (fs, [])" using v(2) by (intro frames_of_queue) (simp_all add: queue_holds_def)
  have "queue_inst caps (if run then 1 else 0) q ?b ?m
      (v\<lparr>v_scratch := 0, v_inst := (queue_module caps, queue_state (if run then 1 else 0) q ?b ?m)\<rparr>)"
    by (simp add: queue_inst_def)
  note poll = poll_reference [OF this v(4), unfolded m, OF h(3), unfolded q f]
  let ?k = "\<lambda>m. vw_poll reference_engine [10, int m, 1] (\<lambda>fs v. Some (fs, v))"
  let ?v' = "v\<lparr>v_scratch := 0, v_inst := (queue_module caps, queue_state (if run then 1 else 0) 0 ?b
      (write_at 0x8000 (queue_bytes fs) ?m)), v_fails := v_fails v\<rparr>"
  have "vw_put reference_engine True mb ?k (v\<lparr>v_scratch := 0\<rparr>) =
      ?k ?a (v\<lparr>v_scratch := 0, v_inst := (queue_module caps, queue_state (if run then 1 else 0) q ?b ?m)\<rparr>)"
    using put_reference [of caps "if run then 1 else 0" q b mem "v\<lparr>v_scratch := 0\<rparr>" mb ?k] v(1) a h(3) by simp
  then have "api_poll (host_api reference_engine) mb v = Some (fs, ?v')"
    using poll [of 10 "int ?a" 1 "\<lambda>fs v. Some (fs, v)"] by (simp add: host_api_def vw_reset_def)
  moreover have "queue_rep caps run [] ?v'"
  proof (rule queue_repI)
    show "queue_inst caps (if run then 1 else 0) 0 ?b (write_at 0x8000 (queue_bytes fs) ?m) ?v'" by (simp add: queue_inst_def)
    show "queue_holds [] 0 ?b (write_at 0x8000 (queue_bytes fs) ?m)"
      using v(4,5) a h(3) by (simp add: queue_holds_def)
  qed (simp add: v(3))
  ultimately show ?thesis by blast
qed

interpretation queue_fifo: fifo_transport "host_api reference_engine" "queue_rep caps" fst queue_room heap_fits box_fits
proof
  fix run fs v
  assume "queue_rep caps run fs v"
  then obtain q b mem where v: "queue_inst caps (if run then 1 else 0) q b mem v" "queue_holds fs q b mem" "v_fails v = []"
    by (rule queue_repE)
  show "\<exists>v'. api_start (host_api reference_engine) v = Some (WNum 0, v') \<and> queue_rep caps True fs v'"
    using call_reference [OF v(1) invoke_simple(3), of "\<lambda>r v. Some (r, v)"] queue_repI [of caps True q b mem _ fs] v(2,3)
    by (simp add: host_api_def)
  show "\<exists>v'. api_stop (host_api reference_engine) v = Some (WNum 0, v') \<and> queue_rep caps False fs v'"
    using call_reference [OF v(1) invoke_simple(4), of "\<lambda>r v. Some (r, v)"] queue_repI [of caps False q b mem _ fs] v(2,3)
    by (simp add: host_api_def)
next
  show "\<exists>v'. api_poll (host_api reference_engine) mb v = Some (fs, v') \<and> queue_rep caps run [] v'"
    if "queue_rep caps run fs v" "box_fits mb" for run fs v mb
    using that by (rule queue_poll)
qed (use queue_send in force)+

end
