(* ===== verification/WasmProperties.thy ===== *)
theory WasmProperties
  imports QueueFifo
begin

text \<open>
  What the queue module promises its hosts: it is well-typed, it is a queue, it passes the conformance
  check, and what a message larger than its heap does to the queue.
\<close>

section \<open>Sessions from a new instance\<close>

abbreviation loaded :: "wmodule \<times> wasm_instance \<Rightarrow> (wmodule \<times> wasm_instance) vw_state" where
  "loaded inst \<equiv> \<lparr>v_inst = inst, v_scratch = 0, v_fails = []\<rparr>"

lemma new_queue:
  assumes "buildQueueModule caps = Some bytes"
  shows "new_instance reference_engine bytes = Some (queue_module caps, queue_state 0 0 0x1000 (queue_memory caps))"
  using queue_module_decodes [OF assms] queue_instance by (simp add: reference_engine_def)

lemma length_queue_memory: "length (utf8 caps) \<le> 32 \<Longrightarrow> length (queue_memory caps) = 0x20000"
  by (simp add: queue_memory_def)

lemma new_queue_rep:
  assumes "length (utf8 caps) \<le> 32"
  shows "queue_rep caps False [] (loaded (queue_module caps, queue_state 0 0 0x1000 (queue_memory caps)))"
  by (rule queue_repI [of _ _ 0 "0x1000" "queue_memory caps"])
    (simp_all add: queue_inst_def queue_holds_def length_queue_memory assms)

section \<open>A message larger than the heap\<close>

lemma large_alloc:
  assumes "unat b \<le> 0xb010" and "n \<le> MAX_FRAME" and "0x3f00 < unat b + n"
  shows "unat (alloc_at b (of_nat n)) = 0x1000" "unat (alloc_next b (of_nat n)) = (0x1007 + n) div 8 * 8"
proof -
  have n: "unat (of_nat n :: 32 word) = n" using assms(2) by (simp add: unat_of_nat MAX_FRAME_def)
  have "unat (b + of_nat n) = unat b + n" using assms by (simp add: unat_word_ariths n MAX_FRAME_def)
  then have a: "alloc_at b (of_nat n) = 0x1000" using assms(3) by (simp add: alloc_at_def word_less_nat_alt)
  then show "unat (alloc_at b (of_nat n)) = 0x1000" by simp
  have "unat (0x1000 + of_nat n + 7 :: 32 word) = 0x1007 + n" using assms(2) by (simp add: unat_word_ariths n MAX_FRAME_def)
  then show "unat (alloc_next b (of_nat n)) = (0x1007 + n) div 8 * 8" by (simp only: alloc_next_def a align8)
qed

text \<open>A frame that does not fit, and the recipient put after it, both start at 0x1000.\<close>

lemma large_places:
  assumes "0x1000 \<le> unat b" and "unat b \<le> 0x3f00" and "0x2f00 < n" and "n \<le> MAX_FRAME" and "k \<le> 0x2f00"
  defines "b1 \<equiv> alloc_next b (of_nat n)"
  shows "unat (alloc_at b (of_nat n)) = 0x1000" "unat (alloc_at b1 (of_nat k)) = 0x1000"
    "0x1000 \<le> unat (alloc_next b1 (of_nat k))" "unat (alloc_next b1 (of_nat k)) \<le> 0x3f00"
proof -
  have a: "unat (alloc_at b (of_nat n)) = 0x1000" "unat b1 = (0x1007 + n) div 8 * 8"
    using large_alloc [of b n] assms by simp_all
  have b1: "0x3f00 < unat b1" "unat b1 \<le> 0xb010" using a(2) assms(3,4) unfolding MAX_FRAME_def by presburger+
  have c: "unat (alloc_at b1 (of_nat k)) = 0x1000" "unat (alloc_next b1 (of_nat k)) = (0x1007 + k) div 8 * 8"
    using large_alloc [of b1 k] assms(5) b1 by (simp_all add: MAX_FRAME_def)
  show "unat (alloc_at b (of_nat n)) = 0x1000" "unat (alloc_at b1 (of_nat k)) = 0x1000" by (rule a(1), rule c(1))
  show "0x1000 \<le> unat (alloc_next b1 (of_nat k))" "unat (alloc_next b1 (of_nat k)) \<le> 0x3f00"
    unfolding c(2) using assms(5) by presburger+
qed

text \<open>
  What the queue holds after such a frame \<open>f\<close>, with the recipient \<open>p\<close> put over its head.  The part of the
  frame beyond 0x3000 bytes lies over the queue; if there is room, \<open>ntx_send\<close> writes the length at the end of
  the queue, over the frame where it reaches there, and copies what is then at 0x1000.
\<close>

definition overrun_queue :: "byte list list \<Rightarrow> byte list \<Rightarrow> byte list" where
  "overrun_queue fs f = take (length (queue_bytes fs)) (drop 0x3000 f) @ drop (length f - 0x3000) (queue_bytes fs)"

definition overrun_frame :: "byte list list \<Rightarrow> byte list \<Rightarrow> byte list \<Rightarrow> byte list" where
  "overrun_frame fs f p =
     (let e = 0x3000 + length (queue_bytes fs); g = p @ drop (length p) f in
      take (length f) (take e g @ be32 (of_nat (length f)) @ drop (e + 4) g))"

definition overrun_bytes :: "byte list list \<Rightarrow> byte list \<Rightarrow> byte list \<Rightarrow> byte list" where
  "overrun_bytes fs f p =
     overrun_queue fs f @ (if queue_room fs (f, p) then be32 (of_nat (length f)) @ overrun_frame fs f p else [])"

lemma overrun_small:
  assumes "length f \<le> 0x3000" and "length p \<le> length f"
  shows "overrun_bytes fs f p = queue_bytes (fs @ (if queue_room fs (f, p) then [p @ drop (length p) f] else []))"
  using assms by (simp add: overrun_bytes_def overrun_queue_def overrun_frame_def Let_def)

lemma take_over:
  assumes "take q ys = qs" and "length xs = m"
  shows "take q (xs @ drop m ys) = take q xs @ drop m qs"
  using assms by (auto simp: drop_take)

lemma write_in_front:
  assumes "length xs = n"
  shows "take n (take e (xs @ ys) @ hs @ drop (e + length hs) (xs @ ys)) = take n (take e xs @ hs @ drop (e + length hs) xs)"
proof (cases "e \<le> n")
  case True
  then show ?thesis using assms by (cases "e + length hs \<le> n") simp_all
qed (use assms in simp)

lemma small_overrun_frames:
  assumes "queue_rep caps run fs v" and "length f \<le> 0x3000" and "0x2f00 < length f" and "length p \<le> 0x2f00"
  shows "fst (vw_frames (overrun_bytes fs f p)) = fs @ (if queue_room fs (f, p) then [p @ drop (length p) f] else [])"
proof -
  have fs: "length (queue_bytes fs) \<le> 0x4000" "[] \<notin> set fs"
    using assms(1) by (auto simp: queue_rep_def queue_holds_def)
  have "length (p @ drop (length p) f) = length f" using assms(3,4) by simp
  then show ?thesis
    using assms(2-4) fs frames_of_queue [of "fs @ (if queue_room fs (f, p) then [p @ drop (length p) f] else [])"]
    by (simp add: overrun_small queue_room_def)
qed

lemma large_puts:
  assumes "queue_rep caps True fs v" and "0x2f00 < length f" and "length f \<le> MAX_FRAME" and "length p \<le> 0x2f00"
  obtains q b mem rest v' where "queue_inst caps 1 q b mem v'" "unat q = length (queue_bytes fs)" "unat q \<le> 0x4000"
    "0x1000 \<le> unat b" "unat b \<le> 0x3f00" "0x20000 \<le> length mem" "drop 0x1000 mem = (p @ drop (length p) f) @ rest"
    "take (unat q) (drop 0x4000 mem) = overrun_queue fs f"
    "api_send (host_api reference_engine) (f, p) v =
       vw_call reference_engine ''ntx_send'' [int 0x1000, int (length f), int 0x1000, int (length p)] (\<lambda>r v. Some (r, v)) v'"
proof -
  obtain q b mem where v: "queue_inst caps 1 q b mem v" "queue_holds fs q b mem"
    "unat q \<le> 0x4000" "unat q = length (queue_bytes fs)"
    using assms(1) by (rule queue_repE) simp
  have b: "0x1000 \<le> unat b" "unat b \<le> 0x3f00" and l: "0x20000 \<le> length mem"
    and held: "take (length (queue_bytes fs)) (drop 0x4000 mem) = queue_bytes fs"
    using v(2) by (simp_all add: queue_holds_def)
  let ?a = "alloc_at b (of_nat (length f))" and ?b1 = "alloc_next b (of_nat (length f))"
  let ?c = "alloc_at ?b1 (of_nat (length p))" and ?b2 = "alloc_next ?b1 (of_nat (length p))"
  note places = large_places [OF b assms(2-4)]
  let ?m1 = "write_at 0x1000 f mem" and ?m2 = "write_at 0x1000 p (write_at 0x1000 f mem)"
  have n: "0x1000 + length f \<le> length mem" "0x1000 + length p \<le> length mem" "length p \<le> length f"
    using l assms(2-4) by (simp_all add: MAX_FRAME_def)
  have len: "length ?m1 = length mem" "length ?m2 = length mem" using n by simp_all
  have heap: "drop 0x1000 ?m2 = (p @ drop (length p) f) @ drop (0x1000 + length f) mem"
    using n by (simp add: write_at_def)
  have "take (unat q) (drop 0x4000 ?m2) = take (unat q) (drop 0x4000 ?m1)"
    using assms(4) len n by (intro read_above) simp_all
  also have "drop 0x4000 ?m1 = drop 0x3000 f @ drop (length f - 0x3000) (drop 0x4000 mem)"
    using n by (cases "length f \<le> 0x3000") (simp_all add: write_at_def)
  also have "take (unat q) \<dots> = overrun_queue fs f"
    unfolding overrun_queue_def v(4) by (rule take_over [OF held]) simp
  finally have queue: "take (unat q) (drop 0x4000 ?m2) = overrun_queue fs f" .
  let ?v0 = "v\<lparr>v_scratch := 0\<rparr>"
  let ?v1 = "?v0\<lparr>v_inst := (queue_module caps, queue_state 1 q ?b1 ?m1)\<rparr>"
  let ?v2 = "?v1\<lparr>v_inst := (queue_module caps, queue_state 1 q ?b2 ?m2)\<rparr>"
  have v0: "queue_inst caps 1 q b mem ?v0" and v1: "queue_inst caps 1 q ?b1 ?m1 ?v1" and v2: "queue_inst caps 1 q ?b2 ?m2 ?v2"
    using v(1) by simp_all
  have "api_send (host_api reference_engine) (f, p) v =
      vw_call reference_engine ''ntx_send'' [int 0x1000, int (length f), int 0x1000, int (length p)] (\<lambda>r v. Some (r, v)) ?v2"
    using n len
    by (simp add: host_api_def vw_send_def vw_reset_def places(1,2)
        put_reference [OF v0, of f, unfolded places(1)] put_reference [OF v1, of p, unfolded places(2), simplified])
  then show ?thesis using that [OF v2 v(4,3) places(3,4) _ heap queue] l len by simp
qed

lemma invoke_send_overrun:
  assumes "unat q = length (queue_bytes fs)" and "0x20000 \<le> length mem"
    and "drop 0x1000 mem = (p @ drop (length p) f) @ rest" and "length p \<le> length f"
    and "length (queue_bytes fs) + length f + 4 \<le> 0x4000"
  shows "\<exists>q' mem'. reference_invoke ''ntx_send'' [int 0x1000, int (length f), int c, int k] (queue_module caps, queue_state 1 q b mem) =
      Some (WNum 0, queue_module caps, queue_state 1 q' b mem') \<and> length mem' = length mem \<and> unat q' \<le> 0x4000 \<and>
      take (unat q') (drop 0x4000 mem') =
        take (unat q) (drop 0x4000 mem) @ be32 (of_nat (length f)) @ overrun_frame fs f p"
proof -
  have q: "unat q \<le> 0x4000" "q \<le> 0x4000" using assms(1,5) by (simp_all add: word_le_nat_alt)
  have n: "unat (of_nat (length f) :: 32 word) = length f" using assms(5) by (simp add: unat_of_nat)
  have room: "\<not> 0x4000 < q + of_nat (length f) + 4" and q': "unat (q + of_nat (length f) + 4) = unat q + length f + 4"
    using full_iff [OF q(1), of "length f"] assms(1,5) by simp_all
  let ?d = "0x4000 + unat q" and ?h = "be32 (of_nat (length f))"
  let ?m1 = "write_at ?d ?h mem"
  let ?g = "take (length f) (drop 0x1000 ?m1)"
  let ?m2 = "write_at (?d + 4) ?g ?m1"
  have fit: "0x1000 + length f \<le> length mem" "?d + 4 + length f \<le> length mem" using assms(1,2,5) by simp_all
  have m1: "length ?m1 = length mem" using fit by simp
  have g: "length ?g = length f" using m1 fit by simp
  have call: "call_func (queue_module caps) 6 [V32 (of_nat 0x1000), V32 (of_nat (length f)), V32 (of_nat c), V32 (of_nat k)]
      (queue_state 1 q b mem) = Answer [V32 0] (queue_state 1 (q + of_nat (length f) + 4) b ?m2)"
    using call_send [of 1 q "of_nat (length f)" mem caps "of_nat 0x1000" "of_nat c" "of_nat k" b] room q(2) assms(2) fit
    by (simp add: n Let_def)
  have "drop 0x1000 ?m1 = write_at (0x3000 + unat q) ?h (drop 0x1000 mem)"
    using fit by (simp add: write_at_def drop_take)
  also have "\<dots> = take (0x3000 + unat q) ((p @ drop (length p) f) @ rest) @ ?h @
      drop (0x3000 + unat q + length ?h) ((p @ drop (length p) f) @ rest)"
    unfolding assms(3) write_at_def ..
  finally have after: "drop 0x1000 ?m1 = take (0x3000 + unat q) ((p @ drop (length p) f) @ rest) @ ?h @
      drop (0x3000 + unat q + length ?h) ((p @ drop (length p) f) @ rest)" .
  have "?g = take (length f) (take (0x3000 + unat q) (p @ drop (length p) f) @ ?h @
      drop (0x3000 + unat q + length ?h) (p @ drop (length p) f))"
    unfolding after by (rule write_in_front) (use assms(4) in simp)
  also have "\<dots> = overrun_frame fs f p" unfolding overrun_frame_def Let_def assms(1) length_be32 ..
  finally have frame: "?g = overrun_frame fs f p" .
  have "?m2 = write_at ?d (?h @ ?g) mem" using write_at_append [of ?d ?h ?g mem] fit g by simp
  then have r: "take (unat q + length (?h @ ?g)) (drop 0x4000 ?m2) = take (unat q) (drop 0x4000 mem) @ ?h @ ?g"
    using read_through [of "0x4000" "unat q" "?h @ ?g" mem] fit g by simp
  have u: "unat (q + of_nat (length f) + 4) = unat q + length (?h @ ?g)" using q' g by simp
  have "take (unat (q + of_nat (length f) + 4)) (drop 0x4000 ?m2) =
      take (unat q) (drop 0x4000 mem) @ ?h @ overrun_frame fs f p"
    unfolding u frame [symmetric] by (rule r)
  moreover have "length ?m2 = length mem" using m1 fit g by simp
  moreover have "unat (q + of_nat (length f) + 4) \<le> 0x4000" using q' assms(1,5) by simp
  moreover have "reference_invoke ''ntx_send'' [int 0x1000, int (length f), int c, int k] (queue_module caps, queue_state 1 q b mem) =
      Some (WNum 0, queue_module caps, queue_state 1 (q + of_nat (length f) + 4) b ?m2)"
    unfolding invoke_send call by simp
  ultimately show ?thesis by blast
qed

lemma poll_returns_bytes:
  assumes "queue_inst caps r q b mem v" and "unat q \<le> 0x4000" and "0x1000 \<le> unat b" and "unat b \<le> 0x3f00"
    and "0x20000 \<le> length mem" and "box_fits mb"
  shows "\<exists>v'. api_poll (host_api reference_engine) mb v = Some (fst (vw_frames (take (unat q) (drop 0x4000 mem))), v')"
proof -
  let ?d = "unat (alloc_at b (of_nat (length mb)))" and ?b1 = "alloc_next b (of_nat (length mb))"
  let ?m1 = "write_at ?d mb mem"
  let ?v0 = "v\<lparr>v_scratch := 0\<rparr>"
  let ?v1 = "?v0\<lparr>v_inst := (queue_module caps, queue_state r q ?b1 ?m1)\<rparr>"
  have d: "?d + length mb \<le> 0x3f00"
    using alloc_in_heap [OF assms(3,4), of "length mb"] assms(6) by (simp add: box_fits_def)
  have v0: "queue_inst caps r q b mem ?v0" and v1: "queue_inst caps r q ?b1 ?m1 ?v1" using assms(1) by simp_all
  have l1: "0x20000 \<le> length ?m1" using d assms(5) by simp
  have same: "take (unat q) (drop 0x4000 ?m1) = take (unat q) (drop 0x4000 mem)" using d assms(5) by (simp add: read_above)
  show ?thesis
    using d assms(5)
    by (simp add: host_api_def vw_reset_def split_beta put_reference [OF v0, of mb]
        poll_reference [OF v1 assms(2) l1, unfolded same, simplified])
qed

lemma oversized_send:
  assumes "queue_rep caps True fs v" and "0x2f00 < length f" and "length f \<le> MAX_FRAME" and "length p \<le> 0x2f00" and "box_fits mb"
  shows "\<exists>v' v''. api_send (host_api reference_engine) (f, p) v = Some (WNum (if queue_room fs (f, p) then 0 else 3), v') \<and>
    api_poll (host_api reference_engine) mb v' = Some (fst (vw_frames (overrun_bytes fs f p)), v'')"
proof -
  obtain q b mem rest v1 where h: "queue_inst caps 1 q b mem v1" "unat q = length (queue_bytes fs)" "unat q \<le> 0x4000"
    "0x1000 \<le> unat b" "unat b \<le> 0x3f00" "0x20000 \<le> length mem" "drop 0x1000 mem = (p @ drop (length p) f) @ rest"
    "take (unat q) (drop 0x4000 mem) = overrun_queue fs f"
    "api_send (host_api reference_engine) (f, p) v =
       vw_call reference_engine ''ntx_send'' [int 0x1000, int (length f), int 0x1000, int (length p)] (\<lambda>r v. Some (r, v)) v1"
    using large_puts [OF assms(1-4)] by metis
  have n: "length p \<le> length f" "length f < 2 ^ 31" using assms(2-4) by (simp_all add: MAX_FRAME_def)
  show ?thesis
  proof (cases "queue_room fs (f, p)")
    case True
    then have room: "length (queue_bytes fs) + length f + 4 \<le> 0x4000" by (simp add: queue_room_def)
    obtain q' mem' where s: "reference_invoke ''ntx_send'' [int 0x1000, int (length f), int 0x1000, int (length p)]
          (queue_module caps, queue_state 1 q b mem) = Some (WNum 0, queue_module caps, queue_state 1 q' b mem')"
        "length mem' = length mem" "unat q' \<le> 0x4000" "take (unat q') (drop 0x4000 mem') = overrun_bytes fs f p"
      using invoke_send_overrun [OF h(2,6,7) n(1) room, of "0x1000" "length p" caps b] True
      unfolding h(8) overrun_bytes_def by auto
    let ?v = "v1\<lparr>v_inst := (queue_module caps, queue_state 1 q' b mem')\<rparr>"
    have "queue_inst caps 1 q' b mem' ?v" by simp
    from poll_returns_bytes [OF this s(3) h(4,5) _ assms(5)] s(2,4) h(6)
    have "\<exists>v''. api_poll (host_api reference_engine) mb ?v = Some (fst (vw_frames (overrun_bytes fs f p)), v'')" by simp
    then show ?thesis using True unfolding h(9) call_reference [OF h(1) s(1)] by auto
  next
    case False
    then have "0x4000 < unat q + length f + 4" by (simp add: queue_room_def h(2))
    note refused = call_reference [OF h(1) invoke_send_refused(2) [OF h(3) n(2) this]]
    let ?v = "v1\<lparr>v_inst := (queue_module caps, queue_state 1 q b mem)\<rparr>"
    have "overrun_bytes fs f p = take (unat q) (drop 0x4000 mem)" using False by (simp add: overrun_bytes_def h(8))
    then have "\<exists>v''. api_poll (host_api reference_engine) mb ?v = Some (fst (vw_frames (overrun_bytes fs f p)), v'')"
      using poll_returns_bytes [OF queue_inst_upd h(3,4,5,6) assms(5)] by simp
    then show ?thesis using False unfolding h(9) refused by auto
  qed
qed

section \<open>The conformance check\<close>

lemma put_rep:
  assumes "queue_rep caps run fs v" and "length d \<le> 0x2f00"
  shows "\<exists>a v'. vw_put reference_engine True d k v = k a v' \<and> queue_rep caps run fs v'"
proof -
  obtain q b mem where v: "queue_inst caps (if run then 1 else 0) q b mem v" "queue_holds fs q b mem" "v_fails v = []"
    using assms(1) by (rule queue_repE)
  have h: "0x1000 \<le> unat b" "unat b \<le> 0x3f00" "0x20000 \<le> length mem" using v(2) by (simp_all add: queue_holds_def)
  note a = alloc_in_heap [OF h(1,2) assms(2)]
  let ?a = "unat (alloc_at b (of_nat (length d)))" and ?b = "alloc_next b (of_nat (length d))"
  let ?v = "v\<lparr>v_inst := (queue_module caps, queue_state (if run then 1 else 0) q ?b (write_at ?a d mem))\<rparr>"
  have "queue_rep caps run fs ?v"
  proof (rule queue_repI)
    show "queue_holds fs q ?b (write_at ?a d mem)" using v(2) a h(3) by (simp add: queue_holds_def read_above)
  qed (simp_all add: v(3))
  moreover have "vw_put reference_engine True d k v = k ?a ?v" using a h(3) by (intro put_reference [OF v(1)]) simp
  ultimately show ?thesis by blast
qed

lemma reset_rep [simp]: "queue_rep caps run fs (v\<lparr>v_scratch := n\<rparr>) = queue_rep caps run fs v"
  by (simp add: queue_rep_def queue_inst_def)

text \<open>Each checked call succeeds without a complaint and keeps the queue.\<close>

lemma is_rep:
  assumes "queue_rep caps run fs v"
  shows "\<exists>v'. vw_is reference_engine ''ntx_start'' [] 0 m k v = k v' \<and> queue_rep caps True fs v'"
    and "\<exists>v'. vw_is reference_engine ''ntx_stop'' [] 0 m k v = k v' \<and> queue_rep caps False fs v'"
    and "\<exists>v'. vw_is reference_engine ''ntx_init'' [x, y] 0 m k v = k v' \<and> queue_rep caps run fs v'"
    and "\<exists>v'. vw_is reference_engine ''ntx_attach'' [x, y, z, u, w, t] 0 m k v = k v' \<and> queue_rep caps run fs v'"
    and "\<exists>v'. vw_is reference_engine ''ntx_detach'' [x] 0 m k v = k v' \<and> queue_rep caps run fs v'"
    and "\<exists>v'. vw_is reference_engine ''ntx_status'' [] (if run then 1 else 0) m k v = k v' \<and> queue_rep caps run fs v'"
proof -
  obtain q b mem where v: "queue_inst caps (if run then 1 else 0) q b mem v" "queue_holds fs q b mem" "v_fails v = []"
    using assms by (rule queue_repE)
  have rep: "queue_rep caps run' fs (v\<lparr>v_inst := (queue_module caps, queue_state (if run' then 1 else 0) q b mem)\<rparr>)" for run'
    by (rule queue_repI [OF _ v(2)]) (simp_all add: v(3))
  note r = rep [of True, simplified] rep [of False, simplified]
  show "\<exists>v'. vw_is reference_engine ''ntx_start'' [] 0 m k v = k v' \<and> queue_rep caps True fs v'"
    "\<exists>v'. vw_is reference_engine ''ntx_stop'' [] 0 m k v = k v' \<and> queue_rep caps False fs v'"
    using r by (auto simp: vw_is_def vw_expect_def call_reference [OF v(1) invoke_simple(3)]
        call_reference [OF v(1) invoke_simple(4)])
  show "\<exists>v'. vw_is reference_engine ''ntx_init'' [x, y] 0 m k v = k v' \<and> queue_rep caps run fs v'"
    "\<exists>v'. vw_is reference_engine ''ntx_attach'' [x, y, z, u, w, t] 0 m k v = k v' \<and> queue_rep caps run fs v'"
    "\<exists>v'. vw_is reference_engine ''ntx_detach'' [x] 0 m k v = k v' \<and> queue_rep caps run fs v'"
    using rep [of run] by (auto simp: vw_is_def vw_expect_def call_reference [OF v(1) invoke_simple(1)]
        call_reference [OF v(1) invoke_simple(6)] call_reference [OF v(1) invoke_simple(7)])
  show "\<exists>v'. vw_is reference_engine ''ntx_status'' [] (if run then 1 else 0) m k v = k v' \<and> queue_rep caps run fs v'"
    using rep [of run] by (auto simp: vw_is_def vw_expect_def call_reference [OF v(1) invoke_simple(5)])
qed

lemma polled_rep:
  assumes "queue_rep caps run fs v"
  shows "\<exists>v'. vw_poll reference_engine [x, y, z] k v = k fs v' \<and> queue_rep caps run [] v'"
proof -
  obtain q b mem where v: "queue_inst caps (if run then 1 else 0) q b mem v" "queue_holds fs q b mem" "v_fails v = []"
    "unat q \<le> 0x4000" "unat q = length (queue_bytes fs)"
    using assms by (rule queue_repE)
  have h: "0x1000 \<le> unat b" "unat b \<le> 0x3f00" "0x20000 \<le> length mem" using v(2) by (simp_all add: queue_holds_def)
  have "take (unat q) (drop 0x4000 mem) = queue_bytes fs" using v(2,5) by (simp add: queue_holds_def)
  moreover have "vw_frames (queue_bytes fs) = (fs, [])" using v(2) by (intro frames_of_queue) (simp_all add: queue_holds_def)
  ultimately have "vw_poll reference_engine [x, y, z] k v =
      k fs (v\<lparr>v_inst := (queue_module caps, queue_state (if run then 1 else 0) 0 b (write_at 0x8000 (queue_bytes fs) mem)),
        v_fails := v_fails v\<rparr>)"
    using poll_reference [OF v(1,4) h(3), of x y z k] by simp
  moreover have "queue_rep caps run [] (v\<lparr>v_inst := (queue_module caps, queue_state (if run then 1 else 0) 0 b
      (write_at 0x8000 (queue_bytes fs) mem)), v_fails := v_fails v\<rparr>)"
  proof (rule queue_repI)
    show "queue_inst caps (if run then 1 else 0) 0 b (write_at 0x8000 (queue_bytes fs) mem)
        (v\<lparr>v_inst := (queue_module caps, queue_state (if run then 1 else 0) 0 b (write_at 0x8000 (queue_bytes fs) mem)),
          v_fails := v_fails v\<rparr>)" by (simp add: queue_inst_def)
    show "queue_holds [] 0 b (write_at 0x8000 (queue_bytes fs) mem)" using v(4,5) h by (simp add: queue_holds_def)
  qed (simp add: v(3))
  ultimately show ?thesis by blast
qed

lemma caps_known:
  assumes "set cs \<subseteq> set KNOWN_CAPABILITIES" and "case mc of None \<Rightarrow> True | Some m \<Rightarrow> set cs \<subseteq> set m"
  shows "vw_caps mc cs k = k"
  using assms by (induction cs) (auto simp: vw_expect_def fun_eq_iff split: option.splits)

lemma decode_text_utf8: "decode_text (utf8 s) = s"
proof -
  have "take 3 (utf8_char c @ bs) \<noteq> [0xef, 0xbb, 0xbf]" for c bs
  proof
    assume t: "take 3 (utf8_char c @ bs) = [0xef, 0xbb, 0xbf]"
    obtain n where n: "n = (of_char c :: nat)" "n < 256" by simp
    have "hd (utf8_char c) = 0xef" using t by (cases "utf8_char c") auto
    then have "unat (hd (utf8_char c)) = 239" by simp
    moreover have "unat (hd (utf8_char c)) = (if n < 128 then n else 192 + n div 64)"
      using n(2) unat_byte [of "192 + n div 64"] by (simp add: utf8_char_def Let_def n(1) [symmetric] unat_byte del: of_nat_add)
    ultimately show False using n(2) by (simp split: if_splits)
  qed
  then have "take 3 (utf8 s) \<noteq> [0xef, 0xbb, 0xbf]" by (cases s) simp_all
  then show ?thesis by (simp add: decode_text_def)
qed

text \<open>The steps as rules: whatever holds of the continuation holds of the step.\<close>

lemma put_step:
  assumes "queue_rep caps run fs v" and "length d \<le> 0x2f00"
    and "\<And>a v'. queue_rep caps run fs v' \<Longrightarrow> Q (k a v')"
  shows "Q (vw_put reference_engine True d k v)"
  using put_rep [OF assms(1,2), of k] assms(3) by auto

lemma send_step:
  assumes "queue_rep caps run fs v" and "heap_fits (f, p)"
    and "\<And>v'. queue_rep caps run (if run \<and> queue_room fs (f, p) then fs @ [f] else fs) v' \<Longrightarrow>
      Q (k (WNum (if \<not> run then 1 else if queue_room fs (f, p) then 0 else 3)) v')"
  shows "Q (vw_send reference_engine True f p k v)"
proof -
  obtain v' where v': "vw_send reference_engine True f p k v =
      k (WNum (if \<not> run then 1 else if queue_room fs (f, p) then 0 else 3)) v'"
    "queue_rep caps run (if run \<and> queue_room fs (f, p) then fs @ [f] else fs) v'"
    using send_rep [OF assms(1,2), of k] by blast
  show ?thesis unfolding v'(1) by (rule assms(3) [OF v'(2)])
qed

lemma poll_step:
  assumes "queue_rep caps run fs v" and "\<And>v'. queue_rep caps run [] v' \<Longrightarrow> Q (k fs v')"
  shows "Q (vw_poll reference_engine [x, y, z] k v)"
  using polled_rep [OF assms(1), of x y z k] assms(2) by auto

lemma start_step:
  "queue_rep caps run fs v \<Longrightarrow> (\<And>v'. queue_rep caps True fs v' \<Longrightarrow> Q (k v')) \<Longrightarrow>
   Q (vw_is reference_engine ''ntx_start'' [] 0 m k v)"
  using is_rep(1) [of caps run fs v m k] by auto

lemma stop_step:
  "queue_rep caps run fs v \<Longrightarrow> (\<And>v'. queue_rep caps False fs v' \<Longrightarrow> Q (k v')) \<Longrightarrow>
   Q (vw_is reference_engine ''ntx_stop'' [] 0 m k v)"
  using is_rep(2) [of caps run fs v m k] by auto

lemma init_step:
  "queue_rep caps run fs v \<Longrightarrow> (\<And>v'. queue_rep caps run fs v' \<Longrightarrow> Q (k v')) \<Longrightarrow>
   Q (vw_is reference_engine ''ntx_init'' [x, y] 0 m k v)"
  using is_rep(3) [of caps run fs v x y m k] by auto

lemma attach_step:
  "queue_rep caps run fs v \<Longrightarrow> (\<And>v'. queue_rep caps run fs v' \<Longrightarrow> Q (k v')) \<Longrightarrow>
   Q (vw_is reference_engine ''ntx_attach'' [x, y, z, u, w, t] 0 m k v)"
  using is_rep(4) [of caps run fs v x y z u w t m k] by auto

lemma detach_step:
  "queue_rep caps run fs v \<Longrightarrow> (\<And>v'. queue_rep caps run fs v' \<Longrightarrow> Q (k v')) \<Longrightarrow>
   Q (vw_is reference_engine ''ntx_detach'' [x] 0 m k v)"
  using is_rep(5) [of caps run fs v x m k] by auto

lemma status_step:
  "queue_rep caps run fs v \<Longrightarrow> want = (if run then 1 else 0) \<Longrightarrow> (\<And>v'. queue_rep caps run fs v' \<Longrightarrow> Q (k v')) \<Longrightarrow>
   Q (vw_is reference_engine ''ntx_status'' [] want m k v)"
  using is_rep(6) [of caps run fs v m k] by auto

lemma expect_true: "c \<Longrightarrow> vw_expect c m k v = k v"
  by (simp add: vw_expect_def)

lemma reset_step: "queue_rep caps run fs v \<Longrightarrow> (\<And>v'. queue_rep caps run fs v' \<Longrightarrow> Q (k v')) \<Longrightarrow> Q (vw_reset k v)"
  by (simp add: vw_reset_def)

lemma box_lengths: "length vw_mb \<le> 0x2f00" "length vw_sec \<le> 0x2f00" "length ([] :: byte list) \<le> 0x2f00"
  by (simp_all add: vw_mb_def vw_sec_def)

lemma conformance_message:
  "heap_fits (conformance_frame, vw_pub)" "queue_room [] (conformance_frame, vw_pub)"
  by (simp_all add: heap_fits_def queue_room_def conformance_frame_def vw_pub_def utf8_char_def)

lemma leave_step:
  assumes "queue_rep caps True [] v" and "\<And>v'. queue_rep caps False [] v' \<Longrightarrow> Q (k v')"
  shows "Q (vw_reset (vw_put reference_engine True vw_mb (\<lambda>m.
      vw_is reference_engine ''ntx_detach'' [int m] 0 d
        (vw_is reference_engine ''ntx_stop'' [] 0 s (vw_is reference_engine ''ntx_status'' [] 0 t k)))) v)"
proof (rule reset_step [OF assms(1)], rule put_step [OF _ box_lengths(1)], assumption, rule detach_step, assumption,
    rule stop_step, assumption, rule status_step, assumption)
qed (simp_all add: assms(2))

lemma send_stopped_step:
  "queue_rep caps False fs v \<Longrightarrow> heap_fits (f, p) \<Longrightarrow> (\<And>v'. queue_rep caps False fs v' \<Longrightarrow> Q (k (WNum 1) v')) \<Longrightarrow>
   Q (vw_send reference_engine True f p k v)"
  by (rule send_step [of caps False fs]) simp_all

lemma send_accepted_step:
  "queue_rep caps True fs v \<Longrightarrow> heap_fits (f, p) \<Longrightarrow> queue_room fs (f, p) \<Longrightarrow>
   (\<And>v'. queue_rep caps True (fs @ [f]) v' \<Longrightarrow> Q (k (WNum 0) v')) \<Longrightarrow> Q (vw_send reference_engine True f p k v)"
  by (rule send_step [of caps True fs]) simp_all

lemma expect_step: "c \<Longrightarrow> Q (k v) \<Longrightarrow> Q (vw_expect c m k v)"
  by (simp add: vw_expect_def)

lemma exchange_step:
  assumes "queue_rep caps True [] v" and "\<And>v'. queue_rep caps False [] v' \<Longrightarrow> Q (k v')"
  shows "Q (vw_exchange reference_engine True loopback k v)"
  unfolding vw_exchange_def
  apply (rule reset_step [OF assms(1)], rule put_step [OF _ box_lengths(1)], assumption)
  apply (rule put_step [OF _ box_lengths(2)], assumption)
  apply (rule attach_step, assumption)
  apply (rule send_accepted_step [OF _ conformance_message], assumption)
  apply (rule expect_step, simp)
  apply (rule reset_step, assumption, rule put_step [OF _ box_lengths(1)], assumption)
  apply (rule poll_step, assumption)
  apply (cases loopback)
   apply (simp only: Let_def if_True)
   apply (rule expect_step, simp)
   apply (rule poll_step, assumption)
   apply (rule expect_step, simp)
   apply (erule leave_step, erule assms(2))
  apply (simp only: Let_def if_False)
  apply (erule leave_step, erule assms(2))
  done

lemma caps_pointer:
  assumes "n \<le> 32"
  shows "unat (drop_bit 32 (0x100 * 2 ^ 32 + of_nat n :: 64 word)) = 0x100"
    and "unat (take_bit 32 (0x100 * 2 ^ 32 + of_nat n :: 64 word)) = n"
proof -
  have n: "unat (of_nat n :: 64 word) = n" using assms by (simp add: unat_of_nat)
  have u: "unat (0x100 * 2 ^ 32 + of_nat n :: 64 word) = 0x100 * 2 ^ 32 + n"
    using assms by (simp add: unat_word_ariths n)
  show "unat (drop_bit 32 (0x100 * 2 ^ 32 + of_nat n :: 64 word)) = 0x100"
    by (simp only: unsigned_drop_bit_eq u) (use assms in \<open>simp add: drop_bit_eq_div take_bit_nat_eq_self\<close>)
  show "unat (take_bit 32 (0x100 * 2 ^ 32 + of_nat n :: 64 word)) = n"
    unfolding unsigned_take_bit_eq u unfolding take_bit_eq_mod mod_mult_self3 using assms by simp
qed

lemma capabilities_step:
  assumes "length (utf8 caps) \<le> 32" and "queue_inst caps r q b (queue_memory caps) v" and "Q (k (utf8 caps) v)"
  shows "Q (vw_call reference_engine ''ntx_caps'' [] (\<lambda>r. vw_blob reference_engine r k) v)"
proof -
  have "take (length (utf8 caps)) (drop 0x100 (queue_memory caps)) = utf8 caps"
    using assms(1) by (simp add: queue_memory_def read_written)
  moreover have "v\<lparr>v_inst := (queue_module caps, queue_state r q b (queue_memory caps))\<rparr> = v"
    using assms(2) by (simp add: queue_inst_def)
  moreover have "memory_of reference_engine (v_inst v) = queue_memory caps"
    using assms(2) by (simp add: queue_inst_def reference_engine_def queue_state_def)
  ultimately show ?thesis
    using assms(3) unfolding call_reference [OF assms(2) invoke_simple(2)]
    by (simp only: vw_blob_def js_wasm.case caps_pointer [OF assms(1)])
qed

lemma conformance_passes:
  assumes "length (utf8 caps) \<le> 32" and "caps_of caps \<noteq> []" and "set (caps_of caps) \<subseteq> set KNOWN_CAPABILITIES"
    and "case mc of None \<Rightarrow> True | Some m \<Rightarrow> set (caps_of caps) \<subseteq> set m"
  shows "conformance reference_engine True mc loopback
    (loaded (queue_module caps, queue_state 0 0 0x1000 (queue_memory caps))) = Some []"
proof -
  let ?v = "loaded (queue_module caps, queue_state 0 0 0x1000 (queue_memory caps))"
  have rep: "queue_rep caps False [] ?v" by (rule new_queue_rep [OF assms(1)])
  have inst: "queue_inst caps 0 0 0x1000 (queue_memory caps) ?v" by (simp add: queue_inst_def)
  have alloc: "alloc_at 0x1000 0 = 0x1000" "alloc_next 0x1000 0 = 0x1000" by (simp_all add: alloc_at_def alloc_next_def)
  have "write_at n [] mem = mem" for n mem by (simp add: write_at_def)
  then have put: "vw_put reference_engine True [] k ?v = k 0x1000 ?v"
    for k :: "nat \<Rightarrow> (wmodule \<times> wasm_instance, string list) vw"
    using put_reference [OF inst, of "[]" k] by (simp add: alloc length_queue_memory assms(1))
  have init: "vw_is reference_engine ''ntx_init'' [x, y] 0 m k ?v = k ?v"
    for x y m and k :: "(wmodule \<times> wasm_instance, string list) vw"
    by (simp add: vw_is_def call_reference [OF inst invoke_simple(1)] vw_expect_def)
  have finish: "queue_rep caps run fs v \<Longrightarrow> Some (v_fails v) = Some []" for run fs v by (simp add: queue_rep_def)
  show ?thesis
    unfolding conformance_def vw_reset_def
    apply (simp only: vw_state.simps put init)
    apply (rule capabilities_step [OF assms(1) inst])
    apply (simp only: decode_text_utf8 Let_def caps_known [OF assms(3,4)])
    apply (rule expect_step [OF assms(2)])
    apply (rule status_step [OF rep], simp)
    apply (rule send_stopped_step [OF _ conformance_message(1)], assumption)
    apply (rule expect_step, simp)
    apply (rule start_step, assumption)
    apply (rule status_step, assumption, simp)
    apply (rule exchange_step, assumption)
    apply (erule finish)
    done
qed

lemma queue_exports_reference:
  "decode_module bytes = Some (queue_module caps) \<Longrightarrow> exports_of reference_engine bytes = export_names @ [''memory'']"
  "imports_of reference_engine bytes = []"
  by (simp_all add: reference_engine_def queue_exports)

lemma verify_queue_module:
  assumes "buildQueueModule caps = Some bytes"
    and "caps_of caps \<noteq> []" and "set (caps_of caps) \<subseteq> set KNOWN_CAPABILITIES"
    and "case mc of None \<Rightarrow> True | Some m \<Rightarrow> set (caps_of caps) \<subseteq> set m"
  shows "verifyWasm reference_engine bytes mc loopback = Some []"
proof -
  note d = queue_module_decodes [OF assms(1)]
  have fails: "import_fails [] @ map (\<lambda>n. ''missing export '' @ n)
      (filter (\<lambda>n. n \<notin> set (export_names @ [''memory''])) required_exports) = []"
    by (simp add: import_fails_def required_exports_def export_names_def)
  have alloc: "(''ntx_alloc'' \<in> set (export_names @ [''memory''])) = True" by (simp add: export_names_def)
  have valid: "validates reference_engine bytes" by (simp add: reference_engine_def d queue_module_valid)
  show ?thesis
    unfolding verifyWasm_def Let_def queue_exports_reference(2) queue_exports_reference(1) [OF d(1)] fails alloc
    using valid new_queue [OF assms(1)] conformance_passes [OF d(2) assms(2-4)] by simp
qed

section \<open>Properties\<close>

text \<open>C34 Typing: the bytes \<open>buildQueueModule\<close> returns decode to a module the engine validates, and a call of any
  of its functions with arguments of its type, on an instance of the module, answers results of its type
  and keeps the types of the globals and the size of the memory, or traps; it never gets stuck.\<close>

theorem built_module_typed:
  assumes "buildQueueModule caps = Some bytes"
  shows "\<exists>m. decode_module bytes = Some m \<and> encode_module m = bytes \<and> validates reference_engine bytes \<and>
    (\<forall>i args inst. i < length (m_codes m) \<longrightarrow> instance_ok m inst \<longrightarrow> map type_of args = fst (func_type m i) \<longrightarrow>
       call_func m i args inst = CallTrapped \<or>
       (\<exists>vs inst'. call_func m i args inst = Answer vs inst' \<and> map type_of vs = snd (func_type m i) \<and>
          instance_ok m inst' \<and> length (i_memory inst') = length (i_memory inst)))"
proof -
  note d = queue_module_decodes [OF assms]
  have "length (m_codes (queue_module caps)) = 10" by (simp add: queue_module_def)
  then show ?thesis
    using d buildQueueModule_encodes [OF d(2)] assms queue_module_valid call_sound [OF queue_functions_checked]
    by (intro exI [of _ "queue_module caps"]) (simp add: reference_engine_def)
qed

lemma message_module: "\<exists>bytes. buildQueueModule ''message'' = Some bytes"
  by (simp add: buildQueueModule_encodes utf8_char_def)

theorem built_module_typed_witness:
  "\<exists>bytes m. buildQueueModule ''message'' = Some bytes \<and> decode_module bytes = Some m"
  using message_module built_module_typed [of "''message''"] by blast

text \<open>C35 Refinement: in every session of starts, stops, sends and polls with a new instance of the module, whose
  frames are not empty and fit its heap with their recipients, each call answers what a queue of 0x4000 bytes answers: a send is refused with 1
  before the start and with 3 when the queue has no room, and a poll returns exactly the frames accepted
  since the last one, in their order.\<close>

theorem queue_module_refines_fifo:
  assumes "buildQueueModule caps = Some bytes" and "list_all (op_fits heap_fits box_fits) ops"
  shows "\<exists>inst s. new_instance reference_engine bytes = Some inst \<and>
    host_session (host_api reference_engine) ops (loaded inst) = Some (fifo_session fst queue_room ops (False, []), s) \<and>
    v_fails s = []"
  using queue_fifo.session_answers [OF new_queue_rep [OF queue_module_decodes(2) [OF assms(1)]] assms(2)] new_queue [OF assms(1)]
  by (fastforce simp: queue_rep_def)

text \<open>C36 Frames larger than the heap: \<open>ntx_alloc\<close> never fails and starts what does not fit at 0x1000, so a frame
  of more than 0x2f00 bytes and the recipient put after it start at the same place.  After every session that fits
  the heap and leaves the module running with the frames \<open>fs\<close> queued, for every frame of more than 0x2f00 bytes
  that \<open>MAX_FRAME\<close> allows and every recipient of at most 0x2f00: the send answers 0 exactly if the queue has room for the frame, and 3 otherwise, and
  the next poll returns the frames that parse from \<open>overrun_bytes\<close>: the frame's bytes from 0x3000 on stand over
  the beginning of the queue, whether or not the send was accepted; an accepted frame follows with its head
  overwritten by the recipient's key and, where it reaches the end of the queue, by its own length.  For a frame of
  at most 0x3000 bytes this is: the frames queued before are returned, and an accepted one with its head lost.\<close>

theorem oversized_frames_corrupt:
  assumes "buildQueueModule caps = Some bytes" and "list_all (op_fits heap_fits box_fits) ops"
    and "fifo_after fst queue_room ops (False, []) = (True, fs)"
    and "0x2f00 < length f" and "length f \<le> MAX_FRAME" and "length p \<le> 0x2f00" and "box_fits mb"
  shows "\<exists>inst s. new_instance reference_engine bytes = Some inst \<and>
      host_session (host_api reference_engine) (ops @ [FSend (f, p), FPoll mb]) (loaded inst) =
        Some (fifo_session fst queue_room ops (False, []) @
          [FCode (WNum (if queue_room fs (f, p) then 0 else 3)), FFrames (fst (vw_frames (overrun_bytes fs f p)))], s) \<and>
      (length f \<le> 0x3000 \<longrightarrow> fst (vw_frames (overrun_bytes fs f p)) =
        fs @ (if queue_room fs (f, p) then [p @ drop (length p) f] else []))"
proof -
  let ?inst = "(queue_module caps, queue_state 0 0 0x1000 (queue_memory caps))"
  obtain v where v: "host_session (host_api reference_engine) ops (loaded ?inst) =
      Some (fifo_session fst queue_room ops (False, []), v)" "queue_rep caps True fs v"
    using queue_fifo.session_leaves [OF new_queue_rep [OF queue_module_decodes(2) [OF assms(1)]] assms(2,3)] by blast
  obtain v' v'' where "api_send (host_api reference_engine) (f, p) v = Some (WNum (if queue_room fs (f, p) then 0 else 3), v')"
      "api_poll (host_api reference_engine) mb v' = Some (fst (vw_frames (overrun_bytes fs f p)), v'')"
    using oversized_send [OF v(2) assms(4-7)] by blast
  then have "\<exists>s. host_session (host_api reference_engine) (ops @ [FSend (f, p), FPoll mb]) (loaded ?inst) =
        Some (fifo_session fst queue_room ops (False, []) @
          [FCode (WNum (if queue_room fs (f, p) then 0 else 3)), FFrames (fst (vw_frames (overrun_bytes fs f p)))], s)"
    by (simp add: host_session_append v(1))
  moreover have "fst (vw_frames (overrun_bytes fs f p)) = fs @ (if queue_room fs (f, p) then [p @ drop (length p) f] else [])"
    if "length f \<le> 0x3000"
    using small_overrun_frames [OF v(2) that assms(4,6)] .
  ultimately show ?thesis using new_queue [OF assms(1)] by blast
qed

theorem queue_module_refines_fifo_witness:
  "\<exists>bytes inst s. buildQueueModule ''message'' = Some bytes \<and> new_instance reference_engine bytes = Some inst \<and>
    host_session (host_api reference_engine) [FSend ([5], [7]), FStart, FSend ([1, 2], [7]), FSend ([3], [7]), FPoll [1], FPoll [1]]
        (loaded inst) =
      Some ([FCode (WNum 1), FCode (WNum 0), FCode (WNum 0), FCode (WNum 0), FFrames [[1, 2], [3]], FFrames []], s)"
proof -
  let ?ops = "[FSend ([5], [7]), FStart, FSend ([1, 2], [7]), FSend ([3], [7]), FPoll [1], FPoll [1]]
    :: (byte list \<times> byte list, byte list) fifo_op list"
  obtain bytes where b: "buildQueueModule ''message'' = Some bytes" using message_module by blast
  have ops: "list_all (op_fits heap_fits box_fits) ?ops" by (simp add: heap_fits_def box_fits_def)
  have spec: "fifo_session fst queue_room ?ops (False, []) =
      [FCode (WNum 1), FCode (WNum 0), FCode (WNum 0), FCode (WNum 0), FFrames [[1, 2], [3]], FFrames []]"
    by (simp add: queue_room_def)
  show ?thesis using b queue_module_refines_fifo [OF b ops] unfolding spec by blast
qed

theorem oversized_frames_corrupt_witness:
  "\<exists>bytes inst s s' s''. buildQueueModule ''message'' = Some bytes \<and> new_instance reference_engine bytes = Some inst \<and>
    host_session (host_api reference_engine) [FStart, FSend (replicate 0x2f01 0, [7, 7]), FPoll [1]] (loaded inst) =
      Some ([FCode (WNum 0), FCode (WNum 0), FFrames [[7, 7] @ replicate 0x2eff 0]], s) \<and>
    host_session (host_api reference_engine) [FStart, FSend (replicate 0x3004 1, [7]), FPoll [1]] (loaded inst) =
      Some ([FCode (WNum 0), FCode (WNum 0), FFrames [[7] @ replicate 0x2fff 1 @ [0, 0, 0x30, 4]]], s') \<and>
    host_session (host_api reference_engine)
        [FStart, FSend ([1, 2], [7]), FSend (replicate MAX_FRAME 0, [7]), FPoll [1]] (loaded inst) =
      Some ([FCode (WNum 0), FCode (WNum 0), FCode (WNum 3), FFrames []], s'')"
proof -
  obtain bytes where b: "buildQueueModule ''message'' = Some bytes" using message_module by blast
  have mb: "box_fits [1]" by (simp add: box_fits_def)
  let ?one = "[FStart] :: (byte list \<times> byte list, byte list) fifo_op list"
  let ?two = "[FStart, FSend ([1, 2], [7])] :: (byte list \<times> byte list, byte list) fifo_op list"
  have one: "list_all (op_fits heap_fits box_fits) ?one" "fifo_after fst queue_room ?one (False, []) = (True, [])" by simp_all
  have two: "list_all (op_fits heap_fits box_fits) ?two" "fifo_after fst queue_room ?two (False, []) = (True, [[1, 2]])"
    by (simp_all add: heap_fits_def queue_room_def)
  obtain inst where inst: "new_instance reference_engine bytes = Some inst" using new_queue [OF b] by blast
  have head: "\<exists>s. host_session (host_api reference_engine) [FStart, FSend (replicate 0x2f01 0, [7, 7]), FPoll [1]] (loaded inst) =
      Some ([FCode (WNum 0), FCode (WNum 0), FFrames [[7, 7] @ replicate 0x2eff 0]], s)"
    using oversized_frames_corrupt [OF b one _ _ _ mb, of "replicate 0x2f01 0" "[7, 7]"] inst
    by (auto simp: MAX_FRAME_def queue_room_def)
  let ?f = "replicate 0x3004 (1 :: byte)" and ?g = "[7] @ replicate 0x2fff (1 :: byte) @ [0, 0, 0x30, 4]"
  have "overrun_bytes [] ?f [7] = queue_bytes [?g]"
    by (simp add: overrun_bytes_def overrun_queue_def overrun_frame_def queue_room_def be32_def)
  then have "fst (vw_frames (overrun_bytes [] ?f [7])) = [?g]" using frames_of_queue [of "[?g]"] by simp
  then have tail: "\<exists>s. host_session (host_api reference_engine) [FStart, FSend (?f, [7]), FPoll [1]] (loaded inst) =
      Some ([FCode (WNum 0), FCode (WNum 0), FFrames [?g]], s)"
    using oversized_frames_corrupt [OF b one _ _ _ mb, of ?f "[7]"] inst by (auto simp: MAX_FRAME_def queue_room_def)
  let ?z = "replicate MAX_FRAME (0 :: byte)"
  have "overrun_bytes [[1, 2]] ?z [7] = [0, 0, 0, 0, 0, 0]"
    by (simp add: overrun_bytes_def overrun_queue_def queue_room_def MAX_FRAME_def replicate_Suc_eval)
  moreover have "vw_frames [0, 0, 0, 0, 0, 0] = ([], [''poll frame out of bounds''])"
    by (simp add: vw_frames.simps be_length_def)
  ultimately have "fst (vw_frames (overrun_bytes [[1, 2]] ?z [7])) = []" by simp
  then have "\<exists>s. host_session (host_api reference_engine) (?two @ [FSend (?z, [7]), FPoll [1]]) (loaded inst) =
      Some ([FCode (WNum 0), FCode (WNum 0), FCode (WNum 3), FFrames []], s)"
    using oversized_frames_corrupt [OF b two _ _ _ mb, of ?z "[7]"] inst by (auto simp: MAX_FRAME_def queue_room_def)
  with head tail show ?thesis using b inst unfolding append.simps by blast
qed

end
