(* ===== verification/BuildWasm.thy ===== *)
theory BuildWasm
  imports VerifyWasm WasmAsm
begin

text \<open>
  \<open>transports/build-wasm.mjs\<close> and \<open>transports/nextalk-relay/wasm/build.mjs\<close>: the selection of the
  extensions, the build, check and packaging of each, the exit code and the list of hashes.  The directories
  next to the script are a list of records; a build script is what it leaves in its output directory.
\<close>

section \<open>The command line\<close>

text \<open>\<open>opt\<close>: \<open>None\<close> is the exit with code 2 for a flag without a value.\<close>

definition opt :: "string list \<Rightarrow> string \<Rightarrow> string option option" where
  "opt args name =
     (case index_of name args of
        None \<Rightarrow> Some None
      | Some i \<Rightarrow>
          if Suc i < length args \<and> args ! Suc i \<noteq> [] \<and> \<not> starts_with ''--'' (args ! Suc i) then Some (Some (args ! Suc i))
          else None)"

definition skip_indices :: "string list \<Rightarrow> nat list" where
  "skip_indices args =
     concat (map (\<lambda>f. case index_of f args of Some i \<Rightarrow> [i, Suc i] | None \<Rightarrow> []) [''--version'', ''--out''])"

definition only_names :: "string list \<Rightarrow> string list" where
  "only_names args =
     map fst (filter (\<lambda>(a, i). \<not> starts_with ''--'' a \<and> i \<notin> set (skip_indices args)) (zip args [0..<length args]))"

text \<open>\<open>/^\d+\.\d+\.\d+(-[0-9A-Za-z.-]+)?$/\<close>.\<close>

definition version_re :: "string \<Rightarrow> bool" where
  "version_re s =
     (let a = takeWhile is_digit s; s1 = dropWhile is_digit s;
          b = takeWhile is_digit (tl s1); s2 = dropWhile is_digit (tl s1);
          c = takeWhile is_digit (tl s2); s3 = dropWhile is_digit (tl s2) in
      a \<noteq> [] \<and> s1 \<noteq> [] \<and> hd s1 = CHR ''.'' \<and> b \<noteq> [] \<and> s2 \<noteq> [] \<and> hd s2 = CHR ''.'' \<and> c \<noteq> [] \<and>
      (s3 = [] \<or> hd s3 = CHR ''-'' \<and> tl s3 \<noteq> [] \<and> list_all (\<lambda>x. is_alnum x \<or> x = CHR ''.'' \<or> x = CHR ''-'') (tl s3)))"

section \<open>The extensions\<close>

text \<open>
  A directory entry: the texts of \<open>wasm/manifest.json\<close> and \<open>wasm/verify.json\<close> where they exist, the other
  files of \<open>wasm\<close>, and for a \<open>wasm/build.mjs\<close> the status and the files it leaves.
\<close>

record extension =
  x_name :: string
  x_is_dir :: bool
  x_manifest :: "string option"
  x_build :: "(int option \<times> (string \<rightharpoonup> byte list)) option"
  x_files :: "string \<rightharpoonup> byte list"
  x_verify :: "string option"

definition select :: "string list \<Rightarrow> extension list \<Rightarrow> extension list" where
  "select only dirs =
     sort_key x_name
       (filter (\<lambda>d. x_is_dir d \<and> x_name d \<notin> {''dist'', ''node_modules'', ''tools'', ''test''} \<and> \<not> starts_with ''.'' (x_name d) \<and>
          x_manifest d \<noteq> None \<and> (only = [] \<or> x_name d \<in> set only)) dirs)"

text \<open>\<open>JSON.parse\<close>, and \<open>{ ...raw, version }\<close>.\<close>

definition read_json :: "string \<Rightarrow> js_error + json" where
  "read_json text = (case json_parse text of None \<Rightarrow> Inl SyntaxError | Some j \<Rightarrow> Inr j)"

fun spread_entries :: "json \<Rightarrow> (string \<times> json) list" where
  "spread_entries (JObj kvs) = kvs"
| "spread_entries (JArr xs) = map (\<lambda>(x, i). (str_of_nat i, x)) (zip xs [0..<length xs])"
| "spread_entries (JStr s) = map (\<lambda>(c, i). (str_of_nat i, JStr [c])) (zip s [0..<length s])"
| "spread_entries _ = []"

definition stamp :: "string option \<Rightarrow> json \<Rightarrow> json" where
  "stamp version raw =
     (case version of None \<Rightarrow> raw | Some v \<Rightarrow> JObj (obj_insert ''version'' (JStr v) (spread_entries raw)))"

text \<open>What the output directory of the build holds, or the message of the exception.\<close>

definition built_files :: "extension \<Rightarrow> string \<Rightarrow> js_error + (string \<rightharpoonup> byte list)" where
  "built_files d entry =
     (case x_build d of
        Some (status, files) \<Rightarrow>
          if status \<noteq> Some 0 then Inl (UserError ''wasm/build.mjs failed'') else Inr files
      | None \<Rightarrow> Inr (case x_files d entry of Some b \<Rightarrow> [entry \<mapsto> b] | None \<Rightarrow> Map.empty))"

definition string_list :: "jsval \<Rightarrow> string list" where
  "string_list v = (case v of Some (JArr xs) \<Rightarrow> map (\<lambda>x. case x of JStr s \<Rightarrow> s | _ \<Rightarrow> []) xs | _ \<Rightarrow> [])"

definition loopback_flag :: "extension \<Rightarrow> js_error + bool" where
  "loopback_flag d =
     (case x_verify d of
        None \<Rightarrow> Inr False
      | Some text \<Rightarrow>
          (case read_json text of
             Inl e \<Rightarrow> Inl e
           | Inr j \<Rightarrow> (case get_prop (Some j) ''loopback'' of Inl e \<Rightarrow> Inl e | Inr v \<Rightarrow> Inr (truthy v))))"

text \<open>One pass of the loop: the exception, or the line of \<open>SHA256SUMS\<close> and the output directory.\<close>

definition build_extension ::
  "node_api \<Rightarrow> 's wasm_engine \<Rightarrow> string option \<Rightarrow> extension \<Rightarrow> (string \<rightharpoonup> byte list) \<Rightarrow>
   js_error + (string \<times> (string \<rightharpoonup> byte list))" where
  "build_extension node eng version d dist =
     (case read_json (the (x_manifest d)) of
        Inl e \<Rightarrow> Inl e
      | Inr raw \<Rightarrow>
      (case validateManifest (Some (stamp version raw)) True of
        Inl e \<Rightarrow> Inl e
      | Inr manifest \<Rightarrow>
      (let entry = js_string (js_prop manifest ''entry'') in
       case built_files d entry of
        Inl e \<Rightarrow> Inl e
      | Inr files \<Rightarrow>
      (case files entry of
        None \<Rightarrow> Inl (UserError (''wasm/build.mjs must write '' @ entry @ '' into its output dir''))
      | Some bytes \<Rightarrow>
      (case loopback_flag d of
        Inl e \<Rightarrow> Inl e
      | Inr loopback \<Rightarrow>
      (case verifyWasm eng bytes (Some (string_list (js_prop manifest ''capabilities''))) loopback of
        None \<Rightarrow> Inl (ServiceError ''WebAssembly'')
      | Some fails \<Rightarrow>
          if fails \<noteq> [] then
            Inl (UserError (''ABI v1 verification:'' @ [CHR 0x0A] @ ''  - '' @ join ([CHR 0x0A] @ ''  - '') fails))
          else
            (case writeNtx node dist manifest bytes True [] of
               Inl e \<Rightarrow> Inl e
             | Inr ((file, hash, m), dist') \<Rightarrow> Inr (hash @ ''  '' @ file, dist'))))))))"

text \<open>The loop: an exception counts as a failure and the next extension is built.\<close>

fun build_all ::
  "node_api \<Rightarrow> 's wasm_engine \<Rightarrow> string option \<Rightarrow> extension list \<Rightarrow> string list \<times> nat \<times> (string \<rightharpoonup> byte list) \<Rightarrow>
   string list \<times> nat \<times> (string \<rightharpoonup> byte list)" where
  "build_all node eng version [] st = st"
| "build_all node eng version (d # ds) (sums, failed, dist) =
     build_all node eng version ds
       (case build_extension node eng version d dist of
          Inl e \<Rightarrow> (sums, Suc failed, dist)
        | Inr (line, dist') \<Rightarrow> (sums @ [line], failed, dist'))"

text \<open>The whole script: the exit code and the output directory, which starts empty unless the script stops before.\<close>

definition build_wasm ::
  "node_api \<Rightarrow> 's wasm_engine \<Rightarrow> string list \<Rightarrow> extension list \<Rightarrow> (string \<rightharpoonup> byte list) \<Rightarrow> int \<times> (string \<rightharpoonup> byte list)" where
  "build_wasm node eng args dirs before =
     (case (opt args ''--version'', opt args ''--out'') of
        (Some version, Some out) \<Rightarrow>
          if version \<noteq> None \<and> \<not> version_re (the version) then (2, before)
          else
            (let exts = select (only_names args) dirs in
             if exts = [] then (1, before)
             else
               (let (sums, failed, dist) = build_all node eng version exts ([], 0, Map.empty) in
                (if failed \<noteq> 0 then 1 else 0, dist(''SHA256SUMS'' \<mapsto> utf8 (join [CHR 0x0A] (sort sums) @ [CHR 0x0A])))))
      | _ \<Rightarrow> (2, before))"

section \<open>The build script of nextalk-relay\<close>

text \<open>
  \<open>nextalk-relay/wasm/build.mjs\<close>, given the text of its manifest: an exception ends the process with status 1.
\<close>

definition nextalk_relay_build :: "string \<Rightarrow> int option \<times> (string \<rightharpoonup> byte list)" where
  "nextalk_relay_build manifest_text =
     (case json_parse manifest_text of
        None \<Rightarrow> (Some 1, Map.empty)
      | Some manifest \<Rightarrow>
          (case (js_prop manifest ''entry'', js_prop manifest ''capabilities'') of
             (Some (JStr entry), Some (JArr caps)) \<Rightarrow>
               (case buildQueueModule (js_string_json (JArr caps)) of
                  None \<Rightarrow> (Some 1, Map.empty)
                | Some bytes \<Rightarrow> (Some 0, [entry \<mapsto> bytes]))
           | _ \<Rightarrow> (Some 1, Map.empty)))"

end
