(* ===== verification/BuildProperties.thy ===== *)
theory BuildProperties
  imports BuildWasm WasmProperties
begin

text \<open>
  What the build of the packages promises: only packages that passed the manifest rules and the conformance
  check are written, and the package of nextalk-relay is built from its manifest.
\<close>

section \<open>What a valid manifest has\<close>

lemma validate_same: "validateManifest (Some m) wasm = Inr m' \<Longrightarrow> m' = m"
  by (auto simp: validateManifest_def bad_def Let_def split: if_splits option.splits json.splits)

lemma validate_browser:
  assumes "validateManifest (Some m) True = Inr m'"
  obtains e cs where "js_prop m ''entry'' = Some (JStr e)" "ends_with ''.wasm'' (lower e)"
    "js_prop m ''capabilities'' = Some (JArr (map JStr cs))" "cs \<noteq> []" "set cs \<subseteq> set KNOWN_CAPABILITIES"
    "coerce_test ID_RE (js_prop m ''id'')"
  using assms
  by (auto simp: validateManifest_def bad_def Let_def first_unknown_None split: if_splits option.splits json.splits)

section \<open>Capabilities in one text\<close>

lemma split_commas_nonempty: "split_commas s \<noteq> []"
  by (cases s rule: split_commas.cases) (auto split: list.splits)

lemma split_commas_word: "CHR '','' \<notin> set s \<Longrightarrow> split_commas s = [s]"
  by (induction s) auto

lemma split_commas_append: "CHR '','' \<notin> set s \<Longrightarrow> split_commas (s @ CHR '','' # t) = s # split_commas t"
  by (induction s) auto

lemma split_commas_join: "cs \<noteq> [] \<Longrightarrow> (\<forall>c\<in>set cs. CHR '','' \<notin> set c) \<Longrightarrow> split_commas (join '','' cs) = cs"
  by (induction "'','' :: string" cs rule: join.induct) (auto simp: split_commas_word split_commas_append)

lemma known_capability: "c \<in> set KNOWN_CAPABILITIES \<Longrightarrow> CHR '','' \<notin> set c \<and> trim c = c \<and> c \<noteq> []"
  by (auto simp: KNOWN_CAPABILITIES_def trim_def is_ws_def)

lemma caps_of_join:
  assumes "cs \<noteq> []" and "set cs \<subseteq> set KNOWN_CAPABILITIES"
  shows "caps_of (join '','' cs) = cs"
proof -
  have "map trim cs = cs" "filter (\<lambda>s. s \<noteq> []) cs = cs"
    using assms(2) known_capability by (auto intro!: map_idI simp: filter_id_conv)
  moreover have "split_commas (join '','' cs) = cs"
    using assms known_capability by (intro split_commas_join) blast+
  ultimately show ?thesis by (simp only: caps_of_def)
qed

lemma js_string_of_strings: "js_string_json (JArr (map JStr cs)) = join '','' cs"
  by (simp add: o_def)

lemma string_list_of_strings: "string_list (Some (JArr (map JStr cs))) = cs"
  by (simp add: string_list_def o_def)

section \<open>Verified packages\<close>

text \<open>
  The package \<open>pkg\<close> of an extension of \<open>ds\<close>: its manifest, stamped with the version, passed the rules, and the
  module its own build left under the entry passed the conformance check against the manifest, with the loopback
  exchange exactly if its \<open>verify.json\<close> asks for it.
\<close>

definition verified_package ::
  "node_api \<Rightarrow> 's wasm_engine \<Rightarrow> string option \<Rightarrow> extension list \<Rightarrow> string \<Rightarrow> byte list \<Rightarrow> bool" where
  "verified_package node eng version ds f pkg \<longleftrightarrow>
     (\<exists>d\<in>set ds. \<exists>raw m files bytes loopback.
        read_json (the (x_manifest d)) = Inr raw \<and> validateManifest (Some (stamp version raw)) True = Inr m \<and>
        f = js_string (js_prop m ''id'') @ ''.ntx'' \<and>
        built_files d (js_string (js_prop m ''entry'')) = Inr files \<and> files (js_string (js_prop m ''entry'')) = Some bytes \<and>
        loopback_flag d = Inr loopback \<and> is_wasm_magic bytes \<and>
        verifyWasm eng bytes (Some (string_list (js_prop m ''capabilities''))) loopback = Some [] \<and>
        ntx_zip (deflateRawSync node)
          [(''manifest.json'', utf8 (json_pretty 0 m @ [CHR 0x0A])), (js_string (js_prop m ''entry''), bytes)] = Some pkg)"

lemma verified_package_mono:
  "verified_package node eng version ds f pkg \<Longrightarrow> set ds \<subseteq> set ds' \<Longrightarrow> verified_package node eng version ds' f pkg"
  unfolding verified_package_def by blast

lemma writeNtx_written:
  assumes "writeNtx node dist m bytes True [] = Inr ((fname, hash, m'), dist')"
  shows "dist' = dist(fname \<mapsto> the (dist' fname))" and "fname = js_string (js_prop m ''id'') @ ''.ntx''"
    and "is_wasm_magic bytes" and "ntx_zip (deflateRawSync node)
      [(''manifest.json'', utf8 (json_pretty 0 m @ [CHR 0x0A])), (js_string (js_prop m ''entry''), bytes)] = dist' fname"
  using assms by (auto simp: writeNtx_def Let_def split: sum.splits if_splits option.splits)

lemma build_extension_written:
  assumes "build_extension node eng version d dist = Inr (line, dist')"
  shows "\<exists>f pkg. dist' = dist(f \<mapsto> pkg) \<and> verified_package node eng version [d] f pkg"
proof -
  obtain raw m files bytes loopback fname hash m' where
    m: "read_json (the (x_manifest d)) = Inr raw" "validateManifest (Some (stamp version raw)) True = Inr m"
      "built_files d (js_string (js_prop m ''entry'')) = Inr files" "files (js_string (js_prop m ''entry'')) = Some bytes"
      "loopback_flag d = Inr loopback"
    and v: "verifyWasm eng bytes (Some (string_list (js_prop m ''capabilities''))) loopback = Some []"
    and w: "writeNtx node dist m bytes True [] = Inr ((fname, hash, m'), dist')"
    using assms unfolding build_extension_def Let_def
    by (auto split: sum.splits option.splits if_splits prod.splits)
  note n = writeNtx_written [OF w]
  obtain pkg where pkg: "dist' fname = Some pkg" "dist' = dist(fname \<mapsto> pkg)" using n(1) by (metis fun_upd_same)
  have "verified_package node eng version [d] fname pkg"
    unfolding verified_package_def using m v n(2-4) pkg(1) by fastforce
  with pkg(2) show ?thesis by blast
qed

lemma build_extension_any_dist:
  "(\<exists>r. build_extension node eng version d dist = Inr r) \<longleftrightarrow> (\<exists>r. build_extension node eng version d Map.empty = Inr r)"
  unfolding build_extension_def writeNtx_def Let_def by (simp split: sum.split option.split if_split)

lemma build_all_verified:
  assumes "build_all node eng version ds (sums, failed, dist) = (sums', failed', dist')" and "set ds \<subseteq> set es"
    and "\<And>f pkg. dist f = Some pkg \<Longrightarrow> verified_package node eng version es f pkg"
  shows "(\<forall>f pkg. dist' f = Some pkg \<longrightarrow> verified_package node eng version es f pkg) \<and> failed \<le> failed' \<and>
    (failed' = failed \<longleftrightarrow> (\<forall>d\<in>set ds. \<exists>r. build_extension node eng version d Map.empty = Inr r))"
  using assms
proof (induction ds arbitrary: sums failed dist)
  case (Cons d ds)
  show ?case
  proof (cases "build_extension node eng version d dist")
    case (Inl e)
    then have "\<not> (\<exists>r. build_extension node eng version d Map.empty = Inr r)"
      using build_extension_any_dist [of node eng version d dist] by simp
    moreover have "(\<forall>f pkg. dist' f = Some pkg \<longrightarrow> verified_package node eng version es f pkg) \<and> Suc failed \<le> failed'"
      using Cons.IH [of sums "Suc failed" dist] Cons.prems Inl by simp
    ultimately show ?thesis by auto
  next
    case (Inr r)
    obtain line dist1 where r: "r = (line, dist1)" by (cases r)
    have ok: "\<exists>r. build_extension node eng version d Map.empty = Inr r"
      using build_extension_any_dist [of node eng version d dist] Inr by simp
    obtain f pkg where w: "dist1 = dist(f \<mapsto> pkg)" "verified_package node eng version [d] f pkg"
      using build_extension_written [OF Inr [unfolded r]] by blast
    have "verified_package node eng version es f pkg"
      by (rule verified_package_mono [OF w(2)]) (use Cons.prems(2) in simp)
    then have "verified_package node eng version es g p" if "dist1 g = Some p" for g p
      using Cons.prems(3) [of g p] that w(1) by (auto split: if_splits)
    then have "(\<forall>f pkg. dist' f = Some pkg \<longrightarrow> verified_package node eng version es f pkg) \<and> failed \<le> failed' \<and>
        (failed' = failed \<longleftrightarrow> (\<forall>d\<in>set ds. \<exists>r. build_extension node eng version d Map.empty = Inr r))"
      using Cons.prems(1,2) Inr by (intro Cons.IH [of "sums @ [line]" failed dist1]) (simp_all add: r)
    then show ?thesis using ok by simp
  qed
qed simp

section \<open>The package of nextalk-relay\<close>

lemma built_magic: "buildQueueModule caps = Some bytes \<Longrightarrow> is_wasm_magic bytes"
  by (auto simp: buildQueueModule_def is_wasm_magic_def split: if_splits)

definition relay_extension :: "string \<Rightarrow> extension" where
  "relay_extension text =
     \<lparr>x_name = ''nextalk-relay'', x_is_dir = True, x_manifest = Some text, x_build = Some (nextalk_relay_build text),
      x_files = Map.empty, x_verify = Some ''{ \"loopback\": true }''\<rparr>"

lemma relay_loopback: "loopback_flag (relay_extension text) = Inr True"
proof -
  have "json_parse ''{ \"loopback\": true }'' = Some (JObj [(''loopback'', JBool True)])" by code_simp
  then show ?thesis by (simp add: loopback_flag_def relay_extension_def read_json_def)
qed

lemma manifest_not_wasm: "ends_with ''.wasm'' (lower e) \<Longrightarrow> e \<noteq> ''manifest.json''"
  by (auto simp: ends_with_def lower_def lower_char_def)

lemma package_files:
  assumes "ends_with ''.wasm'' (lower e)" and "length (utf8 e) < 2 ^ 16" and "length (utf8 mf) < 2 ^ 30" and "length bytes < 2 ^ 30"
    and "\<And>x. inflate (deflate x) = Some x"
  shows "\<exists>pkg. ntx_zip deflate [(''manifest.json'', utf8 mf), (e, bytes)] = Some pkg \<and>
    unzip inflate pkg = Some [''manifest.json'' \<mapsto> utf8 mf, e \<mapsto> bytes]"
proof -
  let ?files = "[(''manifest.json'', utf8 mf), (e, bytes)]"
  have ne: "e \<noteq> ''manifest.json''" using assms(1) by (rule manifest_not_wasm)
  have n: "length (utf8 ''manifest.json'') \<le> 100" by (simp add: utf8_char_def)
  have "zip_size ?files = 152 + 2 * length (utf8 ''manifest.json'') + length (utf8 mf) + 2 * length (utf8 e) + length bytes"
    by (simp add: zip_size_def del: utf8_simps)
  then have "zip_size ?files + 22 < 2 ^ 32" using n assms(2-4) by simp
  moreover have "\<forall>(n, d)\<in>set ?files. length (utf8 n) < 2 ^ 16" using n assms(2) by (simp del: utf8_simps)
  ultimately obtain pkg where pkg: "ntx_zip deflate ?files = Some pkg"
    using ntx_zip_written [of ?files deflate] by auto
  have "unzip inflate pkg = Some (map_of ?files)"
    using ne by (intro unzip_ntx_zip [OF assms(5) _ pkg]) auto
  moreover have "map_of ?files = [''manifest.json'' \<mapsto> utf8 mf, e \<mapsto> bytes]"
    using ne by (auto simp: fun_eq_iff)
  ultimately show ?thesis using pkg by auto
qed

lemma select_relay: "select (only_names []) [relay_extension text] = [relay_extension text]"
  by (simp add: select_def only_names_def relay_extension_def starts_with_def)

lemma relay_builds:
  assumes "\<And>x. inflate (deflateRawSync node x) = Some x"
    and "json_parse text = Some m" and "validateManifest (Some m) True = Inr m"
    and "length (utf8 (js_string (js_prop m ''capabilities''))) \<le> 32"
    and "length (utf8 (js_string (js_prop m ''entry''))) < 2 ^ 16"
    and "length (utf8 (json_pretty 0 m @ [CHR 0x0A])) < 2 ^ 30"
  shows "\<exists>bytes pkg dist. buildQueueModule (js_string (js_prop m ''capabilities'')) = Some bytes \<and>
    verifyWasm reference_engine bytes (Some (string_list (js_prop m ''capabilities''))) True = Some [] \<and>
    build_wasm node reference_engine [] [relay_extension text] before = (0, dist) \<and>
    dist (js_string (js_prop m ''id'') @ ''.ntx'') = Some pkg \<and>
    unzip inflate pkg =
      Some [''manifest.json'' \<mapsto> utf8 (json_pretty 0 m @ [CHR 0x0A]), js_string (js_prop m ''entry'') \<mapsto> bytes]"
proof -
  obtain e cs where m: "js_prop m ''entry'' = Some (JStr e)" "ends_with ''.wasm'' (lower e)"
    "js_prop m ''capabilities'' = Some (JArr (map JStr cs))" "cs \<noteq> []" "set cs \<subseteq> set KNOWN_CAPABILITIES"
    using assms(3) by (rule validate_browser) (rule that)
  have csv: "js_string (js_prop m ''capabilities'') = join '','' cs" "string_list (js_prop m ''capabilities'') = cs"
    using js_string_of_strings string_list_of_strings by (simp_all add: m(3) js_string_def)
  obtain bytes where built: "buildQueueModule (join '','' cs) = Some bytes"
    using assms(4) buildQueueModule_encodes by (auto simp: csv)
  have verified: "verifyWasm reference_engine bytes (Some cs) True = Some []"
    using m(4,5) by (intro verify_queue_module [OF built]) (simp_all add: caps_of_join)
  have entry: "js_string (js_prop m ''entry'') = e" by (simp add: m(1) js_string_def)
  have "length bytes < 2 ^ 30" using length_built [OF built] by simp
  then obtain pkg where pkg:
    "ntx_zip (deflateRawSync node) [(''manifest.json'', utf8 (json_pretty 0 m @ [CHR 0x0A])), (e, bytes)] = Some pkg"
    "unzip inflate pkg = Some [''manifest.json'' \<mapsto> utf8 (json_pretty 0 m @ [CHR 0x0A]), e \<mapsto> bytes]"
    using package_files [where inflate = inflate and deflate = "deflateRawSync node", OF m(2) _ assms(6) _ assms(1)] assms(5)
    by (auto simp: entry)
  have files: "nextalk_relay_build text = (Some 0, [e \<mapsto> bytes])"
    using built csv(1) by (simp add: nextalk_relay_build_def assms(2) m(1,3) js_string_def)
  let ?name = "js_string (js_prop m ''id'') @ ''.ntx''"
  let ?hash = "bytesToHex (sha256_bytes node pkg)"
  have wrote: "writeNtx node Map.empty m bytes True [] = Inr ((?name, ?hash, m), [?name \<mapsto> pkg])"
    by (simp add: writeNtx_def assms(3) built_magic [OF built] entry pkg(1) Let_def)
  have one: "build_extension node reference_engine None (relay_extension text) Map.empty =
      Inr (?hash @ ''  '' @ ?name, [?name \<mapsto> pkg])"
    unfolding build_extension_def relay_loopback
    by (simp add: relay_extension_def read_json_def assms(2,3) stamp_def entry built_files_def files csv(2) verified wrote)
  have "build_wasm node reference_engine [] [relay_extension text] before =
      (0, [?name \<mapsto> pkg, ''SHA256SUMS'' \<mapsto> utf8 (join [CHR 0x0A] (sort [?hash @ ''  '' @ ?name]) @ [CHR 0x0A])])"
    using select_relay one by (simp add: build_wasm_def opt_def)
  moreover have "?name \<noteq> ''SHA256SUMS''"
  proof
    assume "?name = ''SHA256SUMS''"
    then have "last ?name = last ''SHA256SUMS''" by (rule arg_cong)
    then show False by simp
  qed
  ultimately show ?thesis using built verified pkg(2) by (fastforce simp: csv entry)
qed

text \<open>The script of nextalk-relay throws on capabilities of more than 32 bytes.\<close>

lemma relay_fails:
  assumes "json_parse text = Some m" and "validateManifest (Some m) True = Inr m"
    and "\<not> length (utf8 (js_string (js_prop m ''capabilities''))) \<le> 32"
  shows "\<exists>dist. build_wasm node eng [] [relay_extension text] before = (1, dist) \<and> dom dist = {''SHA256SUMS''}"
proof -
  obtain e cs where m: "js_prop m ''entry'' = Some (JStr e)" "js_prop m ''capabilities'' = Some (JArr (map JStr cs))"
    using assms(2) by (rule validate_browser) (rule that)
  have "buildQueueModule (js_string_json (JArr (map JStr cs))) = None"
    using assms(3) by (simp add: buildQueueModule_def m(2) js_string_def)
  then have files: "nextalk_relay_build text = (Some 1, Map.empty)"
    by (simp add: nextalk_relay_build_def assms(1) m)
  have "build_extension node eng None (relay_extension text) Map.empty = Inl (UserError ''wasm/build.mjs failed'')"
    unfolding build_extension_def
    by (simp add: relay_extension_def read_json_def assms(1,2) stamp_def built_files_def files)
  then show ?thesis using select_relay by (simp add: build_wasm_def opt_def)
qed

section \<open>Properties\<close>

text \<open>C39 \<open>build_wasm\<close>, started on a selection that is not empty, leaves in its output directory, beside
  \<open>SHA256SUMS\<close>, only packages of selected extensions: of the extension's manifest, which passed the rules, and the
  module its build left, which passed the conformance check, with the loopback exchange where its \<open>verify.json\<close>
  asks for it; whatever the engine, the build scripts and the files are.  It exits with 0 exactly when every selected
  extension builds.\<close>

theorem only_verified_packages:
  assumes "build_wasm node eng args dirs before = (code, dist)"
    and "opt args ''--version'' = Some version" and "opt args ''--out'' = Some out"
    and "case version of None \<Rightarrow> True | Some v \<Rightarrow> version_re v"
    and "select (only_names args) dirs \<noteq> []"
  shows "(\<forall>f pkg. f \<noteq> ''SHA256SUMS'' \<longrightarrow> dist f = Some pkg \<longrightarrow>
      verified_package node eng version (select (only_names args) dirs) f pkg) \<and>
    (code = 0 \<longleftrightarrow>
      (\<forall>d\<in>set (select (only_names args) dirs). \<exists>r. build_extension node eng version d Map.empty = Inr r))"
proof -
  obtain sums failed dist' where b:
    "build_all node eng version (select (only_names args) dirs) ([], 0, Map.empty) = (sums, failed, dist')"
    by (metis prod_cases3)
  note v = build_all_verified [OF b subset_refl]
  have "code = (if failed \<noteq> 0 then 1 else 0)"
    "dist = dist'(''SHA256SUMS'' \<mapsto> utf8 (join [CHR 0x0A] (sort sums) @ [CHR 0x0A]))"
    using assms b by (auto simp: build_wasm_def split: option.splits)
  then show ?thesis using v by auto
qed

text \<open>C40 The package of nextalk-relay: for every valid manifest whose entry and text fit the fields of a zip, the build
  of the extension with its own \<open>build.mjs\<close> does one of two things.  If the names of the capabilities, joined with
  commas, are at most 32 bytes, it exits with 0, the module passes the conformance check with loopback against the
  manifest, and the package unpacks to the manifest and that module.  Otherwise \<open>build.mjs\<close> throws, the build exits
  with 1, and it writes no package.\<close>

theorem relay_package_builds:
  assumes "\<And>x. inflate (deflateRawSync node x) = Some x"
    and "json_parse text = Some m" and "validateManifest (Some m) True = Inr m"
    and "length (utf8 (js_string (js_prop m ''entry''))) < 2 ^ 16"
    and "length (utf8 (json_pretty 0 m @ [CHR 0x0A])) < 2 ^ 30"
  shows "\<exists>code dist. build_wasm node reference_engine [] [relay_extension text] before = (code, dist) \<and>
    (if length (utf8 (js_string (js_prop m ''capabilities''))) \<le> 32
     then code = 0 \<and> (\<exists>bytes pkg. buildQueueModule (js_string (js_prop m ''capabilities'')) = Some bytes \<and>
       verifyWasm reference_engine bytes (Some (string_list (js_prop m ''capabilities''))) True = Some [] \<and>
       dist (js_string (js_prop m ''id'') @ ''.ntx'') = Some pkg \<and>
       unzip inflate pkg =
         Some [''manifest.json'' \<mapsto> utf8 (json_pretty 0 m @ [CHR 0x0A]), js_string (js_prop m ''entry'') \<mapsto> bytes])
     else code = 1 \<and> dom dist = {''SHA256SUMS''})"
proof (cases "length (utf8 (js_string (js_prop m ''capabilities''))) \<le> 32")
  case True
  then show ?thesis using relay_builds [OF assms(1-3) True assms(4,5), where before = before] by auto
next
  case False
  then show ?thesis using relay_fails [OF assms(2,3) False, where node = node and eng = reference_engine and before = before] by auto
qed

text \<open>The manifest of nextalk-relay, and a Node whose deflate leaves its input as it is.\<close>

definition relay_manifest :: json where
  "relay_manifest =
     JObj [(''id'', JStr ''nextalk-relay-wasm''), (''name'', JStr ''NexTalk Relay (in-tab loopback)''),
       (''version'', JStr ''1.0.0''), (''api_version'', JStr ''1''), (''entry'', JStr ''nextalk-relay.wasm''),
       (''capabilities'', JArr [JStr ''message'']), (''permissions'', JArr []),
       (''description'', JStr (
          ''Browser build of the NexTalk-Relay courier transport: an in-memory loopback queue running as '' @
          ''WebAssembly inside the tab. It does not contact a Router or shard (WASM ABI v1 has no network); use '' @
          ''the native nextalk-relay package for the real relay. No keys, opaque frames only.''))]"

definition plain_node :: node_api where
  "plain_node = \<lparr>deflateRawSync = (\<lambda>x. x), sha256_bytes = (\<lambda>x. [])\<rparr>"

lemma relay_manifest_facts:
  "json_parse (json_stringify relay_manifest) = Some relay_manifest"
  "validateManifest (Some relay_manifest) True = Inr relay_manifest"
  "js_string (js_prop relay_manifest ''capabilities'') = ''message''"
  "js_string (js_prop relay_manifest ''entry'') = ''nextalk-relay.wasm''"
  "js_string (js_prop relay_manifest ''id'') = ''nextalk-relay-wasm''"
proof -
  have "wf_json relay_manifest" by code_simp
  then show "json_parse (json_stringify relay_manifest) = Some relay_manifest" by simp
  show "validateManifest (Some relay_manifest) True = Inr relay_manifest" by code_simp
  show "js_string (js_prop relay_manifest ''capabilities'') = ''message''"
    "js_string (js_prop relay_manifest ''entry'') = ''nextalk-relay.wasm''"
    "js_string (js_prop relay_manifest ''id'') = ''nextalk-relay-wasm''"
    by (simp_all add: relay_manifest_def js_string_def)
qed

text \<open>The same manifest with every known capability.\<close>

definition greedy_manifest :: json where
  "greedy_manifest =
     JObj [(''id'', JStr ''nextalk-relay-wasm''), (''name'', JStr ''NexTalk Relay''), (''version'', JStr ''1.0.0''),
       (''api_version'', JStr ''1''), (''entry'', JStr ''nextalk-relay.wasm''),
       (''capabilities'', JArr (map JStr KNOWN_CAPABILITIES)), (''permissions'', JArr [])]"

lemma greedy_manifest_facts:
  "json_parse (json_stringify greedy_manifest) = Some greedy_manifest"
  "validateManifest (Some greedy_manifest) True = Inr greedy_manifest"
  "\<not> length (utf8 (js_string (js_prop greedy_manifest ''capabilities''))) \<le> 32"
  "length (utf8 (js_string (js_prop greedy_manifest ''entry''))) < 2 ^ 16"
proof -
  have "wf_json greedy_manifest" by code_simp
  then show "json_parse (json_stringify greedy_manifest) = Some greedy_manifest" by simp
  show "validateManifest (Some greedy_manifest) True = Inr greedy_manifest" by code_simp
  show "\<not> length (utf8 (js_string (js_prop greedy_manifest ''capabilities''))) \<le> 32" by code_simp
  show "length (utf8 (js_string (js_prop greedy_manifest ''entry''))) < 2 ^ 16"
    by (simp add: greedy_manifest_def js_string_def utf8_char_def)
qed

theorem relay_package_builds_witness:
  "(\<exists>bytes pkg dist. buildQueueModule ''message'' = Some bytes \<and>
    build_wasm plain_node reference_engine [] [relay_extension (json_stringify relay_manifest)] Map.empty = (0, dist) \<and>
    dist ''nextalk-relay-wasm.ntx'' = Some pkg \<and>
    unzip Some pkg =
      Some [''manifest.json'' \<mapsto> utf8 (json_pretty 0 relay_manifest @ [CHR 0x0A]), ''nextalk-relay.wasm'' \<mapsto> bytes]) \<and>
   (\<exists>dist. build_wasm plain_node reference_engine [] [relay_extension (json_stringify greedy_manifest)] Map.empty = (1, dist) \<and>
    dom dist = {''SHA256SUMS''})"
proof
  have law: "Some (deflateRawSync plain_node x) = Some x" for x by (simp add: plain_node_def)
  have small: "length (utf8 (js_string (js_prop relay_manifest ''capabilities''))) \<le> 32"
    "length (utf8 (js_string (js_prop relay_manifest ''entry''))) < 2 ^ 16"
    unfolding relay_manifest_facts by (simp_all add: utf8_char_def)
  have "length (json_pretty 0 relay_manifest @ [CHR 0x0A]) < 2 ^ 20"
    by (simp add: relay_manifest_def json_stringify.simps quote_def escape_char_def)
  then have size: "length (utf8 (json_pretty 0 relay_manifest @ [CHR 0x0A])) < 2 ^ 30"
    using length_utf8 [of "json_pretty 0 relay_manifest @ [CHR 0x0A]"] by (simp del: utf8_simps)
  have fits: "(length (utf8 ''message'') \<le> 32) = True" using small(1) unfolding relay_manifest_facts by simp
  show "\<exists>bytes pkg dist. buildQueueModule ''message'' = Some bytes \<and>
    build_wasm plain_node reference_engine [] [relay_extension (json_stringify relay_manifest)] Map.empty = (0, dist) \<and>
    dist ''nextalk-relay-wasm.ntx'' = Some pkg \<and>
    unzip Some pkg =
      Some [''manifest.json'' \<mapsto> utf8 (json_pretty 0 relay_manifest @ [CHR 0x0A]), ''nextalk-relay.wasm'' \<mapsto> bytes]"
    using relay_package_builds [where inflate = Some and node = plain_node and before = Map.empty,
        OF law relay_manifest_facts(1,2) small(2) size]
    unfolding relay_manifest_facts fits if_True append.simps by blast
next
  have law: "Some (deflateRawSync plain_node x) = Some x" for x by (simp add: plain_node_def)
  have "length (json_pretty 0 greedy_manifest @ [CHR 0x0A]) < 2 ^ 20"
    by (simp add: greedy_manifest_def KNOWN_CAPABILITIES_def json_stringify.simps quote_def escape_char_def)
  then have size: "length (utf8 (json_pretty 0 greedy_manifest @ [CHR 0x0A])) < 2 ^ 30"
    using length_utf8 [of "json_pretty 0 greedy_manifest @ [CHR 0x0A]"] by (simp del: utf8_simps)
  show "\<exists>dist. build_wasm plain_node reference_engine [] [relay_extension (json_stringify greedy_manifest)] Map.empty = (1, dist) \<and>
    dom dist = {''SHA256SUMS''}"
    using relay_package_builds [where inflate = Some and node = plain_node and before = Map.empty,
        OF law greedy_manifest_facts(1,2,4) size] greedy_manifest_facts(3) by auto
qed

theorem only_verified_packages_witness:
  "\<exists>code dist. build_wasm plain_node reference_engine [] [relay_extension ''x''] Map.empty = (code, dist) \<and> code \<noteq> 0 \<and>
    (\<forall>f pkg. f \<noteq> ''SHA256SUMS'' \<longrightarrow> dist f = Some pkg \<longrightarrow> verified_package plain_node reference_engine None [relay_extension ''x''] f pkg)"
proof -
  obtain code dist where b: "build_wasm plain_node reference_engine [] [relay_extension ''x''] Map.empty = (code, dist)"
    by (cases "build_wasm plain_node reference_engine [] [relay_extension ''x''] Map.empty")
  have sel: "select (only_names []) [relay_extension ''x''] = [relay_extension ''x'']"
    by (simp add: select_def only_names_def relay_extension_def starts_with_def)
  have "json_parse ''x'' = None" by code_simp
  then have "\<not> (\<exists>r. build_extension plain_node reference_engine None (relay_extension ''x'') Map.empty = Inr r)"
    by (simp add: build_extension_def relay_extension_def read_json_def)
  then show ?thesis
    using only_verified_packages [OF b, of None None] b by (simp add: sel opt_def)
qed

end
