(* ===== verification/Spec2Isabelle.thy ===== *)
theory Spec2Isabelle
  imports ShardProperties ServiceProperties RouterProperties CombinedProperties MailboxSession
    NtxProperties WasmProperties BuildProperties
begin

text \<open>
  NexTalk Relay is a message relay of two workers, and a third that is both in one.  A Router gives each client key a mailbox on a
  mesh of shards and publishes a signed routing table; a shard stores mailboxes, takes messages
  for them (\<open>/send\<close>), hands them out to whoever knows the read secret (\<open>/read\<close>) and
  copies them to sibling shards.  They run on Cloudflare Workers over a KV store.  The development
  models the handlers of the three worker files statement by statement, errors included, as
  executable functions, and proves what they promise to each other and to their clients.

  \<^bold>\<open>The parts and their theories.\<close>

  Foundations.  \<open>Prelude\<close>: rule collections, decimal text, character classes.  \<open>JsValue\<close>: the
  JavaScript values and operators the source uses (\<open>undefined\<close>, truthiness, \<open>Number(x)\<close>,
  property access, the regular expressions of the request checks).  \<open>JsonText\<close>:
  \<open>JSON.stringify\<close> and \<open>JSON.parse\<close> with their round trip.  \<open>Effects\<close>: a handler is a value of
  type \<open>'a prog\<close>, a tree of the platform calls it awaits, with every answer of the platform, rejections
  included, as a branch; \<open>run\<close> executes it on a platform \<open>sv\<close>, \<open>trace\<close> lists its calls,
  \<open>emits\<close> speaks about all platforms.  \<open>Platform\<close>: WebCrypto as the parameter \<open>cr\<close>, the
  bindings \<open>env\<close>, the settings \<open>cfg\<close>, error texts, responses.  \<open>Codec\<close>: hex, base64,
  \<open>constantTimeEqual\<close>, \<open>leadingZeroBits\<close>.  \<open>RateLimit\<close>: both fixed-window limiters.

  The shard, \<open>src/shard/worker.js\<close>.  \<open>ShardAuth\<close> (capabilities, sender signatures, replay
  marks), \<open>Envelope\<close> (the shape of a message), \<open>ShardIdentity\<close> (the key pair, signed responses,
  \<open>/server_hello\<close>), \<open>ShardRegister\<close> (proof of work, self-registration, \<open>/admin/*\<close>), \<open>Mailbox\<close>
  (the abstract mailbox and its text), \<open>MailboxCreate\<close>, \<open>MailboxSend\<close>, \<open>MailboxRead\<close>,
  \<open>MailboxSession\<close> (sequences of requests against an abstract queue), \<open>Replication\<close>
  (\<open>/internal/replicate\<close>, \<open>/internal/routing_table\<close>), \<open>ShardWorker\<close> (configuration and dispatch).

  The Router, \<open>src/router/router.js\<close>.  \<open>Placement\<close> (ring and eras), \<open>RouterConfig\<close>,
  \<open>RoutingTable\<close>, \<open>RouterRegister\<close> (\<open>/register\<close>, \<open>/resolve\<close>), \<open>RouterMesh\<close>
  (\<open>/pow_challenge\<close>, \<open>/register_shard\<close>, \<open>/rotate_shard_key\<close>), \<open>RouterWorker\<close> (status, operator
  endpoints, dispatch, the scheduled push).

  Both in one, \<open>src/combined/worker.js\<close>, which repeats what it needs of the two.  \<open>CombinedHelpers\<close>,
  \<open>CombinedShard\<close> and \<open>CombinedHandlers\<close> translate its copies under the prefix \<open>c_\<close> and prove each equal
  to its original (the rules \<open>combined_copies\<close>, which the later theories apply to use what is proved of
  the originals); \<open>CombinedTable\<close>, \<open>CombinedRegister\<close>, \<open>CombinedMesh\<close> and \<open>CombinedWorker\<close> hold what
  differs because the node is one of the shards it routes to.  \<open>CombinedFlow\<close> and \<open>CombinedNode\<close> execute
  it on an isolated platform.

  The browser transport, \<open>src/transports\<close>.  \<open>WasmAsm\<close> is the assembler \<open>tools/wasmasm.mjs\<close> down to the
  bytes of the queue module; \<open>WasmFormat\<close> (binary format, with a decoder that reads it back) and
  \<open>WasmExec\<close> (validation and execution) are WebAssembly for the instructions the module uses, after the
  standard; \<open>QueueModule\<close> and \<open>QueueRuns\<close> compute what its functions do.  \<open>Ntx\<close> is \<open>tools/ntx.mjs\<close>
  (manifest rules, CRC, zip), \<open>NtxProperties\<close> holds the zip reader of \<open>test/wasm-package.test.mjs\<close>.
  \<open>VerifyWasm\<close> is \<open>tools/verify-wasm.mjs\<close> over an engine that is a record of its entry points, with
  \<open>reference_engine\<close>, the one of \<open>WasmExec\<close>.  \<open>QueueHost\<close>, \<open>FifoTransport\<close>, \<open>QueueFifo\<close> and
  \<open>WasmProperties\<close> show what a host sees of the module; \<open>BuildWasm\<close> and \<open>BuildProperties\<close> are
  \<open>build-wasm.mjs\<close> and \<open>nextalk-relay/wasm/build.mjs\<close>, from the command line to the package.

  Together.  \<open>MeshProtocol\<close> follows each message from the code that builds it to the code that checks
  it.  \<open>KvInvariant\<close> is the interleaved execution of handlers over one KV namespace,
  \<open>ShardInvariant\<close>, \<open>RouterInvariant\<close> and \<open>CombinedInvariant\<close> instantiate it, \<open>Serving\<close> shows that sequential service is
  a special case.  The invariant of the combined worker assumes nothing of its settings: a node whose signing key is
  not the one it publishes keeps tables that verify under its own key only, and the predicate \<open>own_signed\<close> says so.  \<open>Concrete\<close> is a platform on which the properties are applied to show their hypotheses
  can hold.  \<open>ServiceProperties\<close>, \<open>ShardProperties\<close>, \<open>RouterProperties\<close>,
  \<open>CombinedProperties\<close>, \<open>NtxProperties\<close>, \<open>WasmProperties\<close>, \<open>BuildProperties\<close> and this theory state
  the properties.

  \<^bold>\<open>Interfaces.\<close>  Six locales state what one part relies on: \<open>codec\<close> (an encoder and a decoder that
  reads it back; both hex decoders and base64), \<open>fixed_window\<close> (a limiter that admits the first calls of a
  window; both limiters), \<open>placement\<close> (replica sets that do not move when shards are appended; the ring),
  \<open>kv_worker\<close> (programs that write only good values after reading only good values; all three workers),
  \<open>prefix_codec\<close> (an encoder whose decoder reads it off the front of a text; each part of a WebAssembly
  module), \<open>fifo_transport\<close> (what a host relies on of a loopback transport; the queue module).

  \<^bold>\<open>Hypotheses on what is not in the repository.\<close>  \<open>isolated sv\<close> is the documented behaviour of
  Workers KV for a request no other request interferes with: a \<open>get\<close> returns the last \<open>put\<close>, a
  \<open>put\<close> with a time to live of at least 60 seconds succeeds, and the clock is the one of the request (a
  worker's clock stands still between awaits only, so a longer request sees several values; the theorems then
  speak about one that does not cross a tick).  Theorems named \<open>..._well_formed\<close>, \<open>workers_always_answer\<close>,
  \<open>send_unverified_writes_nothing\<close>, \<open>register_needs_ownership\<close>, \<open>combined_serves_as_shard\<close> and
  \<open>only_signed_tables_cached\<close> do not assume it: the first hold of every interleaving with stale reads and failing operations, the others of every
  platform.  \<open>key_pair cr pub priv\<close>: what the private key signs the public key verifies.
  \<open>standard_sizes cr\<close>: SHA-256 gives 32 bytes and Ed25519 signatures 64.  \<open>probes\<close>: the shards answer
  \<open>/exists\<close> according to a predicate.  Unforgeability is not assumed anywhere; the authentication theorems
  say what is refused when a signature does not verify.  Of the compression of a package only
  \<open>inflate (deflate d) = d\<close> is used.

  \<^bold>\<open>Numbers, bounds and fuel.\<close>  Bytes are 8-bit words, the bit operations of \<open>constantTimeEqual\<close> and
  \<open>leadingZeroBits\<close> 32-bit words.  Other JavaScript numbers are integers or NaN (\<open>int option\<close>): every
  number the workers compute is an integer below \<open>2 ^ 53\<close>; fractions and infinities in a configured
  variable or a request field are outside the model.  Strings are lists of 8-bit characters, and the error
  texts use ASCII dashes and signs.  \<open>json_parse\<close> runs on fuel of twice the input length, proved enough
  for every text \<open>JSON.stringify\<close> writes; \<open>solvePow\<close> has the source's own attempt budget, the shift
  loop of \<open>leadingZeroBits\<close> eight rounds, and both are proved to end within it.

  The queue module's heap holds 0x2f00 bytes and its queue 0x4000; \<open>queue_module_refines_fifo\<close> is about sessions of
  non-empty frames that fit the heap with their recipients, \<open>oversized_frames_corrupt\<close> about any frame beyond it, up to
  the 40 KiB of \<open>MAX_FRAME\<close>.  The module holds 32 bytes of capability names; \<open>relay_package_builds\<close> has both outcomes.

  \<^bold>\<open>Not modelled.\<close>  The timeouts of \<open>fetch\<close> (a failure of the network parameter), the clock between the
  awaits of one request, the expiry of KV keys (a value may disappear in the interleaving semantics, and marks
  are compared with their window in \<open>replay_mark_covers_window\<close>), inherited properties of \<open>{}\<close> under a
  shard URL such as \<open>constructor\<close>, and the order in which parallel \<open>catch\<close> handlers log.  The calls of one
  \<open>Promise.all\<close> run one after the other, all of them, and the first error of the list is the one it rejects with.
  The Go bridge, the Python and shell scripts, the HTML panels and the CI are outside the language modelled.
  Of WebAssembly, only the sections and instructions of the queue module are modelled, with one memory and no
  imports; \<open>only_verified_packages\<close> takes any engine.  Of the build scripts, the console output, the
  temporary directories and the place of the output directory are left out, and of two packages with one
  file name the later replaces the earlier, as in the source.
\<close>

section \<open>A mailbox, from the Router's capability to its last message\<close>

text \<open>C1 A \<open>/create\<close> request minted by the Router for a client key makes the shard that trusts the Router
  open an empty mailbox under the Router's id for this key, and the mailbox opens to a read secret exactly
  when the secret has the hash of the one the Router returned to the client.\<close>

theorem minted_mailbox_opens:
  assumes iso: "isolated sv" and sz: "standard_sizes cr" and pk: "hex_re 64 64 pk"
    and key: "router_key cr env pub priv" and trust: "ROUTER_SIGNING_PUBLIC env' = Some (bytesToHex pub)"
    and nonce: "nonce \<noteq> []" and now: "0 \<le> now" and fresh: "sv_clock sv s \<le> now + CAPABILITY_TTL_SECONDS * 1000"
    and body: "body_of req = Some (minted_body cr env priv pk replicas secret nonce now)"
    and adm: "\<not> create_limited (sv_view sv s MAILBOX_KV) (sv_clock sv s) cfg req"
    and ttl: "ttl_ok (Some (MAILBOX_TTL_SECONDS cfg))"
    and none: "present (sv_view sv s MAILBOX_KV (mailbox_key (minted_id cr env pk))) = None"
  shows "fst (run sv (handleCreate cr env' cfg req) s) = Done (create_response (minted_id cr env pk) cfg True) \<and>
    (\<exists>mb. mailbox_at (sv_view sv (snd (run sv (handleCreate cr env' cfg req) s)) MAILBOX_KV) (minted_id cr env pk) mb \<and>
      queue_of mb = [] \<and>
      (\<forall>other. read_secret_ok cr other (Some (JStr (mb_hash mb))) \<longleftrightarrow> sha256Hex cr other = sha256Hex cr secret))"
proof -
  show ?thesis
    using minted_mailbox_created [OF iso sz pk key trust nonce now fresh body adm ttl none]
    by (auto simp: queue_of_def secret_opens [OF sz])
qed

lemma minted_demo_body:
  "body_of (post p (minted_body demo demo_env key_a pk [Some (JStr ''https://a'')] secret nonce now)) =
     Some (minted_body demo demo_env key_a pk [Some (JStr ''https://a'')] secret nonce now)"
  using wf_minted_body [of "[Some (JStr ''https://a'')]" demo demo_env key_a pk secret nonce now]
  unfolding minted_body_def create_body_def Let_def by (intro post_body) simp

theorem minted_mailbox_opens_witness:
  "\<exists>mb. mailbox_at (sv_view silent (snd (run silent (handleCreate demo demo_env DEFAULTS (post ''/create''
        (minted_body demo demo_env key_a (bytesToHex key_b) [Some (JStr ''https://a'')] ''key'' ''n'' 0)))
      (world_at Map.empty Map.empty 5))) MAILBOX_KV) (minted_id demo demo_env (bytesToHex key_b)) mb \<and>
    read_secret_ok demo ''key'' (Some (JStr (mb_hash mb)))"
  using minted_mailbox_opens [OF silent_isolated demo_sizes _ demo_router_key _ _ _ _ minted_demo_body [where p = "''/create''"],
      where env' = demo_env and cfg = DEFAULTS and s = "world_at Map.empty Map.empty 5" and pk = "bytesToHex key_b"
        and nonce = "''n''" and now = 0 and secret = "''key''"]
  by (auto simp: create_limited_def CAPABILITY_TTL_SECONDS_def)

text \<open>C2 A mailbox is a queue: after any number of accepted sends, with time passing and other requests in
  between, a read with the mailbox's secret returns what was in it followed by the letters sent, each under
  its sender's key, in the order they were accepted; unless it peeks it leaves the mailbox empty.\<close>

theorem delivered_in_order:
  assumes iso: "isolated sv" and skew: "MAX_CLOCK_SKEW cfg \<noteq> None" and ttl: "ttl_ok (Some (MAILBOX_TTL_SECONDS cfg))"
    and at: "mailbox_at (sv_view sv s MAILBOX_KV) mid mb" and sends: "session sv cr cfg mid s qs s'"
    and q: "query_mailbox req = Some mid"
    and secret: "map_of (req_query req) ''read_secret'' = Some secret" "secret \<noteq> []"
    and plain: "map_of (req_query req) ''request_id'' = None"
    and adm: "\<not> read_limited (sv_view sv s' MAILBOX_KV) (sv_clock sv s') req"
    and auth: "read_secret_ok cr secret (Some (JStr (mb_hash mb)))"
    and kept: "mailbox_at (sv_view sv s' MAILBOX_KV) mid mb'" "\<not> stale (TTL_SECONDS cfg) (sv_clock sv s') mb'"
  shows "\<exists>r mb''. fst (run sv (handleRead cr cfg req) s') = Done r \<and> resp_status r = 200 \<and>
    read_letters r = Some (queue_of mb @ map sent_letter qs) \<and>
    mailbox_at (sv_view sv (snd (run sv (handleRead cr cfg req) s')) MAILBOX_KV) mid mb'' \<and>
    queue_of mb'' = (if map_of (req_query req) ''peek'' = Some ''1'' then queue_of mb @ map sent_letter qs else [])"
proof -
  have mb': "mb_hash mb' = mb_hash mb" "queue_of mb' = queue_of mb @ map sent_letter qs"
    using session_queue [OF iso skew ttl sends at] mailbox_at_unique [OF kept(1)] by auto
  have purge: "purge (TTL_SECONDS cfg) (sv_clock sv s') mb' = mb'" using kept(2) by (simp add: purge_def)
  have auth': "read_secret_ok cr secret (Some (JStr (mb_hash mb')))" using auth mb'(1) by simp
  from handleRead_returns [OF iso ttl q secret plain adm kept(1) auth'] show ?thesis
    by (intro exI conjI) (auto simp: purge Let_def mb'(2))
qed

lemma demo_send_accepted:
  assumes "0 \<le> now" and "int (length (utf8 m)) \<le> 32768" "m \<noteq> []" "message_shape_error m = None"
    and "kv (mailbox_key mbox) = Some (json_stringify st)" "represents st mb" "\<And>k. k \<noteq> mailbox_key mbox \<Longrightarrow> kv k = None"
    and "\<not> stale (Some 1209600) now mb" "length (mb_messages mb) < 50"
  shows "accepted_send silent demo DEFAULTS (post ''/send'' (demo_send m now)) (demo_send_req m now) (world_at kv Map.empty now)"
proof -
  have "send_verdict demo kv now DEFAULTS (post ''/send'' (demo_send m now)) (demo_send_req m now) = None"
    by (rule demo_send_passes) (use assms in \<open>simp_all add: assms(7)\<close>)
  then show ?thesis
    unfolding accepted_send_def
    using assms by (intro exI [of _ "demo_send m now"]) (auto simp: mailbox_at_def num_ge_def)
qed

lemma demo_session_step:
  assumes run: "session silent demo DEFAULTS mbox s qs (world_at [mailbox_key mbox \<mapsto> json_stringify st] Map.empty now)"
    and st: "represents st mb" and m: "0 \<le> now" "int (length (utf8 m)) \<le> 32768" "m \<noteq> []" "message_shape_error m = None"
    and fits: "\<not> stale (Some 1209600) now mb" "length (mb_messages mb) < 50"
  shows "\<exists>st' i. session silent demo DEFAULTS mbox s (qs @ [demo_send_req m now])
      (world_at [mailbox_key mbox \<mapsto> json_stringify st'] Map.empty (now + 1)) \<and>
    represents st' (deposit (new_entry i now m (bytesToHex key_b)) now mb)"
proof -
  let ?w = "world_at [mailbox_key mbox \<mapsto> json_stringify st] Map.empty now" and ?req = "post ''/send'' (demo_send m now)"
  have acc: "accepted_send silent demo DEFAULTS ?req (demo_send_req m now) ?w"
    by (rule demo_send_accepted [OF m _ st _ fits]) simp_all
  have at: "mailbox_at (sv_view silent ?w MAILBOX_KV) (sq_mailboxId (demo_send_req m now)) mb"
    using st by (auto simp: mailbox_at_def)
  obtain i where "mailbox_at (sv_view silent (snd (run silent (handleSend demo DEFAULTS ?req) ?w)) MAILBOX_KV) mbox
      (deposit (new_entry i now m (bytesToHex key_b)) now mb)"
    using accepted_send_deposits [OF silent_isolated _ _ acc at] by auto
  then obtain st' where st': "represents st' (deposit (new_entry i now m (bytesToHex key_b)) now mb)"
      "sv_view silent (snd (run silent (handleSend demo DEFAULTS ?req) ?w)) MAILBOX_KV (mailbox_key mbox) = Some (json_stringify st')"
    by (auto simp: mailbox_at_def)
  have "sv_clock silent (snd (run silent (handleSend demo DEFAULTS ?req) ?w)) = now"
    by (simp add: silent_clock)
  then have "meanwhile silent mbox (snd (run silent (handleSend demo DEFAULTS ?req) ?w))
      (world_at [mailbox_key mbox \<mapsto> json_stringify st'] Map.empty (now + 1))"
    using st'(2) by (simp add: meanwhile_def)
  from session.waited [OF session.sent [OF run acc] this] st'(1) show ?thesis by auto
qed

theorem delivered_in_order_witness:
  "\<exists>s r. session silent demo DEFAULTS mbox (world_at (holding mbox (sha256Hex demo ''key'') [] None) Map.empty 5)
      [demo_send_req ''hello'' 5, demo_send_req ''again'' 6] s \<and>
    fst (run silent (handleRead demo DEFAULTS (get ''/read'' [(''mailbox_id'', mbox), (''read_secret'', ''key'')])) s) = Done r \<and>
    read_letters r = Some [(bytesToHex key_b, ''hello''), (bytesToHex key_b, ''again'')]"
proof -
  have shape: "message_shape_error ''hello'' = None" "message_shape_error ''again'' = None"
      "int (length (utf8 ''hello'')) \<le> 32768" "int (length (utf8 ''again'')) \<le> 32768" by code_simp+
  let ?box = "mailbox_rec (sha256Hex demo ''key'') [] None" and ?s = "world_at (holding mbox (sha256Hex demo ''key'') [] None) Map.empty 5"
  have box: "mailbox_at (sv_view silent ?s MAILBOX_KV) mbox ?box" by simp
  then obtain st where st: "represents st ?box" "holding mbox (sha256Hex demo ''key'') [] None = [mailbox_key mbox \<mapsto> json_stringify st]"
    by (auto simp: mailbox_at_def holding_def)
  obtain st1 i where s1: "session silent demo DEFAULTS mbox ?s ([] @ [demo_send_req ''hello'' 5])
        (world_at [mailbox_key mbox \<mapsto> json_stringify st1] Map.empty (5 + 1))"
      "represents st1 (deposit (new_entry i 5 ''hello'' (bytesToHex key_b)) 5 ?box)"
    using demo_session_step [OF _ st(1), of ?s "[]" 5 "''hello''"] session.opened [of silent demo DEFAULTS mbox ?s] shape
    by (auto simp: st(2) stale_def mailbox_rec_def)
  obtain st2 j where s2: "session silent demo DEFAULTS mbox ?s (([] @ [demo_send_req ''hello'' 5]) @ [demo_send_req ''again'' (5 + 1)])
        (world_at [mailbox_key mbox \<mapsto> json_stringify st2] Map.empty (5 + 1 + 1))"
      "represents st2 (deposit (new_entry j (5 + 1) ''again'' (bytesToHex key_b)) (5 + 1) (deposit (new_entry i 5 ''hello'' (bytesToHex key_b)) 5 ?box))"
    using demo_session_step [OF s1, of "''again''"] shape by (auto simp: stale_def deposit_def num_ge_def mailbox_rec_def)
  let ?s2 = "world_at [mailbox_key mbox \<mapsto> json_stringify st2] Map.empty (5 + 1 + 1)"
  have at2: "mailbox_at (sv_view silent ?s2 MAILBOX_KV) mbox (deposit (new_entry j (5 + 1) ''again'' (bytesToHex key_b)) (5 + 1)
      (deposit (new_entry i 5 ''hello'' (bytesToHex key_b)) 5 ?box))"
    using s2(2) by (auto simp: mailbox_at_def)
  have win: "[mailbox_key mbox \<mapsto> json_stringify st2] (window_key b w now) = None" for b w now by simp
  have box': "queue_of ?box = []" "mb_enqueued ?box = None" by (simp_all add: queue_of_def mailbox_rec_def)
  then show ?thesis
    using delivered_in_order [OF silent_isolated _ _ box s2(1), where req = "get ''/read'' [(''mailbox_id'', mbox), (''read_secret'', ''key'')]"
        and secret = "''key''" and mb' = "deposit (new_entry j (5 + 1) ''again'' (bytesToHex key_b)) (5 + 1)
          (deposit (new_entry i 5 ''hello'' (bytesToHex key_b)) 5 ?box)"] at2 s2(1)
    by (auto simp: read_limited_def sent_letter_def stale_def deposit_def num_ge_def box')
qed

section \<open>Joining the mesh, from both sides\<close>

text \<open>C9 The registration a shard sends with its own identity, once it has solved the Router's challenge,
  is accepted by a Router that still holds the challenge and has room, when their clocks differ by at most
  a minute: the shard is in the registry under its URL and key and the challenge is spent.\<close>

theorem self_registration_joins:
  assumes shard: "isolated sv" "identity_stored (sv_view sv s MAILBOX_KV) pub priv" "ed_import cr priv"
      "hd (fst (sv_fetch sv (snd (sv_get sv s MAILBOX_KV SHARD_IDENTITY_KV_KEY)) [challenge_request router url])) = Fetched st text"
      "resp_ok st" "json_parse text = Some (challenge_answer nonce (Some d) e)"
    and pow: "solvePow cr nonce url (Some d) = Inr solution"
    and sz: "standard_sizes cr" and kp: "key_pair cr pub priv" "length pub = 32"
    and url: "http_url_re url" "url \<noteq> []" and nonce: "nonce \<noteq> []" and now: "0 \<le> sv_clock sv s"
    and rt: "isolated rt" "has_ROUTER_ADMIN_KV env" "registry_ok (registered_of (sv_view rt t ROUTER_ADMIN_KV))"
      "challenge_pending (sv_view rt t ROUTER_ADMIN_KV) nonce (Some d) e" "sv_clock rt t \<le> e"
      "\<not> register_limited (sv_view rt t ROUTER_ADMIN_KV) (sv_clock rt t) req"
      "\<not> mesh_full env (registered_of (sv_view rt t ROUTER_ADMIN_KV)) url"
    and skew: "\<bar>sv_clock rt t - sv_clock sv s\<bar> \<le> 60000"
    and body: "body_of req = Some (own_register_body cr pub priv url (Some (JStr nonce)) solution (str_of_int (sv_clock sv s)))"
  shows "EvFetch [post_json (router @ ''/register_shard'') (own_register_body cr pub priv url (Some (JStr nonce)) solution
        (str_of_int (sv_clock sv s)))] \<in> set (trace sv (attempt_registration cr router url) s) \<and>
    (let after = after_registration url (bytesToHex pub) (sv_clock rt t) (registered_of (sv_view rt t ROUTER_ADMIN_KV));
         final = sv_view rt (snd (run rt (handleRegisterShard cr env req) t)) ROUTER_ADMIN_KV in
     fst (run rt (handleRegisterShard cr env req) t) =
       Done (register_answer url after (next_version env (sv_view rt t ROUTER_ADMIN_KV))) \<and>
     final ''registered_shards'' = Some (json_stringify (JArr after)) \<and> final (nonce_key nonce) = None)"
proof
  have "json_parse text = Some (JObj [(''nonce'', JStr nonce), (''difficulty'', json_of_number (Some d)), (''expires_at'', JNum e)])"
    using shard(6) by (simp add: challenge_answer_def)
  then show "EvFetch [post_json (router @ ''/register_shard'') (own_register_body cr pub priv url (Some (JStr nonce)) solution
        (str_of_int (sv_clock sv s)))] \<in> set (trace sv (attempt_registration cr router url) s)"
    by (rule registration_sends [OF shard(1-5)]) (simp_all add: pow json_of_number_def)
  show "let after = after_registration url (bytesToHex pub) (sv_clock rt t) (registered_of (sv_view rt t ROUTER_ADMIN_KV));
         final = sv_view rt (snd (run rt (handleRegisterShard cr env req) t)) ROUTER_ADMIN_KV in
     fst (run rt (handleRegisterShard cr env req) t) =
       Done (register_answer url after (next_version env (sv_view rt t ROUTER_ADMIN_KV))) \<and>
     final ''registered_shards'' = Some (json_stringify (JArr after)) \<and> final (nonce_key nonce) = None"
    using self_registration_accepted [OF rt(1,2) sz kp url nonce pow now skew body rt(4,5,6,3,7)] by (simp add: Let_def)
qed

definition challenge_net :: "out_request list \<Rightarrow> fetch_result list" where
  "challenge_net rs = [Fetched 200 (json_stringify (challenge_answer ''n1'' (Some 0) 100))]"

theorem self_registration_joins_witness:
  "EvFetch [post_json ''https://router/register_shard'' demo_join]
      \<in> set (trace (ideal challenge_net) (attempt_registration demo ''https://router'' ''https://b'') (world_at (with_identity key_b) Map.empty 5)) \<and>
    fst (run silent (handleRegisterShard demo demo_env (post ''/register_shard'' demo_join)) (world_at Map.empty (mesh_kv [old_shard] (Some 0)) 5)) =
      Done (register_answer ''https://b'' [old_shard, new_shard ''https://b'' (bytesToHex key_b) 5] (Some 2))"
proof -
  have url: "http_url_re ''https://b''" by code_simp
  let ?s = "world_at (with_identity key_b) Map.empty 5" and ?t = "world_at Map.empty (mesh_kv [old_shard] (Some 0)) 5"
  have answer: "json_parse (json_stringify (challenge_answer ''n1'' (Some 0) 100)) = Some (challenge_answer ''n1'' (Some 0) 100)"
    by (rule json_parse_stringify) (simp add: challenge_answer_def obj_canonical_def key_precedes_def is_digit_def)
  have fetch: "hd (fst (sv_fetch (ideal challenge_net) w [r])) =
      Fetched 200 (json_stringify (challenge_answer ''n1'' (Some 0) 100))" for w r
    by (subst ideal_simps(4) [OF challenge_net_def]) simp_all
  show ?thesis
    using self_registration_joins [where cr = demo and sv = "ideal challenge_net" and s = ?s and pub = key_b and priv = key_b
        and url = "''https://b''" and router = "''https://router''" and nonce = "''n1''" and d = 0 and e = 100 and solution = "''0''"
        and rt = silent and t = ?t and env = demo_env and req = "post ''/register_shard'' demo_join",
        OF ideal_isolated _ _ fetch _ answer solvePow_0] url demo_join_body [unfolded demo_join_def]
    by (simp add: ideal_simps resp_ok_def demo_join_def [symmetric] mesh_full_def var_number_def after_registration_def
        registry_put_def next_version_def var_version_def Let_def)
qed

text \<open>C12 The rotation a shard sends when its operator asks for it is accepted by the Router that knows the
  shard under its old key: afterwards the registry holds the key the shard has stored, and the shard's
  registration mark is cleared.\<close>

theorem rotation_reaches_router:
  assumes shard: "isolated sv" "identity_stored (sv_view sv s MAILBOX_KV) pub priv" "ed_import cr priv"
      "bearer_ok constantTimeEqual env' areq" "SELF_URL env' = Some url" "url \<noteq> []"
      "strip_slash (var_text (ROUTER_URL env')) = router" "router \<noteq> []"
      "fst (sv_generate_key sv (snd (sv_get sv s MAILBOX_KV SHARD_IDENTITY_KV_KEY))) = (pub', priv')"
    and sz: "standard_sizes cr" and old: "key_pair cr pub priv" "length pub = 32"
    and new: "key_pair cr pub' priv'" "length pub' = 32" "pub \<noteq> pub'"
    and url: "http_url_re url" and now: "0 \<le> sv_clock sv s"
    and rt: "isolated rt" "has_ROUTER_ADMIN_KV env" "registry_ok (registered_of (sv_view rt t ROUTER_ADMIN_KV))"
      "List.find (\<lambda>x. record_url x = url) (registered_of (sv_view rt t ROUTER_ADMIN_KV)) = Some r"
      "record_pubkey r = bytesToHex pub"
    and skew: "\<bar>sv_clock rt t - sv_clock sv s\<bar> \<le> 60000"
    and body: "body_of req = Some (rotation_bodies cr pub priv pub' priv' url (str_of_int (sv_clock sv s)))"
  shows "EvFetch [post_json (router @ ''/rotate_shard_key'') (rotation_bodies cr pub priv pub' priv' url (str_of_int (sv_clock sv s)))]
      \<in> set (trace sv (handleAdminRotateKey cr env' areq) s) \<and>
    sv_view sv (snd (run sv (handleAdminRotateKey cr env' areq) s)) MAILBOX_KV =
      (sv_view sv s MAILBOX_KV)(SHARD_IDENTITY_KV_KEY \<mapsto> json_stringify (identity_json pub' priv'), SELF_REGISTER_KV_KEY := None) \<and>
    fst (run rt (handleRotateShardKey cr env req) t) =
      Done (rotate_answer url (bytesToHex pub') (next_version env (sv_view rt t ROUTER_ADMIN_KV))) \<and>
    (\<exists>x \<in> set (registered_of (sv_view rt (snd (run rt (handleRotateShardKey cr env req) t)) ROUTER_ADMIN_KV)).
       record_url x = url \<and> record_pubkey x = bytesToHex pub')"
proof (intro conjI)
  let ?reg = "registered_of (sv_view rt t ROUTER_ADMIN_KV)"
  let ?after = "after_rotation url (bytesToHex pub) (bytesToHex pub') (sv_clock rt t) ?reg"
  note applied = own_rotation_applied [OF rt(1,2) sz old new url shard(6) now skew body rt(3,4,5)]
  show "EvFetch [post_json (router @ ''/rotate_shard_key'') (rotation_bodies cr pub priv pub' priv' url (str_of_int (sv_clock sv s)))]
      \<in> set (trace sv (handleAdminRotateKey cr env' areq) s)"
    by (rule rotation_sends [OF shard])
  show "sv_view sv (snd (run sv (handleAdminRotateKey cr env' areq) s)) MAILBOX_KV =
      (sv_view sv s MAILBOX_KV)(SHARD_IDENTITY_KV_KEY \<mapsto> json_stringify (identity_json pub' priv'), SELF_REGISTER_KV_KEY := None)"
    by (rule rotation_state(1) [OF shard(1-6,9)])
  show "fst (run rt (handleRotateShardKey cr env req) t) =
      Done (rotate_answer url (bytesToHex pub') (next_version env (sv_view rt t ROUTER_ADMIN_KV)))"
    by (rule applied(1))
  have reg: "registered_of (sv_view rt (snd (run rt (handleRotateShardKey cr env req) t)) ROUTER_ADMIN_KV) = ?after"
    by (simp add: applied(2) registered_of_committed after_rotation_ok [OF rt(3)])
  have "r \<in> set ?reg" "record_url r = url" using rt(4) by (auto dest: find_Some_mem)
  then show "\<exists>x \<in> set (registered_of (sv_view rt (snd (run rt (handleRotateShardKey cr env req) t)) ROUTER_ADMIN_KV)).
       record_url x = url \<and> record_pubkey x = bytesToHex pub'"
    unfolding reg after_rotation_def
    by (intro bexI [of _ "rotated_shard url (bytesToHex pub) (bytesToHex pub') r (sv_clock rt t)"])
      (auto intro: image_eqI [of _ _ r])
qed

theorem rotation_reaches_router_witness:
  "\<exists>x. x \<in> set (registered_of (sv_view silent (snd (run silent (handleRotateShardKey demo demo_env (post ''/rotate_shard_key''
        (rotation_bodies demo key_a key_a key_b key_b ''https://a'' (str_of_int 5)))) (world_at Map.empty (mesh_kv [old_shard] (Some 0)) 5))) ROUTER_ADMIN_KV)) \<and>
     record_url x = ''https://a'' \<and> record_pubkey x = bytesToHex key_b \<and>
   EvFetch [post_json ''https://router/rotate_shard_key'' (rotation_bodies demo key_a key_a key_b key_b ''https://a'' (str_of_int 5))]
      \<in> set (trace (minting key_b) (handleAdminRotateKey demo (demo_env\<lparr>SELF_URL := Some ''https://a''\<rparr>) (get ''/admin/rotate_key'' []))
        (world_at (with_identity key_a) Map.empty 5))"
proof -
  have url: "http_url_re ''https://a''" by code_simp
  have router: "strip_slash (var_text (ROUTER_URL (demo_env\<lparr>SELF_URL := Some ''https://a''\<rparr>))) = ''https://router''"
    by (simp add: demo_env_def var_text_def strip_slash_def)
  show ?thesis
    using rotation_reaches_router [where cr = demo and sv = "minting key_b" and s = "world_at (with_identity key_a) Map.empty 5"
        and env' = "demo_env\<lparr>SELF_URL := Some ''https://a''\<rparr>" and areq = "get ''/admin/rotate_key'' []" and pub = key_a and priv = key_a
        and pub' = key_b and priv' = key_b and rt = silent and t = "world_at Map.empty (mesh_kv [old_shard] (Some 0)) 5" and r = old_shard
        and env = demo_env and url = "''https://a''" and router = "''https://router''", OF minting_isolated _ _ _ _ _ router]
      url demo_rotation_body
    by (auto simp: bearer_ok_def)
qed

section \<open>The table, from the Router to a sibling shard\<close>

text \<open>C10 The table the Router signs and pushes is cached by a shard that trusts the Router, served by it
  unchanged, and lists every registered shard, so that the shard recognises each of them as the origin
  of a replica.\<close>

theorem pushed_table_is_served:
  assumes rt: "isolated rt" "has_ROUTER_ADMIN_KV env" "router_key cr env pub priv"
      "registry_ok (registered_of (sv_view rt t ROUTER_ADMIN_KV))" "base_urls env (sv_view rt t ROUTER_ADMIN_KV) base"
      "list_all wf_json base" "list_all wf_json (prior_of env (sv_view rt t ROUTER_ADMIN_KV))"
      "mesh_urls base (registered_of (sv_view rt t ROUTER_ADMIN_KV)) \<noteq> []"
    and sz: "standard_sizes cr" and shard: "isolated sv" "ROUTER_SIGNING_PUBLIC env' = Some (bytesToHex pub)"
    and fresh: "sv_clock sv s \<le> sv_clock rt t + ROUTING_TABLE_TTL_SECONDS * 1000"
  shows "\<exists>table. fst (run rt (buildSignedRoutingTable cr env Return) t) = Done table \<and>
    (\<forall>req. req_body req = json_stringify table \<longrightarrow>
      (let s' = snd (run sv (handleRoutingTablePush cr env' req) s) in
       fst (run sv handleRoutingTableServe s') =
         Done (json table 200 [(''Cache-Control'', ''public, max-age=300, s-maxage=300'')]) \<and>
       (\<forall>r. r \<in> set (registered_of (sv_view rt t ROUTER_ADMIN_KV)) \<and> record_pubkey r \<noteq> [] \<longrightarrow>
          known_shard (cached_table (sv_view sv s' MAILBOX_KV)) (lower (record_pubkey r)) = Inr True)))"
proof -
  let ?kv = "sv_view rt t ROUTER_ADMIN_KV" and ?now = "sv_clock rt t"
  let ?reg = "registered_of ?kv"
  let ?urls = "mesh_urls base ?reg" and ?prior = "prior_of env ?kv" and ?v = "version_of env ?kv"
  have all: "list_all record_ok ?reg" using rt(4) by (simp add: registry_ok_def)
  obtain m where m: "pubkey_map ?reg (\<lambda>_. None) = Inr m" "\<forall>u. m u = None \<or> (\<exists>p. m u = Some (JStr p))"
    using pubkey_map_registry [OF all, of "\<lambda>_. None"] by blast
  define table where "table = mesh_table cr env priv ?kv base m ?now"
  have t: "table = signed_table cr priv (table_fields env ?urls ?prior ?v m ?now)" by (simp add: table_def mesh_table_def)
  have built: "fst (run rt (buildSignedRoutingTable cr env Return) t) = Done table"
    using run_buildSignedRoutingTable [OF rt(1,2,3,4,5) m(1), of Return] by (auto simp: table_def)
  have "list_all (\<lambda>u. u = None \<or> (\<exists>j. u = Some j \<and> wf_json j)) ?urls" by (rule wf_mesh_urls [OF rt(6) all])
  then have wf: "wf_json table"
    unfolding t by (rule wf_signed_table [OF _ rt(7)]) (use m(2) rt(3) in \<open>auto simp: router_key_def\<close>)
  have "fst (run sv handleRoutingTableServe s') =
         Done (json table 200 [(''Cache-Control'', ''public, max-age=300, s-maxage=300'')]) \<and>
       (\<forall>r. r \<in> set ?reg \<and> record_pubkey r \<noteq> [] \<longrightarrow>
          known_shard (cached_table (sv_view sv s' MAILBOX_KV)) (lower (record_pubkey r)) = Inr True)"
    if posted: "req_body req = json_stringify table" and s': "s' = snd (run sv (handleRoutingTablePush cr env' req) s)" for req s'
  proof -
    obtain kvs where "table = JObj kvs" by (simp add: t signed_table_def mk_obj_def)
    with posted wf have body: "body_of req = Some table" by (metis body_of_text)
    have cached: "cached_table (sv_view sv s' MAILBOX_KV) = table"
      using router_table_cached(2) [OF shard(1) rt(3) sz shard(2) body [unfolded t] rt(8) fresh] wf
      by (simp add: s' t)
    have "truthy (Some table)" by (simp add: t signed_table_def table_fields_def mk_obj_def)
    then have "fst (run sv handleRoutingTableServe s') =
         Done (json table 200 [(''Cache-Control'', ''public, max-age=300, s-maxage=300'')])"
      using shard(1) by (simp add: handleRoutingTableServe_def run_getCachedRoutingTable cached)
    moreover have "known_shard (cached_table (sv_view sv s' MAILBOX_KV)) (lower (record_pubkey r)) = Inr True"
      if "r \<in> set ?reg" "record_pubkey r \<noteq> []" for r
      unfolding cached t by (rule table_recognises [OF m(1) rt(4) that])
    ultimately show ?thesis by blast
  qed
  with built show ?thesis unfolding Let_def by blast
qed

theorem pushed_table_is_served_witness:
  "\<exists>table s'. fst (run silent (buildSignedRoutingTable demo demo_env Return) (world_at Map.empty (mesh_kv [old_shard] (Some 0)) 5)) = Done table \<and>
    fst (run silent handleRoutingTableServe s') = Done (json table 200 [(''Cache-Control'', ''public, max-age=300, s-maxage=300'')]) \<and>
    known_shard (cached_table (sv_view silent s' MAILBOX_KV)) (bytesToHex key_a) = Inr True"
proof -
  have none: "json_parse ''[]'' = Some (JArr [])" by code_simp
  let ?kv = "mesh_kv [old_shard] (Some 0)"
  have state: "base_urls demo_env ?kv []" "prior_of demo_env ?kv = []"
    by (simp_all add: base_urls_def prior_of_def mesh_kv_def nonce_key_def env_shard_urls_def var_prior_counts_def none)
  have urls: "mesh_urls [] [old_shard] \<noteq> []" by (simp add: mesh_urls_def merge_urls_def)
  let ?w = "world_at Map.empty ?kv 5"
  obtain table where table: "fst (run silent (buildSignedRoutingTable demo demo_env Return) ?w) = Done table"
      "\<And>req. req_body req = json_stringify table \<Longrightarrow>
         fst (run silent handleRoutingTableServe (snd (run silent (handleRoutingTablePush demo demo_env req) (world_at Map.empty Map.empty 5)))) =
           Done (json table 200 [(''Cache-Control'', ''public, max-age=300, s-maxage=300'')]) \<and>
         known_shard (cached_table (sv_view silent (snd (run silent (handleRoutingTablePush demo demo_env req) (world_at Map.empty Map.empty 5))) MAILBOX_KV))
           (bytesToHex key_a) = Inr True"
    using pushed_table_is_served [where rt = silent and t = ?w and cr = demo and env = demo_env and env' = demo_env and pub = key_a and priv = key_a
        and base = "[]" and sv = silent and s = "world_at Map.empty Map.empty 5", OF silent_isolated] state urls
    by (auto simp: ROUTING_TABLE_TTL_SECONDS_def Let_def)
  from table(1) table(2) [of "post ''/internal/routing_table'' table"] show ?thesis by (auto simp: post_def)
qed

text \<open>C11 A replica that a shard sends to a sibling is stored by it, once, when the sibling's table lists the
  sender and their clocks differ by at most a minute: the sibling's copy of the mailbox then holds the entry.\<close>

theorem replica_reaches_sibling:
  assumes shard: "isolated sv" "identity_stored (sv_view sv s MAILBOX_KV) pub priv" "ed_import cr priv" "siblings env urls \<noteq> []"
    and sz: "standard_sizes cr" and kp: "key_pair cr pub priv" "length pub = 32"
    and mid: "hex_re 16 128 mid" and entry: "entry = JObj e" "map_of e ''id'' = Some (JStr i)" "map_of e ''message'' = Some (JStr msg)"
      "wf_json entry"
    and now: "0 \<le> sv_clock sv s" "\<bar>sv_clock sb t - sv_clock sv s\<bar> \<le> 60000"
    and sib: "isolated sb" "ttl_ok (Some (MAILBOX_TTL_SECONDS cfg))"
      "known_shard (cached_table (sv_view sb t MAILBOX_KV)) (bytesToHex pub) = Inr True"
      "under_limit (sv_view sb t MAILBOX_KV) (sv_clock sb t) (''replicate-origin:'' @ bytesToHex pub) (MAX_REPLICATES_PER_ORIGIN cfg) 60"
      "mailbox_at (sv_view sb t MAILBOX_KV) mid mb" "no_nulls mb"
    and body: "body_of req = Some (sent_body cr pub priv mid entry urls (str_of_int (sv_clock sv s)))"
  shows "EvFetch (replicate_requests (siblings env urls) (sent_body cr pub priv mid entry urls (str_of_int (sv_clock sv s))))
      \<in> set (trace sv (replicateToSiblings cr env mid entry urls) s) \<and>
    fst (run sb (handleReplicate cr cfg req) t) = Done (replicate_answer (\<exists>m\<in>set (mb_messages mb). has_id i m)) \<and>
    mailbox_at (sv_view sb (snd (run sb (handleReplicate cr cfg req) t)) MAILBOX_KV) mid
      (insert_replica i entry (sv_clock sb t) mb)"
  using replication_sends [OF shard]
    sibling_accepts [OF sib(1) sz kp mid entry(1-3) now body sib(4,3,2) entry(4) sib(5,6)] by blast

definition demo_entry :: json where
  "demo_entry = JObj [(''id'', JStr ''e1''), (''message'', JStr ''hi'')]"

definition sibling_kv :: "string \<Rightarrow> string option" where
  "sibling_kv = (holding mbox ''h'' [JStr ''m''] (Some 2))(ROUTING_TABLE_KV_KEY \<mapsto> json_stringify (JObj
     [(''shards'', JArr [JObj [(''url'', JStr ''https://a''), (''pubkey'', JStr (bytesToHex key_a))]])]))"

theorem replica_reaches_sibling_witness:
  "mailbox_at (sv_view silent (snd (run silent (handleReplicate demo DEFAULTS (post ''/internal/replicate''
        (sent_body demo key_a key_a mbox demo_entry [JStr ''https://b''] (str_of_int 5)))) (world_at sibling_kv Map.empty 6))) MAILBOX_KV) mbox
      (insert_replica ''e1'' demo_entry 6 (mailbox_rec ''h'' [JStr ''m''] (Some 2)))"
proof -
  have body: "body_of (post ''/internal/replicate'' (sent_body demo key_a key_a mbox demo_entry [JStr ''https://b''] (str_of_int 5))) =
      Some (sent_body demo key_a key_a mbox demo_entry [JStr ''https://b''] (str_of_int 5))"
    unfolding sent_body_def Let_def by (rule post_body)
      (simp add: replicate_payload_def demo_entry_def obj_canonical_def key_precedes_def is_digit_def)
  let ?t = "JObj [(''shards'', JArr [JObj [(''url'', JStr ''https://a''), (''pubkey'', JStr (bytesToHex key_a))]])]"
  have "wf_json ?t" by (simp add: obj_canonical_def key_precedes_def is_digit_def)
  then have table: "cached_table sibling_kv = ?t" unfolding sibling_kv_def by (rule cached_table_put)
  have known: "known_shard (cached_table sibling_kv) (bytesToHex key_a) = Inr True"
    by (simp add: table known_shard_def js_lower_def)
  have at: "mailbox_at sibling_kv mbox (mailbox_rec ''h'' [JStr ''m''] (Some 2))"
    using mailbox_at_holding [of "[JStr ''m'']" mbox "''h''" "Some 2"] by (simp add: mailbox_at_def sibling_kv_def ROUTING_TABLE_KV_KEY_def mailbox_key_def)
  have win: "sibling_kv (window_key b w now) = None" for b w now
    by (simp add: sibling_kv_def) (simp add: window_key_def ROUTING_TABLE_KV_KEY_def)
  show ?thesis
    using replica_reaches_sibling [where sv = silent and s = "world_at (with_identity key_a) Map.empty 5" and pub = key_a and priv = key_a
        and cr = demo and env = demo_env and urls = "[JStr ''https://b'']" and mid = mbox and entry = demo_entry and i = "''e1''" and msg = "''hi''"
        and sb = silent and t = "world_at sibling_kv Map.empty 6" and cfg = DEFAULTS, OF silent_isolated] body known at win
    by (simp add: demo_entry_def siblings_def str_val_def no_nulls_def obj_canonical_def key_precedes_def is_digit_def)
qed

section \<open>Every request is answered\<close>

text \<open>C33 Whatever the request and whatever the platform does, KV operations and calls that fail included,
  \<open>fetch\<close> of each of the three workers ends with a response and raises nothing.\<close>

theorem workers_always_answer:
  "(\<exists>r s'. run sv (shard_fetch cr env req) s = (Done r, s')) \<and>
   (\<exists>r s'. run sv (router_fetch cr env cache req) s = (Done r, s')) \<and>
   (\<exists>r s'. run sv (c_fetch cr env cache req) s = (Done r, s'))"
  by (intro conjI shard_fetch_answers router_fetch_answers c_fetch_answers)

end
